(* ===== verification/Prelude.thy ===== *)
theory Prelude
  imports Main "HOL-Library.Multiset" "HOL-Library.Char_ord" "HOL-Library.List_Lexorder"
    "HOL-Library.Product_Lexorder"
begin

text \<open>
  Shared vocabulary of the development: the type names of the model, the result type of
  fallible operations, rendering of numbers and joining of strings (template literals and
  \<open>Array.join\<close>), the insertion order semantics of JavaScript objects and maps as association
  lists, stable sorting and minimum selection (\<open>ORDER BY \<dots> LIMIT 1\<close>), and the locale of
  invariants over a step relation that the stateful components interpret.
\<close>

section \<open>Names\<close>

text \<open>Instants and durations are milliseconds, as \<open>Date.getTime()\<close> reports them.\<close>

type_synonym time = int
type_synonym task_id = string
type_synonym worker = string

named_theorems model_defs \<open>definitions of the operations of the model\<close>
named_theorems result_simps \<open>rewriting of fallible results\<close>

section \<open>Fallible operations\<close>

text \<open>A thrown error is \<open>Inl\<close>; the value of a fulfilled promise is \<open>Inr\<close>.\<close>

type_synonym ('e, 'a) result = "'e + 'a"

definition and_then :: "('e, 'a) result \<Rightarrow> ('a \<Rightarrow> ('e, 'b) result) \<Rightarrow> ('e, 'b) result" where
  "and_then r f = (case r of Inl e \<Rightarrow> Inl e | Inr x \<Rightarrow> f x)"

lemma and_then_simps [simp, result_simps]:
  "and_then (Inl e) f = Inl e"
  "and_then (Inr x) f = f x"
  by (simp_all add: and_then_def)

lemma and_then_Inr_iff [result_simps]:
  "and_then r f = Inr y \<longleftrightarrow> (\<exists>x. r = Inr x \<and> f x = Inr y)"
  by (cases r) auto

lemma and_then_Inl_iff [result_simps]:
  "and_then r f = Inl e \<longleftrightarrow> r = Inl e \<or> (\<exists>x. r = Inr x \<and> f x = Inl e)"
  by (cases r) auto

text \<open>\<open>throw\<close> unless a condition holds.\<close>

definition guard :: "bool \<Rightarrow> 'e \<Rightarrow> ('e, unit) result" where
  "guard b e = (if b then Inr () else Inl e)"

lemma guard_Inr_iff [simp, result_simps]: "guard b e = Inr u \<longleftrightarrow> b"
  by (simp add: guard_def)

lemma guard_Inl_iff [simp, result_simps]: "guard b e = Inl e' \<longleftrightarrow> \<not> b \<and> e' = e"
  by (auto simp: guard_def)

text \<open>A loop over a list that threads a state and stops at the first error.\<close>

fun fold_result :: "('a \<Rightarrow> 's \<Rightarrow> ('e, 's) result) \<Rightarrow> 'a list \<Rightarrow> 's \<Rightarrow> ('e, 's) result" where
  "fold_result f [] s = Inr s"
| "fold_result f (x # xs) s = and_then (f x s) (fold_result f xs)"

lemma fold_result_append:
  "fold_result f (xs @ ys) s = and_then (fold_result f xs s) (fold_result f ys)"
  by (induction xs arbitrary: s) (auto simp: and_then_def split: sum.splits)

lemma fold_result_invariant:
  assumes "fold_result f xs s = Inr t" and "I s"
    and "\<And>x s s'. x \<in> set xs \<Longrightarrow> I s \<Longrightarrow> f x s = Inr s' \<Longrightarrow> I s'"
  shows "I t"
  using assms
proof (induction xs arbitrary: s)
  case (Cons x xs)
  from Cons.prems(1) obtain s' where s': "f x s = Inr s'" "fold_result f xs s' = Inr t"
    by (auto simp: result_simps)
  show ?case
    using Cons.IH [OF s'(2)] Cons.prems(2,3) s'(1) by (meson list.set_intros)
qed simp

section \<open>Optional fields\<close>

text \<open>\<open>value ?? fallback\<close>.\<close>

definition or_else :: "'a option \<Rightarrow> 'a \<Rightarrow> 'a" where
  "or_else v d = (case v of None \<Rightarrow> d | Some x \<Rightarrow> x)"

lemma or_else_simps [simp]: "or_else None d = d" "or_else (Some x) d = x"
  by (simp_all add: or_else_def)

text \<open>\<open>a ?? b\<close> where the fallback is itself optional.\<close>

definition or_opt :: "'a option \<Rightarrow> 'a option \<Rightarrow> 'a option" where
  "or_opt v w = (case v of None \<Rightarrow> w | Some x \<Rightarrow> Some x)"

lemma or_opt_simps [simp]: "or_opt None w = w" "or_opt (Some x) w = Some x"
  by (simp_all add: or_opt_def)

section \<open>Strings\<close>

text \<open>Decimal rendering of a number inside a template literal.\<close>

definition digit_char :: "nat \<Rightarrow> char" where
  "digit_char n = char_of (48 + n)"

fun show_nat :: "nat \<Rightarrow> string" where
  "show_nat n = (if n < 10 then [digit_char n] else show_nat (n div 10) @ [digit_char (n mod 10)])"

declare show_nat.simps [simp del]

definition show_int :: "int \<Rightarrow> string" where
  "show_int i = (if i < 0 then CHR ''-'' # show_nat (nat (- i)) else show_nat (nat i))"

text \<open>\<open>xs.join(separator)\<close>.\<close>

fun join :: "string \<Rightarrow> string list \<Rightarrow> string" where
  "join sep [] = ''''"
| "join sep [x] = x"
| "join sep (x # y # zs) = x @ sep @ join sep (y # zs)"

text \<open>\<open>text.split(separator)\<close> for a separator of one character.\<close>

fun split_on :: "char \<Rightarrow> string \<Rightarrow> string list" where
  "split_on c [] = [[]]"
| "split_on c (x # xs) =
     (if x = c then [] # split_on c xs
      else (case split_on c xs of [] \<Rightarrow> [[x]] | w # ws \<Rightarrow> (x # w) # ws))"

lemma split_on_not_Nil [simp]: "split_on c s \<noteq> []"
  by (induction s) (auto split: list.splits)

lemma split_on_no_sep: "c \<notin> set s \<Longrightarrow> split_on c s = [s]"
  by (induction s) auto

lemma split_on_append_sep:
  "c \<notin> set s \<Longrightarrow> split_on c (s @ c # t) = s # split_on c t"
  by (induction s) auto

text \<open>Splitting at a separator undoes joining with it: joined names compare as lists.\<close>

lemma split_on_join:
  assumes "xs \<noteq> []" and "\<forall>x \<in> set xs. c \<notin> set x"
  shows "split_on c (join [c] xs) = xs"
  using assms
proof (induction "[c]" xs rule: join.induct)
  case (3 x y zs)
  then show ?case by (simp add: split_on_append_sep)
qed (auto simp: split_on_no_sep)

lemma join_inject:
  assumes "xs \<noteq> []" "ys \<noteq> []"
    and "\<forall>x \<in> set xs. c \<notin> set x" "\<forall>y \<in> set ys. c \<notin> set y"
  shows "join [c] xs = join [c] ys \<longleftrightarrow> xs = ys"
  by (metis assms split_on_join)

text \<open>A separator outside the parts tells where they end.\<close>

lemma first_separator:
  assumes "c \<notin> set ys" and "c \<notin> set vs" and "ys @ c # xs = vs @ c # us"
  shows "xs = us \<and> ys = vs"
  using assms
proof (induction ys arbitrary: vs)
  case Nil
  then show ?case by (cases vs) auto
next
  case (Cons y ys)
  then show ?case by (cases vs) auto
qed

lemma last_separator:
  assumes "xs @ c # ys = us @ c # vs" and "c \<notin> set ys" and "c \<notin> set vs"
  shows "xs = us \<and> ys = vs"
  using first_separator [of c "rev ys" "rev vs" "rev xs" "rev us"] arg_cong [OF assms(1), of rev] assms(2,3) by simp

text \<open>\<open>text.includes(part)\<close> and \<open>text.startsWith(part)\<close>.\<close>

definition starts_with :: "string \<Rightarrow> string \<Rightarrow> bool" where
  "starts_with s p = (take (length p) s = p)"

lemma starts_with_iff: "starts_with s p \<longleftrightarrow> (\<exists>rest. s = p @ rest)"
  unfolding starts_with_def by (metis append_eq_conv_conj append_take_drop_id)

fun includes_text :: "string \<Rightarrow> string \<Rightarrow> bool" where
  "includes_text [] p = (p = [])"
| "includes_text (c # s) p = (starts_with (c # s) p \<or> includes_text s p)"

text \<open>\<open>text.slice(0, limit)\<close> is \<open>take limit text\<close>; the ellipsis is one Unicode character.\<close>

definition ellipsis :: string where
  "ellipsis = [char_of (0xE2 :: nat), char_of (0x80 :: nat), char_of (0xA6 :: nat)]"

text \<open>
  \<open>text.trim()\<close> removes white space at both ends: the ASCII white space characters of the
  language (tab, line feed, vertical tab, form feed, carriage return, space).
\<close>

definition is_space :: "char \<Rightarrow> bool" where
  "is_space c = (of_char c \<in> {9 :: nat, 10, 11, 12, 13, 32})"

definition trim :: "string \<Rightarrow> string" where
  "trim s = rev (dropWhile is_space (rev (dropWhile is_space s)))"

section \<open>Character classes\<close>

definition is_lower :: "char \<Rightarrow> bool" where
  "is_lower c = (let n = of_char c in 97 \<le> n \<and> n \<le> (122 :: nat))"

definition is_upper :: "char \<Rightarrow> bool" where
  "is_upper c = (let n = of_char c in 65 \<le> n \<and> n \<le> (90 :: nat))"

definition is_digit :: "char \<Rightarrow> bool" where
  "is_digit c = (let n = of_char c in 48 \<le> n \<and> n \<le> (57 :: nat))"

definition digit_value :: "char \<Rightarrow> nat" where
  "digit_value c = of_char c - 48"

section \<open>Objects and maps in insertion order\<close>

text \<open>
  A JavaScript \<open>Map\<close> (and an object with string keys) keeps its keys in insertion order and a
  later \<open>set\<close> of a present key replaces the value in place.
\<close>

fun map_set :: "'k \<Rightarrow> 'v \<Rightarrow> ('k \<times> 'v) list \<Rightarrow> ('k \<times> 'v) list" where
  "map_set k v [] = [(k, v)]"
| "map_set k v ((k', v') # m) = (if k' = k then (k, v) # m else (k', v') # map_set k v m)"

definition map_remove :: "'k \<Rightarrow> ('k \<times> 'v) list \<Rightarrow> ('k \<times> 'v) list" where
  "map_remove k m = filter (\<lambda>e. fst e \<noteq> k) m"

lemma map_of_map_set [simp]: "map_of (map_set k v m) = (map_of m)(k \<mapsto> v)"
  by (induction m) auto

lemma map_of_map_remove [simp]: "map_of (map_remove k m) = (map_of m)(k := None)"
  by (induction m) (auto simp: map_remove_def)

lemma keys_map_set:
  "map fst (map_set k v m) = (if k \<in> fst ` set m then map fst m else map fst m @ [k])"
proof (induction m)
  case (Cons e m)
  then show ?case by (cases e) (auto simp: image_iff)
qed simp

lemma distinct_map_set: "distinct (map fst m) \<Longrightarrow> distinct (map fst (map_set k v m))"
  by (simp add: keys_map_set)

lemma distinct_map_remove: "distinct (map fst m) \<Longrightarrow> distinct (map fst (map_remove k m))"
  by (simp add: map_remove_def distinct_map_filter)

section \<open>First least element\<close>

text \<open>
  \<open>ORDER BY key LIMIT 1\<close>: the first row whose key is least. Rows with equal keys come in table
  order here; the database may return any of them.
\<close>

fun first_least :: "('a \<Rightarrow> 'k :: linorder) \<Rightarrow> 'a list \<Rightarrow> 'a option" where
  "first_least key [] = None"
| "first_least key (x # xs) =
     (case first_least key xs of
        None \<Rightarrow> Some x
      | Some y \<Rightarrow> Some (if key x \<le> key y then x else y))"

lemma first_least_None [simp]: "first_least key xs = None \<longleftrightarrow> xs = []"
  by (cases xs) (auto split: option.splits)

lemma first_least_mem: "first_least key xs = Some x \<Longrightarrow> x \<in> set xs"
  by (induction xs arbitrary: x) (auto split: option.splits if_splits)

lemma first_least_le: "first_least key xs = Some x \<Longrightarrow> y \<in> set xs \<Longrightarrow> key x \<le> key y"
proof (induction xs arbitrary: x)
  case (Cons a xs)
  show ?case
  proof (cases "first_least key xs")
    case None
    with Cons.prems show ?thesis by simp
  next
    case (Some z)
    with Cons show ?thesis by (fastforce split: if_splits)
  qed
qed simp

section \<open>Stable sorting\<close>

text \<open>
  \<open>Array.sort(compare)\<close> is stable; \<open>le x y\<close> stands for \<open>compare(x, y) <= 0\<close>. The default order
  of \<open>Array.sort()\<close> is by code units, the lexicographic order \<open>sort\<close> uses on strings.
\<close>

fun insert_by :: "('a \<Rightarrow> 'a \<Rightarrow> bool) \<Rightarrow> 'a \<Rightarrow> 'a list \<Rightarrow> 'a list" where
  "insert_by le x [] = [x]"
| "insert_by le x (y # ys) = (if le x y then x # y # ys else y # insert_by le x ys)"

definition sort_by :: "('a \<Rightarrow> 'a \<Rightarrow> bool) \<Rightarrow> 'a list \<Rightarrow> 'a list" where
  "sort_by le xs = foldr (insert_by le) xs []"

lemma sort_by_simps [simp]:
  "sort_by le [] = []"
  "sort_by le (x # xs) = insert_by le x (sort_by le xs)"
  by (simp_all add: sort_by_def)

lemma mset_insert_by [simp]: "mset (insert_by le x xs) = add_mset x (mset xs)"
  by (induction xs) auto

lemma mset_sort_by [simp]: "mset (sort_by le xs) = mset xs"
  by (induction xs) auto

lemma set_sort_by [simp]: "set (sort_by le xs) = set xs"
  by (metis mset_sort_by set_mset_mset)

lemma length_sort_by [simp]: "length (sort_by le xs) = length xs"
  by (metis mset_sort_by size_mset)

lemma sorted_insert_by:
  assumes "\<And>x y. le x y \<or> le y x" and "\<And>x y z. le x y \<Longrightarrow> le y z \<Longrightarrow> le x z"
    and "sorted_wrt le xs"
  shows "sorted_wrt le (insert_by le x xs)"
  using assms(3)
proof (induction xs)
  case (Cons y ys)
  have "set (insert_by le x ys) = insert x (set ys)"
    by (metis mset_insert_by set_mset_add_mset_insert set_mset_mset)
  moreover have "le y x" if "\<not> le x y" using assms(1) that by blast
  moreover have "\<forall>z \<in> set ys. le x z" if "le x y" using Cons.prems assms(2) that by auto
  ultimately show ?case using Cons by auto
qed simp

lemma sorted_sort_by:
  assumes "\<And>x y. le x y \<or> le y x" and "\<And>x y z. le x y \<Longrightarrow> le y z \<Longrightarrow> le x z"
  shows "sorted_wrt le (sort_by le xs)"
proof (induction xs)
  case (Cons x xs)
  then show ?case using sorted_insert_by [OF assms] by simp
qed simp

lemma sorted_wrt_unique:
  assumes "sorted_wrt le xs" "sorted_wrt le ys" "mset xs = mset ys"
    and antisym: "\<And>x y. x \<in> set xs \<Longrightarrow> y \<in> set xs \<Longrightarrow> le x y \<Longrightarrow> le y x \<Longrightarrow> x = y"
  shows "xs = ys"
  using assms
proof (induction xs arbitrary: ys)
  case (Cons x xs)
  then obtain y ys' where ys: "ys = y # ys'" by (cases ys) auto
  have mem: "set (x # xs) = set ys" using Cons.prems(3) by (metis set_mset_mset)
  have "x = y"
  proof (rule ccontr)
    assume "x \<noteq> y"
    with mem ys have "x \<in> set ys'" "y \<in> set xs" by auto
    with Cons.prems(1,2) ys have "le x y" "le y x" by auto
    with Cons.prems(4) \<open>y \<in> set xs\<close> \<open>x \<noteq> y\<close> show False by auto
  qed
  moreover have "xs = ys'"
    using Cons.IH [of ys'] Cons.prems ys \<open>x = y\<close> by auto
  ultimately show ?case using ys by simp
qed simp

text \<open>Two arrangements of the same elements sort to the same list when the order separates them.\<close>

lemma sort_by_cong_mset:
  assumes "mset xs = mset ys" and "\<And>x y. le x y \<or> le y x"
    and "\<And>x y z. le x y \<Longrightarrow> le y z \<Longrightarrow> le x z"
    and "\<And>x y. x \<in> set xs \<Longrightarrow> y \<in> set xs \<Longrightarrow> le x y \<Longrightarrow> le y x \<Longrightarrow> x = y"
  shows "sort_by le xs = sort_by le ys"
  using assms by (intro sorted_wrt_unique [where le = le]) (simp_all add: sorted_sort_by)

lemma insert_by_map:
  "(\<And>x y. le (f x) (f y) = le' x y) \<Longrightarrow> insert_by le (f x) (map f xs) = map f (insert_by le' x xs)"
  by (induction xs) auto

lemma sort_by_map:
  "(\<And>x y. le (f x) (f y) = le' x y) \<Longrightarrow> sort_by le (map f xs) = map f (sort_by le' xs)"
  by (induction xs) (auto simp: insert_by_map)

section \<open>Lists\<close>

lemma map_of_eq_iff_mset:
  assumes "distinct (map fst xs)" and "distinct (map fst ys)"
  shows "map_of xs = map_of ys \<longleftrightarrow> mset xs = mset ys"
proof -
  have "map_of xs = map_of ys \<longleftrightarrow> set xs = set ys"
  proof
    assume eq: "map_of xs = map_of ys"
    show "set xs = set ys"
      using eq assms by (metis map_of_eq_Some_iff subrelI subset_antisym)
  next
    assume "set xs = set ys"
    then show "map_of xs = map_of ys" using assms map_of_eqI
      by (metis map_of_eq_Some_iff map_of_inject_set)
  qed
  moreover have "distinct xs" "distinct ys"
    using assms by (simp_all add: distinct_map)
  ultimately show ?thesis by (simp add: set_eq_iff_mset_eq_distinct)
qed

lemma filter_length_le_map:
  assumes "\<And>x. x \<in> set xs \<Longrightarrow> Q (f x) \<Longrightarrow> P x"
  shows "length (filter Q (map f xs)) \<le> length (filter P xs)"
  using assms by (induction xs) auto

text \<open>Rows a statement updates, and the table afterwards (\<open>UPDATE \<dots> WHERE \<dots> RETURNING\<close>).\<close>

definition update_where :: "('a \<Rightarrow> bool) \<Rightarrow> ('a \<Rightarrow> 'a) \<Rightarrow> 'a list \<Rightarrow> 'a list" where
  "update_where p f rows = map (\<lambda>r. if p r then f r else r) rows"

definition returning :: "('a \<Rightarrow> bool) \<Rightarrow> ('a \<Rightarrow> 'a) \<Rightarrow> 'a list \<Rightarrow> 'a list" where
  "returning p f rows = map f (filter p rows)"

text \<open>The first element of a result, \<open>rows[0]\<close>.\<close>

fun first_of :: "'a list \<Rightarrow> 'a option" where
  "first_of [] = None"
| "first_of (x # xs) = Some x"

lemma first_of_SomeD: "first_of xs = Some x \<Longrightarrow> x \<in> set xs"
  by (cases xs) auto

lemma first_of_None_iff [simp]: "first_of xs = None \<longleftrightarrow> xs = []"
  by (cases xs) auto

lemma set_update_where:
  "r \<in> set (update_where p f rows) \<longleftrightarrow> (\<exists>q \<in> set rows. r = (if p q then f q else q))"
  by (auto simp: update_where_def)

lemma length_update_where [simp]: "length (update_where p f rows) = length rows"
  by (simp add: update_where_def)

lemma map_update_where:
  "(\<And>r. g (f r) = g r) \<Longrightarrow> map g (update_where p f rows) = map g rows"
  by (simp add: update_where_def)

lemma update_where_none: "(\<And>r. r \<in> set rows \<Longrightarrow> \<not> p r) \<Longrightarrow> update_where p f rows = rows"
  by (auto simp: update_where_def intro: map_idI)

section \<open>Invariants of step relations\<close>

text \<open>
  A component with state is a set of initial states and a step relation; the reachable states
  are the least set that holds the initial states and is closed under steps.
\<close>

inductive reaches :: "('s \<Rightarrow> bool) \<Rightarrow> ('s \<Rightarrow> 's \<Rightarrow> bool) \<Rightarrow> 's \<Rightarrow> bool"
  for init :: "'s \<Rightarrow> bool" and step :: "'s \<Rightarrow> 's \<Rightarrow> bool" where
  reaches_init: "init s \<Longrightarrow> reaches init step s"
| reaches_step: "reaches init step s \<Longrightarrow> step s t \<Longrightarrow> reaches init step t"

locale inductive_invariant =
  fixes init :: "'s \<Rightarrow> bool"
    and step :: "'s \<Rightarrow> 's \<Rightarrow> bool"
    and holds :: "'s \<Rightarrow> bool"
  assumes initially: "init s \<Longrightarrow> holds s"
    and preserved: "holds s \<Longrightarrow> step s t \<Longrightarrow> holds t"
begin

lemma always: "reaches init step s \<Longrightarrow> holds s"
  by (induction rule: reaches.induct) (auto intro: initially preserved)

lemma along: "step\<^sup>*\<^sup>* s t \<Longrightarrow> holds s \<Longrightarrow> holds t"
  by (induction rule: rtranclp_induct) (auto intro: preserved)

end

end
