(* ===== verification/Domain.thy ===== *)
theory Domain
  imports Prelude
begin

text \<open>
  The vocabulary of the program (\<open>src/types/\<close>) and its task state machine
  (\<open>src/orchestrator/state-machine.ts\<close>, \<open>stage-handler.ts\<close>).
  Enumerations are datatypes with the source's constructors, records of optional fields use
  \<open>option\<close>, and a thrown error is a value of \<open>orch_error\<close>.
\<close>

section \<open>Enumerations\<close>

datatype complexity = VeryLow | Low | Medium | High | VeryHigh | Critical

definition complexity_values :: "complexity list" where
  "complexity_values = [VeryLow, Low, Medium, High, VeryHigh, Critical]"

datatype task_state =
    QUEUED | ANALYZING | READY | IMPLEMENTING | TESTING | FIXING | REVIEWING
  | PR_CREATED | WAITING_CI | READY_FOR_HUMAN_REVIEW | PAUSED_SCHEDULE | PAUSED_LIMIT
  | BLOCKED | FAILED | COMPLETED | CANCELLED

definition task_states :: "task_state list" where
  "task_states =
     [QUEUED, ANALYZING, READY, IMPLEMENTING, TESTING, FIXING, REVIEWING, PR_CREATED, WAITING_CI,
      READY_FOR_HUMAN_REVIEW, PAUSED_SCHEDULE, PAUSED_LIMIT, BLOCKED, FAILED, COMPLETED, CANCELLED]"

fun show_state :: "task_state \<Rightarrow> string" where
  "show_state QUEUED = ''QUEUED''"
| "show_state ANALYZING = ''ANALYZING''"
| "show_state READY = ''READY''"
| "show_state IMPLEMENTING = ''IMPLEMENTING''"
| "show_state TESTING = ''TESTING''"
| "show_state FIXING = ''FIXING''"
| "show_state REVIEWING = ''REVIEWING''"
| "show_state PR_CREATED = ''PR_CREATED''"
| "show_state WAITING_CI = ''WAITING_CI''"
| "show_state READY_FOR_HUMAN_REVIEW = ''READY_FOR_HUMAN_REVIEW''"
| "show_state PAUSED_SCHEDULE = ''PAUSED_SCHEDULE''"
| "show_state PAUSED_LIMIT = ''PAUSED_LIMIT''"
| "show_state BLOCKED = ''BLOCKED''"
| "show_state FAILED = ''FAILED''"
| "show_state COMPLETED = ''COMPLETED''"
| "show_state CANCELLED = ''CANCELLED''"

datatype pause_reason =
  OPERATING_HOURS_ENDED | USAGE_LIMIT | CODEX_USAGE_LIMIT | RATE_LIMIT | REMOTE_UNAVAILABLE

fun show_pause_reason :: "pause_reason \<Rightarrow> string" where
  "show_pause_reason OPERATING_HOURS_ENDED = ''OPERATING_HOURS_ENDED''"
| "show_pause_reason USAGE_LIMIT = ''USAGE_LIMIT''"
| "show_pause_reason CODEX_USAGE_LIMIT = ''CODEX_USAGE_LIMIT''"
| "show_pause_reason RATE_LIMIT = ''RATE_LIMIT''"
| "show_pause_reason REMOTE_UNAVAILABLE = ''REMOTE_UNAVAILABLE''"

definition provider_limit_pauses :: "pause_reason list" where
  "provider_limit_pauses = [USAGE_LIMIT, CODEX_USAGE_LIMIT, RATE_LIMIT]"

definition is_provider_limit_pause :: "pause_reason option \<Rightarrow> bool" where
  "is_provider_limit_pause r =
     (case r of None \<Rightarrow> False | Some p \<Rightarrow> p \<in> set provider_limit_pauses)"

datatype operation_type =
    TASK_DISCOVERY | ANALYSIS | IMPLEMENTATION | FIX | REVIEW | QUALITY_GATE | DELIVERY | CI_CHECK

datatype schedule_override = OverrideNormal | OverrideEnabled | OverrideDisabled

datatype attempt_counter = ImplementationAttempts | QualityFixAttempts | ReviewAttempts

definition delivery_states :: "task_state list" where
  "delivery_states = [PR_CREATED, WAITING_CI, READY_FOR_HUMAN_REVIEW]"

datatype claim_lane = Execution | Delivery

definition claim_lane_of :: "task_state \<Rightarrow> claim_lane" where
  "claim_lane_of s = (if s \<in> set delivery_states then Delivery else Execution)"

definition terminal_states :: "task_state list" where
  "terminal_states = [COMPLETED, CANCELLED]"

lemmas state_sets = delivery_states_def terminal_states_def claim_lane_of_def

lemma task_states_complete: "s \<in> set task_states"
  by (cases s) (simp_all add: task_states_def)

lemma show_state_inject [simp]: "show_state s = show_state t \<longleftrightarrow> s = t"
  by (cases s; cases t) simp_all

section \<open>The transition map\<close>

fun transition_map :: "task_state \<Rightarrow> task_state list" where
  "transition_map QUEUED = [ANALYZING, BLOCKED]"
| "transition_map ANALYZING = [READY, BLOCKED, PAUSED_LIMIT, PAUSED_SCHEDULE]"
| "transition_map READY = [IMPLEMENTING, BLOCKED, PAUSED_SCHEDULE]"
| "transition_map IMPLEMENTING =
     [TESTING, READY, FIXING, PAUSED_LIMIT, PAUSED_SCHEDULE, BLOCKED, FAILED]"
| "transition_map TESTING = [REVIEWING, FIXING, PAUSED_SCHEDULE, BLOCKED, FAILED]"
| "transition_map FIXING = [TESTING, PAUSED_LIMIT, PAUSED_SCHEDULE, BLOCKED, FAILED]"
| "transition_map REVIEWING =
     [PR_CREATED, FIXING, PAUSED_LIMIT, PAUSED_SCHEDULE, BLOCKED, FAILED]"
| "transition_map PR_CREATED = [WAITING_CI, BLOCKED]"
| "transition_map WAITING_CI = [READY_FOR_HUMAN_REVIEW, BLOCKED]"
| "transition_map READY_FOR_HUMAN_REVIEW = [COMPLETED, WAITING_CI, BLOCKED]"
| "transition_map PAUSED_SCHEDULE =
     [ANALYZING, READY, IMPLEMENTING, TESTING, FIXING, REVIEWING, BLOCKED]"
| "transition_map PAUSED_LIMIT = [ANALYZING, IMPLEMENTING, FIXING, REVIEWING, BLOCKED]"
| "transition_map BLOCKED = [QUEUED]"
| "transition_map FAILED = [QUEUED, BLOCKED]"
| "transition_map COMPLETED = []"
| "transition_map CANCELLED = []"

definition can_cancel :: "task_state \<Rightarrow> bool" where
  "can_cancel s = (s \<notin> set terminal_states)"

definition can_transition :: "task_state \<Rightarrow> task_state \<Rightarrow> bool" where
  "can_transition from to = (to \<in> set (transition_map from) \<or> (to = CANCELLED \<and> can_cancel from))"

section \<open>Errors\<close>

text \<open>
  The error classes of the program with the data their messages are built from;
  \<open>PlainError\<close> is \<open>new Error(message)\<close>.
\<close>

datatype github_error_kind = Transient | RateLimited | Auth | NotFound | Rejected | InvalidResponse

datatype conflict_code = NOT_FOUND | CONFLICT

datatype orch_error =
    InvalidTransitionError task_state task_state
  | PlainError string
  | LeaseOwnershipError task_id
  | ContractChangedError string
  | WorkspaceIdentityConflictError string
  | OperatorActionError string conflict_code
  | WorkspaceBlockedError string
  | RemoteUnavailableError string
  | GitHubRequestError string github_error_kind "int option" "time option"
  | LinearSyncError string string
  | DeliveryRejectedError string
  | ValidationError string

fun error_message :: "orch_error \<Rightarrow> string" where
  "error_message (InvalidTransitionError f t) =
     ''Invalid task transition: '' @ show_state f @ '' -> '' @ show_state t"
| "error_message (PlainError m) = m"
| "error_message (LeaseOwnershipError i) = ''Task '' @ i @ '' is leased by another worker''"
| "error_message (ContractChangedError i) = ''Persisted contract changed for Linear issue: '' @ i"
| "error_message (WorkspaceIdentityConflictError r) =
     ''Workspace branch or path for '' @ r @ '' is already recorded by another work unit''"
| "error_message (OperatorActionError m c) = m"
| "error_message (WorkspaceBlockedError m) = m"
| "error_message (RemoteUnavailableError m) = m"
| "error_message (GitHubRequestError m k st r) = m"
| "error_message (LinearSyncError op cause) = ''Linear '' @ op @ '' failed: '' @ cause"
| "error_message (DeliveryRejectedError m) = m"
| "error_message (ValidationError m) = m"

section \<open>Transitions\<close>

record transition_details =
  det_reason :: "string option"
  det_resumeState :: "task_state option"
  det_pauseReason :: "pause_reason option"

record state_transition =
  tn_from :: task_state
  tn_to :: task_state
  tn_reason :: "string option"
  tn_resumeState :: "task_state option"
  tn_pauseReason :: "pause_reason option"

definition transition_task ::
  "task_state \<Rightarrow> task_state \<Rightarrow> transition_details \<Rightarrow> (orch_error, state_transition) result" where
  "transition_task current next details =
     (if \<not> can_transition current next then Inl (InvalidTransitionError current next)
      else if next = PAUSED_SCHEDULE \<and> det_resumeState details = None
        then Inl (PlainError ''PAUSED_SCHEDULE transitions require resumeState'')
      else if next = PAUSED_LIMIT \<and> det_resumeState details = None
        then Inl (PlainError ''PAUSED_LIMIT transitions require resumeState'')
      else case det_resumeState details of
             Some r \<Rightarrow>
               if (next = PAUSED_SCHEDULE \<or> next = PAUSED_LIMIT) \<and> \<not> can_transition next r
               then Inl (PlainError (show_state next @ '' cannot resume to '' @ show_state r))
               else Inr \<lparr>tn_from = current, tn_to = next, tn_reason = det_reason details,
                         tn_resumeState = Some r, tn_pauseReason = det_pauseReason details\<rparr>
           | None \<Rightarrow> Inr \<lparr>tn_from = current, tn_to = next, tn_reason = det_reason details,
                         tn_resumeState = None, tn_pauseReason = det_pauseReason details\<rparr>)"

definition resumable_state :: "state_transition \<Rightarrow> task_state option" where
  "resumable_state t =
     (if tn_to t \<noteq> PAUSED_SCHEDULE \<and> tn_to t \<noteq> PAUSED_LIMIT then None else tn_resumeState t)"

section \<open>Stage outcomes\<close>

text \<open>
  The result of one stage. \<open>lastError?: string | null\<close> has three cases: absent, \<open>null\<close>
  (clear) and a message, hence the nested option.
\<close>

record advance_outcome =
  adv_to :: task_state
  adv_reason :: "string option"
  adv_incrementCounter :: "attempt_counter option"
  adv_lastError :: "string option option"
  adv_requiresManualIntervention :: "bool option"

datatype stage_outcome =
    Advance advance_outcome
  | PauseLimit pause_reason "time option" "string option"
  | Wait time string "string option option"
  | Interrupted

datatype abort_reason = AbortShutdown | AbortSchedule | AbortOperator | AbortKillSwitch | AbortLeaseLost

definition advance :: "task_state \<Rightarrow> string \<Rightarrow> stage_outcome" where
  "advance to reason = Advance \<lparr>adv_to = to, adv_reason = Some reason, adv_incrementCounter = None,
     adv_lastError = None, adv_requiresManualIntervention = None\<rparr>"

section \<open>Laws of the state machine\<close>

lemma can_transition_iff:
  "can_transition s t \<longleftrightarrow>
     t \<in> set (transition_map s) \<or> (t = CANCELLED \<and> s \<noteq> COMPLETED \<and> s \<noteq> CANCELLED)"
  by (auto simp: can_transition_def can_cancel_def state_sets)

lemma can_transition_irrefl [simp]: "\<not> can_transition s s"
  by (cases s) (simp_all add: can_transition_iff)

lemma terminal_is_final: "s \<in> set terminal_states \<Longrightarrow> \<not> can_transition s t"
  by (auto simp: can_transition_iff state_sets)

lemma final_is_terminal: "(\<forall>t. \<not> can_transition s t) \<Longrightarrow> s \<in> set terminal_states"
  by (cases s) (auto simp: can_transition_iff state_sets)

lemma blocked_reachable_iff:
  "can_transition s BLOCKED \<longleftrightarrow> s \<notin> {BLOCKED, COMPLETED, CANCELLED}"
  by (cases s) (simp_all add: can_transition_iff)

lemma queued_reachable_iff: "can_transition s QUEUED \<longleftrightarrow> s \<in> {BLOCKED, FAILED}"
  by (cases s) (simp_all add: can_transition_iff)

lemma cancel_iff: "can_transition s CANCELLED \<longleftrightarrow> s \<notin> set terminal_states"
  by (cases s) (simp_all add: can_transition_iff state_sets)

lemma completed_only_from_review: "can_transition s COMPLETED \<longleftrightarrow> s = READY_FOR_HUMAN_REVIEW"
  by (cases s) (simp_all add: can_transition_iff)

lemma pr_created_only_from_reviewing: "can_transition s PR_CREATED \<longleftrightarrow> s = REVIEWING"
  by (cases s) (simp_all add: can_transition_iff)

lemma pausing_is_resumable:
  "can_transition s PAUSED_SCHEDULE \<Longrightarrow> can_transition PAUSED_SCHEDULE s"
  "can_transition s PAUSED_LIMIT \<Longrightarrow> can_transition PAUSED_LIMIT s"
  by (cases s; simp add: can_transition_iff)+

lemma transition_task_Inr:
  assumes "transition_task s t d = Inr n"
  shows "can_transition s t" and "tn_from n = s" and "tn_to n = t"
    and "tn_reason n = det_reason d" and "tn_resumeState n = det_resumeState d"
    and "tn_pauseReason n = det_pauseReason d"
    and "t \<in> {PAUSED_SCHEDULE, PAUSED_LIMIT} \<Longrightarrow>
           \<exists>r. det_resumeState d = Some r \<and> can_transition t r"
  using assms by (auto simp: transition_task_def split: if_splits option.splits)

end
