(* ===== verification/Json.thy ===== *)
theory Json
  imports Prelude
begin

text \<open>
  JSON values as \<open>jsonb\<close> columns hold them and \<open>stableJson\<close>
  (\<open>src/repositories/task.repository.ts\<close>), the rendering with sorted keys that contracts,
  checkpoint heads and digests are compared by. \<open>localeCompare\<close> depends on the locale of the
  process, so the comparison of keys is a parameter: \<open>lc x y\<close> stands for
  \<open>x.localeCompare(y) <= 0\<close>. Numbers in these documents are integers.
\<close>

section \<open>Values\<close>

datatype json =
    JNull
  | JBool bool
  | JNum int
  | JStr string
  | JArr "json list"
  | JObj "(string \<times> json) list"

type_synonym json_object = "(string \<times> json) list"

section \<open>Quoting of strings\<close>

definition hex_digit :: "nat \<Rightarrow> char" where
  "hex_digit n = (if n < 10 then char_of (48 + n) else char_of (87 + n))"

text \<open>\<open>JSON.stringify\<close> of one character: short escapes, \<open>\u00xx\<close> for other control characters.\<close>

definition escape_char :: "char \<Rightarrow> string" where
  "escape_char c =
     (if c = CHR 0x22 then [CHR 0x5C, CHR 0x22]
      else if c = CHR 0x5C then [CHR 0x5C, CHR 0x5C]
      else if c = CHR 0x08 then [CHR 0x5C, CHR ''b'']
      else if c = CHR 0x0C then [CHR 0x5C, CHR ''f'']
      else if c = CHR 0x0A then [CHR 0x5C, CHR ''n'']
      else if c = CHR 0x0D then [CHR 0x5C, CHR ''r'']
      else if c = CHR 0x09 then [CHR 0x5C, CHR ''t'']
      else if of_char c < (32 :: nat)
        then [CHR 0x5C, CHR ''u'', CHR ''0'', CHR ''0'',
              hex_digit (of_char c div 16), hex_digit (of_char c mod 16)]
      else [c])"

definition quote :: "string \<Rightarrow> string" where
  "quote s = CHR 0x22 # concat (map escape_char s) @ [CHR 0x22]"

section \<open>Stable rendering\<close>

fun show_bool :: "bool \<Rightarrow> string" where
  "show_bool True = ''true''"
| "show_bool False = ''false''"

fun stable_json :: "(string \<Rightarrow> string \<Rightarrow> bool) \<Rightarrow> json \<Rightarrow> string" where
  "stable_json lc JNull = ''null''"
| "stable_json lc (JBool b) = show_bool b"
| "stable_json lc (JNum i) = show_int i"
| "stable_json lc (JStr s) = quote s"
| "stable_json lc (JArr xs) = ''['' @ join '','' (map (stable_json lc) xs) @ '']''"
| "stable_json lc (JObj es) =
     CHR ''{'' # join '',''
       (map (\<lambda>e. quote (fst e) @ '':'' @ snd e)
          (sort_by (\<lambda>l r. lc (fst l) (fst r)) (map (\<lambda>e. (fst e, stable_json lc (snd e))) es)))
       @ ''}''"

section \<open>A total order of keys\<close>

text \<open>What the callers rely on: comparing keys is a total preorder that separates the keys at hand.\<close>

definition key_order :: "(string \<Rightarrow> string \<Rightarrow> bool) \<Rightarrow> bool" where
  "key_order lc \<longleftrightarrow>
     (\<forall>x y. lc x y \<or> lc y x) \<and> (\<forall>x y z. lc x y \<longrightarrow> lc y z \<longrightarrow> lc x z)
     \<and> (\<forall>x y. lc x y \<longrightarrow> lc y x \<longrightarrow> x = y)"

lemma key_order_linorder: "key_order (\<le>)"
  unfolding key_order_def by (auto intro: order_trans)

section \<open>Quoting is decodable\<close>

text \<open>
  An escape is never a proper prefix of another one and never starts like the closing quote, so
  the quoted text determines the characters one by one.
\<close>

lemma hex_digit_inj: "n < 16 \<Longrightarrow> m < 16 \<Longrightarrow> hex_digit n = hex_digit m \<Longrightarrow> n = m"
  by (auto simp: hex_digit_def split: if_splits)

lemma hex_pair_inj:
  assumes "hex_digit (of_char c div 16) = hex_digit (of_char d div 16)"
    and "hex_digit (of_char c mod 16) = hex_digit (of_char d mod 16)"
    and "of_char c < (32 :: nat)" and "of_char d < (32 :: nat)"
  shows "c = d"
proof -
  have "of_char c div 16 = (of_char d div 16 :: nat)"
    using assms by (intro hex_digit_inj) auto
  moreover have "of_char c mod 16 = (of_char d mod 16 :: nat)"
    using assms by (intro hex_digit_inj) auto
  ultimately have "of_char c = (of_char d :: nat)"
    by (metis div_mult_mod_eq)
  then show ?thesis by simp
qed

definition short_escapes :: "char list" where
  "short_escapes = [CHR 0x22, CHR 0x5C, CHR 0x08, CHR 0x0C, CHR 0x0A, CHR 0x0D, CHR 0x09]"

lemma escape_char_shape:
  obtains (short) e where "c \<in> set short_escapes" "escape_char c = [CHR 0x5C, e]" "e \<noteq> CHR ''u''"
  | (long) "of_char c < (32 :: nat)" "c \<notin> set short_escapes"
      "escape_char c = [CHR 0x5C, CHR ''u'', CHR ''0'', CHR ''0'',
         hex_digit (of_char c div 16), hex_digit (of_char c mod 16)]"
  | (plain) "escape_char c = [c]" "c \<noteq> CHR 0x5C" "c \<noteq> CHR 0x22"
proof -
  consider "c \<in> set short_escapes" | "c \<notin> set short_escapes" "of_char c < (32 :: nat)"
    | "c \<notin> set short_escapes" "\<not> of_char c < (32 :: nat)"
    by blast
  then show thesis
  proof cases
    case 1
    then have "\<exists>e. escape_char c = [CHR 0x5C, e] \<and> e \<noteq> CHR ''u''"
      by (auto simp: short_escapes_def escape_char_def)
    with 1 short show ?thesis by blast
  next
    case 2
    then show ?thesis by (intro long) (simp_all add: short_escapes_def escape_char_def)
  next
    case 3
    then show ?thesis by (intro plain) (simp_all add: short_escapes_def escape_char_def)
  qed
qed

lemma short_escapes_inj:
  "c \<in> set short_escapes \<Longrightarrow> d \<in> set short_escapes \<Longrightarrow> escape_char c = escape_char d \<Longrightarrow> c = d"
  by (auto simp: short_escapes_def escape_char_def)

lemma escape_char_decodable:
  assumes "escape_char c @ r = escape_char d @ r'"
  shows "c = d \<and> r = r'"
proof (cases c rule: escape_char_shape)
  case c: (short e)
  show ?thesis
  proof (cases d rule: escape_char_shape)
    case d: (short e')
    with c assms have "escape_char c = escape_char d" by simp
    with c d assms show ?thesis using short_escapes_inj by auto
  qed (use c assms in auto)
next
  case c: long
  show ?thesis
  proof (cases d rule: escape_char_shape)
    case d: long
    have "hex_digit (of_char c div 16) = hex_digit (of_char d div 16)"
      "hex_digit (of_char c mod 16) = hex_digit (of_char d mod 16)" "r = r'"
      using c(3) d(3) assms by simp_all
    then show ?thesis using hex_pair_inj c(1) d(1) by blast
  qed (use c assms in auto)
next
  case c: plain
  show ?thesis
    by (cases d rule: escape_char_shape) (use c assms in auto)
qed

lemma escape_char_not_quote: "escape_char c @ r \<noteq> CHR 0x22 # r'"
  by (cases c rule: escape_char_shape) auto

lemma escaped_decodable:
  "concat (map escape_char s) @ CHR 0x22 # r = concat (map escape_char t) @ CHR 0x22 # r'
     \<Longrightarrow> s = t \<and> r = r'"
proof (induction s arbitrary: t)
  case Nil
  then show ?case using escape_char_not_quote by (cases t) (auto, metis)
next
  case (Cons c s)
  show ?case
  proof (cases t)
    case Nil
    with Cons.prems show ?thesis using escape_char_not_quote by auto
  next
    case t: (Cons d t')
    with Cons.prems have "c = d"
      and "concat (map escape_char s) @ CHR 0x22 # r = concat (map escape_char t') @ CHR 0x22 # r'"
      using escape_char_decodable by auto
    with Cons.IH t show ?thesis by blast
  qed
qed

lemma quote_decodable: "quote s @ r = quote t @ r' \<Longrightarrow> s = t \<and> r = r'"
proof -
  assume "quote s @ r = quote t @ r'"
  then have "concat (map escape_char s) @ CHR 0x22 # r = concat (map escape_char t) @ CHR 0x22 # r'"
    by (simp add: quote_def)
  then show ?thesis by (rule escaped_decodable)
qed

lemma quote_inj [simp]: "quote s = quote t \<longleftrightarrow> s = t"
  using quote_decodable [of s "[]" t "[]"] by auto

section \<open>Records of strings\<close>

text \<open>
  \<open>Record<string, string>\<close>, the shape of the recorded branch heads: the stable rendering of two
  such records is equal exactly when they are the same record.
\<close>

definition string_record :: "(string \<times> string) list \<Rightarrow> json" where
  "string_record m = JObj (map (\<lambda>e. (fst e, JStr (snd e))) m)"

definition render_entry :: "string \<times> string \<Rightarrow> string" where
  "render_entry e = quote (fst e) @ '':'' @ quote (snd e)"

lemma render_entry_decodable:
  "render_entry e @ r = render_entry f @ r' \<Longrightarrow> e = f \<and> r = r'"
  unfolding render_entry_def
  by (cases e; cases f) (auto dest!: quote_decodable)

lemma render_entry_ne: "render_entry e \<noteq> []" "hd (render_entry e @ r) = CHR 0x22"
  by (simp_all add: render_entry_def quote_def)

lemma join_entries_decodable:
  "join '','' (map render_entry es) @ CHR ''}'' # r = join '','' (map render_entry fs) @ CHR ''}'' # r'
     \<Longrightarrow> es = fs"
proof (induction es arbitrary: fs)
  case Nil
  then show ?case
    by (cases fs; cases "tl fs") (auto simp: render_entry_def quote_def)
next
  case (Cons e es)
  from Cons.prems obtain f fs' where fs: "fs = f # fs'"
    by (cases fs) (auto simp: render_entry_def quote_def, (cases es; auto simp: render_entry_def quote_def)+)
  have split: "join '','' (map render_entry (x # xs)) @ CHR ''}'' # s =
      render_entry x @ (if xs = [] then CHR ''}'' # s
        else CHR '','' # join '','' (map render_entry xs) @ CHR ''}'' # s)" for x xs s
    by (cases xs) auto
  from Cons.prems fs have "e = f"
    and rest: "(if es = [] then CHR ''}'' # r else CHR '','' # join '','' (map render_entry es) @ CHR ''}'' # r)
       = (if fs' = [] then CHR ''}'' # r' else CHR '','' # join '','' (map render_entry fs') @ CHR ''}'' # r')"
    by (auto simp only: split dest!: render_entry_decodable)
  with Cons.IH [of fs'] fs show ?case by (auto split: if_splits)
qed

definition by_key :: "(string \<Rightarrow> string \<Rightarrow> bool) \<Rightarrow> string \<times> 'a \<Rightarrow> string \<times> 'a \<Rightarrow> bool" where
  "by_key lc l r = lc (fst l) (fst r)"

lemma stable_json_string_record:
  "stable_json lc (string_record m) =
     CHR ''{'' # join '','' (map render_entry (sort_by (by_key lc) m)) @ ''}''"
proof -
  have "map (\<lambda>e. (fst e, stable_json lc (snd e))) (map (\<lambda>e. (fst e, JStr (snd e))) m)
      = map (\<lambda>e. (fst e, quote (snd e))) m"
    by simp
  moreover have "sort_by (\<lambda>l r. lc (fst l) (fst r)) (map (\<lambda>e. (fst e, quote (snd e))) m)
      = map (\<lambda>e. (fst e, quote (snd e))) (sort_by (by_key lc) m)"
    by (rule sort_by_map) (simp add: by_key_def)
  ultimately show ?thesis
    by (simp add: string_record_def render_entry_def [abs_def] comp_def)
qed

lemma sort_by_key_cong:
  assumes "key_order lc" "distinct (map fst m)" "mset m = mset n"
  shows "sort_by (by_key lc) m = sort_by (by_key lc) n"
proof (rule sort_by_cong_mset [OF assms(3)])
  show "by_key lc x y \<or> by_key lc y x" for x y :: "string \<times> 'a"
    using assms(1) by (simp add: by_key_def key_order_def)
  show "by_key lc x y \<Longrightarrow> by_key lc y z \<Longrightarrow> by_key lc x z" for x y z :: "string \<times> 'a"
    using assms(1) unfolding by_key_def key_order_def by blast
  show "x = y" if "x \<in> set m" "y \<in> set m" "by_key lc x y" "by_key lc y x" for x y
  proof -
    have "fst x = fst y" using that assms(1) unfolding by_key_def key_order_def by blast
    with that assms(2) show ?thesis by (metis eq_key_imp_eq_value prod.collapse)
  qed
qed

lemma string_record_eq_iff:
  assumes "key_order lc" and "distinct (map fst m)" and "distinct (map fst n)"
  shows "stable_json lc (string_record m) = stable_json lc (string_record n) \<longleftrightarrow> map_of m = map_of n"
proof
  assume "stable_json lc (string_record m) = stable_json lc (string_record n)"
  then have "join '','' (map render_entry (sort_by (by_key lc) m)) @ CHR ''}'' # []
      = join '','' (map render_entry (sort_by (by_key lc) n)) @ CHR ''}'' # []"
    unfolding stable_json_string_record by (rule list.inject [THEN iffD1, THEN conjunct2])
  then have "sort_by (by_key lc) m = sort_by (by_key lc) n"
    by (rule join_entries_decodable)
  then have "mset m = mset n" by (metis mset_sort_by)
  with assms show "map_of m = map_of n" by (simp add: map_of_eq_iff_mset)
next
  assume "map_of m = map_of n"
  with assms have "mset m = mset n" by (simp add: map_of_eq_iff_mset)
  with assms(1,2) have "sort_by (by_key lc) m = sort_by (by_key lc) n" by (rule sort_by_key_cong)
  then show "stable_json lc (string_record m) = stable_json lc (string_record n)"
    by (simp add: stable_json_string_record)
qed

end
