(* ===== verification/Database.thy ===== *)
theory Database
  imports Domain Json
begin

text \<open>
  The tables of \<open>src/db/schema.ts\<close> as lists of records, one record field per column under the
  column's name with a table prefix. Row identities that nothing reads (\<open>state_transitions.id\<close>,
  \<open>task_checkpoints.id\<close>, \<open>intake_quarantines.id\<close>, \<open>operator_actions.id\<close>) are left out; the
  others are arguments of the inserting operation, as the database generates them. Unique indexes
  and foreign keys are checked where rows are inserted.
\<close>

section \<open>Rows\<close>

record task_row =
  t_id :: task_id
  t_linearIssueId :: string
  t_linearIdentifier :: string
  t_contractSnapshot :: json
  t_repository :: "string option"
  t_workspacePath :: "string option"
  t_branch :: "string option"
  t_state :: task_state
  t_resumeState :: "task_state option"
  t_complexity :: "complexity option"
  t_risk :: "string option"
  t_selectedModelTier :: "string option"
  t_selectedModel :: "string option"
  t_reasoningEffort :: "string option"
  t_implementationAttempts :: int
  t_qualityFixAttempts :: int
  t_reviewAttempts :: int
  t_prNumber :: "int option"
  t_prUrl :: "string option"
  t_pauseReason :: "pause_reason option"
  t_pausedAt :: "time option"
  t_lastError :: "string option"
  t_leaseOwner :: "worker option"
  t_leaseExpiresAt :: "time option"
  t_lastHeartbeatAt :: "time option"
  t_requiresManualIntervention :: bool
  t_resumeAfter :: "time option"
  t_cancelRequestedAt :: "time option"
  t_createdAt :: time
  t_updatedAt :: time

record transition_row =
  st_taskId :: task_id
  st_fromState :: "task_state option"
  st_toState :: task_state
  st_reason :: "string option"
  st_createdAt :: time

record dependency_row =
  dep_taskId :: task_id
  dep_blockerTaskId :: task_id
  dep_createdAt :: time

record work_unit_row =
  wu_id :: string
  wu_taskId :: task_id
  wu_repository :: string
  wu_state :: task_state
  wu_outcome :: "string option"
  wu_workspacePath :: "string option"
  wu_branch :: "string option"
  wu_baseCommit :: "string option"
  wu_workspaceReleasedAt :: "time option"
  wu_workspaceCleanupBlockedReason :: "string option"
  wu_pushedCommit :: "string option"
  wu_pullRequestNumber :: "int option"
  wu_pullRequestUrl :: "string option"
  wu_mergeCommit :: "string option"
  wu_deliveryObservation :: "json option"
  wu_deliveryObservedAt :: "time option"
  wu_createdAt :: time
  wu_updatedAt :: time

record attempt_row =
  at_id :: string
  at_taskId :: task_id
  at_stage :: task_state
  at_attempt :: int
  at_failureCategory :: "string option"
  at_input :: "json option"
  at_result :: "json option"
  at_evidence :: "json option"
  at_usage :: "json option"
  at_startedAt :: time
  at_completedAt :: "time option"

record checkpoint_row =
  cp_taskId :: task_id
  cp_stage :: task_state
  cp_checkpointKey :: string
  cp_payload :: json
  cp_completedAt :: time

record external_operation_row =
  xo_id :: string
  xo_taskId :: task_id
  xo_operationType :: string
  xo_idempotencyKey :: string
  xo_status :: string
  xo_request :: json
  xo_response :: "json option"
  xo_startedAt :: time
  xo_completedAt :: "time option"

record quarantine_row =
  iq_linearIssueId :: string
  iq_linearIdentifier :: string
  iq_reason :: string
  iq_payload :: json
  iq_firstSeenAt :: time
  iq_lastSeenAt :: time

record controls_row =
  oc_id :: string
  oc_pauseNewWork :: bool
  oc_scheduleOverride :: schedule_override
  oc_killSwitch :: bool
  oc_updatedBy :: "string option"
  oc_updatedAt :: time

record action_row =
  oa_action :: string
  oa_actor :: string
  oa_reason :: string
  oa_taskId :: "task_id option"
  oa_details :: json
  oa_createdAt :: time

section \<open>The database\<close>

record database =
  db_tasks :: "task_row list"
  db_transitions :: "transition_row list"
  db_dependencies :: "dependency_row list"
  db_workUnits :: "work_unit_row list"
  db_attempts :: "attempt_row list"
  db_checkpoints :: "checkpoint_row list"
  db_operations :: "external_operation_row list"
  db_quarantines :: "quarantine_row list"
  db_controls :: "controls_row list"
  db_actions :: "action_row list"

definition empty_database :: database where
  "empty_database = \<lparr>db_tasks = [], db_transitions = [], db_dependencies = [], db_workUnits = [],
     db_attempts = [], db_checkpoints = [], db_operations = [], db_quarantines = [],
     db_controls = [], db_actions = []\<rparr>"

text \<open>Constraint violations as the driver reports them.\<close>

definition unique_violation :: orch_error where
  "unique_violation = PlainError ''23505: duplicate key value violates unique constraint''"

definition foreign_key_violation :: orch_error where
  "foreign_key_violation = PlainError ''23503: violates foreign key constraint''"

section \<open>Statements on tasks\<close>

definition task_has_id :: "task_id \<Rightarrow> task_row \<Rightarrow> bool" where
  "task_has_id i t = (t_id t = i)"

definition select_task :: "task_id \<Rightarrow> database \<Rightarrow> task_row option" where
  "select_task i d = first_of (filter (task_has_id i) (db_tasks d))"

definition update_tasks :: "(task_row \<Rightarrow> bool) \<Rightarrow> (task_row \<Rightarrow> task_row) \<Rightarrow> database \<Rightarrow> database" where
  "update_tasks p f d = d\<lparr>db_tasks := update_where p f (db_tasks d)\<rparr>"

definition updated_task :: "(task_row \<Rightarrow> bool) \<Rightarrow> (task_row \<Rightarrow> task_row) \<Rightarrow> database \<Rightarrow> task_row option" where
  "updated_task p f d = first_of (returning p f (db_tasks d))"

text \<open>\<open>exists(select \<dots> where id = task and lease_owner = worker)\<close>.\<close>

definition holds_lease :: "task_id \<Rightarrow> worker \<Rightarrow> task_row \<Rightarrow> bool" where
  "holds_lease i w t = (t_id t = i \<and> t_leaseOwner t = Some w)"

definition leased_by :: "task_id \<Rightarrow> worker \<Rightarrow> database \<Rightarrow> bool" where
  "leased_by i w d = list_ex (holds_lease i w) (db_tasks d)"

lemma leased_by_iff: "leased_by i w d \<longleftrightarrow> (\<exists>t \<in> set (db_tasks d). t_id t = i \<and> t_leaseOwner t = Some w)"
  by (auto simp: leased_by_def holds_lease_def list_ex_iff)

lemma select_task_SomeD: "select_task i d = Some t \<Longrightarrow> t \<in> set (db_tasks d) \<and> t_id t = i"
  by (auto simp: select_task_def task_has_id_def dest!: first_of_SomeD)

lemma select_task_None_iff: "select_task i d = None \<longleftrightarrow> (\<forall>t \<in> set (db_tasks d). t_id t \<noteq> i)"
  by (auto simp: select_task_def task_has_id_def filter_empty_conv)

text \<open>The primary key: no two tasks share an id.\<close>

definition unique_task_ids :: "database \<Rightarrow> bool" where
  "unique_task_ids d = distinct (map t_id (db_tasks d))"

lemma same_task:
  "unique_task_ids d \<Longrightarrow> t \<in> set (db_tasks d) \<Longrightarrow> u \<in> set (db_tasks d) \<Longrightarrow> t_id t = t_id u \<Longrightarrow> t = u"
  unfolding unique_task_ids_def by (metis distinct_map inj_onD)

lemma select_task_eqI:
  "unique_task_ids d \<Longrightarrow> t \<in> set (db_tasks d) \<Longrightarrow> t_id t = i \<Longrightarrow> select_task i d = Some t"
  by (cases "select_task i d") (auto simp: select_task_None_iff dest: select_task_SomeD same_task)

lemma updated_task_SomeD:
  "updated_task p f d = Some u \<Longrightarrow> \<exists>t \<in> set (db_tasks d). p t \<and> u = f t"
  by (auto simp: updated_task_def returning_def dest!: first_of_SomeD)

lemma updated_task_None_iff: "updated_task p f d = None \<longleftrightarrow> (\<forall>t \<in> set (db_tasks d). \<not> p t)"
  by (auto simp: updated_task_def returning_def filter_empty_conv)

lemma db_tasks_update_tasks [simp]: "db_tasks (update_tasks p f d) = update_where p f (db_tasks d)"
  by (simp add: update_tasks_def)

lemma update_tasks_frame [simp]:
  "db_transitions (update_tasks p f d) = db_transitions d"
  "db_dependencies (update_tasks p f d) = db_dependencies d"
  "db_workUnits (update_tasks p f d) = db_workUnits d"
  "db_attempts (update_tasks p f d) = db_attempts d"
  "db_checkpoints (update_tasks p f d) = db_checkpoints d"
  "db_operations (update_tasks p f d) = db_operations d"
  "db_quarantines (update_tasks p f d) = db_quarantines d"
  "db_controls (update_tasks p f d) = db_controls d"
  "db_actions (update_tasks p f d) = db_actions d"
  by (simp_all add: update_tasks_def)

lemma unique_update_tasks:
  "(\<And>t. t_id (f t) = t_id t) \<Longrightarrow> unique_task_ids (update_tasks p f d) = unique_task_ids d"
  by (simp add: unique_task_ids_def map_update_where)

end
