(* ===== verification/TaskRepository.thy ===== *)
theory TaskRepository
  imports Database
begin

text \<open>
  Task rows, transitions, leases and claims of \<open>src/repositories/task.repository.ts\<close>. Every
  operation takes the database and the clock reading(s) the code takes (\<open>new Date()\<close>) and returns
  an error, with the transaction rolled back, or its value and the database afterwards. A claim
  also takes the ids of the rows other transactions have locked, which \<open>SKIP LOCKED\<close> passes over.
\<close>

section \<open>Transitions of a locked row\<close>

record lease_values =
  ls_owner :: "worker option"
  ls_expiresAt :: "time option"
  ls_heartbeatAt :: "time option"

definition cleared_lease :: lease_values where
  "cleared_lease = \<lparr>ls_owner = None, ls_expiresAt = None, ls_heartbeatAt = None\<rparr>"

record locked_transition_input =
  li_to :: task_state
  li_reason :: "string option"
  li_resumeState :: "task_state option"
  li_pauseReason :: "pause_reason option"
  li_resumeAfter :: "time option"
  li_leaseOwner :: "worker option"
  li_allowExpiredLease :: bool
  li_requiresManualIntervention :: "bool option"
  li_lastError :: "string option option"
  li_clearCancelRequest :: bool
  li_incrementCounter :: "attempt_counter option"
  li_resetAttemptCounters :: bool
  li_lease :: "lease_values option"

text \<open>An object literal that gives only \<open>to\<close>; the callers add the fields they set.\<close>

definition transition_to :: "task_state \<Rightarrow> locked_transition_input" where
  "transition_to s = \<lparr>li_to = s, li_reason = None, li_resumeState = None, li_pauseReason = None,
     li_resumeAfter = None, li_leaseOwner = None, li_allowExpiredLease = False,
     li_requiresManualIntervention = None, li_lastError = None, li_clearCancelRequest = False,
     li_incrementCounter = None, li_resetAttemptCounters = False, li_lease = None\<rparr>"

definition increment_counter :: "attempt_counter option \<Rightarrow> task_row \<Rightarrow> task_row \<Rightarrow> task_row" where
  "increment_counter c old t =
     (case c of
        None \<Rightarrow> t
      | Some ImplementationAttempts \<Rightarrow> t\<lparr>t_implementationAttempts := t_implementationAttempts old + 1\<rparr>
      | Some QualityFixAttempts \<Rightarrow> t\<lparr>t_qualityFixAttempts := t_qualityFixAttempts old + 1\<rparr>
      | Some ReviewAttempts \<Rightarrow> t\<lparr>t_reviewAttempts := t_reviewAttempts old + 1\<rparr>)"

definition reset_counters :: "bool \<Rightarrow> task_row \<Rightarrow> task_row" where
  "reset_counters b t =
     (if b then t\<lparr>t_implementationAttempts := 0, t_qualityFixAttempts := 0, t_reviewAttempts := 0\<rparr>
      else t)"

definition set_lease :: "lease_values option \<Rightarrow> task_row \<Rightarrow> task_row" where
  "set_lease l t =
     (case l of
        None \<Rightarrow> t
      | Some v \<Rightarrow> t\<lparr>t_leaseOwner := ls_owner v, t_leaseExpiresAt := ls_expiresAt v,
                   t_lastHeartbeatAt := ls_heartbeatAt v\<rparr>)"

definition is_paused :: "task_state \<Rightarrow> bool" where
  "is_paused s = (s = PAUSED_SCHEDULE \<or> s = PAUSED_LIMIT)"

text \<open>The \<open>SET\<close> clause; \<open>task\<close> is the row that was read, \<open>t\<close> the row being written.\<close>

definition transition_updates ::
  "time \<Rightarrow> task_row \<Rightarrow> locked_transition_input \<Rightarrow> state_transition \<Rightarrow> task_row \<Rightarrow> task_row" where
  "transition_updates now task i tn t =
     set_lease (li_lease i)
       (increment_counter (li_incrementCounter i) t
         (reset_counters (li_resetAttemptCounters i)
           (t\<lparr>t_state := tn_to tn,
              t_resumeState := tn_resumeState tn,
              t_pauseReason := tn_pauseReason tn,
              t_pausedAt := (if is_paused (tn_to tn) then Some now else None),
              t_resumeAfter := (if is_paused (tn_to tn) then li_resumeAfter i else None),
              t_requiresManualIntervention :=
                or_else (li_requiresManualIntervention i) (t_requiresManualIntervention task),
              t_updatedAt := now,
              t_lastError := or_else (li_lastError i) (t_lastError t),
              t_cancelRequestedAt :=
                (if li_clearCancelRequest i then None else t_cancelRequestedAt t)\<rparr>)))"

definition lease_guard :: "task_row \<Rightarrow> locked_transition_input \<Rightarrow> (orch_error, unit) result" where
  "lease_guard task i =
     (if t_leaseOwner task \<noteq> None \<and> li_leaseOwner i \<noteq> t_leaseOwner task \<and> \<not> li_allowExpiredLease i
      then Inl (LeaseOwnershipError (t_id task))
      else if li_leaseOwner i \<noteq> None \<and> t_leaseOwner task \<noteq> li_leaseOwner i \<and> li_lease i = None
      then Inl (LeaseOwnershipError (t_id task))
      else Inr ())"

definition history_entry :: "time \<Rightarrow> task_id \<Rightarrow> state_transition \<Rightarrow> transition_row" where
  "history_entry now i tn = \<lparr>st_taskId = i, st_fromState = Some (tn_from tn), st_toState = tn_to tn,
     st_reason = tn_reason tn, st_createdAt = now\<rparr>"

definition transition_locked_task ::
  "time \<Rightarrow> task_row \<Rightarrow> locked_transition_input \<Rightarrow> database \<Rightarrow> (orch_error, task_row \<times> database) result" where
  "transition_locked_task now task i d =
     and_then (lease_guard task i) (\<lambda>_.
     and_then (transition_task (t_state task) (li_to i)
        \<lparr>det_reason = li_reason i, det_resumeState = li_resumeState i, det_pauseReason = li_pauseReason i\<rparr>) (\<lambda>tn.
     (case updated_task (task_has_id (t_id task)) (transition_updates now task i tn) d of
        None \<Rightarrow> Inl (PlainError (''Task not found: '' @ t_id task))
      | Some u \<Rightarrow>
          let d' = update_tasks (task_has_id (t_id task)) (transition_updates now task i tn) d in
          Inr (u, d'\<lparr>db_transitions := db_transitions d' @ [history_entry now (t_id task) tn]\<rparr>))))"

section \<open>Reading and creating tasks\<close>

definition get_task :: "task_id \<Rightarrow> database \<Rightarrow> task_row option" where
  "get_task i d = select_task i d"

definition get_work_units :: "task_id \<Rightarrow> database \<Rightarrow> work_unit_row list" where
  "get_work_units i d =
     sort_key wu_repository (filter (\<lambda>u. wu_taskId u = i) (db_workUnits d))"

definition list_unfinished_blockers :: "task_id \<Rightarrow> database \<Rightarrow> (task_id \<times> string \<times> task_state) list" where
  "list_unfinished_blockers i d =
     concat (map (\<lambda>dep. map (\<lambda>t. (t_id t, t_linearIdentifier t, t_state t))
         (filter (\<lambda>t. t_id t = dep_blockerTaskId dep \<and> t_state t \<noteq> COMPLETED) (db_tasks d)))
       (filter (\<lambda>dep. dep_taskId dep = i) (db_dependencies d)))"

record create_task_input =
  ct_linearIssueId :: string
  ct_linearIdentifier :: string
  ct_contractSnapshot :: json
  ct_complexity :: complexity
  ct_risk :: "string option"
  ct_blockerTaskIds :: "task_id list option"
  ct_workUnits :: "(string \<times> string option) list"

definition new_task :: "task_id \<Rightarrow> time \<Rightarrow> create_task_input \<Rightarrow> task_row" where
  "new_task i now c = \<lparr>t_id = i, t_linearIssueId = ct_linearIssueId c,
     t_linearIdentifier = ct_linearIdentifier c, t_contractSnapshot = ct_contractSnapshot c,
     t_repository = None, t_workspacePath = None, t_branch = None, t_state = QUEUED,
     t_resumeState = None, t_complexity = Some (ct_complexity c), t_risk = ct_risk c,
     t_selectedModelTier = None, t_selectedModel = None, t_reasoningEffort = None,
     t_implementationAttempts = 0, t_qualityFixAttempts = 0, t_reviewAttempts = 0,
     t_prNumber = None, t_prUrl = None, t_pauseReason = None, t_pausedAt = None, t_lastError = None,
     t_leaseOwner = None, t_leaseExpiresAt = None, t_lastHeartbeatAt = None,
     t_requiresManualIntervention = False, t_resumeAfter = None, t_cancelRequestedAt = None,
     t_createdAt = now, t_updatedAt = now\<rparr>"

definition new_work_unit :: "string \<Rightarrow> task_id \<Rightarrow> time \<Rightarrow> string \<times> string option \<Rightarrow> work_unit_row" where
  "new_work_unit uid i now w = \<lparr>wu_id = uid, wu_taskId = i, wu_repository = fst w, wu_state = QUEUED,
     wu_outcome = snd w, wu_workspacePath = None, wu_branch = None, wu_baseCommit = None,
     wu_workspaceReleasedAt = None, wu_workspaceCleanupBlockedReason = None, wu_pushedCommit = None,
     wu_pullRequestNumber = None, wu_pullRequestUrl = None, wu_mergeCommit = None,
     wu_deliveryObservation = None, wu_deliveryObservedAt = None, wu_createdAt = now, wu_updatedAt = now\<rparr>"

definition new_dependency :: "task_id \<Rightarrow> time \<Rightarrow> task_id \<Rightarrow> dependency_row" where
  "new_dependency i now b = \<lparr>dep_taskId = i, dep_blockerTaskId = b, dep_createdAt = now\<rparr>"

text \<open>\<open>i\<close> and \<open>uid\<close> are the identities the database generates for the task and its work units.\<close>

definition create_task ::
  "task_id \<Rightarrow> (nat \<Rightarrow> string) \<Rightarrow> time \<Rightarrow> create_task_input \<Rightarrow> database \<Rightarrow> (orch_error, task_row \<times> database) result" where
  "create_task i uid now c d =
     (if ct_workUnits c = [] then Inl (PlainError ''Task requires at least one work unit'')
      else if \<not> distinct (map fst (ct_workUnits c))
        then Inl (PlainError ''Task work units must use unique repositories'')
      else if \<not> distinct (or_else (ct_blockerTaskIds c) [])
        then Inl (PlainError ''Task blockers must be unique'')
      else if \<exists>t \<in> set (db_tasks d). t_linearIssueId t = ct_linearIssueId c \<or> t_id t = i
        then Inl unique_violation
      else if \<not> set (or_else (ct_blockerTaskIds c) []) \<subseteq> insert i (t_id ` set (db_tasks d))
        then Inl foreign_key_violation
      else
        let t = new_task i now c in
        Inr (t, d\<lparr>db_tasks := db_tasks d @ [t],
                  db_workUnits := db_workUnits d
                    @ map (\<lambda>(n, w). new_work_unit (uid n) i now w) (enumerate 0 (ct_workUnits c)),
                  db_dependencies := db_dependencies d
                    @ map (new_dependency i now) (or_else (ct_blockerTaskIds c) [])\<rparr>))"

definition upsert_discovered_task ::
  "(string \<Rightarrow> string \<Rightarrow> bool) \<Rightarrow> task_id \<Rightarrow> (nat \<Rightarrow> string) \<Rightarrow> time \<Rightarrow> create_task_input \<Rightarrow> database
     \<Rightarrow> (orch_error, (task_row \<times> bool) \<times> database) result" where
  "upsert_discovered_task lc i uid now c d =
     (case first_of (filter (\<lambda>t. t_linearIssueId t = ct_linearIssueId c) (db_tasks d)) of
        Some existing \<Rightarrow>
          if stable_json lc (t_contractSnapshot existing) \<noteq> stable_json lc (ct_contractSnapshot c)
          then Inl (ContractChangedError (ct_linearIssueId c))
          else Inr ((existing, False), d)
      | None \<Rightarrow> and_then (create_task i uid now c d) (\<lambda>(t, d'). Inr ((t, True), d')))"

definition replace_dependencies ::
  "time \<Rightarrow> task_id \<Rightarrow> task_id list \<Rightarrow> database \<Rightarrow> (orch_error, database) result" where
  "replace_dependencies now i bs d =
     (if \<not> distinct bs then Inl (PlainError ''Task blockers must be unique'')
      else if \<not> set bs \<subseteq> t_id ` set (db_tasks d) \<or> (bs \<noteq> [] \<and> i \<notin> t_id ` set (db_tasks d))
        then Inl foreign_key_violation
      else Inr (d\<lparr>db_dependencies :=
             filter (\<lambda>r. dep_taskId r \<noteq> i) (db_dependencies d) @ map (new_dependency i now) bs\<rparr>))"

definition quarantine_intake ::
  "time \<Rightarrow> string \<Rightarrow> string \<Rightarrow> string \<Rightarrow> json \<Rightarrow> database \<Rightarrow> database" where
  "quarantine_intake now issue identifier reason payload d =
     (if \<exists>q \<in> set (db_quarantines d). iq_linearIssueId q = issue
      then d\<lparr>db_quarantines := update_where (\<lambda>q. iq_linearIssueId q = issue)
               (\<lambda>q. q\<lparr>iq_linearIdentifier := identifier, iq_reason := reason, iq_payload := payload,
                      iq_lastSeenAt := now\<rparr>) (db_quarantines d)\<rparr>
      else d\<lparr>db_quarantines := db_quarantines d @
               [\<lparr>iq_linearIssueId = issue, iq_linearIdentifier = identifier, iq_reason = reason,
                 iq_payload = payload, iq_firstSeenAt = now, iq_lastSeenAt = now\<rparr>]\<rparr>)"

section \<open>Claims\<close>

record claimable_work =
  cw_queued :: bool
  cw_parkedStates :: "task_state list"
  cw_scheduleResumeStates :: "task_state list"
  cw_limitResumeStates :: "task_state list"

record rollout_limits =
  ro_repositories :: "string list option"
  ro_maxNewTasksPerDay :: "int option"

text \<open>\<open>ci_maxConcurrentTasks = None\<close> is \<open>Number.POSITIVE_INFINITY\<close>.\<close>

record claim_input =
  ci_leaseOwner :: worker
  ci_leaseDurationMs :: int
  ci_now :: "time option"
  ci_work :: claimable_work
  ci_maxConcurrentTasks :: "int option"
  ci_lane :: "claim_lane option"
  ci_repositoryLimits :: "(string \<times> int) list option"
  ci_rollout :: "rollout_limits option"

definition in_lane :: "claim_lane \<Rightarrow> task_state \<Rightarrow> bool" where
  "in_lane lane s = ((lane = Delivery) = (s \<in> set delivery_states))"

definition lane_work :: "claim_lane \<Rightarrow> claimable_work \<Rightarrow> claimable_work" where
  "lane_work lane w =
     \<lparr>cw_queued = (lane = Execution \<and> cw_queued w),
      cw_parkedStates = filter (in_lane lane) (cw_parkedStates w),
      cw_scheduleResumeStates = (if lane = Execution then cw_scheduleResumeStates w else []),
      cw_limitResumeStates = (if lane = Execution then cw_limitResumeStates w else [])\<rparr>"

definition lane_condition :: "claim_lane \<Rightarrow> task_row \<Rightarrow> bool" where
  "lane_condition lane t =
     (if lane = Delivery then t_state t \<in> set delivery_states else t_state t \<notin> set delivery_states)"

definition leased_in_lane :: "claim_lane \<Rightarrow> database \<Rightarrow> task_row list" where
  "leased_in_lane lane d = filter (\<lambda>t. t_leaseOwner t \<noteq> None \<and> lane_condition lane t) (db_tasks d)"

definition touches :: "database \<Rightarrow> task_id \<Rightarrow> string \<Rightarrow> bool" where
  "touches d i repo = (\<exists>u \<in> set (db_workUnits d). wu_taskId u = i \<and> wu_repository u = repo)"

text \<open>\<open>count(distinct tasks.id)\<close> of the leased tasks of the lane with a work unit in the repository.\<close>

definition busy_tasks :: "claim_lane \<Rightarrow> database \<Rightarrow> string \<Rightarrow> int" where
  "busy_tasks lane d repo =
     int (length (remdups (map t_id (filter (\<lambda>t. touches d (t_id t) repo) (leased_in_lane lane d)))))"

definition saturated_repositories :: "claim_lane \<Rightarrow> claim_input \<Rightarrow> database \<Rightarrow> string list" where
  "saturated_repositories lane i d =
     map fst (filter (\<lambda>(repo, limit). limit \<le> busy_tasks lane d repo)
       (if lane = Execution then or_else (ci_repositoryLimits i) [] else []))"

definition day_ms :: int where
  "day_ms = 24 * 60 * 60 * 1000"

definition started_today :: "time \<Rightarrow> database \<Rightarrow> int" where
  "started_today now d = int (length (filter (\<lambda>r. st_fromState r = Some QUEUED \<and> st_toState r = ANALYZING
     \<and> now - day_ms < st_createdAt r) (db_transitions d)))"

definition start_new_tasks :: "claimable_work \<Rightarrow> rollout_limits \<Rightarrow> time \<Rightarrow> database \<Rightarrow> bool" where
  "start_new_tasks w ro now d =
     (cw_queued w \<and>
      (case ro_maxNewTasksPerDay ro of None \<Rightarrow> True | Some m \<Rightarrow> \<not> m \<le> started_today now d))"

definition unresolved_blockers :: "database \<Rightarrow> task_id \<Rightarrow> bool" where
  "unresolved_blockers d i =
     (\<exists>dep \<in> set (db_dependencies d). dep_taskId dep = i \<and>
        (\<exists>b \<in> set (db_tasks d). t_id b = dep_blockerTaskId dep \<and> t_state b \<noteq> COMPLETED))"

definition outside_rollout :: "rollout_limits \<Rightarrow> database \<Rightarrow> task_id \<Rightarrow> bool" where
  "outside_rollout ro d i =
     (\<exists>u \<in> set (db_workUnits d). wu_taskId u = i \<and> wu_repository u \<notin> set (or_else (ro_repositories ro) []))"

definition due :: "time \<Rightarrow> task_row \<Rightarrow> bool" where
  "due now t = (case t_resumeAfter t of None \<Rightarrow> True | Some r \<Rightarrow> r \<le> now)"

definition resume_in :: "task_state list \<Rightarrow> task_row \<Rightarrow> bool" where
  "resume_in ss t = (case t_resumeState t of None \<Rightarrow> False | Some s \<Rightarrow> s \<in> set ss)"

text \<open>The disjuncts of the query, pushed one by one as the code does.\<close>

definition eligibility ::
  "claimable_work \<Rightarrow> bool \<Rightarrow> rollout_limits \<Rightarrow> time \<Rightarrow> database \<Rightarrow> (task_row \<Rightarrow> bool) list" where
  "eligibility w start ro now d =
     (if start then [\<lambda>t. t_state t = QUEUED \<and> \<not> unresolved_blockers d (t_id t)
          \<and> (ro_repositories ro = None \<or> \<not> outside_rollout ro d (t_id t))] else [])
     @ (if cw_parkedStates w \<noteq> [] then [\<lambda>t. t_state t \<in> set (cw_parkedStates w) \<and> due now t] else [])
     @ (if cw_scheduleResumeStates w \<noteq> []
        then [\<lambda>t. t_state t = PAUSED_SCHEDULE \<and> resume_in (cw_scheduleResumeStates w) t] else [])
     @ (if cw_limitResumeStates w \<noteq> []
        then [\<lambda>t. t_state t = PAUSED_LIMIT \<and> resume_in (cw_limitResumeStates w) t \<and> due now t] else [])"

definition claim_priority :: "task_row \<Rightarrow> nat \<times> time" where
  "claim_priority t =
     (if t_state t = QUEUED then 2 else if is_paused (t_state t) then 1 else 0, t_createdAt t)"

definition claim_candidates ::
  "task_id list \<Rightarrow> string list \<Rightarrow> (task_row \<Rightarrow> bool) list \<Rightarrow> database \<Rightarrow> task_row list" where
  "claim_candidates locked saturated elig d =
     filter (\<lambda>t. t_leaseOwner t = None \<and> \<not> (\<exists>repo \<in> set saturated. touches d (t_id t) repo)
        \<and> \<not> t_requiresManualIntervention t \<and> t_cancelRequestedAt t = None
        \<and> list_ex (\<lambda>p. p t) elig \<and> t_id t \<notin> set locked) (db_tasks d)"

definition lane_full :: "claim_lane \<Rightarrow> int option \<Rightarrow> database \<Rightarrow> bool" where
  "lane_full lane m d =
     (case m of None \<Rightarrow> False | Some n \<Rightarrow> n \<le> int (length (leased_in_lane lane d)))"

text \<open>Taking the lease of the selected row: start, resume, or continue in place.\<close>

definition take_task ::
  "time \<Rightarrow> time \<Rightarrow> claim_input \<Rightarrow> task_row \<Rightarrow> database \<Rightarrow> (orch_error, task_row \<times> database) result" where
  "take_task clk now i t d =
     (let lease = \<lparr>ls_owner = Some (ci_leaseOwner i), ls_expiresAt = Some (now + ci_leaseDurationMs i),
                   ls_heartbeatAt = Some now\<rparr> in
      if t_state t = QUEUED then
        transition_locked_task clk t
          ((transition_to ANALYZING)\<lparr>li_reason := Some ''Task claimed for analysis'', li_lease := Some lease\<rparr>) d
      else if is_paused (t_state t) \<and> t_resumeState t \<noteq> None then
        transition_locked_task clk t
          ((transition_to (the (t_resumeState t)))
             \<lparr>li_reason := Some (''Resumed from '' @ show_state (t_state t)), li_lease := Some lease\<rparr>) d
      else
        let f = (\<lambda>r. (set_lease (Some lease) r)\<lparr>t_updatedAt := now\<rparr>) in
        case updated_task (task_has_id (t_id t)) f d of
          None \<Rightarrow> Inl (PlainError (''Task not found: '' @ t_id t))
        | Some u \<Rightarrow> Inr (u, update_tasks (task_has_id (t_id t)) f d))"

definition claim_next_task ::
  "time \<Rightarrow> task_id list \<Rightarrow> claim_input \<Rightarrow> database \<Rightarrow> (orch_error, task_row option \<times> database) result" where
  "claim_next_task clk locked i d =
     (if ci_leaseDurationMs i \<le> 0 then Inl (PlainError ''leaseDurationMs must be positive'')
      else
        let now = or_else (ci_now i) clk;
            lane = or_else (ci_lane i) Execution;
            w = lane_work lane (ci_work i) in
        if lane_full lane (ci_maxConcurrentTasks i) d then Inr (None, d)
        else
          let saturated = saturated_repositories lane i d;
              ro = or_else (ci_rollout i) \<lparr>ro_repositories = None, ro_maxNewTasksPerDay = None\<rparr>;
              elig = eligibility w (start_new_tasks w ro now d) ro now d in
          if elig = [] then Inr (None, d)
          else
            case first_least claim_priority (claim_candidates locked saturated elig d) of
              None \<Rightarrow> Inr (None, d)
            | Some t \<Rightarrow> and_then (take_task clk now i t d) (\<lambda>(u, d'). Inr (Some u, d')))"

definition claim_next_queued_task ::
  "time \<Rightarrow> task_id list \<Rightarrow> worker \<Rightarrow> int \<Rightarrow> time option \<Rightarrow> database
     \<Rightarrow> (orch_error, task_row option \<times> database) result" where
  "claim_next_queued_task clk locked w ms now d =
     claim_next_task clk locked
       \<lparr>ci_leaseOwner = w, ci_leaseDurationMs = ms, ci_now = now,
        ci_work = \<lparr>cw_queued = True, cw_parkedStates = [], cw_scheduleResumeStates = [], cw_limitResumeStates = []\<rparr>,
        ci_maxConcurrentTasks = None, ci_lane = None, ci_repositoryLimits = None, ci_rollout = None\<rparr> d"

section \<open>Transitions and leases by id\<close>

record task_transition_input =
  ti_taskId :: task_id
  ti_to :: task_state
  ti_reason :: "string option"
  ti_resumeState :: "task_state option"
  ti_pauseReason :: "pause_reason option"
  ti_resumeAfter :: "time option"
  ti_leaseOwner :: "worker option"
  ti_releaseLease :: bool
  ti_lastError :: "string option option"
  ti_requiresManualIntervention :: "bool option"
  ti_incrementCounter :: "attempt_counter option"

definition task_to :: "task_id \<Rightarrow> task_state \<Rightarrow> task_transition_input" where
  "task_to i s = \<lparr>ti_taskId = i, ti_to = s, ti_reason = None, ti_resumeState = None,
     ti_pauseReason = None, ti_resumeAfter = None, ti_leaseOwner = None, ti_releaseLease = False,
     ti_lastError = None, ti_requiresManualIntervention = None, ti_incrementCounter = None\<rparr>"

definition locked_input_of :: "task_transition_input \<Rightarrow> locked_transition_input" where
  "locked_input_of i = \<lparr>li_to = ti_to i, li_reason = ti_reason i, li_resumeState = ti_resumeState i,
     li_pauseReason = ti_pauseReason i, li_resumeAfter = ti_resumeAfter i, li_leaseOwner = ti_leaseOwner i,
     li_allowExpiredLease = False, li_requiresManualIntervention = ti_requiresManualIntervention i,
     li_lastError = ti_lastError i, li_clearCancelRequest = False,
     li_incrementCounter = ti_incrementCounter i, li_resetAttemptCounters = False,
     li_lease = (if ti_releaseLease i then Some cleared_lease else None)\<rparr>"

definition transition_task_row ::
  "time \<Rightarrow> task_transition_input \<Rightarrow> database \<Rightarrow> (orch_error, task_row \<times> database) result" where
  "transition_task_row clk i d =
     (case select_task (ti_taskId i) d of
        None \<Rightarrow> Inl (PlainError (''Task not found: '' @ ti_taskId i))
      | Some task \<Rightarrow> transition_locked_task clk task (locked_input_of i) d)"

text \<open>
  An update of the one row that the worker holds the lease of: the shape of \<open>releaseLease\<close>,
  \<open>deferTask\<close>, \<open>heartbeat\<close> and \<open>recordModelSelection\<close>.
\<close>

definition update_leased ::
  "task_id \<Rightarrow> worker \<Rightarrow> (task_row \<Rightarrow> task_row) \<Rightarrow> database \<Rightarrow> (orch_error, task_row \<times> database) result" where
  "update_leased i w f d =
     (case updated_task (holds_lease i w) f d of
        None \<Rightarrow> Inl (LeaseOwnershipError i)
      | Some u \<Rightarrow> Inr (u, update_tasks (holds_lease i w) f d))"

definition release_lease ::
  "time \<Rightarrow> task_id \<Rightarrow> worker \<Rightarrow> string option \<Rightarrow> bool option \<Rightarrow> database
     \<Rightarrow> (orch_error, task_row \<times> database) result" where
  "release_lease clk i w lastError manual d =
     update_leased i w (\<lambda>t. (set_lease (Some cleared_lease) t)
       \<lparr>t_updatedAt := clk,
        t_lastError := (case lastError of None \<Rightarrow> t_lastError t | Some e \<Rightarrow> Some e),
        t_requiresManualIntervention := or_else manual (t_requiresManualIntervention t)\<rparr>) d"

definition defer_task ::
  "time \<Rightarrow> task_id \<Rightarrow> worker \<Rightarrow> time \<Rightarrow> string option option \<Rightarrow> database
     \<Rightarrow> (orch_error, task_row \<times> database) result" where
  "defer_task clk i w until lastError d =
     update_leased i w (\<lambda>t. (set_lease (Some cleared_lease) t)
       \<lparr>t_resumeAfter := Some until, t_updatedAt := clk, t_lastError := or_else lastError (t_lastError t)\<rparr>) d"

definition heartbeat ::
  "task_id \<Rightarrow> worker \<Rightarrow> int \<Rightarrow> time \<Rightarrow> database \<Rightarrow> (orch_error, task_row \<times> database) result" where
  "heartbeat i w ms now d =
     (if ms \<le> 0 then Inl (PlainError ''leaseDurationMs must be positive'')
      else update_leased i w (\<lambda>t. t\<lparr>t_leaseExpiresAt := Some (now + ms), t_lastHeartbeatAt := Some now,
             t_updatedAt := now\<rparr>) d)"

definition record_model_selection ::
  "time \<Rightarrow> task_id \<Rightarrow> worker \<Rightarrow> string \<Rightarrow> string \<Rightarrow> string \<Rightarrow> database
     \<Rightarrow> (orch_error, task_row \<times> database) result" where
  "record_model_selection clk i w tier model effort d =
     update_leased i w (\<lambda>t. t\<lparr>t_selectedModelTier := Some tier, t_selectedModel := Some model,
       t_reasoningEffort := Some effort, t_updatedAt := clk\<rparr>) d"

definition state_entered_at :: "task_id \<Rightarrow> task_state \<Rightarrow> database \<Rightarrow> time option" where
  "state_entered_at i s d =
     (case filter (\<lambda>r. st_taskId r = i \<and> st_toState r = s) (db_transitions d) of
        [] \<Rightarrow> None
      | rows \<Rightarrow> Some (Max (st_createdAt ` set rows)))"

section \<open>Recovery\<close>

text \<open>
  One candidate of \<open>recoverLeases\<close>: a state without a transition to \<open>BLOCKED\<close> is only flagged.
  \<open>out\<close> accumulates the recovered rows.
\<close>

definition recover_one ::
  "time \<Rightarrow> string \<Rightarrow> task_row \<Rightarrow> task_row list \<times> database \<Rightarrow> (orch_error, task_row list \<times> database) result" where
  "recover_one clk reason t s =
     (case s of (out, d) \<Rightarrow>
       if can_transition (t_state t) BLOCKED then
         and_then (transition_locked_task clk t
           ((transition_to BLOCKED)\<lparr>li_reason := Some reason, li_allowExpiredLease := True,
              li_requiresManualIntervention := Some True, li_lease := Some cleared_lease\<rparr>) d)
           (\<lambda>(u, d'). Inr (out @ [u], d'))
       else
         let f = (\<lambda>r. (set_lease (Some cleared_lease) r)
                    \<lparr>t_requiresManualIntervention := True, t_lastError := Some reason, t_updatedAt := clk\<rparr>) in
         Inr (case updated_task (task_has_id (t_id t)) f d of
                None \<Rightarrow> (out, d)
              | Some u \<Rightarrow> (out @ [u], update_tasks (task_has_id (t_id t)) f d)))"

definition recovery_candidates :: "task_id list \<Rightarrow> (task_row \<Rightarrow> bool) \<Rightarrow> database \<Rightarrow> task_row list" where
  "recovery_candidates locked condition d =
     filter (\<lambda>t. t_leaseOwner t \<noteq> None \<and> condition t \<and> t_state t \<notin> {BLOCKED, COMPLETED, CANCELLED}
        \<and> t_id t \<notin> set locked) (db_tasks d)"

definition recover_leases ::
  "time \<Rightarrow> task_id list \<Rightarrow> (task_row \<Rightarrow> bool) \<Rightarrow> string \<Rightarrow> database
     \<Rightarrow> (orch_error, task_row list \<times> database) result" where
  "recover_leases clk locked condition reason d =
     fold_result (recover_one clk reason) (recovery_candidates locked condition d) ([], d)"

definition lease_expired :: "time \<Rightarrow> task_row \<Rightarrow> bool" where
  "lease_expired now t = (case t_leaseExpiresAt t of None \<Rightarrow> False | Some e \<Rightarrow> e < now)"

definition recover_expired_leases ::
  "time \<Rightarrow> task_id list \<Rightarrow> time \<Rightarrow> database \<Rightarrow> (orch_error, task_row list \<times> database) result" where
  "recover_expired_leases clk locked now d =
     recover_leases clk locked (lease_expired now) ''Lease expired; manual recovery required'' d"

definition recover_leases_owned_by ::
  "time \<Rightarrow> task_id list \<Rightarrow> worker \<Rightarrow> database \<Rightarrow> (orch_error, task_row list \<times> database) result" where
  "recover_leases_owned_by clk locked w d =
     recover_leases clk locked (\<lambda>t. t_leaseOwner t = Some w)
       ''Worker restarted while holding lease; manual recovery required'' d"

end
