(* ===== verification/TaskStore.thy ===== *)
theory TaskStore
  imports TaskRepository
begin

text \<open>
  Correctness of the task table: what a transition does to the row and the history, the
  well-formedness of the store that every operation keeps (unique ids, resumable pauses, leases
  with an expiry, a recorded history that is a path of the state machine), the lease contract of
  the operations a lease holder calls, and claims and recovery.
\<close>

section \<open>Transitions\<close>

lemma set_lease_simps [simp]:
  "t_id (set_lease l t) = t_id t"
  "t_state (set_lease l t) = t_state t"
  "t_resumeState (set_lease l t) = t_resumeState t"
  "t_requiresManualIntervention (set_lease l t) = t_requiresManualIntervention t"
  "t_cancelRequestedAt (set_lease l t) = t_cancelRequestedAt t"
  "t_resumeAfter (set_lease l t) = t_resumeAfter t"
  "t_implementationAttempts (set_lease l t) = t_implementationAttempts t"
  "t_qualityFixAttempts (set_lease l t) = t_qualityFixAttempts t"
  "t_reviewAttempts (set_lease l t) = t_reviewAttempts t"
  "t_leaseOwner (set_lease None t) = t_leaseOwner t"
  "t_leaseExpiresAt (set_lease None t) = t_leaseExpiresAt t"
  "t_leaseOwner (set_lease (Some v) t) = ls_owner v"
  "t_leaseExpiresAt (set_lease (Some v) t) = ls_expiresAt v"
  by (simp_all add: set_lease_def split: option.splits)

lemma increment_counter_simps [simp]:
  "t_id (increment_counter c o' t) = t_id t"
  "t_state (increment_counter c o' t) = t_state t"
  "t_resumeState (increment_counter c o' t) = t_resumeState t"
  "t_leaseOwner (increment_counter c o' t) = t_leaseOwner t"
  "t_leaseExpiresAt (increment_counter c o' t) = t_leaseExpiresAt t"
  "t_requiresManualIntervention (increment_counter c o' t) = t_requiresManualIntervention t"
  "t_cancelRequestedAt (increment_counter c o' t) = t_cancelRequestedAt t"
  "t_resumeAfter (increment_counter c o' t) = t_resumeAfter t"
  by (simp_all add: increment_counter_def split: option.splits attempt_counter.splits)

lemma reset_counters_simps [simp]:
  "t_id (reset_counters b t) = t_id t"
  "t_state (reset_counters b t) = t_state t"
  "t_resumeState (reset_counters b t) = t_resumeState t"
  "t_leaseOwner (reset_counters b t) = t_leaseOwner t"
  "t_leaseExpiresAt (reset_counters b t) = t_leaseExpiresAt t"
  "t_requiresManualIntervention (reset_counters b t) = t_requiresManualIntervention t"
  "t_cancelRequestedAt (reset_counters b t) = t_cancelRequestedAt t"
  "t_resumeAfter (reset_counters b t) = t_resumeAfter t"
  by (simp_all add: reset_counters_def)

lemma transition_updates_simps [simp]:
  "t_id (transition_updates now task i tn t) = t_id t"
  "t_state (transition_updates now task i tn t) = tn_to tn"
  "t_resumeState (transition_updates now task i tn t) = tn_resumeState tn"
  "t_requiresManualIntervention (transition_updates now task i tn t) =
     or_else (li_requiresManualIntervention i) (t_requiresManualIntervention task)"
  "t_leaseOwner (transition_updates now task i tn t) =
     (case li_lease i of None \<Rightarrow> t_leaseOwner t | Some v \<Rightarrow> ls_owner v)"
  "t_leaseExpiresAt (transition_updates now task i tn t) =
     (case li_lease i of None \<Rightarrow> t_leaseExpiresAt t | Some v \<Rightarrow> ls_expiresAt v)"
  "t_resumeAfter (transition_updates now task i tn t) =
     (if is_paused (tn_to tn) then li_resumeAfter i else None)"
  "t_cancelRequestedAt (transition_updates now task i tn t) =
     (if li_clearCancelRequest i then None else t_cancelRequestedAt t)"
  by (simp_all add: transition_updates_def split: option.splits)

lemma transition_updates_counters [simp]:
  "t_implementationAttempts (transition_updates now task i tn t) =
     (if li_incrementCounter i = Some ImplementationAttempts then t_implementationAttempts t + 1
      else if li_resetAttemptCounters i then 0 else t_implementationAttempts t)"
  "t_qualityFixAttempts (transition_updates now task i tn t) =
     (if li_incrementCounter i = Some QualityFixAttempts then t_qualityFixAttempts t + 1
      else if li_resetAttemptCounters i then 0 else t_qualityFixAttempts t)"
  "t_reviewAttempts (transition_updates now task i tn t) =
     (if li_incrementCounter i = Some ReviewAttempts then t_reviewAttempts t + 1
      else if li_resetAttemptCounters i then 0 else t_reviewAttempts t)"
  by (simp_all add: transition_updates_def increment_counter_def reset_counters_def
      split: option.splits attempt_counter.splits)

text \<open>A transition that succeeded: what was checked, the row it returns and the new store.\<close>

lemma transition_locked_task_Inr:
  assumes "transition_locked_task now task i d = Inr (u, d')"
  obtains tn where "lease_guard task i = Inr ()"
    and "transition_task (t_state task) (li_to i) \<lparr>det_reason = li_reason i,
           det_resumeState = li_resumeState i, det_pauseReason = li_pauseReason i\<rparr> = Inr tn"
    and "tn_from tn = t_state task" and "tn_to tn = li_to i" and "tn_resumeState tn = li_resumeState i"
    and "updated_task (task_has_id (t_id task)) (transition_updates now task i tn) d = Some u"
    and "db_tasks d' = update_where (task_has_id (t_id task)) (transition_updates now task i tn) (db_tasks d)"
    and "db_transitions d' = db_transitions d @ [history_entry now (t_id task) tn]"
    and "d' = (update_tasks (task_has_id (t_id task)) (transition_updates now task i tn) d)
           \<lparr>db_transitions := db_transitions d @ [history_entry now (t_id task) tn]\<rparr>"
proof -
  from assms obtain tn where
    "lease_guard task i = Inr ()"
    and tn: "transition_task (t_state task) (li_to i) \<lparr>det_reason = li_reason i,
           det_resumeState = li_resumeState i, det_pauseReason = li_pauseReason i\<rparr> = Inr tn"
    and "updated_task (task_has_id (t_id task)) (transition_updates now task i tn) d = Some u"
    and "d' = (update_tasks (task_has_id (t_id task)) (transition_updates now task i tn) d)
           \<lparr>db_transitions := db_transitions d @ [history_entry now (t_id task) tn]\<rparr>"
    by (auto simp: transition_locked_task_def result_simps Let_def split: option.splits)
  with transition_task_Inr [OF tn] show thesis by (intro that) simp_all
qed

section \<open>Well-formed stores\<close>

definition row_ok :: "task_row \<Rightarrow> bool" where
  "row_ok t \<longleftrightarrow>
     (is_paused (t_state t) \<longrightarrow> (\<exists>r. t_resumeState t = Some r \<and> can_transition (t_state t) r))
     \<and> (t_leaseOwner t = None \<longleftrightarrow> t_leaseExpiresAt t = None)
     \<and> 0 \<le> t_implementationAttempts t \<and> 0 \<le> t_qualityFixAttempts t \<and> 0 \<le> t_reviewAttempts t"

text \<open>A list of history rows is a path of the state machine from one state to another.\<close>

fun follows :: "task_state \<Rightarrow> transition_row list \<Rightarrow> task_state \<Rightarrow> bool" where
  "follows s [] e = (s = e)"
| "follows s (r # rs) e =
     (st_fromState r = Some s \<and> can_transition s (st_toState r) \<and> follows (st_toState r) rs e)"

definition history_of :: "task_id \<Rightarrow> database \<Rightarrow> transition_row list" where
  "history_of i d = filter (\<lambda>r. st_taskId r = i) (db_transitions d)"

definition store_ok :: "database \<Rightarrow> bool" where
  "store_ok d \<longleftrightarrow> unique_task_ids d
     \<and> (\<forall>t \<in> set (db_tasks d). row_ok t \<and> follows QUEUED (history_of (t_id t) d) (t_state t))
     \<and> (\<forall>r \<in> set (db_transitions d). st_taskId r \<in> t_id ` set (db_tasks d))"

lemma follows_snoc:
  "follows s (rs @ [r]) e \<longleftrightarrow>
     (\<exists>m. follows s rs m \<and> st_fromState r = Some m \<and> can_transition m (st_toState r) \<and> e = st_toState r)"
  by (induction rs arbitrary: s) auto

lemma store_ok_empty: "store_ok empty_database"
  by (simp add: store_ok_def empty_database_def unique_task_ids_def)

lemma store_okD:
  assumes "store_ok d"
  shows "unique_task_ids d"
    and "t \<in> set (db_tasks d) \<Longrightarrow> row_ok t"
    and "t \<in> set (db_tasks d) \<Longrightarrow> follows QUEUED (history_of (t_id t) d) (t_state t)"
    and "r \<in> set (db_transitions d) \<Longrightarrow> st_taskId r \<in> t_id ` set (db_tasks d)"
  using assms by (auto simp: store_ok_def)

text \<open>Only the tasks and their history matter.\<close>

lemma store_ok_frame:
  "store_ok d \<Longrightarrow> db_tasks d' = db_tasks d \<Longrightarrow> db_transitions d' = db_transitions d \<Longrightarrow> store_ok d'"
  by (simp add: store_ok_def unique_task_ids_def history_of_def)

lemma ids_update_where:
  "(\<And>t. t \<in> set ts \<Longrightarrow> p t \<Longrightarrow> t_id (f t) = t_id t) \<Longrightarrow> map t_id (update_where p f ts) = map t_id ts"
  by (auto simp: update_where_def)

text \<open>An update that leaves identity and state alone and keeps rows well-formed.\<close>

lemma store_ok_update_tasks:
  assumes ok: "store_ok d"
    and f: "\<And>t. t \<in> set (db_tasks d) \<Longrightarrow> p t \<Longrightarrow> row_ok t \<Longrightarrow>
              row_ok (f t) \<and> t_id (f t) = t_id t \<and> t_state (f t) = t_state t"
  shows "store_ok (update_tasks p f d)"
proof -
  have ids: "map t_id (update_where p f (db_tasks d)) = map t_id (db_tasks d)"
    using f store_okD(2) [OF ok] by (intro ids_update_where) blast
  then have "t_id ` set (update_where p f (db_tasks d)) = t_id ` set (db_tasks d)"
    by (metis list.set_map)
  with ids ok f show ?thesis
    unfolding store_ok_def unique_task_ids_def history_of_def
    by (auto simp: set_update_where split: if_splits)
qed

definition lease_ok :: "lease_values option \<Rightarrow> bool" where
  "lease_ok l = (case l of None \<Rightarrow> True | Some v \<Rightarrow> (ls_owner v = None \<longleftrightarrow> ls_expiresAt v = None))"

lemma lease_ok_simps [simp]: "lease_ok None" "lease_ok (Some cleared_lease)"
  by (simp_all add: lease_ok_def cleared_lease_def)

lemma row_ok_transition_updates:
  assumes "row_ok t" and "transition_task (t_state t) (li_to i) det = Inr tn" and "lease_ok (li_lease i)"
  shows "row_ok (transition_updates now t i tn t)"
proof -
  note n = transition_task_Inr [OF assms(2)]
  have "is_paused (tn_to tn) \<longrightarrow> (\<exists>r. tn_resumeState tn = Some r \<and> can_transition (tn_to tn) r)"
    using n by (auto simp: is_paused_def)
  moreover have "t_leaseOwner (transition_updates now t i tn t) = None
      \<longleftrightarrow> t_leaseExpiresAt (transition_updates now t i tn t) = None"
    using assms(1,3) by (auto simp: row_ok_def lease_ok_def split: option.splits)
  ultimately show ?thesis using assms(1) by (simp add: row_ok_def)
qed

lemma transition_locked_task_ok:
  assumes ok: "store_ok d" and mem: "task \<in> set (db_tasks d)" and l: "lease_ok (li_lease i)"
    and step: "transition_locked_task now task i d = Inr (u, d')"
  shows "store_ok d'"
proof -
  from step obtain tn where
    tn: "transition_task (t_state task) (li_to i) \<lparr>det_reason = li_reason i,
           det_resumeState = li_resumeState i, det_pauseReason = li_pauseReason i\<rparr> = Inr tn"
    and "tn_from tn = t_state task"
    and tasks: "db_tasks d' = update_where (task_has_id (t_id task)) (transition_updates now task i tn) (db_tasks d)"
    and hist: "db_transitions d' = db_transitions d @ [history_entry now (t_id task) tn]"
    by (rule transition_locked_task_Inr)
  have ids: "map t_id (db_tasks d') = map t_id (db_tasks d)"
    unfolding tasks by (rule ids_update_where) simp
  then have idset: "t_id ` set (db_tasks d') = t_id ` set (db_tasks d)" by (metis list.set_map)
  have "row_ok t \<and> follows QUEUED (history_of (t_id t) d') (t_state t)" if "t \<in> set (db_tasks d')" for t
  proof -
    from that tasks obtain q where q: "q \<in> set (db_tasks d)"
      "t = (if t_id q = t_id task then transition_updates now task i tn q else q)"
      by (auto simp: set_update_where task_has_id_def)
    show ?thesis
    proof (cases "t_id q = t_id task")
      case True
      then have "q = task" using same_task store_okD(1) ok q(1) mem by blast
      with q True have t: "t = transition_updates now task i tn task" by simp
      have "follows QUEUED (history_of (t_id task) d') (tn_to tn)"
        using store_okD(3) [OF ok mem] hist transition_task_Inr(1,3) [OF tn] \<open>tn_from tn = t_state task\<close>
        by (auto simp: history_of_def history_entry_def follows_snoc)
      then show ?thesis
        using t row_ok_transition_updates [OF store_okD(2) [OF ok mem] tn l] by simp
    next
      case False
      then show ?thesis
        using q store_okD(2,3) [OF ok] hist by (auto simp: history_of_def history_entry_def)
    qed
  qed
  moreover have "unique_task_ids d'"
    using ids store_okD(1) [OF ok] by (simp add: unique_task_ids_def)
  moreover have "\<forall>r \<in> set (db_transitions d'). st_taskId r \<in> t_id ` set (db_tasks d')"
    using hist idset mem store_okD(4) [OF ok] by (auto simp: history_entry_def)
  ultimately show ?thesis unfolding store_ok_def by blast
qed

text \<open>The returned row is the stored one, and the other rows are untouched.\<close>

lemma transition_locked_task_row:
  assumes ok: "unique_task_ids d" and mem: "task \<in> set (db_tasks d)"
    and step: "transition_locked_task now task i d = Inr (u, d')"
  shows "t_id u = t_id task" and "t_state u = li_to i" and "t_resumeState u = li_resumeState i"
    and "t_leaseOwner u = (case li_lease i of None \<Rightarrow> t_leaseOwner task | Some v \<Rightarrow> ls_owner v)"
    and "t_requiresManualIntervention u =
           or_else (li_requiresManualIntervention i) (t_requiresManualIntervention task)"
    and "can_transition (t_state task) (li_to i)"
    and "db_tasks d' = map (\<lambda>t. if t = task then u else t) (db_tasks d)"
proof -
  from step obtain tn where
    tn: "transition_task (t_state task) (li_to i) \<lparr>det_reason = li_reason i,
           det_resumeState = li_resumeState i, det_pauseReason = li_pauseReason i\<rparr> = Inr tn"
    and to: "tn_to tn = li_to i" "tn_resumeState tn = li_resumeState i"
    and u: "updated_task (task_has_id (t_id task)) (transition_updates now task i tn) d = Some u"
    and tasks: "db_tasks d' = update_where (task_has_id (t_id task)) (transition_updates now task i tn) (db_tasks d)"
    by (rule transition_locked_task_Inr)
  have u': "u = transition_updates now task i tn task"
  proof -
    from updated_task_SomeD [OF u] obtain q where q: "q \<in> set (db_tasks d)" "t_id q = t_id task"
      and uq: "u = transition_updates now task i tn q"
      by (auto simp: task_has_id_def)
    from same_task [OF ok q(1) mem q(2)] uq show ?thesis by simp
  qed
  then show "t_id u = t_id task" "t_state u = li_to i" "t_resumeState u = li_resumeState i"
    "t_leaseOwner u = (case li_lease i of None \<Rightarrow> t_leaseOwner task | Some v \<Rightarrow> ls_owner v)"
    "t_requiresManualIntervention u =
       or_else (li_requiresManualIntervention i) (t_requiresManualIntervention task)"
    using to by simp_all
  show "can_transition (t_state task) (li_to i)"
    by (rule transition_task_Inr(1) [OF tn])
  show "db_tasks d' = map (\<lambda>t. if t = task then u else t) (db_tasks d)"
    unfolding tasks update_where_def u'
  proof (rule map_cong [OF refl])
    fix q assume "q \<in> set (db_tasks d)"
    then have "t_id q = t_id task \<longleftrightarrow> q = task" using same_task [OF ok _ mem] by blast
    then show "(if task_has_id (t_id task) q then transition_updates now task i tn q else q)
        = (if q = task then transition_updates now task i tn task else q)"
      by (simp add: task_has_id_def)
  qed
qed

section \<open>Every operation keeps the store well-formed\<close>

lemma transition_task_row_cases:
  assumes "transition_task_row clk i d = Inr (u, d')"
  obtains task where "task \<in> set (db_tasks d)" "t_id task = ti_taskId i"
    "transition_locked_task clk task (locked_input_of i) d = Inr (u, d')"
  using assms by (auto simp: transition_task_row_def split: option.splits dest: select_task_SomeD)

lemma locked_input_lease_ok [simp]: "lease_ok (li_lease (locked_input_of i))"
  by (simp add: locked_input_of_def)

lemma transition_task_row_ok:
  assumes "store_ok d" and "transition_task_row clk i d = Inr (u, d')"
  shows "store_ok d'"
  using assms(2) by (rule transition_task_row_cases)
    (rule transition_locked_task_ok [OF assms(1)], simp_all)

lemma update_leased_ok:
  assumes "store_ok d" and "update_leased i w f d = Inr (u, d')"
    and "\<And>t. holds_lease i w t \<Longrightarrow> row_ok t \<Longrightarrow> row_ok (f t) \<and> t_id (f t) = t_id t \<and> t_state (f t) = t_state t"
  shows "store_ok d'"
  using assms by (auto simp: update_leased_def split: option.splits intro!: store_ok_update_tasks)

lemma row_ok_cleared [simp]:
  "row_ok t \<Longrightarrow> row_ok (set_lease (Some cleared_lease) t)"
  by (auto simp: row_ok_def cleared_lease_def set_lease_def)

lemma row_ok_irrelevant [simp]:
  "row_ok (t\<lparr>t_updatedAt := x\<rparr>) = row_ok t"
  "row_ok (t\<lparr>t_lastError := e\<rparr>) = row_ok t"
  "row_ok (t\<lparr>t_requiresManualIntervention := b\<rparr>) = row_ok t"
  "row_ok (t\<lparr>t_resumeAfter := r\<rparr>) = row_ok t"
  "row_ok (t\<lparr>t_lastHeartbeatAt := r\<rparr>) = row_ok t"
  "row_ok (t\<lparr>t_cancelRequestedAt := r\<rparr>) = row_ok t"
  "row_ok (t\<lparr>t_selectedModelTier := m\<rparr>) = row_ok t"
  "row_ok (t\<lparr>t_selectedModel := m\<rparr>) = row_ok t"
  "row_ok (t\<lparr>t_reasoningEffort := m\<rparr>) = row_ok t"
  by (simp_all add: row_ok_def)

lemma release_lease_ok:
  "store_ok d \<Longrightarrow> release_lease clk i w e m d = Inr (u, d') \<Longrightarrow> store_ok d'"
  unfolding release_lease_def by (erule (1) update_leased_ok) auto

lemma defer_task_ok:
  "store_ok d \<Longrightarrow> defer_task clk i w until e d = Inr (u, d') \<Longrightarrow> store_ok d'"
  unfolding defer_task_def by (erule (1) update_leased_ok) auto

lemma record_model_selection_ok:
  "store_ok d \<Longrightarrow> record_model_selection clk i w a b c d = Inr (u, d') \<Longrightarrow> store_ok d'"
  unfolding record_model_selection_def by (erule (1) update_leased_ok) auto

lemma heartbeat_ok:
  "store_ok d \<Longrightarrow> heartbeat i w ms now d = Inr (u, d') \<Longrightarrow> store_ok d'"
  unfolding heartbeat_def
  by (simp split: if_splits, erule (1) update_leased_ok) (auto simp: row_ok_def holds_lease_def)

lemma take_task_ok:
  assumes ok: "store_ok d" and mem: "t \<in> set (db_tasks d)" and step: "take_task clk now i t d = Inr (u, d')"
  shows "store_ok d'"
proof -
  have keep: "row_ok (set_lease (Some \<lparr>ls_owner = Some w, ls_expiresAt = Some e, ls_heartbeatAt = h\<rparr>) r)"
    if "row_ok r" for w e h r
    using that by (auto simp: row_ok_def set_lease_def)
  define l where "l = Some \<lparr>ls_owner = Some (ci_leaseOwner i), ls_expiresAt = Some (now + ci_leaseDurationMs i),
                   ls_heartbeatAt = Some now\<rparr>"
  have l: "lease_ok l" by (simp add: l_def lease_ok_def)
  consider m where "transition_locked_task clk t m d = Inr (u, d')" "li_lease m = l"
    | f where "f = (\<lambda>r. (set_lease l r)\<lparr>t_updatedAt := now\<rparr>)"
        "d' = update_tasks (task_has_id (t_id t)) f d"
    using step by (auto simp: take_task_def Let_def l_def split: if_splits option.splits)
  then show ?thesis
  proof cases
    case 1
    then show ?thesis using transition_locked_task_ok [OF ok mem] l by metis
  next
    case 2
    then show ?thesis using store_ok_update_tasks [OF ok] by (simp add: l_def keep)
  qed
qed

lemma claim_next_task_cases:
  assumes "claim_next_task clk locked i d = Inr (r, d')"
  obtains "r = None" "d' = d"
  | t u elig where "r = Some u" "0 < ci_leaseDurationMs i"
      "\<not> lane_full (or_else (ci_lane i) Execution) (ci_maxConcurrentTasks i) d"
      "elig = eligibility (lane_work (or_else (ci_lane i) Execution) (ci_work i))
         (start_new_tasks (lane_work (or_else (ci_lane i) Execution) (ci_work i))
            (or_else (ci_rollout i) \<lparr>ro_repositories = None, ro_maxNewTasksPerDay = None\<rparr>)
            (or_else (ci_now i) clk) d)
         (or_else (ci_rollout i) \<lparr>ro_repositories = None, ro_maxNewTasksPerDay = None\<rparr>)
         (or_else (ci_now i) clk) d"
      "first_least claim_priority (claim_candidates locked
         (saturated_repositories (or_else (ci_lane i) Execution) i d) elig d) = Some t"
      "take_task clk (or_else (ci_now i) clk) i t d = Inr (u, d')"
  using assms
  by (auto simp: claim_next_task_def Let_def result_simps split: if_splits option.splits)

lemma claim_candidates_mem:
  "t \<in> set (claim_candidates locked sat elig d) \<Longrightarrow> t \<in> set (db_tasks d)"
  by (auto simp: claim_candidates_def)

lemma claim_next_task_ok:
  assumes "store_ok d" and "claim_next_task clk locked i d = Inr (r, d')"
  shows "store_ok d'"
  using assms(2)
  by (cases rule: claim_next_task_cases)
    (use assms(1) in \<open>auto dest!: first_least_mem claim_candidates_mem intro: take_task_ok\<close>)

lemma create_task_ok:
  assumes ok: "store_ok d" and step: "create_task i uid now c d = Inr (u, d')"
  shows "store_ok d'"
proof -
  from step have fresh: "i \<notin> t_id ` set (db_tasks d)" and u: "u = new_task i now c"
    and d': "db_tasks d' = db_tasks d @ [new_task i now c]" "db_transitions d' = db_transitions d"
    by (auto simp: create_task_def Let_def split: if_splits)
  have none: "history_of i d = []"
    using fresh store_okD(4) [OF ok] by (auto simp: history_of_def filter_empty_conv)
  have "t_id (new_task i now c) = i" "t_state (new_task i now c) = QUEUED" "row_ok (new_task i now c)"
    by (simp_all add: new_task_def row_ok_def is_paused_def)
  with ok none d' fresh show ?thesis
    unfolding store_ok_def unique_task_ids_def history_of_def by (auto simp: image_iff)
qed

lemma upsert_discovered_task_ok:
  "store_ok d \<Longrightarrow> upsert_discovered_task lc i uid now c d = Inr (r, d') \<Longrightarrow> store_ok d'"
  by (auto simp: upsert_discovered_task_def result_simps split: option.splits if_splits
      dest: create_task_ok)

lemma replace_dependencies_ok:
  "store_ok d \<Longrightarrow> replace_dependencies now i bs d = Inr d' \<Longrightarrow> store_ok d'"
  by (erule store_ok_frame) (auto simp: replace_dependencies_def split: if_splits)

lemma quarantine_intake_ok: "store_ok d \<Longrightarrow> store_ok (quarantine_intake now a b c p d)"
  by (erule store_ok_frame) (simp_all add: quarantine_intake_def)

section \<open>Recovery\<close>

text \<open>What recovery makes of a row, and the history row it appends.\<close>

definition recovery_transition :: "string \<Rightarrow> task_row \<Rightarrow> state_transition" where
  "recovery_transition reason t = \<lparr>tn_from = t_state t, tn_to = BLOCKED, tn_reason = Some reason,
     tn_resumeState = None, tn_pauseReason = None\<rparr>"

definition recovery_input :: "string \<Rightarrow> locked_transition_input" where
  "recovery_input reason = (transition_to BLOCKED)\<lparr>li_reason := Some reason, li_allowExpiredLease := True,
     li_requiresManualIntervention := Some True, li_lease := Some cleared_lease\<rparr>"

definition recovered_row :: "time \<Rightarrow> string \<Rightarrow> task_row \<Rightarrow> task_row" where
  "recovered_row clk reason t =
     transition_updates clk t (recovery_input reason) (recovery_transition reason t) t"

definition recovered_store :: "time \<Rightarrow> string \<Rightarrow> task_row list \<Rightarrow> database \<Rightarrow> database" where
  "recovered_store clk reason cs d = d\<lparr>
     db_tasks := map (\<lambda>t. if t \<in> set cs then recovered_row clk reason t else t) (db_tasks d),
     db_transitions := db_transitions d
       @ map (\<lambda>t. history_entry clk (t_id t) (recovery_transition reason t)) cs\<rparr>"

lemma recovered_row_simps [simp]:
  "t_id (recovered_row clk reason t) = t_id t"
  "t_state (recovered_row clk reason t) = BLOCKED"
  "t_leaseOwner (recovered_row clk reason t) = None"
  "t_leaseExpiresAt (recovered_row clk reason t) = None"
  "t_requiresManualIntervention (recovered_row clk reason t) = True"
  by (simp_all add: recovered_row_def recovery_transition_def recovery_input_def transition_to_def
      cleared_lease_def)

lemma recover_one_eq:
  assumes ids: "unique_task_ids d" and mem: "t \<in> set (db_tasks d)" and can: "can_transition (t_state t) BLOCKED"
  shows "recover_one clk reason t (out, d) =
           Inr (out @ [recovered_row clk reason t], recovered_store clk reason [t] d)"
proof -
  have lg: "lease_guard t (recovery_input reason) = Inr ()"
    by (simp add: lease_guard_def recovery_input_def transition_to_def)
  have tt: "transition_task (t_state t) (li_to (recovery_input reason))
      \<lparr>det_reason = li_reason (recovery_input reason), det_resumeState = li_resumeState (recovery_input reason),
       det_pauseReason = li_pauseReason (recovery_input reason)\<rparr> = Inr (recovery_transition reason t)"
    using can by (simp add: transition_task_def recovery_input_def transition_to_def recovery_transition_def)
  let ?f = "transition_updates clk t (recovery_input reason) (recovery_transition reason t)"
  have only: "q = t" if "q \<in> set (db_tasks d)" "t_id q = t_id t" for q
    using same_task [OF ids that(1) mem that(2)] .
  have up: "updated_task (task_has_id (t_id t)) ?f d = Some (recovered_row clk reason t)"
  proof (cases "updated_task (task_has_id (t_id t)) ?f d")
    case None
    with mem show ?thesis by (auto simp: updated_task_None_iff task_has_id_def)
  next
    case (Some u)
    from updated_task_SomeD [OF Some] only Some show ?thesis
      by (auto simp: recovered_row_def task_has_id_def)
  qed
  have "update_where (task_has_id (t_id t)) ?f (db_tasks d)
      = map (\<lambda>q. if q \<in> set [t] then recovered_row clk reason q else q) (db_tasks d)"
    unfolding update_where_def
  proof (rule map_cong [OF refl])
    fix q assume "q \<in> set (db_tasks d)"
    then have "t_id q = t_id t \<longleftrightarrow> q = t" using only by blast
    then show "(if task_has_id (t_id t) q then ?f q else q)
        = (if q \<in> set [t] then recovered_row clk reason q else q)"
      by (auto simp: task_has_id_def recovered_row_def)
  qed
  then have "(update_tasks (task_has_id (t_id t)) ?f d)
        \<lparr>db_transitions := db_transitions d @ [history_entry clk (t_id t) (recovery_transition reason t)]\<rparr>
      = recovered_store clk reason [t] d"
    by (simp add: update_tasks_def recovered_store_def)
  then show ?thesis
    using can lg tt up
    by (simp add: recover_one_def transition_locked_task_def recovery_input_def [symmetric] Let_def)
qed

lemma recovered_store_frame:
  "unique_task_ids (recovered_store clk reason cs d) = unique_task_ids d"
  by (auto simp: unique_task_ids_def recovered_store_def comp_def intro!: arg_cong [where f = distinct])

lemma recovered_store_Cons:
  assumes ids: "unique_task_ids d" and mem: "t \<in> set (db_tasks d)" "set cs \<subseteq> set (db_tasks d)"
    and new: "t \<notin> set cs"
  shows "recovered_store clk reason cs (recovered_store clk reason [t] d) = recovered_store clk reason (t # cs) d"
proof -
  have "recovered_row clk reason t \<notin> set cs"
  proof
    assume r: "recovered_row clk reason t \<in> set cs"
    then have "recovered_row clk reason t = t" using same_task [OF ids _ mem(1)] mem(2) by auto
    with r new show False by simp
  qed
  then show ?thesis by (auto simp: recovered_store_def new)
qed

text \<open>Recovery never fails and does exactly this to every candidate; the defensive branch is dead.\<close>

lemma fold_recover_eq:
  assumes "unique_task_ids d" and "set cs \<subseteq> set (db_tasks d)" and "distinct cs"
    and "\<forall>t \<in> set cs. can_transition (t_state t) BLOCKED"
  shows "fold_result (recover_one clk reason) cs (out, d) =
           Inr (out @ map (recovered_row clk reason) cs, recovered_store clk reason cs d)"
  using assms
proof (induction cs arbitrary: out d)
  case Nil
  then show ?case by (simp add: recovered_store_def)
next
  case (Cons t cs)
  let ?d = "recovered_store clk reason [t] d"
  have "set cs \<subseteq> set (db_tasks ?d)"
    using Cons.prems(2,3) by (auto simp: recovered_store_def image_iff)
  moreover have "unique_task_ids ?d" using Cons.prems(1) by (simp add: recovered_store_frame)
  ultimately have "fold_result (recover_one clk reason) cs (out @ [recovered_row clk reason t], ?d)
      = Inr ((out @ [recovered_row clk reason t]) @ map (recovered_row clk reason) cs,
             recovered_store clk reason cs ?d)"
    using Cons.IH Cons.prems by simp
  then show ?case
    using Cons.prems by (simp add: recover_one_eq recovered_store_Cons)
qed

lemma recovery_candidates_props:
  "unique_task_ids d \<Longrightarrow> distinct (recovery_candidates locked cnd d)"
  "set (recovery_candidates locked cnd d) \<subseteq> set (db_tasks d)"
  "t \<in> set (recovery_candidates locked cnd d) \<Longrightarrow> can_transition (t_state t) BLOCKED"
  by (auto simp: recovery_candidates_def unique_task_ids_def distinct_map blocked_reachable_iff)

lemma recover_leases_eq:
  assumes "unique_task_ids d"
  shows "recover_leases clk locked cnd reason d =
    Inr (map (recovered_row clk reason) (recovery_candidates locked cnd d),
         recovered_store clk reason (recovery_candidates locked cnd d) d)"
  using fold_recover_eq [OF assms recovery_candidates_props(2) recovery_candidates_props(1) [OF assms]]
    recovery_candidates_props(3)
  by (simp add: recover_leases_def)

lemma recover_leases_ok:
  assumes "store_ok d" and "recover_leases clk locked cnd reason d = Inr (out, d')"
  shows "store_ok d'"
proof -
  define cs where "cs = recovery_candidates locked cnd d"
  have d': "d' = recovered_store clk reason cs d"
    using assms recover_leases_eq store_okD(1) by (simp add: cs_def)
  have "store_ok (recovered_store clk reason xs d)"
    if "set xs \<subseteq> set (db_tasks d)" "distinct xs" "\<forall>t \<in> set xs. can_transition (t_state t) BLOCKED" for xs
    using that
  proof (induction xs rule: rev_induct)
    case Nil
    show ?case by (rule store_ok_frame [OF assms(1)]) (simp_all add: recovered_store_def)
  next
    case (snoc t xs)
    let ?d = "recovered_store clk reason xs d"
    have ok: "store_ok ?d" using snoc by simp
    have mem: "t \<in> set (db_tasks ?d)" using snoc.prems by (auto simp: recovered_store_def image_iff)
    have "transition_locked_task clk t (recovery_input reason) ?d
        = Inr (recovered_row clk reason t, recovered_store clk reason [t] ?d)"
      using recover_one_eq [OF store_okD(1) [OF ok] mem, of clk reason "[]"] snoc.prems(3)
      by (auto simp: recover_one_def recovery_input_def [symmetric] result_simps)
    then have "store_ok (recovered_store clk reason [t] ?d)"
      by (rule transition_locked_task_ok [OF ok mem, rotated]) (simp add: recovery_input_def)
    moreover have "recovered_store clk reason [t] ?d = recovered_store clk reason (xs @ [t]) d"
    proof -
      have "recovered_row clk reason q \<noteq> t" if "q \<in> set xs" for q
      proof
        assume eq: "recovered_row clk reason q = t"
        with that snoc.prems(1) have "q = t"
          using same_task [OF store_okD(1) [OF assms(1)], of q t] by auto
        with that snoc.prems(2) show False by simp
      qed
      then show ?thesis by (auto simp: recovered_store_def)
    qed
    ultimately show ?case by simp
  qed
  then show ?thesis
    unfolding d' using recovery_candidates_props store_okD(1) [OF assms(1)] by (simp add: cs_def)
qed

end
