(* ===== verification/Claims.thy ===== *)
theory Claims
  imports TaskStore
begin

text \<open>
  The contracts of the task table: which rows a claim may take and what it does to them, the
  limits a claim respects (lane, repository, canary), the lease contract shared by the
  operations of a lease holder, and what recovery leaves behind.
\<close>

section \<open>The lease contract\<close>

text \<open>
  The operations a worker calls on the task it holds. A provider refuses every caller that does
  not hold the lease and leaves the rows of other tasks alone; a client of the interface then
  knows that at most one worker succeeds.
\<close>

locale lease_contract =
  fixes tid :: task_id
    and opn :: "worker \<Rightarrow> database \<Rightarrow> (orch_error, task_row \<times> database) result"
  assumes refuses: "\<not> leased_by tid w d \<Longrightarrow> opn w d = Inl (LeaseOwnershipError tid)"
    and accepts: "leased_by tid w d \<Longrightarrow> \<exists>u d'. opn w d = Inr (u, d')"
    and others_kept: "opn w d = Inr (u, d') \<Longrightarrow> t \<in> set (db_tasks d) \<Longrightarrow> t_id t \<noteq> tid \<Longrightarrow> t \<in> set (db_tasks d')"
    and state_kept: "opn w d = Inr (u, d') \<Longrightarrow> map (\<lambda>t. (t_id t, t_state t)) (db_tasks d') = map (\<lambda>t. (t_id t, t_state t)) (db_tasks d)"
    and history_kept: "opn w d = Inr (u, d') \<Longrightarrow> db_transitions d' = db_transitions d"
begin

lemma succeeds_iff: "(\<exists>r. opn w d = Inr r) \<longleftrightarrow> leased_by tid w d"
proof (cases "leased_by tid w d")
  case True
  with accepts show ?thesis by blast
next
  case False
  with refuses show ?thesis by auto
qed

lemma exclusive:
  assumes "unique_task_ids d" and "opn w d = Inr r" and "w' \<noteq> w"
  shows "opn w' d = Inl (LeaseOwnershipError tid)"
proof (rule refuses)
  from assms(2) succeeds_iff have "leased_by tid w d" by blast
  then show "\<not> leased_by tid w' d"
    using assms(1,3) same_task unfolding leased_by_iff by (metis option.inject)
qed

end

lemma update_leased_refuses: "\<not> leased_by i w d \<Longrightarrow> update_leased i w f d = Inl (LeaseOwnershipError i)"
  by (auto simp: update_leased_def leased_by_iff holds_lease_def updated_task_None_iff split: option.splits
      dest!: updated_task_SomeD)

lemma update_leased_accepts: "leased_by i w d \<Longrightarrow> \<exists>u d'. update_leased i w f d = Inr (u, d')"
  by (auto simp: update_leased_def leased_by_iff holds_lease_def updated_task_None_iff split: option.splits)

lemma update_leased_Inr:
  "update_leased i w f d = Inr (u, d') \<Longrightarrow>
     d' = update_tasks (holds_lease i w) f d \<and> (\<exists>t \<in> set (db_tasks d). holds_lease i w t \<and> u = f t)"
  by (auto simp: update_leased_def split: option.splits dest: updated_task_SomeD)

lemma update_leased_contract:
  assumes "\<And>w t. t_id (f w t) = t_id t \<and> t_state (f w t) = t_state t"
  shows "lease_contract i (\<lambda>w. update_leased i w (f w))"
proof
  fix w d u d' t
  assume step: "update_leased i w (f w) d = Inr (u, d')"
  note d' = update_leased_Inr [OF step, THEN conjunct1]
  show "db_transitions d' = db_transitions d" by (simp add: d')
  show "map (\<lambda>t. (t_id t, t_state t)) (db_tasks d') = map (\<lambda>t. (t_id t, t_state t)) (db_tasks d)"
    using assms by (simp add: d' map_update_where)
  show "t \<in> set (db_tasks d')" if "t \<in> set (db_tasks d)" "t_id t \<noteq> i"
    using that by (auto simp: d' set_update_where holds_lease_def intro!: bexI [of _ t])
qed (simp_all add: update_leased_refuses update_leased_accepts)

interpretation releasing: lease_contract tid "\<lambda>w. release_lease clk tid w e m" for tid clk e m
  unfolding release_lease_def by (rule update_leased_contract) simp

interpretation deferring: lease_contract tid "\<lambda>w. defer_task clk tid w until e" for tid clk until e
  unfolding defer_task_def by (rule update_leased_contract) simp

interpretation routing_record: lease_contract tid "\<lambda>w. record_model_selection clk tid w a b c" for tid clk a b c
  unfolding record_model_selection_def by (rule update_leased_contract) simp

interpretation beating: lease_contract tid "\<lambda>w. heartbeat tid w (1 + int n) now" for tid n now
  unfolding heartbeat_def by (simp, rule update_leased_contract) simp

section \<open>Claims\<close>

text \<open>What makes a row claimable, as one predicate.\<close>

definition claimable ::
  "claimable_work \<Rightarrow> bool \<Rightarrow> rollout_limits \<Rightarrow> time \<Rightarrow> database \<Rightarrow> task_row \<Rightarrow> bool" where
  "claimable w start ro now d t \<longleftrightarrow>
     (start \<and> t_state t = QUEUED \<and> \<not> unresolved_blockers d (t_id t)
        \<and> (ro_repositories ro = None \<or> \<not> outside_rollout ro d (t_id t)))
     \<or> (t_state t \<in> set (cw_parkedStates w) \<and> due now t)
     \<or> (t_state t = PAUSED_SCHEDULE \<and> resume_in (cw_scheduleResumeStates w) t)
     \<or> (t_state t = PAUSED_LIMIT \<and> resume_in (cw_limitResumeStates w) t \<and> due now t)"

lemma resume_in_Nil [simp]: "\<not> resume_in [] t"
  by (simp add: resume_in_def split: option.splits)

lemma eligibility_iff: "list_ex (\<lambda>p. p t) (eligibility w start ro now d) \<longleftrightarrow> claimable w start ro now d t"
  by (auto simp: eligibility_def claimable_def)

lemma lane_work_simps [simp]:
  "cw_queued (lane_work lane w) \<longleftrightarrow> lane = Execution \<and> cw_queued w"
  "cw_parkedStates (lane_work lane w) = filter (in_lane lane) (cw_parkedStates w)"
  "cw_scheduleResumeStates (lane_work Delivery w) = []"
  "cw_limitResumeStates (lane_work Delivery w) = []"
  "cw_scheduleResumeStates (lane_work Execution w) = cw_scheduleResumeStates w"
  "cw_limitResumeStates (lane_work Execution w) = cw_limitResumeStates w"
  by (simp_all add: lane_work_def)

lemma lane_condition_iff: "lane_condition lane t \<longleftrightarrow> in_lane lane (t_state t)"
  by (cases lane) (simp_all add: lane_condition_def in_lane_def)

text \<open>The state a claimed row moves to.\<close>

definition claimed_state :: "task_row \<Rightarrow> task_state" where
  "claimed_state t =
     (if t_state t = QUEUED then ANALYZING
      else if is_paused (t_state t) \<and> t_resumeState t \<noteq> None then the (t_resumeState t)
      else t_state t)"

lemma take_task_row:
  assumes ids: "unique_task_ids d" and mem: "t \<in> set (db_tasks d)"
    and step: "take_task clk now i t d = Inr (u, d')"
  shows "t_id u = t_id t" and "t_state u = claimed_state t" and "t_leaseOwner u = Some (ci_leaseOwner i)"
    and "db_tasks d' = map (\<lambda>q. if q = t then u else q) (db_tasks d)"
proof -
  define l where "l = \<lparr>ls_owner = Some (ci_leaseOwner i), ls_expiresAt = Some (now + ci_leaseDurationMs i),
                   ls_heartbeatAt = Some now\<rparr>"
  consider m where "transition_locked_task clk t m d = Inr (u, d')" "li_lease m = Some l" "li_to m = claimed_state t"
    | f where "f = (\<lambda>r. (set_lease (Some l) r)\<lparr>t_updatedAt := now\<rparr>)" "claimed_state t = t_state t"
        "updated_task (task_has_id (t_id t)) f d = Some u" "d' = update_tasks (task_has_id (t_id t)) f d"
    using step by (auto simp: take_task_def Let_def l_def claimed_state_def transition_to_def
        split: if_splits option.splits)
  then have "t_id u = t_id t \<and> t_state u = claimed_state t \<and> t_leaseOwner u = Some (ci_leaseOwner i)
      \<and> db_tasks d' = map (\<lambda>q. if q = t then u else q) (db_tasks d)"
  proof cases
    case 1
    then show ?thesis using transition_locked_task_row [OF ids mem 1(1)] by (simp add: l_def)
  next
    case 2
    have only: "t_id q = t_id t \<longleftrightarrow> q = t" if "q \<in> set (db_tasks d)" for q
      using same_task [OF ids that mem] by blast
    from updated_task_SomeD [OF 2(3)] only have u: "u = f t" by (auto simp: task_has_id_def)
    have "map (\<lambda>q. if task_has_id (t_id t) q then f q else q) (db_tasks d)
        = map (\<lambda>q. if q = t then u else q) (db_tasks d)"
      using only u by (intro map_cong refl) (simp add: task_has_id_def)
    then have "db_tasks d' = map (\<lambda>q. if q = t then u else q) (db_tasks d)"
      unfolding 2(4) db_tasks_update_tasks update_where_def .
    moreover have "t_id u = t_id t \<and> t_state u = claimed_state t \<and> t_leaseOwner u = Some (ci_leaseOwner i)"
      by (simp add: u 2(1,2) l_def)
    ultimately show ?thesis by blast
  qed
  then show "t_id u = t_id t" "t_state u = claimed_state t" "t_leaseOwner u = Some (ci_leaseOwner i)"
    "db_tasks d' = map (\<lambda>q. if q = t then u else q) (db_tasks d)" by simp_all
qed

text \<open>A successful claim, in the vocabulary of the specification.\<close>

abbreviation claim_now :: "time \<Rightarrow> claim_input \<Rightarrow> time" where
  "claim_now clk i \<equiv> or_else (ci_now i) clk"

abbreviation claim_lane :: "claim_input \<Rightarrow> claim_lane" where
  "claim_lane i \<equiv> or_else (ci_lane i) Execution"

abbreviation claim_rollout :: "claim_input \<Rightarrow> rollout_limits" where
  "claim_rollout i \<equiv> or_else (ci_rollout i) \<lparr>ro_repositories = None, ro_maxNewTasksPerDay = None\<rparr>"

definition claim_allowed :: "time \<Rightarrow> task_id list \<Rightarrow> claim_input \<Rightarrow> database \<Rightarrow> task_row \<Rightarrow> bool" where
  "claim_allowed clk locked i d t \<longleftrightarrow>
     (let lane = claim_lane i; w = lane_work lane (ci_work i); now = claim_now clk i; ro = claim_rollout i in
      t \<in> set (db_tasks d) \<and> t_leaseOwner t = None \<and> \<not> t_requiresManualIntervention t
      \<and> t_cancelRequestedAt t = None \<and> t_id t \<notin> set locked
      \<and> (\<forall>repo \<in> set (saturated_repositories lane i d). \<not> touches d (t_id t) repo)
      \<and> claimable w (start_new_tasks w ro now d) ro now d t)"

lemma claim_candidates_iff:
  "t \<in> set (claim_candidates locked (saturated_repositories (claim_lane i) i d)
        (eligibility (lane_work (claim_lane i) (ci_work i))
           (start_new_tasks (lane_work (claim_lane i) (ci_work i)) (claim_rollout i) (claim_now clk i) d)
           (claim_rollout i) (claim_now clk i) d) d)
     \<longleftrightarrow> claim_allowed clk locked i d t"
  by (auto simp: claim_candidates_def claim_allowed_def eligibility_iff Let_def)

lemma claim_next_task_Some:
  assumes ids: "unique_task_ids d" and step: "claim_next_task clk locked i d = Inr (Some u, d')"
  obtains t where "claim_allowed clk locked i d t"
    and "\<And>q. claim_allowed clk locked i d q \<Longrightarrow> claim_priority t \<le> claim_priority q"
    and "t_id u = t_id t" and "t_state u = claimed_state t" and "t_leaseOwner u = Some (ci_leaseOwner i)"
    and "db_tasks d' = map (\<lambda>q. if q = t then u else q) (db_tasks d)"
    and "\<not> lane_full (claim_lane i) (ci_maxConcurrentTasks i) d"
proof -
  from step obtain t where
    full: "\<not> lane_full (claim_lane i) (ci_maxConcurrentTasks i) d"
    and least: "first_least claim_priority (claim_candidates locked
         (saturated_repositories (claim_lane i) i d)
         (eligibility (lane_work (claim_lane i) (ci_work i))
           (start_new_tasks (lane_work (claim_lane i) (ci_work i)) (claim_rollout i) (claim_now clk i) d)
           (claim_rollout i) (claim_now clk i) d) d) = Some t"
    and take: "take_task clk (claim_now clk i) i t d = Inr (u, d')"
    by (cases rule: claim_next_task_cases) auto
  have "claim_allowed clk locked i d t"
    using first_least_mem [OF least] claim_candidates_iff by blast
  moreover have "claim_priority t \<le> claim_priority q" if "claim_allowed clk locked i d q" for q
    using first_least_le [OF least] claim_candidates_iff that by blast
  moreover have "t \<in> set (db_tasks d)" using calculation(1) by (simp add: claim_allowed_def Let_def)
  ultimately show thesis
    using that full take_task_row [OF ids _ take] by blast
qed

end
