(* ===== verification/Operator.thy ===== *)
theory Operator
  imports Claims
begin

text \<open>
  Operator controls and operator actions on tasks: \<open>src/repositories/operator.repository.ts\<close>.
  \<open>clk\<close> is the clock of \<open>new Date()\<close>; every successful action appends its audit row.
\<close>

section \<open>Controls\<close>

record controls =
  co_pauseNewWork :: bool
  co_scheduleOverride :: schedule_override
  co_killSwitch :: bool
  co_updatedBy :: "string option"
  co_updatedAt :: time

record operator_context =
  op_actor :: string
  op_reason :: string

datatype action_type =
    PAUSE_NEW_WORK | RESUME_NEW_WORK | SET_SCHEDULE_OVERRIDE | ENGAGE_KILL_SWITCH | RELEASE_KILL_SWITCH
  | RETRY_TASK | CANCEL_TASK | REQUEST_CANCEL_TASK | REQUIRE_MANUAL_INTERVENTION

fun show_action :: "action_type \<Rightarrow> string" where
  "show_action PAUSE_NEW_WORK = ''PAUSE_NEW_WORK''"
| "show_action RESUME_NEW_WORK = ''RESUME_NEW_WORK''"
| "show_action SET_SCHEDULE_OVERRIDE = ''SET_SCHEDULE_OVERRIDE''"
| "show_action ENGAGE_KILL_SWITCH = ''ENGAGE_KILL_SWITCH''"
| "show_action RELEASE_KILL_SWITCH = ''RELEASE_KILL_SWITCH''"
| "show_action RETRY_TASK = ''RETRY_TASK''"
| "show_action CANCEL_TASK = ''CANCEL_TASK''"
| "show_action REQUEST_CANCEL_TASK = ''REQUEST_CANCEL_TASK''"
| "show_action REQUIRE_MANUAL_INTERVENTION = ''REQUIRE_MANUAL_INTERVENTION''"

fun show_override :: "schedule_override \<Rightarrow> string" where
  "show_override OverrideNormal = ''normal''"
| "show_override OverrideEnabled = ''enabled''"
| "show_override OverrideDisabled = ''disabled''"

definition controls_id :: string where
  "controls_id = ''global''"

definition controls_from_row :: "controls_row \<Rightarrow> controls" where
  "controls_from_row r = \<lparr>co_pauseNewWork = oc_pauseNewWork r, co_scheduleOverride = oc_scheduleOverride r,
     co_killSwitch = oc_killSwitch r, co_updatedBy = oc_updatedBy r, co_updatedAt = oc_updatedAt r\<rparr>"

definition default_controls :: controls where
  "default_controls = \<lparr>co_pauseNewWork = False, co_scheduleOverride = OverrideNormal,
     co_killSwitch = False, co_updatedBy = None, co_updatedAt = 0\<rparr>"

definition get_controls :: "database \<Rightarrow> controls" where
  "get_controls d =
     (case first_of (filter (\<lambda>r. oc_id r = controls_id) (db_controls d)) of
        None \<Rightarrow> default_controls
      | Some r \<Rightarrow> controls_from_row r)"

definition audit :: "time \<Rightarrow> action_type \<Rightarrow> operator_context \<Rightarrow> task_id option \<Rightarrow> json_object \<Rightarrow> database \<Rightarrow> database" where
  "audit clk a c tid details d = d\<lparr>db_actions := db_actions d @
     [\<lparr>oa_action = show_action a, oa_actor = op_actor c, oa_reason = op_reason c, oa_taskId = tid,
       oa_details = JObj details, oa_createdAt = clk\<rparr>]\<rparr>"

text \<open>\<open>patch\<close> sets the given fields; a missing row is inserted with the column defaults.\<close>

definition update_controls ::
  "time \<Rightarrow> (controls_row \<Rightarrow> controls_row) \<Rightarrow> action_type \<Rightarrow> operator_context \<Rightarrow> json_object \<Rightarrow> database
     \<Rightarrow> controls \<times> database" where
  "update_controls clk patch a c details d =
     (let f = (\<lambda>r. (patch r)\<lparr>oc_updatedBy := Some (op_actor c), oc_updatedAt := clk\<rparr>);
          isg = (\<lambda>r. oc_id r = controls_id);
          fresh = f \<lparr>oc_id = controls_id, oc_pauseNewWork = False, oc_scheduleOverride = OverrideNormal,
                     oc_killSwitch = False, oc_updatedBy = None, oc_updatedAt = clk\<rparr>;
          rows = (if list_ex isg (db_controls d) then update_where isg f (db_controls d)
                  else db_controls d @ [fresh]);
          row = (case first_of (filter isg (db_controls d)) of None \<Rightarrow> fresh | Some r \<Rightarrow> f r) in
      (controls_from_row row, audit clk a c None details (d\<lparr>db_controls := rows\<rparr>)))"

definition set_pause_new_work :: "time \<Rightarrow> bool \<Rightarrow> operator_context \<Rightarrow> database \<Rightarrow> controls \<times> database" where
  "set_pause_new_work clk paused c d =
     update_controls clk (\<lambda>r. r\<lparr>oc_pauseNewWork := paused\<rparr>)
       (if paused then PAUSE_NEW_WORK else RESUME_NEW_WORK) c [] d"

definition set_kill_switch :: "time \<Rightarrow> bool \<Rightarrow> operator_context \<Rightarrow> database \<Rightarrow> controls \<times> database" where
  "set_kill_switch clk engaged c d =
     update_controls clk (\<lambda>r. r\<lparr>oc_killSwitch := engaged\<rparr>)
       (if engaged then ENGAGE_KILL_SWITCH else RELEASE_KILL_SWITCH) c [] d"

definition set_schedule_override ::
  "time \<Rightarrow> schedule_override \<Rightarrow> operator_context \<Rightarrow> database \<Rightarrow> controls \<times> database" where
  "set_schedule_override clk ov c d =
     update_controls clk (\<lambda>r. r\<lparr>oc_scheduleOverride := ov\<rparr>) SET_SCHEDULE_OVERRIDE c
       [(''scheduleOverride'', JStr (show_override ov))] d"

section \<open>Actions on tasks\<close>

definition with_locked_task ::
  "task_id \<Rightarrow> (task_row \<Rightarrow> database \<Rightarrow> (orch_error, 'a \<times> database) result) \<Rightarrow> database
     \<Rightarrow> (orch_error, 'a \<times> database) result" where
  "with_locked_task i f d =
     (case select_task i d of
        None \<Rightarrow> Inl (OperatorActionError (''Task not found: '' @ i) NOT_FOUND)
      | Some t \<Rightarrow> f t d)"

definition retry_task ::
  "time \<Rightarrow> task_id \<Rightarrow> operator_context \<Rightarrow> database \<Rightarrow> (orch_error, task_row \<times> database) result" where
  "retry_task clk i c = with_locked_task i (\<lambda>t d.
     case t_leaseOwner t of
       Some w \<Rightarrow> Inl (OperatorActionError (''Task '' @ i @ '' is leased by '' @ w) CONFLICT)
     | None \<Rightarrow>
         if \<not> can_transition (t_state t) QUEUED
         then Inl (OperatorActionError
                (''Task '' @ i @ '' cannot be retried from '' @ show_state (t_state t)) CONFLICT)
         else and_then (transition_locked_task clk t ((transition_to QUEUED)
                \<lparr>li_reason := Some (''Operator retry by '' @ op_actor c @ '': '' @ op_reason c),
                 li_requiresManualIntervention := Some False, li_lastError := Some None,
                 li_clearCancelRequest := True, li_resetAttemptCounters := (t_state t = FAILED)\<rparr>) d)
              (\<lambda>(u, d'). Inr (u, audit clk RETRY_TASK c (Some (t_id t))
                 [(''from'', JStr (show_state (t_state t)))] d')))"

definition cancel_task ::
  "time \<Rightarrow> task_id \<Rightarrow> operator_context \<Rightarrow> database \<Rightarrow> (orch_error, (task_row \<times> bool) \<times> database) result" where
  "cancel_task clk i c = with_locked_task i (\<lambda>t d.
     if \<not> can_transition (t_state t) CANCELLED
     then Inl (OperatorActionError
            (''Task '' @ i @ '' cannot be cancelled from '' @ show_state (t_state t)) CONFLICT)
     else case t_leaseOwner t of
       Some w \<Rightarrow>
         (let f = (\<lambda>r. r\<lparr>t_cancelRequestedAt := Some (or_else (t_cancelRequestedAt t) clk), t_updatedAt := clk\<rparr>) in
          case updated_task (task_has_id (t_id t)) f d of
            None \<Rightarrow> Inl (OperatorActionError (''Task not found: '' @ i) NOT_FOUND)
          | Some u \<Rightarrow> Inr ((u, True), audit clk REQUEST_CANCEL_TASK c (Some (t_id t))
              [(''state'', JStr (show_state (t_state t))), (''leaseOwner'', JStr w)]
              (update_tasks (task_has_id (t_id t)) f d)))
     | None \<Rightarrow>
         and_then (transition_locked_task clk t ((transition_to CANCELLED)
            \<lparr>li_reason := Some (''Operator cancellation by '' @ op_actor c @ '': '' @ op_reason c)\<rparr>) d)
          (\<lambda>(u, d'). Inr ((u, False), audit clk CANCEL_TASK c (Some (t_id t))
             [(''from'', JStr (show_state (t_state t)))] d')))"

definition require_manual_intervention ::
  "time \<Rightarrow> task_id \<Rightarrow> operator_context \<Rightarrow> database \<Rightarrow> (orch_error, task_row \<times> database) result" where
  "require_manual_intervention clk i c = with_locked_task i (\<lambda>t d.
     if t_state t = COMPLETED \<or> t_state t = CANCELLED
     then Inl (OperatorActionError (''Task '' @ i @ '' is already '' @ show_state (t_state t)) CONFLICT)
     else
       let note = ''Manual intervention requested by '' @ op_actor c @ '': '' @ op_reason c;
           record_action = audit clk REQUIRE_MANUAL_INTERVENTION c (Some (t_id t))
             [(''state'', JStr (show_state (t_state t))),
              (''leaseOwner'', (case t_leaseOwner t of None \<Rightarrow> JNull | Some w \<Rightarrow> JStr w))] in
       if t_leaseOwner t = None \<and> can_transition (t_state t) BLOCKED
       then and_then (transition_locked_task clk t ((transition_to BLOCKED)
              \<lparr>li_reason := Some note, li_requiresManualIntervention := Some True,
               li_lastError := Some (Some note)\<rparr>) d)
            (\<lambda>(u, d'). Inr (u, record_action d'))
       else
         let f = (\<lambda>r. r\<lparr>t_requiresManualIntervention := True, t_lastError := Some note, t_updatedAt := clk\<rparr>) in
         case updated_task (task_has_id (t_id t)) f d of
           None \<Rightarrow> Inl (OperatorActionError (''Task not found: '' @ i) NOT_FOUND)
         | Some u \<Rightarrow> Inr (u, record_action (update_tasks (task_has_id (t_id t)) f d)))"

section \<open>Queries\<close>

text \<open>\<open>queueSummary\<close>: the tasks of each present state, the leased ones and the flagged ones.\<close>

record queue_summary =
  qs_byState :: "(task_state \<times> int) list"
  qs_leased :: int
  qs_manualIntervention :: int

definition count_where :: "('a \<Rightarrow> bool) \<Rightarrow> 'a list \<Rightarrow> int" where
  "count_where p xs = int (length (filter p xs))"

definition queue_summary_of :: "database \<Rightarrow> queue_summary" where
  "queue_summary_of d =
     (let rows = map (\<lambda>s. (s, filter (\<lambda>t. t_state t = s) (db_tasks d)))
                   (remdups (map t_state (db_tasks d))) in
      \<lparr>qs_byState = map (\<lambda>(s, ts). (s, int (length ts))) rows,
       qs_leased = sum_list (map (\<lambda>(s, ts). count_where (\<lambda>t. t_leaseOwner t \<noteq> None) ts) rows),
       qs_manualIntervention = sum_list (map (\<lambda>(s, ts). count_where t_requiresManualIntervention ts) rows)\<rparr>)"

definition list_actions :: "task_id option \<Rightarrow> nat \<Rightarrow> database \<Rightarrow> action_row list" where
  "list_actions i limit d =
     take limit (rev (sort_key oa_createdAt
       (case i of None \<Rightarrow> db_actions d | Some t \<Rightarrow> filter (\<lambda>a. oa_taskId a = Some t) (db_actions d))))"

section \<open>Controls: read your writes\<close>

lemma get_after_update:
  assumes "\<And>r. oc_id (patch r) = oc_id r"
  shows "get_controls (snd (update_controls clk patch a c details d)) = fst (update_controls clk patch a c details d)"
proof (cases "first_of (filter (\<lambda>r. oc_id r = controls_id) (db_controls d))")
  case None
  with assms show ?thesis
    by (auto simp: update_controls_def get_controls_def Let_def audit_def list_ex_iff filter_empty_conv)
next
  case (Some r)
  define f where "f = (\<lambda>r. (patch r)\<lparr>oc_updatedBy := Some (op_actor c), oc_updatedAt := clk\<rparr>)"
  have f: "oc_id (f q) = oc_id q" for q by (simp add: f_def assms)
  have "first_of (filter (\<lambda>r. oc_id r = controls_id) (update_where (\<lambda>r. oc_id r = controls_id) f rows))
      = map_option f (first_of (filter (\<lambda>r. oc_id r = controls_id) rows))" for rows
    by (induction rows) (auto simp: update_where_def f)
  with Some first_of_SomeD [OF Some] show ?thesis
    by (auto simp: update_controls_def get_controls_def Let_def audit_def list_ex_iff f_def [symmetric])
qed

section \<open>Operator actions keep the store well-formed\<close>

lemma audit_frame [simp]:
  "db_tasks (audit clk a c i details d) = db_tasks d"
  "db_transitions (audit clk a c i details d) = db_transitions d"
  by (simp_all add: audit_def)

lemma store_ok_audit: "store_ok d \<Longrightarrow> store_ok (audit clk a c i details d)"
  by (erule store_ok_frame) simp_all

lemma update_controls_ok: "store_ok d \<Longrightarrow> store_ok (snd (update_controls clk patch a c details d))"
  by (erule store_ok_frame) (simp_all add: update_controls_def Let_def)

lemma with_locked_task_Inr:
  assumes "with_locked_task i f d = Inr r"
  obtains t where "t \<in> set (db_tasks d)" "t_id t = i" "select_task i d = Some t" "f t d = Inr r"
  using assms by (auto simp: with_locked_task_def split: option.splits dest: select_task_SomeD)

lemma retry_task_cases:
  assumes "retry_task clk i c d = Inr (u, d')"
  obtains t m d1 where "t \<in> set (db_tasks d)" "t_id t = i" "t_leaseOwner t = None"
    "t_state t \<in> {BLOCKED, FAILED}" "transition_locked_task clk t m d = Inr (u, d1)"
    "m = (transition_to QUEUED)
       \<lparr>li_reason := Some (''Operator retry by '' @ op_actor c @ '': '' @ op_reason c),
        li_requiresManualIntervention := Some False, li_lastError := Some None,
        li_clearCancelRequest := True, li_resetAttemptCounters := (t_state t = FAILED)\<rparr>"
    "d' = audit clk RETRY_TASK c (Some i) [(''from'', JStr (show_state (t_state t)))] d1"
  using assms unfolding retry_task_def
  by (elim with_locked_task_Inr) (auto simp: result_simps queued_reachable_iff split: option.splits if_splits)

lemma retry_task_ok:
  assumes "store_ok d" and "retry_task clk i c d = Inr (u, d')"
  shows "store_ok d'"
  using assms(2)
proof (cases rule: retry_task_cases)
  case (1 t m d1)
  have "store_ok d1"
    by (rule transition_locked_task_ok [OF assms(1) 1(1) _ 1(5)]) (simp add: 1(6) transition_to_def)
  then show ?thesis using 1(7) by (simp add: store_ok_audit)
qed

lemma flag_update_ok:
  assumes "store_ok d" and "\<And>t. row_ok t \<Longrightarrow> row_ok (f t)"
    and "\<And>t. t_id (f t) = t_id t" and "\<And>t. t_state (f t) = t_state t"
  shows "store_ok (update_tasks p f d)"
  by (rule store_ok_update_tasks [OF assms(1)]) (use assms in auto)

lemma cancel_task_ok:
  assumes ok: "store_ok d" and "cancel_task clk i c d = Inr (r, d')"
  shows "store_ok d'"
proof -
  from assms(2) obtain t where t: "t \<in> set (db_tasks d)"
    and disj: "(\<exists>u d1 m. transition_locked_task clk t m d = Inr (u, d1) \<and> li_lease m = None
            \<and> (\<exists>a x. d' = audit clk a c (Some (t_id t)) x d1))
       \<or> (\<exists>when a x. d' = audit clk a c (Some (t_id t)) x (update_tasks (task_has_id (t_id t))
            (\<lambda>r. r\<lparr>t_cancelRequestedAt := Some when, t_updatedAt := clk\<rparr>) d))"
    unfolding cancel_task_def
    by (elim with_locked_task_Inr)
      (fastforce simp: result_simps Let_def transition_to_def split: option.splits if_splits)
  from disj show ?thesis
  proof (elim disjE exE conjE)
    fix u d1 m a x
    assume step: "transition_locked_task clk t m d = Inr (u, d1)" and "li_lease m = None"
      and d': "d' = audit clk a c (Some (t_id t)) x d1"
    then have "store_ok d1" by (intro transition_locked_task_ok [OF ok t _ step]) simp
    then show ?thesis by (simp add: d' store_ok_audit)
  next
    fix "when" a x
    assume "d' = audit clk a c (Some (t_id t)) x (update_tasks (task_has_id (t_id t))
            (\<lambda>r. r\<lparr>t_cancelRequestedAt := Some when, t_updatedAt := clk\<rparr>) d)"
    then show ?thesis by (simp add: store_ok_audit flag_update_ok [OF ok])
  qed
qed

lemma require_manual_intervention_ok:
  assumes ok: "store_ok d" and "require_manual_intervention clk i c d = Inr (r, d')"
  shows "store_ok d'"
proof -
  from assms(2) obtain t where t: "t \<in> set (db_tasks d)"
    and disj: "(\<exists>u d1 m. transition_locked_task clk t m d = Inr (u, d1) \<and> li_lease m = None
            \<and> (\<exists>a x. d' = audit clk a c (Some (t_id t)) x d1))
       \<or> (\<exists>msg a x. d' = audit clk a c (Some (t_id t)) x (update_tasks (task_has_id (t_id t))
            (\<lambda>r. r\<lparr>t_requiresManualIntervention := True, t_lastError := Some msg, t_updatedAt := clk\<rparr>) d))"
    unfolding require_manual_intervention_def
    by (elim with_locked_task_Inr)
      (fastforce simp: result_simps Let_def transition_to_def split: option.splits if_splits)
  from disj show ?thesis
  proof (elim disjE exE conjE)
    fix u d1 m a x
    assume step: "transition_locked_task clk t m d = Inr (u, d1)" and "li_lease m = None"
      and d': "d' = audit clk a c (Some (t_id t)) x d1"
    then have "store_ok d1" by (intro transition_locked_task_ok [OF ok t _ step]) simp
    then show ?thesis by (simp add: d' store_ok_audit)
  next
    fix msg a x
    assume "d' = audit clk a c (Some (t_id t)) x (update_tasks (task_has_id (t_id t))
            (\<lambda>r. r\<lparr>t_requiresManualIntervention := True, t_lastError := Some msg, t_updatedAt := clk\<rparr>) d)"
    then show ?thesis by (simp add: store_ok_audit flag_update_ok [OF ok])
  qed
qed

end
