(* ===== verification/Config.thy ===== *)
theory Config
  imports Domain Complex_Main
begin

text \<open>
  The configuration of \<open>src/config/schema.ts\<close> as the values a parsed file holds, one record per
  block under the names of the schema, with the constraints the schema puts on single fields.
  Objects with free keys are association lists in key order. The defaults the parser fills in are
  not modelled: a record here is the parser's output.
\<close>

section \<open>Models and providers (\<open>src/types/model.ts\<close>)\<close>

datatype effort = EffortLow | EffortMedium | EffortHigh | EffortMax

definition effort_values :: "effort list" where
  "effort_values = [EffortLow, EffortMedium, EffortHigh, EffortMax]"

fun show_effort :: "effort \<Rightarrow> string" where
  "show_effort EffortLow = ''low''"
| "show_effort EffortMedium = ''medium''"
| "show_effort EffortHigh = ''high''"
| "show_effort EffortMax = ''max''"

datatype agent_role = Analyzer | Implementer | Fixer | Reviewer

fun show_role :: "agent_role \<Rightarrow> string" where
  "show_role Analyzer = ''analyzer''"
| "show_role Implementer = ''implementer''"
| "show_role Fixer = ''fixer''"
| "show_role Reviewer = ''reviewer''"

definition write_roles :: "agent_role list" where
  "write_roles = [Implementer, Fixer]"

record route =
  rt_tier :: string
  rt_effort :: effort

record model_selection =
  ms_provider :: string
  ms_tier :: string
  ms_model :: string
  ms_effort :: effort

datatype prompt_delivery = PromptStdin | PromptArgument
datatype result_source = ResultStdout | ResultFile

record cli_failure =
  cf_path :: string
  cf_values :: "string list"
  cf_messagePath :: "string option"

record cli_usage =
  cu_inputTokens :: string
  cu_cachedInputTokens :: "string option"
  cu_outputTokens :: string
  cu_reasoningOutputTokens :: "string option"

record cli_transport =
  cli_args :: "string list"
  cli_prompt :: prompt_delivery
  cli_resultSource :: result_source
  cli_resultPath :: string
  cli_failure :: "cli_failure option"
  cli_usage :: "cli_usage option"

record model_provider =
  mp_kind :: string
  mp_executable :: string
  mp_environment :: "string list"
  mp_effort :: "(effort \<times> string) list"
  mp_cli :: "cli_transport option"

record model_tier =
  mt_model :: string
  mt_provider :: "string option"

record models_config =
  mc_providers :: "(string \<times> model_provider) list"
  mc_tiers :: "(string \<times> model_tier) list"
  mc_routes :: "(complexity \<times> route) list"
  mc_escalation :: "(complexity \<times> route list) list"
  mc_roles :: "(agent_role \<times> route) list"
  mc_analyzer :: route
  mc_reviewer :: route

section \<open>Operating hours\<close>

record time_window =
  win_start :: string
  win_end :: string

record schedule_day =
  day_enabled :: bool
  day_windows :: "time_window list"

record schedule_days =
  sd_monday :: schedule_day
  sd_tuesday :: schedule_day
  sd_wednesday :: schedule_day
  sd_thursday :: schedule_day
  sd_friday :: schedule_day
  sd_saturday :: schedule_day
  sd_sunday :: schedule_day

record schedule_config =
  sch_enabled :: bool
  sch_allowMechanicalOperationsOutsideHours :: bool
  sch_finishCurrentStep :: bool
  sch_startNewStepIfRemainingMinutesAtLeast :: rat
  sch_minimumRemainingMinutesForNewTask :: rat
  sch_minimumRemainingMinutesForAnalysis :: rat
  sch_minimumRemainingMinutesForImplementation :: rat
  sch_minimumRemainingMinutesForReview :: rat
  sch_days :: schedule_days

section \<open>Repositories, agents and delivery\<close>

record quality_command =
  qc_name :: string
  qc_command :: "string list"
  qc_timeoutSeconds :: int
  qc_network :: "bool option"

record quality_config =
  ql_setup :: "quality_command list"
  ql_checks :: "quality_command list"
  ql_environment :: "string list"
  ql_documentation :: "string list"

record repository_config =
  rc_path :: string
  rc_github :: string
  rc_remote :: string
  rc_baseBranch :: string
  rc_maxConcurrentTasks :: "int option"
  rc_quality :: quality_config

record runner_timeouts =
  tm_analysis :: int
  tm_implementation :: int
  tm_fix :: int
  tm_review :: int

record runner_config =
  rn_kind :: string
  rn_executable :: "string option"
  rn_environment :: "string list"
  rn_timeoutMinutes :: runner_timeouts
  rn_rateLimitRetryMinutes :: int

record diff_policy =
  dp_maxChangedFiles :: int
  dp_maxChangedLines :: int
  dp_maxUnplannedFiles :: int
  dp_forbiddenPaths :: "string list"
  dp_generatedPaths :: "string list"
  dp_allowedBinaryPaths :: "string list"

record documentation_config =
  dc_root :: string
  dc_files :: "string list"
  dc_maxBytes :: int

record agents_config =
  ag_runner :: runner_config
  ag_documentation :: "documentation_config option"
  ag_diffPolicy :: diff_policy
  ag_maxReviewDiffBytes :: int

record delivery_config =
  dl_pollIntervalSeconds :: int
  dl_retryIntervalSeconds :: int
  dl_requiredChecksTimeoutMinutes :: int
  dl_draftPullRequests :: bool
  dl_linearComments :: bool

datatype sandbox_kind = SandboxNone | SandboxBubblewrap

record sandbox_config =
  sb_kind :: sandbox_kind
  sb_executable :: string
  sb_readOnlyPaths :: "string list"
  sb_writablePaths :: "string list"
  sb_maskedPaths :: "string list"

record circuit_breaker_config =
  cb_failureThreshold :: nat
  cb_openSeconds :: int

record retention_config =
  re_enabled :: bool
  re_terminalTaskArtifactDays :: int
  re_quarantineDays :: int
  re_runnerScratchHours :: int
  re_intervalMinutes :: int

record workspace_config =
  wk_root :: string
  wk_minimumFreeDiskMb :: int
  wk_remoteRetryMinutes :: int

record limits_config =
  lm_maxImplementationAttempts :: int
  lm_maxQualityFixAttempts :: int
  lm_maxReviewCycles :: int

record linear_config =
  ln_teamKey :: string
  ln_requiredLabels :: "string list"
  ln_excludedLabels :: "string list"

record orchestrator_settings =
  os_maxConcurrentTasks :: int
  os_maxConcurrentDeliveryTasks :: int
  os_pollingIntervalSeconds :: int
  os_leaseDurationSeconds :: int
  os_heartbeatIntervalSeconds :: int
  os_shutdownGracePeriodSeconds :: int
  os_usageLimitPauseMinutes :: int
  os_rolloutRepositories :: "string list option"
  os_rolloutMaxNewTasksPerDay :: "int option"
  os_prepareWorkspaces :: bool
  os_runAgents :: bool
  os_deliver :: bool

record config =
  c_timezone :: string
  c_orchestrator :: orchestrator_settings
  c_workspace :: "workspace_config option"
  c_repositories :: "(string \<times> repository_config) list"
  c_agents :: "agents_config option"
  c_delivery :: "delivery_config option"
  c_sandbox :: sandbox_config
  c_circuitBreaker :: circuit_breaker_config
  c_retention :: retention_config
  c_schedule :: schedule_config
  c_linear :: linear_config
  c_models :: models_config
  c_limits :: limits_config

section \<open>Field constraints\<close>

text \<open>\<open>timePattern\<close>: \<open>HH:mm\<close> with hours up to 23 and minutes up to 59.\<close>

fun time_pattern :: "string \<Rightarrow> bool" where
  "time_pattern [h1, h2, c, m1, m2] =
     ((h1 \<in> {CHR ''0'', CHR ''1''} \<and> is_digit h2
         \<or> h1 = CHR ''2'' \<and> h2 \<in> {CHR ''0'', CHR ''1'', CHR ''2'', CHR ''3''})
      \<and> c = CHR '':'' \<and> is_digit m1 \<and> digit_value m1 \<le> 5 \<and> is_digit m2)"
| "time_pattern _ = False"

definition window_ok :: "time_window \<Rightarrow> bool" where
  "window_ok w = (time_pattern (win_start w) \<and> time_pattern (win_end w))"

definition day_ok :: "schedule_day \<Rightarrow> bool" where
  "day_ok d = list_all window_ok (day_windows d)"

definition schedule_ok :: "schedule_config \<Rightarrow> bool" where
  "schedule_ok s \<longleftrightarrow>
     0 \<le> sch_startNewStepIfRemainingMinutesAtLeast s
     \<and> 0 \<le> sch_minimumRemainingMinutesForNewTask s
     \<and> 0 \<le> sch_minimumRemainingMinutesForAnalysis s
     \<and> 0 \<le> sch_minimumRemainingMinutesForImplementation s
     \<and> 0 \<le> sch_minimumRemainingMinutesForReview s
     \<and> list_all day_ok [sd_monday (sch_days s), sd_tuesday (sch_days s), sd_wednesday (sch_days s),
          sd_thursday (sch_days s), sd_friday (sch_days s), sd_saturday (sch_days s), sd_sunday (sch_days s)]"

definition limits_ok :: "limits_config \<Rightarrow> bool" where
  "limits_ok l \<longleftrightarrow> 0 < lm_maxImplementationAttempts l \<and> 0 < lm_maxQualityFixAttempts l
     \<and> 0 < lm_maxReviewCycles l"

definition settings_ok :: "orchestrator_settings \<Rightarrow> bool" where
  "settings_ok s \<longleftrightarrow> 0 < os_maxConcurrentTasks s \<and> 0 < os_maxConcurrentDeliveryTasks s
     \<and> 0 < os_pollingIntervalSeconds s \<and> 30 \<le> os_leaseDurationSeconds s
     \<and> 0 < os_heartbeatIntervalSeconds s \<and> 0 < os_shutdownGracePeriodSeconds s
     \<and> os_shutdownGracePeriodSeconds s \<le> 300 \<and> 0 < os_usageLimitPauseMinutes s
     \<and> os_rolloutRepositories s \<noteq> Some []
     \<and> (\<forall>n. os_rolloutMaxNewTasksPerDay s = Some n \<longrightarrow> 0 \<le> n)"

end
