(* ===== verification/Schedule.thy ===== *)
theory Schedule
  imports Config
begin

text \<open>
  Operating hours and the stage gate of \<open>src/scheduling/\<close>. The wall clock (the calendar library's
  \<open>DateTime\<close> in the configured zone) is a record of the fields the code reads; minutes are rational
  because seconds enter as \<open>second / 60\<close>. The specification is declarative: the hours are open when
  some window of some calendar day covers the moment. Window texts are those the schema accepts, on
  which \<open>Number\<close> reads a decimal numeral.
\<close>

section \<open>The wall clock\<close>

record wall_clock =
  wc_weekday :: nat
  wc_hour :: nat
  wc_minute :: nat
  wc_second :: nat

definition clock_ok :: "wall_clock \<Rightarrow> bool" where
  "clock_ok c \<longleftrightarrow> 1 \<le> wc_weekday c \<and> wc_weekday c \<le> 7 \<and> wc_hour c < 24 \<and> wc_minute c < 60 \<and> wc_second c < 60"

definition previous_weekday :: "nat \<Rightarrow> nat" where
  "previous_weekday wd = (if wd = 1 then 7 else wd - 1)"

definition day_named :: "schedule_days \<Rightarrow> nat \<Rightarrow> schedule_day" where
  "day_named days wd =
     (if wd = 1 then sd_monday days else if wd = 2 then sd_tuesday days
      else if wd = 3 then sd_wednesday days else if wd = 4 then sd_thursday days
      else if wd = 5 then sd_friday days else if wd = 6 then sd_saturday days
      else sd_sunday days)"

definition current_minutes :: "wall_clock \<Rightarrow> rat" where
  "current_minutes c = of_nat (wc_hour c) * 60 + of_nat (wc_minute c) + of_nat (wc_second c) / 60"

section \<open>Operating hours\<close>

datatype hours_reason = ScheduleDisabled | OutsideWindow | InsufficientRemainingTime | HoursOpen

datatype minutes_left = Minutes rat | Unbounded

fun shorter_than :: "minutes_left \<Rightarrow> rat \<Rightarrow> bool" where
  "shorter_than (Minutes m) r = (m < r)"
| "shorter_than Unbounded r = False"

record operating_hours =
  oh_isOpen :: bool
  oh_minutesRemaining :: minutes_left
  oh_canStart :: bool
  oh_reason :: hours_reason

definition numeral_text :: "string \<Rightarrow> rat" where
  "numeral_text s = foldl (\<lambda>n c. n * 10 + of_nat (digit_value c)) 0 s"

definition minutes_since_midnight :: "string \<Rightarrow> (orch_error, rat) result" where
  "minutes_since_midnight v =
     (case split_on (CHR '':'') v of
        h # m # _ \<Rightarrow> Inr (numeral_text h * 60 + numeral_text m)
      | _ \<Rightarrow> Inl (PlainError (''Invalid time value: '' @ v)))"

definition window_minutes_remaining :: "rat \<Rightarrow> rat \<Rightarrow> rat" where
  "window_minutes_remaining now end_min =
     (if end_min > now then end_min - now else 24 * 60 - now + end_min)"

text \<open>The two loops: over the windows of today, then, while still closed, of yesterday.\<close>

definition today_step :: "rat \<Rightarrow> time_window \<Rightarrow> bool \<times> rat \<Rightarrow> (orch_error, bool \<times> rat) result" where
  "today_step now w st =
     and_then (minutes_since_midnight (win_start w)) (\<lambda>s.
     and_then (minutes_since_midnight (win_end w)) (\<lambda>e.
       Inr (if (if e \<le> s then now \<ge> s else now \<ge> s \<and> now < e)
            then (True, max (snd st) (window_minutes_remaining now e)) else st)))"

definition yesterday_step :: "rat \<Rightarrow> time_window \<Rightarrow> bool \<times> rat \<Rightarrow> (orch_error, bool \<times> rat) result" where
  "yesterday_step now w st =
     and_then (minutes_since_midnight (win_start w)) (\<lambda>s.
     and_then (minutes_since_midnight (win_end w)) (\<lambda>e.
       Inr (if e \<le> s \<and> now < e
            then (True, max (snd st) (if now = 0 then e else e - now)) else st)))"

definition minimum_minutes_for :: "schedule_config \<Rightarrow> operation_type \<Rightarrow> rat" where
  "minimum_minutes_for s opn =
     (case opn of
        TASK_DISCOVERY \<Rightarrow> sch_minimumRemainingMinutesForNewTask s
      | ANALYSIS \<Rightarrow> sch_minimumRemainingMinutesForAnalysis s
      | IMPLEMENTATION \<Rightarrow> sch_minimumRemainingMinutesForImplementation s
      | FIX \<Rightarrow> sch_minimumRemainingMinutesForImplementation s
      | REVIEW \<Rightarrow> sch_minimumRemainingMinutesForReview s
      | QUALITY_GATE \<Rightarrow> 0
      | DELIVERY \<Rightarrow> 0
      | CI_CHECK \<Rightarrow> 0)"

definition open_windows :: "schedule_config \<Rightarrow> wall_clock \<Rightarrow> (orch_error, bool \<times> rat) result" where
  "open_windows s c =
     (let now = current_minutes c;
          today = day_named (sch_days s) (wc_weekday c);
          yesterday = day_named (sch_days s) (previous_weekday (wc_weekday c)) in
      and_then (if day_enabled today then fold_result (today_step now) (day_windows today) (False, 0)
                else Inr (False, 0)) (\<lambda>st.
      if \<not> fst st \<and> day_enabled yesterday
      then fold_result (yesterday_step now) (day_windows yesterday) st else Inr st))"

definition operating_hours_for ::
  "schedule_config \<Rightarrow> operation_type \<Rightarrow> wall_clock \<Rightarrow> (orch_error, operating_hours) result" where
  "operating_hours_for s opn c =
     (if \<not> sch_enabled s
      then Inr \<lparr>oh_isOpen = True, oh_minutesRemaining = Unbounded, oh_canStart = True, oh_reason = ScheduleDisabled\<rparr>
      else and_then (open_windows s c) (\<lambda>(isOpen, remaining).
        Inr (if \<not> isOpen
             then \<lparr>oh_isOpen = False, oh_minutesRemaining = Minutes 0, oh_canStart = False, oh_reason = OutsideWindow\<rparr>
             else if remaining < minimum_minutes_for s opn
             then \<lparr>oh_isOpen = True, oh_minutesRemaining = Minutes remaining, oh_canStart = False, oh_reason = InsufficientRemainingTime\<rparr>
             else \<lparr>oh_isOpen = True, oh_minutesRemaining = Minutes remaining, oh_canStart = True, oh_reason = HoursOpen\<rparr>)))"

section \<open>The stage gate\<close>

definition executable_stage_operations :: "task_state \<Rightarrow> operation_type option" where
  "executable_stage_operations st =
     (case st of
        ANALYZING \<Rightarrow> Some ANALYSIS
      | READY \<Rightarrow> Some IMPLEMENTATION
      | IMPLEMENTING \<Rightarrow> Some IMPLEMENTATION
      | TESTING \<Rightarrow> Some QUALITY_GATE
      | FIXING \<Rightarrow> Some FIX
      | REVIEWING \<Rightarrow> Some REVIEW
      | PR_CREATED \<Rightarrow> Some DELIVERY
      | WAITING_CI \<Rightarrow> Some CI_CHECK
      | READY_FOR_HUMAN_REVIEW \<Rightarrow> Some CI_CHECK
      | _ \<Rightarrow> None)"

definition is_mechanical_operation :: "operation_type \<Rightarrow> bool" where
  "is_mechanical_operation opn \<longleftrightarrow> opn \<in> {QUALITY_GATE, DELIVERY, CI_CHECK}"

datatype gate_reason = GateOverrideEnabled | GateOverrideDisabled | GateMechanical | GateHours hours_reason

record gate_decision =
  gd_permitted :: bool
  gd_operation :: operation_type
  gd_mechanical :: bool
  gd_reason :: gate_reason
  gd_minutesRemaining :: minutes_left

definition decision :: "operation_type \<Rightarrow> bool \<Rightarrow> gate_reason \<Rightarrow> minutes_left \<Rightarrow> gate_decision" where
  "decision opn ok why left = \<lparr>gd_permitted = ok, gd_operation = opn,
     gd_mechanical = is_mechanical_operation opn, gd_reason = why, gd_minutesRemaining = left\<rparr>"

definition operation_gate ::
  "schedule_config \<Rightarrow> operation_type \<Rightarrow> schedule_override \<Rightarrow> wall_clock \<Rightarrow> (orch_error, gate_decision) result" where
  "operation_gate s opn ov c =
     (if ov = OverrideEnabled then Inr (decision opn True GateOverrideEnabled Unbounded)
      else and_then (operating_hours_for s opn c) (\<lambda>h.
        let mechanical = is_mechanical_operation opn;
            allowed = mechanical \<and> sch_allowMechanicalOperationsOutsideHours s;
            left = oh_minutesRemaining h in
        Inr (if ov = OverrideDisabled
             then (if allowed then decision opn True GateMechanical left
                   else decision opn False GateOverrideDisabled left)
             else if oh_canStart h
             then (if \<not> mechanical \<and> shorter_than left (sch_startNewStepIfRemainingMinutesAtLeast s)
                   then decision opn False (GateHours InsufficientRemainingTime) left
                   else decision opn True (GateHours (oh_reason h)) left)
             else if allowed then decision opn True GateMechanical left
             else decision opn False (GateHours (oh_reason h)) left)))"

definition stage_gate ::
  "schedule_config \<Rightarrow> task_state \<Rightarrow> schedule_override \<Rightarrow> wall_clock \<Rightarrow> (orch_error, gate_decision option) result" where
  "stage_gate s st ov c =
     (case executable_stage_operations st of
        None \<Rightarrow> Inr None
      | Some opn \<Rightarrow> and_then (operation_gate s opn ov c) (\<lambda>g. Inr (Some g)))"

definition should_interrupt_running_stage ::
  "schedule_config \<Rightarrow> task_state \<Rightarrow> schedule_override \<Rightarrow> wall_clock \<Rightarrow> (orch_error, bool) result" where
  "should_interrupt_running_stage s st ov c =
     (if sch_finishCurrentStep s then Inr False
      else case executable_stage_operations st of
        None \<Rightarrow> Inr False
      | Some opn \<Rightarrow>
          if ov = OverrideEnabled then Inr False
          else if is_mechanical_operation opn \<and> sch_allowMechanicalOperationsOutsideHours s then Inr False
          else if ov = OverrideDisabled then Inr True
          else and_then (operating_hours_for s opn c) (\<lambda>h. Inr (\<not> oh_isOpen h)))"

section \<open>What the hours mean\<close>

text \<open>
  Days are numbered; a window of day \<open>k\<close> covers the moments from its start to its end, past
  midnight when the end is not after the start. Moments are minutes since midnight of day 0.
\<close>

definition minute_of :: "string \<Rightarrow> rat" where
  "minute_of v = (case minutes_since_midnight v of Inr m \<Rightarrow> m | Inl _ \<Rightarrow> 0)"

definition weekday_of :: "int \<Rightarrow> nat" where
  "weekday_of n = nat (n mod 7) + 1"

definition window_covers :: "int \<Rightarrow> time_window \<Rightarrow> rat \<Rightarrow> bool" where
  "window_covers k w x \<longleftrightarrow> (let s = minute_of (win_start w); e = minute_of (win_end w) in
     of_int k * 1440 + s \<le> x \<and> x < of_int k * 1440 + e + (if e \<le> s then 1440 else 0))"

definition hours_cover :: "schedule_config \<Rightarrow> rat \<Rightarrow> bool" where
  "hours_cover s x \<longleftrightarrow> (\<exists>k. day_enabled (day_named (sch_days s) (weekday_of k))
     \<and> (\<exists>w \<in> set (day_windows (day_named (sch_days s) (weekday_of k))). window_covers k w x))"

lemma weekday_of_previous: "weekday_of (n - 1) = previous_weekday (weekday_of n)"
proof -
  have "(n - 1) mod 7 = (if n mod 7 = 0 then 6 else n mod 7 - 1)"
  proof -
    have "(n - 1) mod 7 = (n mod 7 - 1) mod 7" by (simp add: mod_diff_left_eq)
    moreover have "0 \<le> n mod 7" "n mod 7 < 7" by simp_all
    ultimately show ?thesis by (cases "n mod 7 = 0") (simp_all add: mod_pos_pos_trivial)
  qed
  moreover have "0 \<le> n mod 7" by simp
  ultimately show ?thesis unfolding weekday_of_def previous_weekday_def by (auto simp: nat_diff_distrib)
qed

lemma current_minutes_bounds:
  assumes "clock_ok c" shows "0 \<le> current_minutes c" and "current_minutes c < 1440"
proof -
  from assms have "wc_hour c \<le> 23" "wc_minute c \<le> 59" "wc_second c \<le> 59" by (auto simp: clock_ok_def)
  then have "of_nat (wc_hour c) \<le> (of_nat 23 :: rat)" "of_nat (wc_minute c) \<le> (of_nat 59 :: rat)"
    "of_nat (wc_second c) \<le> (of_nat 59 :: rat)"
    by (simp_all only: of_nat_le_iff)
  then show "current_minutes c < 1440" by (simp add: current_minutes_def)
  show "0 \<le> current_minutes c" by (simp add: current_minutes_def)
qed

lemma time_pattern_minutes:
  assumes "time_pattern v"
  shows "minutes_since_midnight v = Inr (minute_of v)" and "0 \<le> minute_of v" and "minute_of v < 1440"
proof -
  from assms obtain h1 h2 m1 m2 where v: "v = [h1, h2, CHR '':'', m1, m2]"
    by (cases v rule: time_pattern.cases) auto
  have digits: "h1 \<noteq> CHR '':''" "h2 \<noteq> CHR '':''" "m1 \<noteq> CHR '':''" "m2 \<noteq> CHR '':''"
    using assms by (auto simp: v is_digit_def)
  have small: "digit_value c \<le> 9" if "is_digit c" for c
    using that by (auto simp: is_digit_def digit_value_def Let_def)
  have hours: "10 * digit_value h1 + digit_value h2 \<le> 23"
    using assms small by (force simp: v digit_value_def)
  have minutes: "10 * digit_value m1 + digit_value m2 \<le> 59"
    using assms small [of m2] by (auto simp: v)
  have val: "minutes_since_midnight v
      = Inr (of_nat (10 * digit_value h1 + digit_value h2) * 60 + of_nat (10 * digit_value m1 + digit_value m2))"
    using digits by (simp add: v minutes_since_midnight_def numeral_text_def)
  from hours have "(of_nat (10 * digit_value h1 + digit_value h2) :: rat) \<le> of_nat 23"
    by (rule of_nat_mono)
  moreover from minutes have "(of_nat (10 * digit_value m1 + digit_value m2) :: rat) \<le> of_nat 59"
    by (rule of_nat_mono)
  ultimately show "minutes_since_midnight v = Inr (minute_of v)" "0 \<le> minute_of v" "minute_of v < 1440"
    by (simp_all add: minute_of_def val)
qed

lemma window_ok_minutes:
  assumes "window_ok w"
  shows "minutes_since_midnight (win_start w) = Inr (minute_of (win_start w))"
    and "minutes_since_midnight (win_end w) = Inr (minute_of (win_end w))"
    and "0 \<le> minute_of (win_start w)" and "minute_of (win_start w) < 1440"
    and "0 \<le> minute_of (win_end w)" and "minute_of (win_end w) < 1440"
  using assms by (simp_all add: window_ok_def time_pattern_minutes)

text \<open>
  Within one day the moments a window covers are those its own day's loop accepts, and those the
  loop over the previous day accepts for a window that runs past midnight.
\<close>

lemma covers_cases:
  assumes "window_ok w" "0 \<le> m" "m < 1440" and "window_covers k w (of_int n * 1440 + m)"
  shows "k = n \<or> k = n - 1"
proof -
  note b = window_ok_minutes(3-6) [OF assms(1)]
  from assms(4) have "of_int k * 1440 + minute_of (win_start w) \<le> of_int n * 1440 + m"
    and "of_int n * 1440 + m < of_int k * 1440 + minute_of (win_end w) + 1440"
    using b unfolding window_covers_def Let_def by (auto split: if_splits)
  with b assms(2,3) have "(of_int k :: rat) < of_int n + 1" "(of_int n :: rat) < of_int k + 2" by linarith+
  then have "(of_int k :: rat) < of_int (n + 1)" "(of_int n :: rat) < of_int (k + 2)" by simp_all
  then have "k < n + 1" "n < k + 2" by (simp_all only: of_int_less_iff)
  then show ?thesis by linarith
qed

lemma covers_today:
  "window_ok w \<Longrightarrow> m < 1440 \<Longrightarrow> window_covers n w (of_int n * 1440 + m) \<longleftrightarrow>
     (if minute_of (win_end w) \<le> minute_of (win_start w) then m \<ge> minute_of (win_start w)
      else m \<ge> minute_of (win_start w) \<and> m < minute_of (win_end w))"
  using window_ok_minutes(3-6) [of w] by (auto simp: window_covers_def Let_def)

lemma covers_yesterday:
  "window_ok w \<Longrightarrow> 0 \<le> m \<Longrightarrow> window_covers (n - 1) w (of_int n * 1440 + m) \<longleftrightarrow>
     minute_of (win_end w) \<le> minute_of (win_start w) \<and> m < minute_of (win_end w)"
  using window_ok_minutes(3-6) [of w] by (auto simp: window_covers_def Let_def algebra_simps)

text \<open>How long a window goes on covering, from a moment it covers.\<close>

definition covers_for :: "time_window \<Rightarrow> int \<Rightarrow> rat \<Rightarrow> rat \<Rightarrow> bool" where
  "covers_for w k x r \<longleftrightarrow> 0 < r \<and> (\<forall>y. x \<le> y \<and> y < x + r \<longrightarrow> window_covers k w y)"

lemma covers_for_today:
  assumes "window_ok w" "m < 1440" "window_covers n w (of_int n * 1440 + m)"
  shows "covers_for w n (of_int n * 1440 + m) (window_minutes_remaining m (minute_of (win_end w)))"
  using assms window_ok_minutes(3-6) [OF assms(1)]
  by (auto simp: covers_for_def window_minutes_remaining_def window_covers_def Let_def split: if_splits)

lemma covers_for_yesterday:
  assumes "window_ok w" "0 \<le> m" "window_covers (n - 1) w (of_int n * 1440 + m)"
  shows "covers_for w (n - 1) (of_int n * 1440 + m) (minute_of (win_end w) - m)"
  using assms window_ok_minutes(3-6) [OF assms(1)]
  by (auto simp: covers_for_def window_covers_def Let_def algebra_simps split: if_splits)

lemma fold_windows:
  assumes step: "\<And>w st. w \<in> set ws \<Longrightarrow> step w st = Inr (if act w then (True, max (snd st) (left w)) else st)"
    and pos: "\<And>w. w \<in> set ws \<Longrightarrow> act w \<Longrightarrow> (0 :: rat) < left w"
    and "if b then r \<in> R else r = 0"
  shows "\<exists>b' r'. fold_result step ws (b, r) = Inr (b', r') \<and> (b' \<longleftrightarrow> b \<or> (\<exists>w \<in> set ws. act w))
     \<and> (if b' then r' \<in> R \<union> {left w | w. w \<in> set ws \<and> act w} else r' = 0)"
  using assms
proof (induction ws arbitrary: b r R)
  case (Cons w ws)
  define st where "st = (if act w then (True, max r (left w)) else (b, r))"
  have one: "step w (b, r) = Inr st" using Cons.prems(1) [of w "(b, r)"] by (simp add: st_def)
  let ?R = "R \<union> (if act w then {left w} else {})"
  have "if fst st then snd st \<in> ?R else snd st = 0"
    using Cons.prems(2) [of w] Cons.prems(3) by (auto simp: st_def max_def split: if_splits)
  with Cons.IH [of "fst st" "snd st" ?R] Cons.prems(1,2) obtain b' r' where
    *: "fold_result step ws st = Inr (b', r')" "b' \<longleftrightarrow> fst st \<or> (\<exists>w \<in> set ws. act w)"
      "if b' then r' \<in> ?R \<union> {left w | w. w \<in> set ws \<and> act w} else r' = 0" by auto
  show ?case
    using * one by (intro exI [of _ b'] exI [of _ r']) (auto simp: st_def split: if_splits)
qed (auto)

lemma fold_windows_closed:
  assumes "\<And>w st. w \<in> set ws \<Longrightarrow> step w st = Inr (if act w then (True, max (snd st) (left w)) else st)"
    and "\<And>w. w \<in> set ws \<Longrightarrow> act w \<Longrightarrow> (0 :: rat) < left w"
  obtains b r where "fold_result step ws (False, 0) = Inr (b, r)" and "b \<longleftrightarrow> (\<exists>w \<in> set ws. act w)"
    and "if b then r \<in> {left w | w. w \<in> set ws \<and> act w} else r = 0"
proof -
  have "if False then (0 :: rat) \<in> {} else (0 :: rat) = 0" by simp
  from fold_windows [of ws step act left, OF assms(1) assms(2) this]
  obtain b r where "fold_result step ws (False, 0) = Inr (b, r)" "b \<longleftrightarrow> False \<or> (\<exists>w \<in> set ws. act w)"
    "if b then r \<in> {} \<union> {left w | w. w \<in> set ws \<and> act w} else r = 0"
    by blast
  then show thesis by (intro that [of b r]) (simp_all only: simp_thms Un_empty_left)
qed

text \<open>
  The hours computed at a moment: open exactly when a window covers it, and then for as long as
  the minutes the code reports.
\<close>

lemma schedule_ok_windows:
  "schedule_ok s \<Longrightarrow> w \<in> set (day_windows (day_named (sch_days s) wd)) \<Longrightarrow> window_ok w"
  by (auto simp: schedule_ok_def day_ok_def list_all_iff day_named_def split: if_splits)

lemma open_windows_cover:
  assumes "schedule_ok s" "clock_ok c" "wc_weekday c = weekday_of n"
  defines "x \<equiv> of_int n * 1440 + current_minutes c"
  obtains b r where "open_windows s c = Inr (b, r)" and "b \<longleftrightarrow> hours_cover s x"
    and "b \<Longrightarrow> 0 < r \<and> (\<forall>y. x \<le> y \<and> y < x + r \<longrightarrow> hours_cover s y)"
proof -
  define m where "m = current_minutes c"
  have m: "0 \<le> m" "m < 1440" using current_minutes_bounds [OF assms(2)] by (simp_all add: m_def)
  define D where "D k = day_named (sch_days s) (weekday_of k)" for k
  have ok: "window_ok w" if "w \<in> set (day_windows (D k))" for w k
    using schedule_ok_windows [OF assms(1)] that by (auto simp: D_def)
  define W where "W k = (if day_enabled (D k) then day_windows (D k) else [])" for k
  define act where "act k w = window_covers k w x" for k w
  define left where "left k (w :: time_window) = (if k = n then window_minutes_remaining m (minute_of (win_end w))
      else minute_of (win_end w) - m)" for k w
  have okW: "window_ok w" if "w \<in> set (W k)" for w k
    using that ok by (auto simp: W_def split: if_splits)
  have cover: "hours_cover s y \<longleftrightarrow> (\<exists>k. \<exists>w \<in> set (W k). window_covers k w y)" for y
    by (auto simp: hours_cover_def W_def D_def)
  have two: "k = n \<or> k = n - 1" if "w \<in> set (W k)" "window_covers k w x" for k w
    using covers_cases [OF okW [OF that(1)] m] that(2) by (simp add: x_def m_def)
  have here: "hours_cover s x \<longleftrightarrow> (\<exists>w \<in> set (W n). act n w) \<or> (\<exists>w \<in> set (W (n - 1)). act (n - 1) w)"
    unfolding cover act_def using two by metis
  have goes_on: "covers_for w k x (left k w)" if "w \<in> set (W k)" "act k w" "k = n \<or> k = n - 1" for w k
    using that covers_for_today [OF okW m(2), of w n n] covers_for_yesterday [OF okW m(1), of w "n - 1" n]
    by (auto simp: act_def left_def x_def m_def)
  have t: "today_step m w st = Inr (if act n w then (True, max (snd st) (left n w)) else st)"
    if "w \<in> set (W n)" for w st
    using covers_today [OF okW [OF that] m(2), of n] window_ok_minutes(1,2) [OF okW [OF that]]
    by (simp add: today_step_def act_def left_def x_def m_def)
  have y: "yesterday_step m w st = Inr (if act (n - 1) w then (True, max (snd st) (left (n - 1) w)) else st)"
    if "w \<in> set (W (n - 1))" for w st
    using covers_yesterday [OF okW [OF that] m(1), of n] window_ok_minutes(1,2) [OF okW [OF that]]
    by (simp add: yesterday_step_def act_def left_def x_def m_def)
  have pos: "0 < left k w" if "w \<in> set (W k)" "act k w" "k = n \<or> k = n - 1" for w k
    using goes_on [OF that] by (simp add: covers_for_def)
  obtain b r where b: "fold_result (today_step m) (W n) (False, 0) = Inr (b, r)"
    "b \<longleftrightarrow> (\<exists>w \<in> set (W n). act n w)" "if b then r \<in> {left n w | w. w \<in> set (W n) \<and> act n w} else r = 0"
    by (rule fold_windows_closed [of "W n" "today_step m" "act n" "left n", OF t pos]) (assumption | simp)+
  obtain b' r' where b': "fold_result (yesterday_step m) (W (n - 1)) (False, 0) = Inr (b', r')"
    "b' \<longleftrightarrow> (\<exists>w \<in> set (W (n - 1)). act (n - 1) w)"
    "if b' then r' \<in> {left (n - 1) w | w. w \<in> set (W (n - 1)) \<and> act (n - 1) w} else r' = 0"
    by (rule fold_windows_closed [of "W (n - 1)" "yesterday_step m" "act (n - 1)" "left (n - 1)", OF y pos]) (assumption | simp)+
  have run: "open_windows s c = (if b then Inr (b, r) else Inr (b', r'))"
  proof -
    have "open_windows s c = and_then (fold_result (today_step m) (W n) (False, 0)) (\<lambda>st.
        if \<not> fst st \<and> day_enabled (D (n - 1))
        then fold_result (yesterday_step m) (day_windows (D (n - 1))) st else Inr st)"
      unfolding open_windows_def Let_def m_def assms(3) W_def D_def weekday_of_previous
      by (cases "day_enabled (day_named (sch_days s) (weekday_of n))") simp_all
    with b(1) b'(1) show ?thesis
      by (cases b; cases "day_enabled (D (n - 1))") (use b(3) in \<open>auto simp: W_def\<close>)
  qed
  have tail: "0 < r'' \<and> (\<forall>y. x \<le> y \<and> y < x + r'' \<longrightarrow> hours_cover s y)"
    if "r'' \<in> {left k w | w. w \<in> set (W k) \<and> act k w}" "k = n \<or> k = n - 1" for r'' k
    using that goes_on unfolding covers_for_def cover by blast
  show thesis
  proof (cases b)
    case True
    with b run tail [of r n] here show thesis by (intro that [of b r]) auto
  next
    case False
    with b b' run tail [of r' "n - 1"] here show thesis by (intro that [of b' r']) auto
  qed
qed

text \<open>The gate in terms of the declarative hours.\<close>

lemma operating_hours_cover:
  assumes "schedule_ok s" "clock_ok c" "wc_weekday c = weekday_of n" "sch_enabled s"
  obtains h r where "operating_hours_for s opn c = Inr h"
    and "oh_isOpen h \<longleftrightarrow> hours_cover s (of_int n * 1440 + current_minutes c)"
    and "oh_minutesRemaining h = Minutes r"
    and "oh_canStart h \<longleftrightarrow> oh_isOpen h \<and> minimum_minutes_for s opn \<le> r"
    and "oh_isOpen h \<Longrightarrow> 0 < r \<and> (\<forall>y. of_int n * 1440 + current_minutes c \<le> y \<and> y < of_int n * 1440 + current_minutes c + r \<longrightarrow> hours_cover s y)"
proof -
  from open_windows_cover [OF assms(1-3)] obtain b r where *: "open_windows s c = Inr (b, r)"
    "b \<longleftrightarrow> hours_cover s (of_int n * 1440 + current_minutes c)"
    "b \<Longrightarrow> 0 < r \<and> (\<forall>y. of_int n * 1440 + current_minutes c \<le> y \<and> y < of_int n * 1440 + current_minutes c + r \<longrightarrow> hours_cover s y)"
    by metis
  define h where "h = (if \<not> b
             then \<lparr>oh_isOpen = False, oh_minutesRemaining = Minutes 0, oh_canStart = False, oh_reason = OutsideWindow\<rparr>
             else if r < minimum_minutes_for s opn
             then \<lparr>oh_isOpen = True, oh_minutesRemaining = Minutes r, oh_canStart = False, oh_reason = InsufficientRemainingTime\<rparr>
             else \<lparr>oh_isOpen = True, oh_minutesRemaining = Minutes r, oh_canStart = True, oh_reason = HoursOpen\<rparr>)"
  have "operating_hours_for s opn c = Inr h"
    by (simp add: operating_hours_for_def assms(4) *(1) h_def)
  then show thesis
    using *(2,3) by (intro that [of h "if b then r else 0"]) (auto simp: h_def)
qed

lemma operating_hours_total:
  assumes "schedule_ok s" "clock_ok c"
  obtains h where "operating_hours_for s opn c = Inr h"
proof (cases "sch_enabled s")
  case True
  have "wc_weekday c = weekday_of (int (wc_weekday c) - 1)"
    using assms(2) by (auto simp: weekday_of_def clock_ok_def mod_pos_pos_trivial nat_diff_distrib)
  from operating_hours_cover [OF assms this True] that show thesis by metis
qed (use that in \<open>simp add: operating_hours_for_def\<close>)

end
