(* ===== verification/Worker.thy ===== *)
theory Worker
  imports Claims Operator Schedule
begin

text \<open>
  The life of a claimed task (\<open>src/orchestrator/scheduler.ts\<close>: \<open>runTask\<close>, \<open>failTask\<close>, the
  heartbeat, the stage boundary). Every access of the worker to the database is a point where
  anything else may have happened before: other workers and operators changed rows, the heartbeat
  fired, another tick re-read the controls, a shutdown was asked for. The \<open>n\<close>-th access of the run
  takes these from \<open>env n\<close>. A stage handler is a parameter: a sequence of such accesses that sees
  the abort signal at each of them and ends with an outcome or an error.
\<close>

section \<open>Errors as text\<close>

fun error_name :: "orch_error \<Rightarrow> string" where
  "error_name (InvalidTransitionError _ _) = ''InvalidTransitionError''"
| "error_name (PlainError _) = ''Error''"
| "error_name (LeaseOwnershipError _) = ''LeaseOwnershipError''"
| "error_name (ContractChangedError _) = ''ContractChangedError''"
| "error_name (WorkspaceIdentityConflictError _) = ''WorkspaceIdentityConflictError''"
| "error_name (OperatorActionError _ _) = ''OperatorActionError''"
| "error_name (WorkspaceBlockedError _) = ''WorkspaceBlockedError''"
| "error_name (RemoteUnavailableError _) = ''RemoteUnavailableError''"
| "error_name (GitHubRequestError _ _ _ _) = ''GitHubRequestError''"
| "error_name (LinearSyncError _ _) = ''LinearSyncError''"
| "error_name (DeliveryRejectedError _) = ''DeliveryRejectedError''"
| "error_name (ValidationError _) = ''ZodError''"

definition max_error_length :: nat where
  "max_error_length = 1000"

definition error_text :: "orch_error \<Rightarrow> string" where
  "error_text e =
     (let message = error_name e @ '': '' @ error_message e in
      if max_error_length < length message then take max_error_length message @ ellipsis else message)"

section \<open>What a worker is given\<close>

record timing =
  tm_pollIntervalMs :: int
  tm_leaseDurationMs :: int
  tm_heartbeatIntervalMs :: int
  tm_shutdownGraceMs :: int
  tm_usageLimitPauseMs :: int
  tm_stuckTickMs :: int

definition timing_of :: "orchestrator_settings \<Rightarrow> timing" where
  "timing_of o' = \<lparr>tm_pollIntervalMs = os_pollingIntervalSeconds o' * 1000,
     tm_leaseDurationMs = os_leaseDurationSeconds o' * 1000,
     tm_heartbeatIntervalMs = os_heartbeatIntervalSeconds o' * 1000,
     tm_shutdownGraceMs = os_shutdownGracePeriodSeconds o' * 1000,
     tm_usageLimitPauseMs = os_usageLimitPauseMinutes o' * 60000,
     tm_stuckTickMs = max (5 * 60000) (os_pollingIntervalSeconds o' * 3000)\<rparr>"

text \<open>What a stage sees at one of its accesses: the abort signal and the clock.\<close>

record stage_view =
  sv_signal :: "abort_reason option"
  sv_now :: time

text \<open>
  A stage as the worker runs it: it ends with a result, or makes one more access that changes the
  database and the handler's own part of the world, and continues depending on what it saw.
\<close>

datatype ('x, 'a) code =
    Finished 'a
  | Access "stage_view \<Rightarrow> database \<times> 'x \<Rightarrow> database \<times> 'x"
      "stage_view \<Rightarrow> database \<times> 'x \<Rightarrow> ('x, 'a) code"

type_synonym 'x stage_code = "('x, (orch_error, stage_outcome) result) code"

text \<open>\<open>wo_zone\<close> converts an instant to the wall clock of the configured time zone (luxon).\<close>

record 'x worker_options =
  wo_config :: config
  wo_timing :: timing
  wo_workerId :: worker
  wo_forceKillSwitch :: bool
  wo_zone :: "time \<Rightarrow> wall_clock"
  wo_handlers :: "(task_state \<times> (task_row \<Rightarrow> 'x stage_code)) list"

record interference =
  if_db :: "database \<Rightarrow> database"
  if_now :: time
  if_beat :: bool
  if_refresh :: bool
  if_stopping :: bool

record lane_hold =
  lh_until :: time
  lh_reason :: string

datatype worker_event =
    TaskLeaseLost task_id
  | HeartbeatFailed task_id string
  | TaskCancelled task_id
  | TaskManualIntervention task_id
  | TaskParked task_id string
  | TaskPausedSchedule task_id
  | StageStarted task_row controls time
  | StageCompleted task_id task_state task_state
  | TaskPausedLimit task_id "time option"
  | TaskWaiting task_id time string
  | StageInterrupted task_id abort_reason
  | TaskStageFailed task_id string
  | HandoffFailed task_id string string
  | ClaimLaneHeld claim_lane time string

text \<open>
  \<open>rn_signal\<close> is \<open>entry.controller\<close>: absent between stages, otherwise the reason it was aborted
  with, if it was. \<open>rn_log\<close> is what was logged, latest first.
\<close>

record 'x run_state =
  rn_at :: nat
  rn_db :: database
  rn_ext :: 'x
  rn_now :: time
  rn_controls :: controls
  rn_stopping :: bool
  rn_holds :: "(claim_lane \<times> lane_hold) list"
  rn_signal :: "abort_reason option option"
  rn_leaseLost :: bool
  rn_log :: "worker_event list"

datatype run_end =
    EndLeaseLost | EndCancelled | EndManual | EndParked | EndPausedSchedule | EndPausedLimit
  | EndWaiting | EndFailed | EndNotHeld | EndHandoffFailed

datatype boundary_result = Stop run_end | Again

section \<open>Between accesses\<close>

definition logged :: "worker_event \<Rightarrow> 'x run_state \<Rightarrow> 'x run_state" where
  "logged e s = s\<lparr>rn_log := e # rn_log s\<rparr>"

text \<open>\<open>controller?.abort(reason)\<close>: only the first reason counts.\<close>

definition abort_stage :: "abort_reason \<Rightarrow> 'x run_state \<Rightarrow> 'x run_state" where
  "abort_stage r s =
     s\<lparr>rn_signal := (case rn_signal s of Some None \<Rightarrow> Some (Some r) | other \<Rightarrow> other)\<rparr>"

definition kill_switch_engaged :: "'x worker_options \<Rightarrow> 'x run_state \<Rightarrow> bool" where
  "kill_switch_engaged o' s = (wo_forceKillSwitch o' \<or> co_killSwitch (rn_controls s))"

definition refresh_controls :: "'x worker_options \<Rightarrow> 'x run_state \<Rightarrow> 'x run_state" where
  "refresh_controls o' s =
     (let s' = s\<lparr>rn_controls := get_controls (rn_db s)\<rparr> in
      if kill_switch_engaged o' s' then abort_stage AbortKillSwitch s' else s')"

definition beat :: "'x worker_options \<Rightarrow> task_id \<Rightarrow> 'x run_state \<Rightarrow> 'x run_state" where
  "beat o' tid s =
     (case heartbeat tid (wo_workerId o') (tm_leaseDurationMs (wo_timing o')) (rn_now s) (rn_db s) of
        Inl (LeaseOwnershipError i) \<Rightarrow>
          logged (TaskLeaseLost tid) (abort_stage AbortLeaseLost (s\<lparr>rn_leaseLost := True\<rparr>))
      | Inl e \<Rightarrow> logged (HeartbeatFailed tid (error_text e)) s
      | Inr (current, d) \<Rightarrow>
          let s1 = s\<lparr>rn_db := d\<rparr> in
          if t_cancelRequestedAt current \<noteq> None \<or> t_requiresManualIntervention current
          then abort_stage AbortOperator s1
          else
            let s2 = s1\<lparr>rn_controls := get_controls d\<rparr> in
            if kill_switch_engaged o' s2 then abort_stage AbortKillSwitch s2
            else
              case should_interrupt_running_stage (c_schedule (wo_config o')) (t_state current)
                     (co_scheduleOverride (rn_controls s2)) (wo_zone o' (rn_now s)) of
                Inl e \<Rightarrow> logged (HeartbeatFailed tid (error_text e)) s2
              | Inr True \<Rightarrow> abort_stage AbortSchedule s2
              | Inr False \<Rightarrow> s2)"

text \<open>The point before an access: the world as others have left it.\<close>

definition arrive :: "'x worker_options \<Rightarrow> (nat \<Rightarrow> interference) \<Rightarrow> task_id \<Rightarrow> 'x run_state \<Rightarrow> 'x run_state" where
  "arrive o' env tid s =
     (let i = env (rn_at s);
          s1 = s\<lparr>rn_at := Suc (rn_at s), rn_db := if_db i (rn_db s), rn_now := if_now i,
                 rn_stopping := (rn_stopping s \<or> if_stopping i)\<rparr>;
          s2 = (if if_stopping i then abort_stage AbortShutdown s1 else s1);
          s3 = (if if_refresh i then refresh_controls o' s2 else s2) in
      if if_beat i then beat o' tid s3 else s3)"

text \<open>An awaited operation of the task repository.\<close>

definition perform ::
  "'x worker_options \<Rightarrow> (nat \<Rightarrow> interference) \<Rightarrow> task_id
     \<Rightarrow> (time \<Rightarrow> database \<Rightarrow> (orch_error, task_row \<times> database) result)
     \<Rightarrow> 'x run_state \<Rightarrow> (orch_error, task_row) result \<times> 'x run_state" where
  "perform o' env tid f s =
     (let s' = arrive o' env tid s in
      case f (rn_now s') (rn_db s') of
        Inl e \<Rightarrow> (Inl e, s')
      | Inr (u, d) \<Rightarrow> (Inr u, s'\<lparr>rn_db := d\<rparr>))"

text \<open>What follows an awaited operation: an error is thrown on, the value is used.\<close>

definition following ::
  "(orch_error, 'a) result \<times> 'x run_state \<Rightarrow> ('a \<Rightarrow> 'x run_state \<Rightarrow> (orch_error, 'b) result \<times> 'x run_state)
     \<Rightarrow> (orch_error, 'b) result \<times> 'x run_state" where
  "following r k = (case r of (Inl e, s) \<Rightarrow> (Inl e, s) | (Inr x, s) \<Rightarrow> k x s)"

definition ending :: "run_end \<Rightarrow> worker_event \<Rightarrow> 'a \<Rightarrow> 'x run_state \<Rightarrow> (orch_error, boundary_result) result \<times> 'x run_state" where
  "ending r e x s = (Inr (Stop r), logged e s)"

primrec run_stage ::
  "'x worker_options \<Rightarrow> (nat \<Rightarrow> interference) \<Rightarrow> task_id \<Rightarrow> ('x, 'a) code \<Rightarrow> 'x run_state
     \<Rightarrow> 'a \<times> 'x run_state" where
  "run_stage o' env tid (Finished r) = (\<lambda>s. (r, s))"
| "run_stage o' env tid (Access e k) = (\<lambda>s.
     let s' = arrive o' env tid s;
         v = \<lparr>sv_signal = Option.bind (rn_signal s') id, sv_now = rn_now s'\<rparr>;
         w = (rn_db s', rn_ext s') in
     run_stage o' env tid (k v w) (s'\<lparr>rn_db := fst (e v w), rn_ext := snd (e v w)\<rparr>))"

section \<open>Holding a lane\<close>

definition hold_lane :: "claim_lane \<Rightarrow> time \<Rightarrow> string \<Rightarrow> 'x run_state \<Rightarrow> 'x run_state" where
  "hold_lane lane until reason s =
     (if (case map_of (rn_holds s) lane of None \<Rightarrow> False | Some h \<Rightarrow> until \<le> lh_until h) then s
      else logged (ClaimLaneHeld lane until reason)
        (s\<lparr>rn_holds := map_set lane \<lparr>lh_until = until, lh_reason = reason\<rparr> (rn_holds s)\<rparr>))"

section \<open>Applying an outcome\<close>

definition clipped :: "string option option \<Rightarrow> string option option" where
  "clipped e = map_option (map_option (take max_error_length)) e"

definition advance_input :: "worker \<Rightarrow> task_row \<Rightarrow> advance_outcome \<Rightarrow> task_transition_input" where
  "advance_input w task a = (task_to (t_id task) (adv_to a))
     \<lparr>ti_reason := Some (or_else (adv_reason a) (show_state (t_state task) @ '' stage completed'')),
      ti_leaseOwner := Some w, ti_incrementCounter := adv_incrementCounter a,
      ti_lastError := clipped (adv_lastError a),
      ti_requiresManualIntervention := adv_requiresManualIntervention a\<rparr>"

definition pause_limit_input ::
  "worker \<Rightarrow> task_row \<Rightarrow> pause_reason \<Rightarrow> time \<Rightarrow> string option \<Rightarrow> task_transition_input" where
  "pause_limit_input w task p resume reason = (task_to (t_id task) PAUSED_LIMIT)
     \<lparr>ti_resumeState := Some (t_state task), ti_pauseReason := Some p, ti_resumeAfter := Some resume,
      ti_reason := Some (or_else reason (''Paused for '' @ show_pause_reason p)),
      ti_leaseOwner := Some w, ti_releaseLease := True\<rparr>"

definition limit_hold :: "pause_reason \<Rightarrow> task_row \<Rightarrow> 'x run_state \<Rightarrow> 'x run_state" where
  "limit_hold p task s =
     (case t_resumeAfter task of
        None \<Rightarrow> s
      | Some until \<Rightarrow>
          if is_provider_limit_pause (Some p)
          then hold_lane Execution until (''runner '' @ show_pause_reason p) s else s)"

definition apply_outcome ::
  "'x worker_options \<Rightarrow> (nat \<Rightarrow> interference) \<Rightarrow> task_row \<Rightarrow> abort_reason option \<Rightarrow> stage_outcome
     \<Rightarrow> 'x run_state \<Rightarrow> (orch_error, boundary_result) result \<times> 'x run_state" where
  "apply_outcome o' env task signal outcome s =
     (let tid = t_id task; w = wo_workerId o' in
      case outcome of
        Advance a \<Rightarrow>
          following (perform o' env tid (\<lambda>clk. transition_task_row clk (advance_input w task a))
              (arrive o' env tid s))
            (\<lambda>u s. (Inr Again, logged (StageCompleted tid (t_state task) (t_state u)) s))
      | PauseLimit p resume reason \<Rightarrow>
          following (perform o' env tid (\<lambda>clk. transition_task_row clk (pause_limit_input w task p
                (or_else resume (rn_now s + tm_usageLimitPauseMs (wo_timing o'))) reason)) s)
            (\<lambda>u s. (Inr (Stop EndPausedLimit), limit_hold p u (logged (TaskPausedLimit tid (t_resumeAfter u)) s)))
      | Wait until reason lastError \<Rightarrow>
          following (perform o' env tid (\<lambda>clk. defer_task clk tid w until (clipped lastError)) s)
            (ending EndWaiting (TaskWaiting tid until reason))
      | Interrupted \<Rightarrow>
          (case signal of
             None \<Rightarrow> (Inl (PlainError ''Stage handler reported interruption without an abort request''), s)
           | Some r \<Rightarrow> (Inr Again, logged (StageInterrupted tid r) s)))"

section \<open>The stage boundary\<close>

definition start_stage ::
  "'x worker_options \<Rightarrow> (nat \<Rightarrow> interference) \<Rightarrow> task_row \<Rightarrow> (task_row \<Rightarrow> 'x stage_code) \<Rightarrow> 'x run_state
     \<Rightarrow> (orch_error, boundary_result) result \<times> 'x run_state" where
  "start_stage o' env task handler s =
     (let s0 = logged (StageStarted task (rn_controls s) (rn_now s))
                 (s\<lparr>rn_signal := Some (if rn_stopping s then Some AbortShutdown else None)\<rparr>) in
      case run_stage o' env (t_id task) (handler task) s0 of
        (Inl e, s1) \<Rightarrow> (Inl e, s1)
      | (Inr outcome, s1) \<Rightarrow>
          let s2 = s1\<lparr>rn_signal := None\<rparr> in
          if rn_leaseLost s2 then (Inr (Stop EndLeaseLost), s2)
          else apply_outcome o' env task (Option.bind (rn_signal s1) id) outcome s2)"

definition schedule_pause_input :: "worker \<Rightarrow> task_row \<Rightarrow> string \<Rightarrow> task_transition_input" where
  "schedule_pause_input w task gate = (task_to (t_id task) PAUSED_SCHEDULE)
     \<lparr>ti_resumeState := Some (t_state task), ti_pauseReason := Some OPERATING_HOURS_ENDED,
      ti_reason := Some (''Schedule gate closed: '' @ gate), ti_leaseOwner := Some w, ti_releaseLease := True\<rparr>"

definition park ::
  "'x worker_options \<Rightarrow> (nat \<Rightarrow> interference) \<Rightarrow> task_id \<Rightarrow> run_end \<Rightarrow> worker_event \<Rightarrow> 'x run_state
     \<Rightarrow> (orch_error, boundary_result) result \<times> 'x run_state" where
  "park o' env tid r e s =
     following (perform o' env tid (\<lambda>clk. release_lease clk tid (wo_workerId o') None None) s) (ending r e)"

fun show_gate_reason :: "gate_reason \<Rightarrow> string" where
  "show_gate_reason GateOverrideEnabled = ''OVERRIDE_ENABLED''"
| "show_gate_reason GateOverrideDisabled = ''OVERRIDE_DISABLED''"
| "show_gate_reason GateMechanical = ''MECHANICAL_OUTSIDE_HOURS''"
| "show_gate_reason (GateHours ScheduleDisabled) = ''SCHEDULE_DISABLED''"
| "show_gate_reason (GateHours OutsideWindow) = ''OUTSIDE_WINDOW''"
| "show_gate_reason (GateHours InsufficientRemainingTime) = ''INSUFFICIENT_REMAINING_TIME''"
| "show_gate_reason (GateHours HoursOpen) = ''OPEN''"

definition leave ::
  "'x worker_options \<Rightarrow> (nat \<Rightarrow> interference) \<Rightarrow> task_id \<Rightarrow> task_state \<Rightarrow> string \<Rightarrow> run_end \<Rightarrow> worker_event
     \<Rightarrow> 'x run_state \<Rightarrow> (orch_error, boundary_result) result \<times> 'x run_state" where
  "leave o' env tid st reason r e s =
     following (perform o' env tid (\<lambda>clk. transition_task_row clk ((task_to tid st)
         \<lparr>ti_reason := Some reason, ti_leaseOwner := Some (wo_workerId o'), ti_releaseLease := True\<rparr>)) s)
       (ending r e)"

definition gate_text :: "gate_decision option \<Rightarrow> string" where
  "gate_text g = (case g of None \<Rightarrow> ''no operation'' | Some d \<Rightarrow> show_gate_reason (gd_reason d))"

definition schedule_pause ::
  "'x worker_options \<Rightarrow> (nat \<Rightarrow> interference) \<Rightarrow> task_row \<Rightarrow> gate_decision option \<Rightarrow> 'x run_state
     \<Rightarrow> (orch_error, boundary_result) result \<times> 'x run_state" where
  "schedule_pause o' env task g s =
     (let tid = t_id task in
      if can_transition (t_state task) PAUSED_SCHEDULE
      then following (perform o' env tid (\<lambda>clk. transition_task_row clk
             (schedule_pause_input (wo_workerId o') task (gate_text g))) s)
           (ending EndPausedSchedule (TaskPausedSchedule tid))
      else park o' env tid EndPausedSchedule (TaskPausedSchedule tid) s)"

definition gated_stage ::
  "'x worker_options \<Rightarrow> (nat \<Rightarrow> interference) \<Rightarrow> task_row \<Rightarrow> 'x run_state
     \<Rightarrow> (orch_error, boundary_result) result \<times> 'x run_state" where
  "gated_stage o' env task s =
     (case map_of (wo_handlers o') (t_state task) of
        None \<Rightarrow> park o' env (t_id task) EndParked (TaskParked (t_id task) ''no_stage_handler'') s
      | Some handler \<Rightarrow>
          case stage_gate (c_schedule (wo_config o')) (t_state task)
                 (co_scheduleOverride (rn_controls s)) (wo_zone o' (rn_now s)) of
            Inl e \<Rightarrow> (Inl e, s)
          | Inr g \<Rightarrow>
              if (case g of None \<Rightarrow> True | Some d \<Rightarrow> \<not> gd_permitted d) then
                schedule_pause o' env task g s
              else start_stage o' env task handler s)"

definition boundary ::
  "'x worker_options \<Rightarrow> (nat \<Rightarrow> interference) \<Rightarrow> task_id \<Rightarrow> 'x run_state
     \<Rightarrow> (orch_error, boundary_result) result \<times> 'x run_state" where
  "boundary o' env tid s0 =
     (let s = arrive o' env tid s0; w = wo_workerId o' in
      case get_task tid (rn_db s) of
        None \<Rightarrow> ending EndLeaseLost (TaskLeaseLost tid) () (s\<lparr>rn_leaseLost := True\<rparr>)
      | Some task \<Rightarrow>
          if t_leaseOwner task \<noteq> Some w
          then ending EndLeaseLost (TaskLeaseLost tid) () (s\<lparr>rn_leaseLost := True\<rparr>)
          else if t_cancelRequestedAt task \<noteq> None \<and> can_transition (t_state task) CANCELLED
          then leave o' env tid CANCELLED ''Operator cancellation applied at stage boundary''
                 EndCancelled (TaskCancelled tid) s
          else if t_requiresManualIntervention task
          then if can_transition (t_state task) BLOCKED
            then leave o' env tid BLOCKED ''Manual intervention requested''
                   EndManual (TaskManualIntervention tid) s
            else park o' env tid EndManual (TaskManualIntervention tid) s
          else if rn_stopping s then park o' env tid EndParked (TaskParked tid ''shutdown'') s
          else
            let s1 = arrive o' env tid s; s2 = s1\<lparr>rn_controls := get_controls (rn_db s1)\<rparr> in
            if kill_switch_engaged o' s2 then park o' env tid EndParked (TaskParked tid ''kill_switch'') s2
            else if co_pauseNewWork (rn_controls s2)
            then park o' env tid EndParked (TaskParked tid ''pause_new_work'') s2
            else gated_stage o' env task s2)"

section \<open>Failures and the whole run\<close>

definition handoff_write ::
  "'x worker_options \<Rightarrow> task_id \<Rightarrow> task_row \<Rightarrow> string \<Rightarrow> time \<Rightarrow> database \<Rightarrow> (orch_error, task_row \<times> database) result" where
  "handoff_write o' tid current message clk d =
     (if can_transition (t_state current) BLOCKED
      then transition_task_row clk ((task_to tid BLOCKED)
        \<lparr>ti_reason := Some ''Stage failed; manual intervention required'',
         ti_leaseOwner := Some (wo_workerId o'), ti_releaseLease := True,
         ti_lastError := Some (Some message), ti_requiresManualIntervention := Some True\<rparr>) d
      else release_lease clk tid (wo_workerId o') (Some message) (Some True) d)"

definition fail_task ::
  "'x worker_options \<Rightarrow> (nat \<Rightarrow> interference) \<Rightarrow> task_id \<Rightarrow> orch_error \<Rightarrow> 'x run_state \<Rightarrow> run_end \<times> 'x run_state" where
  "fail_task o' env tid err s0 =
     (let s = arrive o' env tid s0; w = wo_workerId o'; message = error_text err in
      case get_task tid (rn_db s) of
        None \<Rightarrow> (EndNotHeld, s)
      | Some current \<Rightarrow>
          if t_leaseOwner current \<noteq> Some w then (EndNotHeld, s)
          else
            case perform o' env tid (handoff_write o' tid current message) s of
              (Inl e, s') \<Rightarrow> (EndHandoffFailed, logged (HandoffFailed tid message (error_text e)) s')
            | (Inr u, s') \<Rightarrow> (EndFailed, logged (TaskStageFailed tid message) s'))"

definition is_lease_error :: "orch_error \<Rightarrow> bool" where
  "is_lease_error e = (case e of LeaseOwnershipError i \<Rightarrow> True | _ \<Rightarrow> False)"

definition caught ::
  "'x worker_options \<Rightarrow> (nat \<Rightarrow> interference) \<Rightarrow> task_id \<Rightarrow> orch_error \<Rightarrow> 'x run_state \<Rightarrow> run_end \<times> 'x run_state" where
  "caught o' env tid err s =
     (if rn_leaseLost s \<or> is_lease_error err then (EndLeaseLost, logged (TaskLeaseLost tid) s)
      else fail_task o' env tid err s)"

text \<open>The loop, for as many stage boundaries as the first argument allows.\<close>

primrec run_task ::
  "nat \<Rightarrow> 'x worker_options \<Rightarrow> (nat \<Rightarrow> interference) \<Rightarrow> task_id \<Rightarrow> 'x run_state
     \<Rightarrow> (run_end \<times> 'x run_state) option" where
  "run_task 0 o' env tid s = None"
| "run_task (Suc n) o' env tid s =
     (case boundary o' env tid s of
        (Inl e, s') \<Rightarrow> Some (caught o' env tid e s')
      | (Inr (Stop r), s') \<Rightarrow> Some (r, s')
      | (Inr Again, s') \<Rightarrow> run_task n o' env tid s')"


section \<open>What a run keeps\<close>

text \<open>A property of the database that a stage keeps at each of its accesses.\<close>

primrec code_keeps :: "(database \<Rightarrow> bool) \<Rightarrow> ('x, 'a) code \<Rightarrow> bool" where
  "code_keeps I (Finished r) = True"
| "code_keeps I (Access e k) =
     ((\<forall>v d x. I d \<longrightarrow> I (fst (e v (d, x)))) \<and> (\<forall>v w. code_keeps I (k v w)))"

definition handlers_keep :: "(database \<Rightarrow> bool) \<Rightarrow> 'x worker_options \<Rightarrow> bool" where
  "handlers_keep I o' = (\<forall>(st, h) \<in> set (wo_handlers o'). \<forall>task. code_keeps I (h task))"

definition others_keep :: "(database \<Rightarrow> bool) \<Rightarrow> (nat \<Rightarrow> interference) \<Rightarrow> bool" where
  "others_keep I env = (\<forall>n d. I d \<longrightarrow> I (if_db (env n) d))"

text \<open>
  The worker's own interface to the task table, and what a property of the database needs of it
  to survive every run.
\<close>

locale kept_by_worker =
  fixes I :: "database \<Rightarrow> bool" and tid :: task_id
  assumes transition_keeps: "I d \<Longrightarrow> ti_taskId i = tid \<Longrightarrow> transition_task_row clk i d = Inr (u, d') \<Longrightarrow> I d'"
    and release_keeps: "I d \<Longrightarrow> release_lease clk tid w e m d = Inr (u, d') \<Longrightarrow> I d'"
    and defer_keeps: "I d \<Longrightarrow> defer_task clk tid w until le d = Inr (u, d') \<Longrightarrow> I d'"
    and heartbeat_keeps: "I d \<Longrightarrow> heartbeat tid w ms clk d = Inr (u, d') \<Longrightarrow> I d'"

lemma logged_simps [simp]:
  "rn_db (logged e s) = rn_db s" "rn_at (logged e s) = rn_at s" "rn_leaseLost (logged e s) = rn_leaseLost s"
  "rn_log (logged e s) = e # rn_log s" "rn_stopping (logged e s) = rn_stopping s"
  "rn_controls (logged e s) = rn_controls s" "rn_now (logged e s) = rn_now s"
  by (simp_all add: logged_def)

lemma abort_stage_simps [simp]:
  "rn_db (abort_stage r s) = rn_db s" "rn_at (abort_stage r s) = rn_at s" "rn_log (abort_stage r s) = rn_log s"
  "rn_stopping (abort_stage r s) = rn_stopping s" "rn_now (abort_stage r s) = rn_now s"
  by (simp_all add: abort_stage_def)

lemma refresh_controls_simps [simp]:
  "rn_db (refresh_controls o' s) = rn_db s" "rn_log (refresh_controls o' s) = rn_log s"
  "rn_stopping (refresh_controls o' s) = rn_stopping s" "rn_at (refresh_controls o' s) = rn_at s"
  by (simp_all add: refresh_controls_def Let_def)

lemma hold_lane_simps [simp]: "rn_db (hold_lane l u r s) = rn_db s"
  by (simp add: hold_lane_def split: option.splits)

lemma limit_hold_simps [simp]: "rn_db (limit_hold p t s) = rn_db s"
  by (simp add: limit_hold_def split: option.splits)

lemma beat_db: "rn_db (beat o' tid s) = rn_db s
  \<or> (\<exists>u. heartbeat tid (wo_workerId o') (tm_leaseDurationMs (wo_timing o')) (rn_now s) (rn_db s) = Inr (u, rn_db (beat o' tid s)))"
  by (auto simp: beat_def Let_def split: sum.splits orch_error.splits bool.splits)

lemma input_task_ids [simp]:
  "ti_taskId (task_to i st) = i" "ti_taskId (advance_input w t a) = t_id t"
  "ti_taskId (pause_limit_input w t p u r) = t_id t" "ti_taskId (schedule_pause_input w t g) = t_id t"
  by (simp_all add: task_to_def advance_input_def pause_limit_input_def schedule_pause_input_def)

lemma get_task_id: "get_task i d = Some t \<Longrightarrow> t_id t = i"
  by (auto simp: get_task_def dest: select_task_SomeD)

lemma followingE:
  assumes "following r k = (a, s')"
  obtains e where "r = (Inl e, s')" "a = Inl e" | x s where "r = (Inr x, s)" "k x s = (a, s')"
  using assms by (auto simp: following_def split: prod.splits sum.splits)

lemma performE:
  assumes "perform o' env tid f s = (r, s')"
  obtains e where "r = Inl e" "s' = arrive o' env tid s" "f (rn_now s') (rn_db s') = Inl e"
  | u d where "r = Inr u" "s' = (arrive o' env tid s)\<lparr>rn_db := d\<rparr>"
      "f (rn_now (arrive o' env tid s)) (rn_db (arrive o' env tid s)) = Inr (u, d)"
  using assms by (auto simp: perform_def Let_def split: sum.splits)

context kept_by_worker
begin

lemma arrive_keeps: "others_keep I env \<Longrightarrow> I (rn_db s) \<Longrightarrow> I (rn_db (arrive o' env tid s))"
proof -
  assume env: "others_keep I env" and s: "I (rn_db s)"
  define s3 where "s3 = (let i = env (rn_at s);
          s1 = s\<lparr>rn_at := Suc (rn_at s), rn_db := if_db i (rn_db s), rn_now := if_now i,
                 rn_stopping := (rn_stopping s \<or> if_stopping i)\<rparr>;
          s2 = (if if_stopping i then abort_stage AbortShutdown s1 else s1) in
          if if_refresh i then refresh_controls o' s2 else s2)"
  have "I (rn_db s3)" using env s by (simp add: s3_def Let_def others_keep_def)
  moreover have "arrive o' env tid s = (if if_beat (env (rn_at s)) then beat o' tid s3 else s3)"
    by (simp add: arrive_def s3_def Let_def)
  ultimately show ?thesis using beat_db [of o' tid s3] heartbeat_keeps by metis
qed

lemma perform_keeps:
  assumes "others_keep I env" "I (rn_db s)" "\<And>d clk u d'. I d \<Longrightarrow> f clk d = Inr (u, d') \<Longrightarrow> I d'"
    and "perform o' env tid f s = (r, s')"
  shows "I (rn_db s')"
  using assms(4)
proof (cases rule: performE)
  case 1
  then show ?thesis using arrive_keeps [OF assms(1,2)] by simp
next
  case (2 u d)
  then show ?thesis using assms(3) [OF arrive_keeps [OF assms(1,2)] 2(3)] by simp
qed

lemma run_stage_keeps:
  assumes "others_keep I env" "code_keeps I code" "I (rn_db s)" "run_stage o' env tid code s = (r, s')"
  shows "I (rn_db s')"
  using assms(2-)
proof (induction code arbitrary: s)
  case (Access e k)
  define s1 where "s1 = arrive o' env tid s"
  define v where "v = \<lparr>sv_signal = Option.bind (rn_signal s1) id, sv_now = rn_now s1\<rparr>"
  define w where "w = (rn_db s1, rn_ext s1)"
  have "I (rn_db s1)" unfolding s1_def by (rule arrive_keeps [OF assms(1) Access.prems(2)])
  then have "I (rn_db (s1\<lparr>rn_db := fst (e v w), rn_ext := snd (e v w)\<rparr>))"
    using Access.prems(1) by (simp add: w_def)
  moreover have "run_stage o' env tid (k v w) (s1\<lparr>rn_db := fst (e v w), rn_ext := snd (e v w)\<rparr>) = (r, s')"
    using Access.prems(3) by (simp add: s1_def v_def w_def Let_def)
  ultimately show ?case using Access.IH Access.prems(1) by (metis code_keeps.simps(2) rangeI)
qed simp

lemma follow_perform_keeps:
  assumes "others_keep I env" "I (rn_db s)" "\<And>d clk u d'. I d \<Longrightarrow> f clk d = Inr (u, d') \<Longrightarrow> I d'"
    and "\<And>x s. rn_db (snd (k x s)) = rn_db s"
    and "following (perform o' env tid f s) k = (r, s')"
  shows "I (rn_db s')"
  using assms(5)
proof (cases rule: followingE)
  case 1
  show ?thesis by (rule perform_keeps [OF assms(1,2) _ 1(1)]) (rule assms(3))
next
  case (2 x s1)
  then have "rn_db s' = rn_db s1" using assms(4) [of x s1] by simp
  moreover have "I (rn_db s1)" by (rule perform_keeps [OF assms(1,2) _ 2(1)]) (rule assms(3))
  ultimately show ?thesis by simp
qed

lemma ending_db: "rn_db (snd (ending r e x s)) = rn_db s"
  by (simp add: ending_def)

lemma park_keeps:
  "others_keep I env \<Longrightarrow> I (rn_db s) \<Longrightarrow> park o' env tid r e s = (a, s') \<Longrightarrow> I (rn_db s')"
  unfolding park_def by (rule follow_perform_keeps [OF _ _ release_keeps ending_db])

lemma leave_keeps:
  assumes "others_keep I env" "I (rn_db s)" "leave o' env tid st reason r e s = (a, s')"
  shows "I (rn_db s')"
  by (rule follow_perform_keeps [OF assms(1,2) _ ending_db assms(3) [unfolded leave_def]])
    (erule transition_keeps [rotated -1], simp_all)

lemma apply_outcome_keeps:
  assumes "others_keep I env" "I (rn_db s)" "t_id task = tid" "apply_outcome o' env task sg oc s = (a, s')"
  shows "I (rn_db s')"
proof (cases oc)
  case (Advance x)
  note a = assms(4) [unfolded apply_outcome_def Let_def Advance, simplified, unfolded assms(3)]
  show ?thesis
    by (rule follow_perform_keeps [OF assms(1) arrive_keeps [OF assms(1,2)] _ _ a])
      (erule transition_keeps, simp_all add: assms(3))
next
  case (PauseLimit p b c)
  note a = assms(4) [unfolded apply_outcome_def Let_def PauseLimit, simplified, unfolded assms(3)]
  show ?thesis
    by (rule follow_perform_keeps [OF assms(1,2) _ _ a]) (erule transition_keeps, simp_all add: assms(3))
next
  case (Wait until reason e)
  note a = assms(4) [unfolded apply_outcome_def Let_def Wait, simplified, unfolded assms(3)]
  show ?thesis by (rule follow_perform_keeps [OF assms(1,2) defer_keeps ending_db a])
next
  case Interrupted
  then show ?thesis using assms(2,4) by (auto simp: apply_outcome_def split: option.splits)
qed

lemma start_stage_keeps:
  assumes "others_keep I env" "I (rn_db s)" "t_id task = tid" "code_keeps I (h task)"
    and "start_stage o' env task h s = (a, s')"
  shows "I (rn_db s')"
proof -
  define s0 where "s0 = logged (StageStarted task (rn_controls s) (rn_now s))
                 (s\<lparr>rn_signal := Some (if rn_stopping s then Some AbortShutdown else None)\<rparr>)"
  obtain r s1 where run: "run_stage o' env tid (h task) s0 = (r, s1)" by fastforce
  have "I (rn_db s0)" using assms(2) by (simp add: s0_def)
  from run_stage_keeps [OF assms(1,4) this run] have s1: "I (rn_db s1)" .
  have run': "run_stage o' env (t_id task) (h task)
      (logged (StageStarted task (rn_controls s) (rn_now s))
        (s\<lparr>rn_signal := Some (if rn_stopping s then Some AbortShutdown else None)\<rparr>)) = (r, s1)"
    using run assms(3) by (simp add: s0_def)
  show ?thesis
  proof (cases r)
    case (Inl e)
    then show ?thesis using assms(5) s1 unfolding start_stage_def Let_def run' by simp
  next
    case (Inr oc)
    let ?s2 = "s1\<lparr>rn_signal := None\<rparr>"
    have eq: "(if rn_leaseLost ?s2 then (Inr (Stop EndLeaseLost), ?s2)
          else apply_outcome o' env task (Option.bind (rn_signal s1) id) oc ?s2) = (a, s')"
      using assms(5) unfolding start_stage_def Let_def run' Inr by simp
    show ?thesis
    proof (cases "rn_leaseLost s1")
      case True
      then show ?thesis using eq s1 by auto
    next
      case False
      with eq have o: "apply_outcome o' env task (Option.bind (rn_signal s1) id) oc ?s2 = (a, s')" by simp
      show ?thesis by (rule apply_outcome_keeps [OF assms(1) _ assms(3) o]) (simp add: s1)
    qed
  qed
qed

lemma schedule_pause_keeps:
  assumes "others_keep I env" "I (rn_db s)" "t_id task = tid" "schedule_pause o' env task g s = (a, s')"
  shows "I (rn_db s')"
proof (cases "can_transition (t_state task) PAUSED_SCHEDULE")
  case False
  then have "park o' env tid EndPausedSchedule (TaskPausedSchedule tid) s = (a, s')"
    using assms(3,4) by (simp add: schedule_pause_def Let_def)
  then show ?thesis by (rule park_keeps [OF assms(1,2)])
next
  case True
  then have a: "following (perform o' env tid (\<lambda>clk. transition_task_row clk
                 (schedule_pause_input (wo_workerId o') task (gate_text g))) s)
               (ending EndPausedSchedule (TaskPausedSchedule tid)) = (a, s')"
    using assms(3,4) by (simp add: schedule_pause_def Let_def)
  show ?thesis
    by (rule follow_perform_keeps [OF assms(1,2) _ ending_db a]) (erule transition_keeps, simp_all add: assms(3))
qed

lemma gated_stage_keeps:
  assumes "others_keep I env" "I (rn_db s)" "t_id task = tid" "handlers_keep I o'"
    and step: "gated_stage o' env task s = (a, s')"
  shows "I (rn_db s')"
proof (cases "map_of (wo_handlers o') (t_state task)")
  case None
  show ?thesis
    using step park_keeps [OF assms(1,2)] assms(3) by (simp add: gated_stage_def None)
next
  case (Some h)
  have h: "code_keeps I (h task)"
    using assms(4) map_of_SomeD [OF Some] by (auto simp: handlers_keep_def)
  note step = step [unfolded gated_stage_def Let_def Some, simplified]
  show ?thesis
  proof (cases "stage_gate (c_schedule (wo_config o')) (t_state task)
                 (co_scheduleOverride (rn_controls s)) (wo_zone o' (rn_now s))")
    case (Inl e)
    then show ?thesis using step assms(2) by auto
  next
    case (Inr g)
    show ?thesis
    proof (cases "case g of None \<Rightarrow> True | Some d \<Rightarrow> \<not> gd_permitted d")
      case False
      then have "start_stage o' env task h s = (a, s')" using step Inr by simp
      then show ?thesis using start_stage_keeps [OF assms(1-3)] h by blast
    next
      case True
      then have "schedule_pause o' env task g s = (a, s')" using step Inr by simp
      then show ?thesis by (rule schedule_pause_keeps [OF assms(1-3)])
    qed
  qed
qed

lemma boundary_keeps:
  assumes env: "others_keep I env" and s0: "I (rn_db s0)" and "handlers_keep I o'"
    and step: "boundary o' env tid s0 = (a, s')"
  shows "I (rn_db s')"
proof -
  define s where "s = arrive o' env tid s0"
  define s1 where "s1 = arrive o' env tid s"
  define s2 where "s2 = s1\<lparr>rn_controls := get_controls (rn_db s1)\<rparr>"
  have s: "I (rn_db s)" unfolding s_def by (rule arrive_keeps [OF env s0])
  then have "I (rn_db s1)" unfolding s1_def by (rule arrive_keeps [OF env])
  then have s2: "I (rn_db s2)" by (simp add: s2_def)
  note step = step [unfolded boundary_def Let_def, folded s_def, folded s1_def, folded s2_def]
  show ?thesis
  proof (cases "get_task tid (rn_db s)")
    case None
    then show ?thesis using step s by (auto simp: ending_def)
  next
    case (Some task)
    note step = step [unfolded Some, simplified]
    consider "s' = logged (TaskLeaseLost tid) (s\<lparr>rn_leaseLost := True\<rparr>)"
      | st r e v where "leave o' env tid st r e v s = (a, s')"
      | q e v where "park o' env tid e v q = (a, s')" "q = s \<or> q = s2"
      | "gated_stage o' env task s2 = (a, s')"
      using step by (auto simp: ending_def split: if_splits)
    then show ?thesis
    proof cases
      case 1
      then show ?thesis using s by simp
    next
      case (2 st r e v)
      show ?thesis by (rule leave_keeps [OF env s 2])
    next
      case (3 q e v)
      then have "I (rn_db q)" using s s2 by blast
      from park_keeps [OF env this 3(1)] show ?thesis .
    next
      case 4
      show ?thesis by (rule gated_stage_keeps [OF env s2 get_task_id [OF Some] assms(3) 4])
    qed
  qed
qed

lemma fail_task_keeps:
  assumes env: "others_keep I env" and s0: "I (rn_db s0)" and step: "fail_task o' env tid err s0 = (r, s')"
  shows "I (rn_db s')"
proof -
  define s where "s = arrive o' env tid s0"
  have s: "I (rn_db s)" unfolding s_def by (rule arrive_keeps [OF env s0])
  show ?thesis
  proof (cases "s' = s")
    case False
    then obtain c r1 s1 where c: "perform o' env tid (handoff_write o' tid c (error_text err)) s = (r1, s1)"
      and s': "rn_db s' = rn_db s1"
      using step unfolding fail_task_def Let_def s_def [symmetric]
      by (auto split: option.splits if_splits prod.splits sum.splits)
    have "I d'" if "I d" "handoff_write o' tid x m clk d = Inr (u, d')" for x m d clk u d'
    proof (cases "can_transition (t_state x) BLOCKED")
      case True
      show ?thesis
        by (rule transition_keeps [OF that(1) _ that(2) [unfolded handoff_write_def if_P [OF True]]]) simp
    next
      case False
      show ?thesis by (rule release_keeps [OF that(1) that(2) [unfolded handoff_write_def if_not_P [OF False]]])
    qed
    then have "I (rn_db s1)" by (rule perform_keeps [OF env s _ c])
    then show ?thesis by (simp add: s')
  qed (simp add: s)
qed

lemma run_task_keeps:
  assumes "others_keep I env" "handlers_keep I o'" "I (rn_db s)" "run_task n o' env tid s = Some (r, s')"
  shows "I (rn_db s')"
  using assms(3,4)
proof (induction n arbitrary: s)
  case (Suc n)
  obtain b s1 where b: "boundary o' env tid s = (b, s1)" by fastforce
  have s1: "I (rn_db s1)" by (rule boundary_keeps [OF assms(1) Suc.prems(1) assms(2) b])
  consider e where "b = Inl e" "caught o' env tid e s1 = (r, s')"
    | "rn_db s' = rn_db s1" | "run_task n o' env tid s1 = Some (r, s')"
    using Suc.prems(2) b by (auto split: sum.splits boundary_result.splits)
  then show ?case
  proof cases
    case (1 e)
    show ?thesis
    proof (cases "rn_leaseLost s1 \<or> is_lease_error e")
      case True
      then show ?thesis using 1(2) s1 by (auto simp: caught_def)
    next
      case False
      then have "fail_task o' env tid e s1 = (r, s')" using 1(2) by (simp add: caught_def)
      then show ?thesis by (rule fail_task_keeps [OF assms(1) s1])
    qed
  next
    case 3
    then show ?thesis by (rule Suc.IH [OF s1])
  qed (simp add: s1)
qed simp

end

section \<open>The store and the other tasks\<close>

interpretation store_kept: kept_by_worker store_ok tid for tid
  by unfold_locales (erule transition_task_row_ok release_lease_ok defer_task_ok heartbeat_ok, assumption)+

text \<open>The rows of the tasks a run is not about.\<close>

definition other_rows_kept :: "task_id \<Rightarrow> database \<Rightarrow> database \<Rightarrow> bool" where
  "other_rows_kept tid d0 d = (\<forall>t \<in> set (db_tasks d0). t_id t \<noteq> tid \<longrightarrow> t \<in> set (db_tasks d))"

lemma other_rows_update:
  "other_rows_kept tid d0 d \<Longrightarrow> db_tasks d' = update_where p f (db_tasks d)
     \<Longrightarrow> (\<And>t. p t \<Longrightarrow> t_id t = tid) \<Longrightarrow> other_rows_kept tid d0 d'"
  by (fastforce simp: other_rows_kept_def set_update_where)

lemma other_rows_leased:
  "other_rows_kept tid d0 d \<Longrightarrow> update_leased tid w f d = Inr (u, d') \<Longrightarrow> other_rows_kept tid d0 d'"
  by (rule other_rows_update [where p = "holds_lease tid w" and f = f])
    (auto dest: update_leased_Inr simp: holds_lease_def)

interpretation rows_kept: kept_by_worker "other_rows_kept tid d0" tid for tid d0
proof
  fix d i clk u d'
  assume k: "other_rows_kept tid d0 d" "ti_taskId i = tid" and step: "transition_task_row clk i d = Inr (u, d')"
  from step obtain task where "t_id task = tid" "transition_locked_task clk task (locked_input_of i) d = Inr (u, d')"
    by (rule transition_task_row_cases) (simp add: k)
  then show "other_rows_kept tid d0 d'"
    by (elim transition_locked_task_Inr other_rows_update [OF k(1), rotated -1, rotated -1])
      (auto simp: task_has_id_def)
qed (auto simp: release_lease_def defer_task_def heartbeat_def split: if_splits elim: other_rows_leased)

section \<open>Handing the task back\<close>

text \<open>What the row looks like after the write a run ends with.\<close>

lemma transition_written:
  assumes ok: "store_ok d" and step: "transition_task_row clk i d = Inr (u, d')"
  shows "select_task (ti_taskId i) d' = Some u" and "t_state u = ti_to i"
    and "ti_releaseLease i \<Longrightarrow> t_leaseOwner u = None"
    and "t_requiresManualIntervention u \<longleftrightarrow> or_else (ti_requiresManualIntervention i) (t_requiresManualIntervention u)"
    and "is_paused (ti_to i) \<Longrightarrow> t_resumeAfter u = ti_resumeAfter i \<and> t_resumeState u = ti_resumeState i"
    and "ti_lastError i = Some (Some m) \<Longrightarrow> t_lastError u = Some m"
proof -
  from step obtain task where mem: "task \<in> set (db_tasks d)" and tid: "t_id task = ti_taskId i"
    and lk: "transition_locked_task clk task (locked_input_of i) d = Inr (u, d')"
    by (rule transition_task_row_cases)
  note row = transition_locked_task_row [OF store_okD(1) [OF ok] mem lk]
  show "ti_lastError i = Some (Some m) \<Longrightarrow> t_lastError u = Some m"
    using lk by (elim transition_locked_task_Inr)
      (auto simp: locked_input_of_def transition_updates_def set_lease_def increment_counter_def reset_counters_def
        split: option.splits attempt_counter.splits dest!: updated_task_SomeD)
  have "u \<in> set (db_tasks d')" using row(7) mem by (auto simp: image_iff)
  with row(1) tid show "select_task (ti_taskId i) d' = Some u"
    using select_task_eqI [OF store_okD(1) [OF transition_task_row_ok [OF ok step]]] by simp
  show "t_state u = ti_to i" using row(2) by (simp add: locked_input_of_def)
  show "ti_releaseLease i \<Longrightarrow> t_leaseOwner u = None"
    using row(4) by (simp add: locked_input_of_def cleared_lease_def)
  show "t_requiresManualIntervention u \<longleftrightarrow> or_else (ti_requiresManualIntervention i) (t_requiresManualIntervention u)"
    using row(5) by (cases "ti_requiresManualIntervention i") (simp_all add: locked_input_of_def)
  show "is_paused (ti_to i) \<Longrightarrow> t_resumeAfter u = ti_resumeAfter i \<and> t_resumeState u = ti_resumeState i"
    using lk by (elim transition_locked_task_Inr)
      (auto simp: locked_input_of_def dest!: updated_task_SomeD)
qed

lemma leased_written:
  assumes ok: "unique_task_ids d" and step: "update_leased i w f d = Inr (u, d')" and id: "\<And>t. t_id (f t) = t_id t"
  obtains t where "t \<in> set (db_tasks d)" "u = f t" "t_id t = i" "t_leaseOwner t = Some w" "select_task i d' = Some u"
proof -
  from update_leased_Inr [OF step] obtain t where d': "d' = update_tasks (holds_lease i w) f d"
    and t: "t \<in> set (db_tasks d)" "holds_lease i w t" "u = f t" by blast
  have "u \<in> set (db_tasks d')" using t by (auto simp: d' set_update_where)
  moreover have "unique_task_ids d'" using ok by (simp add: d' unique_update_tasks id)
  ultimately have "select_task i d' = Some u"
    using t by (intro select_task_eqI) (auto simp: id holds_lease_def)
  with t show thesis by (intro that) (auto simp: holds_lease_def)
qed

definition handed_over :: "run_end \<Rightarrow> task_id \<Rightarrow> database \<Rightarrow> bool" where
  "handed_over r tid d =
     (case select_task tid d of
        None \<Rightarrow> False
      | Some t \<Rightarrow> t_leaseOwner t = None
          \<and> (r = EndCancelled \<longrightarrow> t_state t = CANCELLED)
          \<and> (r = EndPausedLimit \<longrightarrow> t_state t = PAUSED_LIMIT \<and> t_resumeAfter t \<noteq> None \<and> t_resumeState t \<noteq> None)
          \<and> (r = EndWaiting \<longrightarrow> t_resumeAfter t \<noteq> None)
          \<and> (r = EndFailed \<longrightarrow> t_requiresManualIntervention t \<and> t_lastError t \<noteq> None))"

text \<open>The ends of a run that write the row last; the others write nothing because the lease is gone.\<close>

definition writes_last :: "run_end \<Rightarrow> bool" where
  "writes_last r = (r \<notin> {EndLeaseLost, EndNotHeld, EndHandoffFailed})"

lemma follow_handed_over:
  assumes env: "others_keep store_ok env" and s: "store_ok (rn_db s)"
    and step: "following (perform o' env tid f s) k = (Inr (Stop r), s')"
    and k: "\<And>u q. k u q = (Inr (Stop r0), snd (k u q)) \<and> rn_db (snd (k u q)) = rn_db q"
    and f: "\<And>clk d u d'. store_ok d \<Longrightarrow> f clk d = Inr (u, d') \<Longrightarrow> handed_over r0 tid d'"
  shows "handed_over r tid (rn_db s')"
  using step
proof (cases rule: followingE)
  case (2 u q)
  from 2(1) obtain d where q: "q = (arrive o' env tid s)\<lparr>rn_db := d\<rparr>"
    "f (rn_now (arrive o' env tid s)) (rn_db (arrive o' env tid s)) = Inr (u, d)"
    by (auto elim: performE)
  have "handed_over r0 tid d" by (rule f [OF store_kept.arrive_keeps [OF env s] q(2)])
  moreover have "r = r0 \<and> rn_db s' = d" using k [of u q] 2(2) q(1) by simp
  ultimately show ?thesis by simp
qed simp

lemma ending_stop: "ending r e x s = (Inr (Stop r), snd (ending r e x s)) \<and> rn_db (snd (ending r e x s)) = rn_db s"
  by (simp add: ending_def)

lemma release_handed_over:
  assumes "store_ok d" "release_lease clk tid w e m d = Inr (u, d')"
    and "r \<notin> {EndCancelled, EndPausedLimit, EndWaiting}" "r = EndFailed \<Longrightarrow> e \<noteq> None \<and> m = Some True"
  shows "handed_over r tid d'"
  using assms(2) unfolding release_lease_def
  by (rule leased_written [OF store_okD(1) [OF assms(1)]])
    (use assms(3,4) in \<open>auto simp: handed_over_def cleared_lease_def split: option.splits\<close>)

lemma transition_handed_over:
  assumes "store_ok d" "transition_task_row clk i d = Inr (u, d')" "ti_taskId i = tid" "ti_releaseLease i"
    and "r \<noteq> EndWaiting" "r = EndCancelled \<Longrightarrow> ti_to i = CANCELLED"
    and "r = EndPausedLimit \<Longrightarrow> ti_to i = PAUSED_LIMIT \<and> ti_resumeAfter i \<noteq> None \<and> ti_resumeState i \<noteq> None"
    and "r = EndFailed \<Longrightarrow> ti_requiresManualIntervention i = Some True \<and> (\<exists>m. ti_lastError i = Some (Some m))"
  shows "handed_over r tid d'"
proof -
  note w = transition_written [OF assms(1,2)]
  show ?thesis
    using w(1,2,4,5) w(3) [OF assms(4)] w(6) assms(3,5-)
    by (auto simp: handed_over_def is_paused_def)
qed

lemma park_handed_over:
  assumes "others_keep store_ok env" "store_ok (rn_db s)" "park o' env tid r0 e s = (Inr (Stop r), s')"
    and "r0 \<in> {EndManual, EndParked, EndPausedSchedule}"
  shows "handed_over r tid (rn_db s')"
  by (rule follow_handed_over [OF assms(1,2) assms(3) [unfolded park_def] ending_stop])
    (erule (1) release_handed_over, use assms(4) in auto)

lemma leave_handed_over:
  assumes "others_keep store_ok env" "store_ok (rn_db s)" "leave o' env tid st reason r0 e s = (Inr (Stop r), s')"
    and "r0 = EndManual \<or> r0 = EndCancelled \<and> st = CANCELLED"
  shows "handed_over r tid (rn_db s')"
  by (rule follow_handed_over [OF assms(1,2) assms(3) [unfolded leave_def] ending_stop])
    (erule (1) transition_handed_over, use assms(4) in \<open>auto simp: task_to_def\<close>)

lemma schedule_pause_handed_over:
  assumes "others_keep store_ok env" "store_ok (rn_db s)" "t_id task = tid"
    and step: "schedule_pause o' env task g s = (Inr (Stop r), s')"
  shows "handed_over r tid (rn_db s')"
proof (cases "can_transition (t_state task) PAUSED_SCHEDULE")
  case True
  note step = step [unfolded schedule_pause_def Let_def assms(3) if_P [OF True]]
  show ?thesis
    by (rule follow_handed_over [OF assms(1,2) step ending_stop])
      (erule (1) transition_handed_over, use assms(3) in \<open>auto simp: schedule_pause_input_def task_to_def\<close>)
next
  case False
  note step = step [unfolded schedule_pause_def Let_def assms(3) if_not_P [OF False]]
  show ?thesis by (rule park_handed_over [OF assms(1,2) step]) simp
qed

lemma apply_outcome_handed_over:
  assumes "others_keep store_ok env" "store_ok (rn_db s)" "t_id task = tid"
    and step: "apply_outcome o' env task sg oc s = (Inr (Stop r), s')"
  shows "handed_over r tid (rn_db s')"
proof (cases oc)
  case (Advance a)
  then show ?thesis using step by (auto simp: apply_outcome_def Let_def elim: followingE)
next
  case (PauseLimit p resume reason)
  note step = step [unfolded apply_outcome_def Let_def PauseLimit, simplified, unfolded assms(3)]
  show ?thesis
    by (rule follow_handed_over [where ?r0.0 = EndPausedLimit, OF assms(1,2) step])
      (simp, erule (1) transition_handed_over,
        use assms(3) in \<open>auto simp: pause_limit_input_def task_to_def\<close>)
next
  case (Wait until reason e)
  note step = step [unfolded apply_outcome_def Let_def Wait, simplified, unfolded assms(3)]
  have "handed_over EndWaiting tid d'"
    if "store_ok d" "defer_task clk tid (wo_workerId o') until (clipped e) d = Inr (u, d')" for clk d u d'
    using that(2) unfolding defer_task_def
    by (rule leased_written [OF store_okD(1) [OF that(1)]])
      (auto simp: handed_over_def cleared_lease_def)
  then show ?thesis by (rule follow_handed_over [OF assms(1,2) step ending_stop])
next
  case Interrupted
  then show ?thesis using step by (auto simp: apply_outcome_def split: option.splits)
qed

lemma start_stage_handed_over:
  assumes "others_keep store_ok env" "store_ok (rn_db s)" "t_id task = tid" "code_keeps store_ok (h task)"
    and step: "start_stage o' env task h s = (Inr (Stop r), s')" and "writes_last r"
  shows "handed_over r tid (rn_db s')"
proof -
  define s0 where "s0 = logged (StageStarted task (rn_controls s) (rn_now s))
                 (s\<lparr>rn_signal := Some (if rn_stopping s then Some AbortShutdown else None)\<rparr>)"
  obtain x s1 where run: "run_stage o' env tid (h task) s0 = (x, s1)" by fastforce
  have "store_ok (rn_db s0)" using assms(2) by (simp add: s0_def)
  from store_kept.run_stage_keeps [OF assms(1,4) this run] have s1: "store_ok (rn_db (s1\<lparr>rn_signal := None\<rparr>))" by simp
  note step = step [unfolded start_stage_def Let_def, folded s0_def, unfolded assms(3) run prod.case]
  obtain oc where x: "x = Inr oc" using step by (cases x) auto
  have "\<not> rn_leaseLost s1" using step assms(6) by (auto simp: x writes_last_def)
  with step x have "apply_outcome o' env task (Option.bind (rn_signal s1) id) oc (s1\<lparr>rn_signal := None\<rparr>) = (Inr (Stop r), s')"
    by simp
  then show ?thesis by (rule apply_outcome_handed_over [OF assms(1) s1 assms(3)])
qed

lemma gated_stage_handed_over:
  assumes "others_keep store_ok env" "store_ok (rn_db s)" "t_id task = tid" "handlers_keep store_ok o'"
    and step: "gated_stage o' env task s = (Inr (Stop r), s')" and "writes_last r"
  shows "handed_over r tid (rn_db s')"
proof -
  consider "park o' env tid EndParked (TaskParked tid ''no_stage_handler'') s = (Inr (Stop r), s')"
    | g where "schedule_pause o' env task g s = (Inr (Stop r), s')"
    | h where "map_of (wo_handlers o') (t_state task) = Some h" "start_stage o' env task h s = (Inr (Stop r), s')"
    using step assms(3) unfolding gated_stage_def by (auto split: option.splits sum.splits if_splits)
  then show ?thesis
  proof cases
    case 1
    show ?thesis by (rule park_handed_over [OF assms(1,2) 1]) simp
  next
    case 2
    show ?thesis by (rule schedule_pause_handed_over [OF assms(1-3) 2])
  next
    case (3 h)
    then have "code_keeps store_ok (h task)"
      using assms(4) map_of_SomeD [OF 3(1)] by (auto simp: handlers_keep_def)
    from start_stage_handed_over [OF assms(1-3) this 3(2) assms(6)] show ?thesis .
  qed
qed

lemma boundary_handed_over:
  assumes env: "others_keep store_ok env" and s0: "store_ok (rn_db s0)" and h: "handlers_keep store_ok o'"
    and step: "boundary o' env tid s0 = (Inr (Stop r), s')" and w: "writes_last r"
  shows "handed_over r tid (rn_db s')"
proof -
  define s where "s = arrive o' env tid s0"
  define s1 where "s1 = arrive o' env tid s"
  define s2 where "s2 = s1\<lparr>rn_controls := get_controls (rn_db s1)\<rparr>"
  have s: "store_ok (rn_db s)" unfolding s_def by (rule store_kept.arrive_keeps [OF env s0])
  then have "store_ok (rn_db s1)" unfolding s1_def by (rule store_kept.arrive_keeps [OF env])
  then have s2: "store_ok (rn_db s2)" by (simp add: s2_def)
  note step = step [unfolded boundary_def Let_def, folded s_def, folded s1_def, folded s2_def]
  obtain task where task: "get_task tid (rn_db s) = Some task"
    using step w by (cases "get_task tid (rn_db s)") (auto simp: ending_def writes_last_def)
  note step = step [unfolded task, simplified]
  consider (cancel) rs v where "leave o' env tid CANCELLED rs EndCancelled v s = (Inr (Stop r), s')"
    | (manual) st rs v where "leave o' env tid st rs EndManual v s = (Inr (Stop r), s')"
    | (parked) q e v where "park o' env tid e v q = (Inr (Stop r), s')" "q = s \<or> q = s2"
        "e \<in> {EndManual, EndParked, EndPausedSchedule}"
    | (gated) "gated_stage o' env task s2 = (Inr (Stop r), s')"
    using step w by (auto simp: ending_def writes_last_def split: if_splits)
  then show ?thesis
  proof cases
    case cancel
    show ?thesis by (rule leave_handed_over [OF env s cancel]) simp
  next
    case manual
    show ?thesis by (rule leave_handed_over [OF env s manual]) simp
  next
    case parked
    then have "store_ok (rn_db q)" using s s2 by blast
    from park_handed_over [OF env this parked(1,3)] show ?thesis .
  next
    case gated
    show ?thesis by (rule gated_stage_handed_over [OF env s2 get_task_id [OF task] h gated w])
  qed
qed

lemma fail_task_handed_over:
  assumes env: "others_keep store_ok env" and s0: "store_ok (rn_db s0)"
    and step: "fail_task o' env tid err s0 = (r, s')" and w: "writes_last r"
  shows "handed_over r tid (rn_db s')"
proof -
  define s where "s = arrive o' env tid s0"
  have s: "store_ok (rn_db s)" unfolding s_def by (rule store_kept.arrive_keeps [OF env s0])
  from step w obtain c u q where c: "perform o' env tid (handoff_write o' tid c (error_text err)) s = (Inr u, q)"
    and r: "r = EndFailed" "rn_db s' = rn_db q"
    unfolding fail_task_def Let_def s_def [symmetric]
    by (auto simp: writes_last_def split: option.splits if_splits prod.splits sum.splits)
  from c obtain d where d: "rn_db q = d"
    "handoff_write o' tid c (error_text err) (rn_now (arrive o' env tid s)) (rn_db (arrive o' env tid s)) = Inr (u, d)"
    by (auto elim: performE)
  have ok: "store_ok (rn_db (arrive o' env tid s))" by (rule store_kept.arrive_keeps [OF env s])
  have "handed_over EndFailed tid d"
  proof (cases "can_transition (t_state c) BLOCKED")
    case True
    show ?thesis
      by (rule transition_handed_over [OF ok d(2) [unfolded handoff_write_def if_P [OF True]]])
        (simp_all add: task_to_def)
  next
    case False
    show ?thesis
      by (rule release_handed_over [OF ok d(2) [unfolded handoff_write_def if_not_P [OF False]]]) simp_all
  qed
  then show ?thesis by (simp add: r d(1))
qed

lemma run_task_handed_over:
  assumes env: "others_keep store_ok env" and h: "handlers_keep store_ok o'" and "store_ok (rn_db s)"
    and "run_task n o' env tid s = Some (r, s')" and w: "writes_last r"
  shows "handed_over r tid (rn_db s')"
  using assms(3,4)
proof (induction n arbitrary: s)
  case (Suc n)
  obtain b s1 where b: "boundary o' env tid s = (b, s1)" by fastforce
  have s1: "store_ok (rn_db s1)" by (rule store_kept.boundary_keeps [OF env Suc.prems(1) h b])
  show ?case
  proof (cases b)
    case (Inl e)
    then have "fail_task o' env tid e s1 = (r, s')"
      using Suc.prems(2) b w by (auto simp: caught_def writes_last_def split: if_splits)
    then show ?thesis by (rule fail_task_handed_over [OF env s1 _ w])
  next
    case (Inr q)
    show ?thesis
    proof (cases q)
      case (Stop r1)
      then have "r1 = r" "s1 = s'" using Suc.prems(2) b Inr by simp_all
      then show ?thesis using boundary_handed_over [OF env Suc.prems(1) h _ w] b Inr Stop by blast
    next
      case Again
      then show ?thesis using Suc.IH [OF s1] Suc.prems(2) b Inr by simp
    qed
  qed
qed simp

section \<open>Which stages start\<close>

text \<open>What must hold where a stage is started.\<close>

fun start_ok :: "'x worker_options \<Rightarrow> worker_event \<Rightarrow> bool" where
  "start_ok o' (StageStarted task controls now) =
     (t_leaseOwner task = Some (wo_workerId o') \<and> \<not> t_requiresManualIntervention task
      \<and> (t_cancelRequestedAt task = None \<or> t_state task \<in> set terminal_states)
      \<and> \<not> wo_forceKillSwitch o' \<and> \<not> co_killSwitch controls \<and> \<not> co_pauseNewWork controls
      \<and> map_of (wo_handlers o') (t_state task) \<noteq> None
      \<and> (\<exists>g. stage_gate (c_schedule (wo_config o')) (t_state task) (co_scheduleOverride controls) (wo_zone o' now)
             = Inr (Some g) \<and> gd_permitted g))"
| "start_ok o' e = True"

fun is_start :: "worker_event \<Rightarrow> bool" where
  "is_start (StageStarted _ _ _) = True"
| "is_start e = False"

definition starts :: "'x run_state \<Rightarrow> worker_event list" where
  "starts s = filter is_start (rn_log s)"

lemma starts_logged [simp]: "starts (logged e s) = (if is_start e then e # starts s else starts s)"
  by (simp add: starts_def)

lemma starts_frame [simp]:
  "starts (s\<lparr>rn_db := d\<rparr>) = starts s" "starts (s\<lparr>rn_signal := g\<rparr>) = starts s"
  "starts (s\<lparr>rn_leaseLost := b\<rparr>) = starts s" "starts (s\<lparr>rn_controls := c\<rparr>) = starts s"
  "starts (s\<lparr>rn_ext := x\<rparr>) = starts s" "starts (abort_stage r s) = starts s"
  "starts (refresh_controls o' s) = starts s"
  by (simp_all add: starts_def)

lemma starts_beat [simp]: "starts (beat o' tid s) = starts s"
  by (simp add: beat_def Let_def split: sum.splits orch_error.splits bool.splits)

lemma starts_arrive [simp]: "starts (arrive o' env tid s) = starts s"
  by (simp add: arrive_def Let_def) (simp add: starts_def)

lemma starts_perform [simp]: "starts (snd (perform o' env tid f s)) = starts s"
  by (simp add: perform_def Let_def split: sum.splits prod.splits)

lemma starts_hold [simp]: "starts (limit_hold p t s) = starts s"
  by (auto simp: limit_hold_def hold_lane_def starts_def split: option.splits)

lemma starts_run_stage: "run_stage o' env tid code s = (r, s') \<Longrightarrow> starts s' = starts s"
proof (induction code arbitrary: s)
  case (Access e k)
  then show ?case by (fastforce simp: Let_def)
qed simp

lemma starts_follow:
  assumes "following (perform o' env tid f s) k = (a, s')" and "\<And>u q. starts (snd (k u q)) = starts q"
  shows "starts s' = starts s"
  using assms(1) by (cases rule: followingE) (use assms(2) in \<open>auto simp: prod_eq_iff\<close>)

lemma starts_ending [simp]: "starts (snd (ending r e x s)) = (if is_start e then e # starts s else starts s)"
  by (simp add: ending_def)

lemma starts_park: "park o' env tid r e s = (a, s') \<Longrightarrow> \<not> is_start e \<Longrightarrow> starts s' = starts s"
  unfolding park_def by (erule starts_follow) simp

lemma starts_leave: "leave o' env tid st m r e s = (a, s') \<Longrightarrow> \<not> is_start e \<Longrightarrow> starts s' = starts s"
  unfolding leave_def by (erule starts_follow) simp

lemma starts_schedule_pause: "schedule_pause o' env task g s = (a, s') \<Longrightarrow> starts s' = starts s"
  unfolding schedule_pause_def Let_def
  by (auto split: if_splits elim: starts_follow dest: starts_park)

lemma starts_apply_outcome: "apply_outcome o' env task sg oc s = (a, s') \<Longrightarrow> starts s' = starts s"
  by (cases oc) (auto simp: apply_outcome_def Let_def split: option.splits dest!: starts_follow)

lemma starts_start_stage:
  assumes "start_stage o' env task h s = (a, s')"
  shows "starts s' = StageStarted task (rn_controls s) (rn_now s) # starts s"
proof -
  define s0 where "s0 = logged (StageStarted task (rn_controls s) (rn_now s))
                 (s\<lparr>rn_signal := Some (if rn_stopping s then Some AbortShutdown else None)\<rparr>)"
  obtain x s1 where run: "run_stage o' env (t_id task) (h task) s0 = (x, s1)" by fastforce
  note step = assms [unfolded start_stage_def Let_def, folded s0_def, unfolded run prod.case]
  have "starts s' = starts s1"
    using step by (cases x) (auto split: if_splits dest: starts_apply_outcome)
  then show ?thesis using starts_run_stage [OF run] by (simp add: s0_def)
qed

lemma starts_gated_stage:
  assumes "gated_stage o' env task s = (a, s')"
  shows "starts s' = starts s
    \<or> starts s' = StageStarted task (rn_controls s) (rn_now s) # starts s
      \<and> map_of (wo_handlers o') (t_state task) \<noteq> None
      \<and> (\<exists>g. stage_gate (c_schedule (wo_config o')) (t_state task) (co_scheduleOverride (rn_controls s))
               (wo_zone o' (rn_now s)) = Inr (Some g) \<and> gd_permitted g)"
proof (cases "map_of (wo_handlers o') (t_state task)")
  case None
  then show ?thesis using assms starts_park by (fastforce simp: gated_stage_def)
next
  case (Some h)
  show ?thesis
  proof (cases "stage_gate (c_schedule (wo_config o')) (t_state task)
                 (co_scheduleOverride (rn_controls s)) (wo_zone o' (rn_now s))")
    case (Inl e)
    then show ?thesis using assms Some by (simp add: gated_stage_def)
  next
    case (Inr g)
    then show ?thesis
      using assms Some starts_start_stage [of o' env task h s a s'] starts_schedule_pause [of o' env task g s a s']
      by (auto simp: gated_stage_def split: if_splits option.splits)
  qed
qed

lemma starts_boundary:
  assumes step: "boundary o' env tid s0 = (a, s')"
  shows "starts s' = starts s0 \<or> (\<exists>e. starts s' = e # starts s0 \<and> start_ok o' e)"
proof -
  define s where "s = arrive o' env tid s0"
  define s1 where "s1 = arrive o' env tid s"
  define s2 where "s2 = s1\<lparr>rn_controls := get_controls (rn_db s1)\<rparr>"
  have [simp]: "starts s = starts s0" "starts s2 = starts s0" by (simp_all add: s_def s1_def s2_def)
  note step = step [unfolded boundary_def Let_def, folded s_def, folded s1_def, folded s2_def]
  show ?thesis
  proof (cases "get_task tid (rn_db s)")
    case None
    then show ?thesis using step by (auto simp: ending_def)
  next
    case (Some task)
    note step = step [unfolded Some, simplified]
    consider (lost) "s' = logged (TaskLeaseLost tid) (s\<lparr>rn_leaseLost := True\<rparr>)"
      | (left) st rs r v where "leave o' env tid st rs r v s = (a, s')" "\<not> is_start v"
      | (parked) q e v where "park o' env tid e v q = (a, s')" "q = s \<or> q = s2" "\<not> is_start v"
      | (gated) "gated_stage o' env task s2 = (a, s')" "t_leaseOwner task = Some (wo_workerId o')"
          "t_cancelRequestedAt task = None \<or> \<not> can_transition (t_state task) CANCELLED"
          "\<not> t_requiresManualIntervention task" "\<not> kill_switch_engaged o' s2" "\<not> co_pauseNewWork (rn_controls s2)"
      using step by (auto simp: ending_def split: if_splits)
    then show ?thesis
    proof cases
      case lost
      then show ?thesis by simp
    next
      case left
      then show ?thesis using starts_leave by fastforce
    next
      case parked
      then show ?thesis using starts_park [OF parked(1,3)] by auto
    next
      case gated
      show ?thesis
        using starts_gated_stage [OF gated(1)] gated(2-)
        by (auto simp: kill_switch_engaged_def cancel_iff)
    qed
  qed
qed

lemma starts_fail_task: "fail_task o' env tid e s = (r, s') \<Longrightarrow> starts s' = starts s"
  by (auto simp: fail_task_def Let_def split: option.splits if_splits prod.splits sum.splits
      dest!: arg_cong [where f = "\<lambda>p. starts (snd p)"])

lemma run_task_starts:
  assumes "run_task n o' env tid s = Some (r, s')" and "\<forall>e \<in> set (starts s). start_ok o' e"
  shows "\<forall>e \<in> set (starts s'). start_ok o' e"
  using assms
proof (induction n arbitrary: s)
  case (Suc n)
  obtain b s1 where b: "boundary o' env tid s = (b, s1)" by fastforce
  have s1: "\<forall>e \<in> set (starts s1). start_ok o' e" using starts_boundary [OF b] Suc.prems(2) by auto
  consider e where "caught o' env tid e s1 = (r, s')" | "s' = s1" | "run_task n o' env tid s1 = Some (r, s')"
    using Suc.prems(1) b by (auto split: sum.splits boundary_result.splits)
  then show ?case
  proof cases
    case 1
    then have "starts s' = starts s1"
      by (auto simp: caught_def split: if_splits dest: starts_fail_task)
    then show ?thesis using s1 by simp
  next
    case 3
    then show ?thesis by (rule Suc.IH [OF _ s1])
  qed (use s1 in simp)
qed simp

section \<open>Shutdown\<close>

text \<open>Once a shutdown is asked for, the next boundary ends the run, whatever it finds.\<close>

lemma stopping_arrive: "rn_stopping s \<Longrightarrow> rn_stopping (arrive o' env tid s)"
proof -
  have "rn_stopping (beat o' tid s) = rn_stopping s" for s :: "'a run_state"
    by (simp add: beat_def Let_def split: sum.splits orch_error.splits bool.splits)
  then show "rn_stopping s \<Longrightarrow> ?thesis" by (simp add: arrive_def Let_def)
qed

lemma park_ends: "park o' env tid r e s = (b, s') \<Longrightarrow> b \<noteq> Inr Again"
  unfolding park_def by (erule followingE) (auto simp: ending_def)

lemma leave_ends: "leave o' env tid st m r e s = (b, s') \<Longrightarrow> b \<noteq> Inr Again"
  unfolding leave_def by (erule followingE) (auto simp: ending_def)

lemma boundary_stopping:
  assumes "rn_stopping s" and "boundary o' env tid s = (b, s')"
  shows "b \<noteq> Inr Again"
  using assms(2) stopping_arrive [OF assms(1), of o' env tid]
  unfolding boundary_def Let_def
  by (auto simp: ending_def split: option.splits if_splits dest: park_ends leave_ends)

lemma run_task_stopping:
  assumes "rn_stopping s"
  obtains r s' where "run_task (Suc n) o' env tid s = Some (r, s')"
proof -
  obtain b s1 where b: "boundary o' env tid s = (b, s1)" by fastforce
  have "b \<noteq> Inr Again" by (rule boundary_stopping [OF assms b])
  then consider e where "b = Inl e" | r where "b = Inr (Stop r)"
    by (cases b) (auto intro: boundary_result.exhaust)
  then show thesis
  proof cases
    case (1 e)
    obtain r q where "caught o' env tid e s1 = (r, q)" by fastforce
    then show thesis using that b 1 by simp
  next
    case (2 r)
    then show thesis using that b by simp
  qed
qed

lemma run_task_more:
  "run_task n o' env tid s = Some x \<Longrightarrow> run_task (n + k) o' env tid s = Some x"
  by (induction n arbitrary: s) (auto split: prod.splits sum.splits boundary_result.splits)

end
