(* ===== verification/Kahn.thy ===== *)
theory Kahn
  imports Prelude
begin

text \<open>
  The dependency check of \<open>planningBacklogSchema\<close> (\<open>src/intake/planning-contract.ts\<close>): in-degrees and
  dependents are collected edge by edge, then keys without unfinished blockers are taken off a queue.
  The loop ends because a key enters the queue only when its in-degree falls to zero. The lemmas
  show that it visits every key exactly when the graph has no cycle.
\<close>

section \<open>The loop\<close>

text \<open>The inner loop over the dependents of one key; the second result is what it pushes.\<close>

fun release :: "string list \<Rightarrow> (string \<times> int) list \<Rightarrow> (string \<times> int) list \<times> string list" where
  "release [] deg = (deg, [])"
| "release (d # ds) deg =
     (let v = or_else (map_of deg d) 0 - 1;
          (deg', pushed) = release ds (map_set d v deg) in
      (deg', if v = 0 then d # pushed else pushed))"

definition positives :: "(string \<times> int) list \<Rightarrow> nat" where
  "positives deg = length (filter (\<lambda>e. 0 < snd e) deg)"

lemma positives_map_set:
  "map_of deg k = Some n \<Longrightarrow> 0 < n \<Longrightarrow> v \<le> 0 \<Longrightarrow> positives (map_set k v deg) + 1 = positives deg"
  by (induction deg) (auto simp: positives_def)

lemma positives_map_set_nonpos: "v \<le> 0 \<Longrightarrow> positives (map_set k v deg) \<le> positives deg"
  by (induction deg) (auto simp: positives_def)

lemma positives_map_set_le:
  "map_of deg k = Some n \<Longrightarrow> 0 < n \<Longrightarrow> positives (map_set k v deg) \<le> positives deg"
  by (induction deg) (auto simp: positives_def)

lemma release_positives: "release ds deg = (deg', pushed) \<Longrightarrow> positives deg' + length pushed \<le> positives deg"
proof (induction ds arbitrary: deg deg' pushed)
  case (Cons d ds)
  define v where "v = or_else (map_of deg d) 0 - 1"
  obtain deg1 p1 where r: "release ds (map_set d v deg) = (deg1, p1)" by (cases "release ds (map_set d v deg)")
  with Cons.prems have out: "deg' = deg1" "pushed = (if v = 0 then d # p1 else p1)"
    by (simp_all add: v_def [symmetric] Let_def)
  have "positives (map_set d v deg) + (if v = 0 then 1 else 0) \<le> positives deg"
  proof (cases "map_of deg d")
    case None
    then show ?thesis using positives_map_set_nonpos [of v d deg] by (simp add: v_def)
  next
    case (Some n)
    then show ?thesis
      using positives_map_set [OF Some, of v] positives_map_set_le [OF Some, of v] positives_map_set_nonpos [of v d deg]
      by (cases "n = 1"; cases "0 < n") (simp_all add: v_def)
  qed
  with Cons.IH [OF r] out show ?case by auto
qed (auto)

function kahn :: "(string \<Rightarrow> string list) \<Rightarrow> string list \<Rightarrow> (string \<times> int) list \<Rightarrow> nat \<Rightarrow> nat" where
  "kahn deps [] deg visited = visited"
| "kahn deps (key # queue) deg visited =
     (let (deg', pushed) = release (deps key) deg in kahn deps (queue @ pushed) deg' (visited + 1))"
  by pat_completeness auto

termination
  by (relation "measure (\<lambda>(deps, queue, deg, visited). length queue + positives deg)")
    (auto dest!: release_positives [OF sym])

section \<open>Correctness\<close>

definition in_count :: "(string \<times> string) list \<Rightarrow> string set \<Rightarrow> string \<Rightarrow> int" where
  "in_count E V k = int (length (filter (\<lambda>e. snd e = k \<and> fst e \<notin> V) E))"

definition dependents :: "(string \<times> string) list \<Rightarrow> string \<Rightarrow> string list" where
  "dependents E b = map snd (filter (\<lambda>e. fst e = b) E)"

definition released :: "string list \<Rightarrow> (string \<times> int) list \<Rightarrow> (string \<times> int) list \<Rightarrow> string list \<Rightarrow> bool" where
  "released ds deg deg' pushed \<longleftrightarrow>
     (\<forall>k. map_of deg' k = (if k \<in> set ds then Some (the (map_of deg k) - int (count_list ds k)) else map_of deg k))
     \<and> (\<forall>k. k \<in> set pushed \<longleftrightarrow> k \<in> set ds \<and> map_of deg k = Some (int (count_list ds k)))
     \<and> distinct pushed"

lemma release_released:
  assumes "release ds deg = (deg', pushed)"
    and "\<And>k. k \<in> set ds \<Longrightarrow> \<exists>n. map_of deg k = Some n \<and> int (count_list ds k) \<le> n"
  shows "released ds deg deg' pushed"
  using assms
proof (induction ds arbitrary: deg deg' pushed)
  case (Cons d ds)
  from Cons.prems(2) [of d] obtain n where n: "map_of deg d = Some n" "int (count_list ds d) + 1 \<le> n" by auto
  obtain deg1 p1 where r: "release ds (map_set d (n - 1) deg) = (deg1, p1)" by (cases "release ds (map_set d (n - 1) deg)")
  with Cons.prems(1) n have out: "deg' = deg1" "pushed = (if n = 1 then d # p1 else p1)"
    by (simp_all add: Let_def)
  have "\<exists>m. map_of (map_set d (n - 1) deg) k = Some m \<and> int (count_list ds k) \<le> m" if "k \<in> set ds" for k
    using Cons.prems(2) [of k] that n by (cases "k = d") auto
  from Cons.IH [OF r this] have IH:
    "\<And>k. map_of deg1 k = (if k \<in> set ds then Some (the (map_of (map_set d (n - 1) deg) k) - int (count_list ds k))
        else map_of (map_set d (n - 1) deg) k)"
    "\<And>k. k \<in> set p1 \<longleftrightarrow> k \<in> set ds \<and> map_of (map_set d (n - 1) deg) k = Some (int (count_list ds k))"
    "distinct p1"
    by (simp_all add: released_def)
  have "d \<in> set ds \<Longrightarrow> 0 < count_list ds d" by (simp add: count_list_0_iff flip: neq0_conv)
  then have "n = 1 \<Longrightarrow> d \<notin> set ds" using n(2) by auto
  then show ?case
    unfolding released_def using IH n out by (auto simp: count_list_0_iff)
qed (simp add: released_def)

lemmas release_spec = release_released [unfolded released_def, THEN conjunct1, rule_format]
  release_released [unfolded released_def, THEN conjunct2, THEN conjunct1, rule_format]
  release_released [unfolded released_def, THEN conjunct2, THEN conjunct2]

lemma count_dependents:
  "int (count_list (dependents E b) k) = in_count E V k - in_count E (insert b V) k" if "b \<notin> V"
  using that by (induction E) (auto simp: dependents_def in_count_def)

lemma in_count_0: "in_count E V k = 0 \<longleftrightarrow> (\<forall>b. (b, k) \<in> set E \<longrightarrow> b \<in> V)"
  by (force simp: in_count_def filter_empty_conv)

text \<open>A list in which every edge comes from an earlier element orders the graph.\<close>

lemma acyclic_of_order:
  assumes "distinct V" and "snd ` R \<subseteq> set V" and "\<And>i b. i < length V \<Longrightarrow> (b, V ! i) \<in> R \<Longrightarrow> b \<in> set (take i V)"
  shows "acyclic R"
proof -
  define pos where "pos k = length (takeWhile (\<lambda>x. x \<noteq> k) V)" for k
  have at: "pos (V ! i) = i" if "i < length V" for i
    unfolding pos_def
  proof -
    have "takeWhile (\<lambda>x. x \<noteq> V ! i) V = take i V"
      by (rule takeWhile_eq_take_P_nth) (use assms(1) that in \<open>auto simp: nth_eq_iff_index_eq\<close>)
    with that show "length (takeWhile (\<lambda>x. x \<noteq> V ! i) V) = i" by simp
  qed
  have "R \<subseteq> measure pos"
  proof (rule subrelI)
    fix b k assume e: "(b, k) \<in> R"
    with assms(2) have "k \<in> set V" by force
    then obtain i where i: "i < length V" "k = V ! i" by (auto simp: in_set_conv_nth)
    with assms(3) [of i b] e obtain j where "j < i" "b = V ! j" by (auto simp: in_set_conv_nth)
    with i at show "(b, k) \<in> measure pos" by simp
  qed
  then show ?thesis by (meson wf_acyclic wf_measure wf_subset)
qed

lemma kahn_from:
  assumes "distinct (V @ queue)" and "set (V @ queue) = {k \<in> K. in_count E (set V) k = 0}"
    and "\<And>k. k \<in> K \<Longrightarrow> map_of deg k = Some (in_count E (set V) k)"
    and "\<And>i b. i < length V \<Longrightarrow> (b, V ! i) \<in> set E \<Longrightarrow> b \<in> set (take i V)"
    and "set E \<subseteq> K \<times> K" and "finite K" and "visited = length V"
  shows "kahn (dependents E) queue deg visited = card K \<longleftrightarrow> acyclic (set E)"
  using assms
proof (induction "dependents E" queue deg visited arbitrary: V rule: kahn.induct)
  case (1 deg visited)
  then have V: "set V = {k \<in> K. in_count E (set V) k = 0}" and len: "visited = card (set V)"
    by (simp_all add: distinct_card)
  have "set V \<subseteq> K" using V by blast
  then have all: "visited = card K \<longleftrightarrow> set V = K" using len 1(6) by (metis card_subset_eq)
  show ?case
  proof
    assume "kahn (dependents E) [] deg visited = card K"
    with all have "set V = K" by simp
    with 1(1,4,5) show "acyclic (set E)" by (intro acyclic_of_order [of V]) auto
  next
    assume "acyclic (set E)"
    then have wf: "wf (set E)" by (simp add: finite_acyclic_wf)
    have "K \<subseteq> set V"
    proof (rule ccontr)
      assume "\<not> K \<subseteq> set V"
      then obtain k where k: "k \<in> K - set V" "\<And>b. (b, k) \<in> set E \<Longrightarrow> b \<notin> K - set V"
        using wfE_min [OF wf] by (metis DiffI subsetI)
      with V have "in_count E (set V) k \<noteq> 0" by blast
      with in_count_0 obtain b where "(b, k) \<in> set E" "b \<notin> set V" by metis
      with k 1(5) show False by blast
    qed
    with \<open>set V \<subseteq> K\<close> all show "kahn (dependents E) [] deg visited = card K" by auto
  qed
next
  case (2 key queue deg visited)
  let ?V = "V @ [key]"
  obtain deg' pushed where r: "release (dependents E key) deg = (deg', pushed)"
    by (cases "release (dependents E key) deg")
  have key: "key \<notin> set V" "key \<in> K" "in_count E (set V) key = 0" using 2(2,3) by auto
  have count: "int (count_list (dependents E key) k) = in_count E (set V) k - in_count E (set ?V) k" for k
    using count_dependents [OF key(1), of E k] by simp
  have in_K: "k \<in> K" if "k \<in> set (dependents E key)" for k
    using that 2(6) by (auto simp: dependents_def)
  have nonneg: "0 \<le> in_count E W k" for W k by (simp add: in_count_def)
  have "\<exists>n. map_of deg k = Some n \<and> int (count_list (dependents E key) k) \<le> n" if "k \<in> set (dependents E key)" for k
    using 2(4) [OF in_K [OF that]] count [of k] nonneg [of "set ?V" k] by simp
  note spec = release_spec [OF r this]
  have deg': "map_of deg' k = Some (in_count E (set ?V) k)" if "k \<in> K" for k
    using spec(1) [of k] 2(4) [OF that] count [of k] by (auto simp: count_list_0_iff split: if_splits)
  have pushed: "k \<in> set pushed \<longleftrightarrow> k \<in> K \<and> in_count E (set V) k \<noteq> 0 \<and> in_count E (set ?V) k = 0" for k
  proof (cases "k \<in> set (dependents E key)")
    case True
    then have "0 < count_list (dependents E key) k" by (simp add: count_list_0_iff flip: neq0_conv)
    with True spec(2) [of k] 2(4) [OF in_K [OF True]] count [of k] in_K show ?thesis by auto
  next
    case False
    then show ?thesis using spec(2) [of k] count [of k] by (auto simp: count_list_0_iff)
  qed
  have mono: "in_count E (set V) k = 0 \<Longrightarrow> in_count E (set ?V) k = 0" for k by (auto simp: in_count_0)
  have "kahn (dependents E) (queue @ pushed) deg' (visited + 1) = card K \<longleftrightarrow> acyclic (set E)"
  proof (rule 2(1) [OF r [symmetric] refl, of ?V])
    show "distinct (?V @ queue @ pushed)"
      using 2(2,3) spec(3) pushed by (auto simp: set_eq_iff)
    show "set (?V @ queue @ pushed) = {k \<in> K. in_count E (set ?V) k = 0}"
      using 2(3) pushed mono by (auto simp: set_eq_iff)
    show "map_of deg' k = Some (in_count E (set ?V) k)" if "k \<in> K" for k using deg' that by blast
    show "b \<in> set (take i ?V)" if "i < length ?V" "(b, ?V ! i) \<in> set E" for i b
      using that 2(5) [of i b] key(3) by (cases "i < length V") (auto simp: nth_append in_count_0)
  qed (use 2(6-8) in auto)
  then show ?case by (simp add: r)
qed

end
