(* ===== verification/Planning.thy ===== *)
theory Planning
  imports Kahn Domain Json
begin

text \<open>
  The planning contract of \<open>src/intake/planning-contract.ts\<close>. Decoding a JSON value is an \<open>option\<close>:
  \<open>None\<close> where the schema reports any issue of a field, since every caller treats all issues of a
  document alike; the cross-field rules of a backlog keep their issue list. The format of
  timestamps is the schema library's (a parameter \<open>datetime\<close>). Encoding is what is stored as the
  contract snapshot of a task, and later stages decode it again.
\<close>

section \<open>Vocabulary\<close>

definition repository_names :: "string list" where
  "repository_names = [''web'', ''api-gateway'', ''academic'', ''identity'', ''billing'', ''chat'']"

definition label_names :: "string list" where
  "label_names = repository_names @ [''ai-ready'']"

fun show_complexity :: "complexity \<Rightarrow> string" where
  "show_complexity VeryLow = ''very-low''"
| "show_complexity Low = ''low''"
| "show_complexity Medium = ''medium''"
| "show_complexity High = ''high''"
| "show_complexity VeryHigh = ''very-high''"
| "show_complexity Critical = ''critical''"

text \<open>\<open>/^[a-z0-9]+(?:-[a-z0-9]+)*$/\<close>.\<close>

definition draft_key_ok :: "string \<Rightarrow> bool" where
  "draft_key_ok s = list_all (\<lambda>w. w \<noteq> [] \<and> list_all (\<lambda>c. is_lower c \<or> is_digit c) w) (split_on (CHR ''-'') s)"

section \<open>Fields\<close>

definition dec_text :: "json \<Rightarrow> string option" where
  "dec_text j = (case j of JStr s \<Rightarrow> (if trim s = [] then None else Some (trim s)) | _ \<Rightarrow> None)"

definition dec_key :: "json \<Rightarrow> string option" where
  "dec_key j = (case j of JStr s \<Rightarrow> (if draft_key_ok s then Some s else None) | _ \<Rightarrow> None)"

definition dec_enum :: "string list \<Rightarrow> json \<Rightarrow> string option" where
  "dec_enum values j = (case j of JStr s \<Rightarrow> (if s \<in> set values then Some s else None) | _ \<Rightarrow> None)"

definition dec_complexity :: "json \<Rightarrow> complexity option" where
  "dec_complexity j = (case j of JStr s \<Rightarrow> find (\<lambda>c. show_complexity c = s) complexity_values | _ \<Rightarrow> None)"

definition dec_datetime :: "(string \<Rightarrow> bool) \<Rightarrow> json \<Rightarrow> string option" where
  "dec_datetime datetime j = (case j of JStr s \<Rightarrow> (if datetime s then Some s else None) | _ \<Rightarrow> None)"

fun all_some :: "'a option list \<Rightarrow> 'a list option" where
  "all_some [] = Some []"
| "all_some (None # xs) = None"
| "all_some (Some x # xs) = map_option (Cons x) (all_some xs)"

definition dec_list :: "nat \<Rightarrow> (json \<Rightarrow> 'a option) \<Rightarrow> json \<Rightarrow> 'a list option" where
  "dec_list minimum dec j =
     (case j of
        JArr js \<Rightarrow> if length js < minimum then None else all_some (map dec js)
      | _ \<Rightarrow> None)"

definition dec_unique :: "nat \<Rightarrow> json \<Rightarrow> string list option" where
  "dec_unique minimum j =
     (case dec_list minimum dec_text j of
        None \<Rightarrow> None
      | Some xs \<Rightarrow> if distinct xs then Some xs else None)"

definition dec_nullable :: "(json \<Rightarrow> 'a option) \<Rightarrow> json \<Rightarrow> 'a option option" where
  "dec_nullable dec j = (if j = JNull then Some None else map_option Some (dec j))"

text \<open>\<open>z.object(...).strict()\<close>: an object without unknown keys; a missing field is rejected.\<close>

definition strict_object :: "string list \<Rightarrow> json \<Rightarrow> json_object option" where
  "strict_object keys j =
     (case j of JObj kvs \<Rightarrow> (if fst ` set kvs \<subseteq> set keys then Some kvs else None) | _ \<Rightarrow> None)"

definition field :: "json_object \<Rightarrow> string \<Rightarrow> (json \<Rightarrow> 'a option) \<Rightarrow> 'a option" where
  "field kvs k dec = Option.bind (map_of kvs k) dec"

definition optional_field :: "json_object \<Rightarrow> string \<Rightarrow> (json \<Rightarrow> 'a option) \<Rightarrow> 'a option option" where
  "optional_field kvs k dec = (case map_of kvs k of None \<Rightarrow> Some None | Some j \<Rightarrow> map_option Some (dec j))"

definition enc_texts :: "string list \<Rightarrow> json" where
  "enc_texts xs = JArr (map JStr xs)"

section \<open>Projects\<close>

record planning_project =
  pp_key :: string
  pp_name :: string
  pp_outcome :: string
  pp_problem :: string
  pp_valueAndPriority :: string
  pp_scope :: "string list"
  pp_outOfScope :: "string list"
  pp_successMetrics :: "string list"
  pp_dependenciesAndRisks :: "string list"

definition project_keys :: "string list" where
  "project_keys = [''key'', ''name'', ''outcome'', ''problem'', ''valueAndPriority'', ''scope'',
     ''outOfScope'', ''successMetrics'', ''dependenciesAndRisks'']"

definition dec_project :: "json \<Rightarrow> planning_project option" where
  "dec_project j =
     Option.bind (strict_object project_keys j) (\<lambda>o'.
     Option.bind (field o' ''key'' dec_key) (\<lambda>a.
     Option.bind (field o' ''name'' dec_text) (\<lambda>b.
     Option.bind (field o' ''outcome'' dec_text) (\<lambda>c.
     Option.bind (field o' ''problem'' dec_text) (\<lambda>d.
     Option.bind (field o' ''valueAndPriority'' dec_text) (\<lambda>e.
     Option.bind (field o' ''scope'' (dec_unique 1)) (\<lambda>f.
     Option.bind (field o' ''outOfScope'' (dec_unique 1)) (\<lambda>g.
     Option.bind (field o' ''successMetrics'' (dec_unique 1)) (\<lambda>h.
     Option.bind (field o' ''dependenciesAndRisks'' (dec_unique 0)) (\<lambda>i.
       Some \<lparr>pp_key = a, pp_name = b, pp_outcome = c, pp_problem = d, pp_valueAndPriority = e,
             pp_scope = f, pp_outOfScope = g, pp_successMetrics = h, pp_dependenciesAndRisks = i\<rparr>))))))))))"

section \<open>Issues\<close>

record external_dependency =
  ed_key :: string
  ed_description :: string
  ed_verification :: string

record issue_body =
  ib_backgroundProblem :: string
  ib_goal :: string
  ib_requirements :: "string list"
  ib_acceptanceCriteria :: "string list"
  ib_technicalNotes :: string
  ib_relevantAreas :: "string list"
  ib_edgeCases :: "string list"
  ib_testingValidation :: "string list"
  ib_outOfScope :: "string list"

record issue_source =
  is_linearIssueId :: string
  is_linearIdentifier :: string
  is_linearCreatedAt :: string
  is_gitBranchName :: string
  is_linearBlockedByIdentifiers :: "string list"

record planning_issue =
  pi_draftKey :: string
  pi_projectKey :: "string option"
  pi_title :: string
  pi_type :: string
  pi_priority :: string
  pi_estimate :: string
  pi_complexity :: complexity
  pi_labels :: "string list"
  pi_repositories :: "string list"
  pi_blockedByDraftKeys :: "string list"
  pi_externalDependencies :: "external_dependency list"
  pi_body :: issue_body
  pi_source :: "issue_source option"

definition dec_dependency :: "json \<Rightarrow> external_dependency option" where
  "dec_dependency j =
     Option.bind (strict_object [''key'', ''description'', ''verification''] j) (\<lambda>o'.
     Option.bind (field o' ''key'' dec_key) (\<lambda>a.
     Option.bind (field o' ''description'' dec_text) (\<lambda>b.
     Option.bind (field o' ''verification'' dec_text) (\<lambda>c.
       Some \<lparr>ed_key = a, ed_description = b, ed_verification = c\<rparr>))))"

definition dec_body :: "json \<Rightarrow> issue_body option" where
  "dec_body j =
     Option.bind (strict_object [''backgroundProblem'', ''goal'', ''requirements'', ''acceptanceCriteria'',
        ''technicalNotes'', ''relevantAreas'', ''edgeCases'', ''testingValidation'', ''outOfScope''] j) (\<lambda>o'.
     Option.bind (field o' ''backgroundProblem'' dec_text) (\<lambda>a.
     Option.bind (field o' ''goal'' dec_text) (\<lambda>b.
     Option.bind (field o' ''requirements'' (dec_unique 1)) (\<lambda>c.
     Option.bind (field o' ''acceptanceCriteria'' (dec_unique 1)) (\<lambda>d.
     Option.bind (field o' ''technicalNotes'' dec_text) (\<lambda>e.
     Option.bind (field o' ''relevantAreas'' (dec_unique 1)) (\<lambda>f.
     Option.bind (field o' ''edgeCases'' (dec_unique 1)) (\<lambda>g.
     Option.bind (field o' ''testingValidation'' (dec_unique 1)) (\<lambda>h.
     Option.bind (field o' ''outOfScope'' (dec_unique 1)) (\<lambda>i.
       Some \<lparr>ib_backgroundProblem = a, ib_goal = b, ib_requirements = c, ib_acceptanceCriteria = d,
             ib_technicalNotes = e, ib_relevantAreas = f, ib_edgeCases = g, ib_testingValidation = h,
             ib_outOfScope = i\<rparr>))))))))))"

definition dec_source :: "(string \<Rightarrow> bool) \<Rightarrow> json \<Rightarrow> issue_source option" where
  "dec_source datetime j =
     Option.bind (strict_object [''linearIssueId'', ''linearIdentifier'', ''linearCreatedAt'',
        ''gitBranchName'', ''linearBlockedByIdentifiers''] j) (\<lambda>o'.
     Option.bind (field o' ''linearIssueId'' dec_text) (\<lambda>a.
     Option.bind (field o' ''linearIdentifier'' dec_text) (\<lambda>b.
     Option.bind (field o' ''linearCreatedAt'' (dec_datetime datetime)) (\<lambda>c.
     Option.bind (field o' ''gitBranchName'' dec_text) (\<lambda>d.
     Option.bind (field o' ''linearBlockedByIdentifiers'' (dec_unique 0)) (\<lambda>e.
       Some \<lparr>is_linearIssueId = a, is_linearIdentifier = b, is_linearCreatedAt = c,
             is_gitBranchName = d, is_linearBlockedByIdentifiers = e\<rparr>))))))"

text \<open>The rules between fields of one issue.\<close>

definition nul :: string where
  "nul = [char_of (0 :: nat)]"

definition issue_rules :: "planning_issue \<Rightarrow> bool" where
  "issue_rules i \<longleftrightarrow>
     distinct (pi_labels i) \<and> distinct (pi_repositories i) \<and> ''ai-ready'' \<in> set (pi_labels i)
     \<and> join nul (sort (pi_repositories i)) = join nul (sort (filter (\<lambda>l. l \<noteq> ''ai-ready'') (pi_labels i)))"

definition issue_keys :: "string list" where
  "issue_keys = [''draftKey'', ''projectKey'', ''title'', ''type'', ''priority'', ''estimate'', ''complexity'',
     ''labels'', ''repositories'', ''blockedByDraftKeys'', ''externalDependencies'', ''body'', ''source'']"

definition dec_issue :: "(string \<Rightarrow> bool) \<Rightarrow> json \<Rightarrow> planning_issue option" where
  "dec_issue datetime j =
     Option.bind (strict_object issue_keys j) (\<lambda>o'.
     Option.bind (field o' ''draftKey'' dec_key) (\<lambda>a.
     Option.bind (field o' ''projectKey'' (dec_nullable dec_key)) (\<lambda>b.
     Option.bind (field o' ''title'' dec_text) (\<lambda>c.
     Option.bind (field o' ''type'' (dec_enum [''Feature'', ''Improvement'', ''Refactor''])) (\<lambda>d.
     Option.bind (field o' ''priority'' (dec_enum [''Urgent'', ''High'', ''Medium'', ''Low''])) (\<lambda>e.
     Option.bind (field o' ''estimate'' (dec_enum [''S'', ''M'', ''L''])) (\<lambda>f.
     Option.bind (field o' ''complexity'' dec_complexity) (\<lambda>g.
     Option.bind (field o' ''labels'' (dec_list 2 (dec_enum label_names))) (\<lambda>h.
     Option.bind (field o' ''repositories'' (dec_list 1 (dec_enum repository_names))) (\<lambda>i.
     Option.bind (field o' ''blockedByDraftKeys'' (dec_list 0 dec_key)) (\<lambda>k.
     Option.bind (field o' ''externalDependencies'' (dec_list 0 dec_dependency)) (\<lambda>l.
     Option.bind (field o' ''body'' dec_body) (\<lambda>m.
     Option.bind (optional_field o' ''source'' (dec_source datetime)) (\<lambda>n.
       let x = \<lparr>pi_draftKey = a, pi_projectKey = b, pi_title = c, pi_type = d, pi_priority = e,
             pi_estimate = f, pi_complexity = g, pi_labels = h, pi_repositories = i,
             pi_blockedByDraftKeys = k, pi_externalDependencies = l, pi_body = m, pi_source = n\<rparr> in
       if issue_rules x then Some x else None))))))))))))))"

section \<open>The stored contract\<close>

definition enc_dependency :: "external_dependency \<Rightarrow> json" where
  "enc_dependency e = JObj [(''key'', JStr (ed_key e)), (''description'', JStr (ed_description e)),
     (''verification'', JStr (ed_verification e))]"

definition enc_body :: "issue_body \<Rightarrow> json" where
  "enc_body b = JObj [(''backgroundProblem'', JStr (ib_backgroundProblem b)), (''goal'', JStr (ib_goal b)),
     (''requirements'', enc_texts (ib_requirements b)), (''acceptanceCriteria'', enc_texts (ib_acceptanceCriteria b)),
     (''technicalNotes'', JStr (ib_technicalNotes b)), (''relevantAreas'', enc_texts (ib_relevantAreas b)),
     (''edgeCases'', enc_texts (ib_edgeCases b)), (''testingValidation'', enc_texts (ib_testingValidation b)),
     (''outOfScope'', enc_texts (ib_outOfScope b))]"

definition enc_source :: "issue_source \<Rightarrow> json" where
  "enc_source s = JObj [(''linearIssueId'', JStr (is_linearIssueId s)), (''linearIdentifier'', JStr (is_linearIdentifier s)),
     (''linearCreatedAt'', JStr (is_linearCreatedAt s)), (''gitBranchName'', JStr (is_gitBranchName s)),
     (''linearBlockedByIdentifiers'', enc_texts (is_linearBlockedByIdentifiers s))]"

definition enc_issue :: "planning_issue \<Rightarrow> json" where
  "enc_issue i = JObj ([(''draftKey'', JStr (pi_draftKey i)),
     (''projectKey'', case pi_projectKey i of None \<Rightarrow> JNull | Some k \<Rightarrow> JStr k),
     (''title'', JStr (pi_title i)), (''type'', JStr (pi_type i)), (''priority'', JStr (pi_priority i)),
     (''estimate'', JStr (pi_estimate i)), (''complexity'', JStr (show_complexity (pi_complexity i))),
     (''labels'', enc_texts (pi_labels i)), (''repositories'', enc_texts (pi_repositories i)),
     (''blockedByDraftKeys'', enc_texts (pi_blockedByDraftKeys i)),
     (''externalDependencies'', JArr (map enc_dependency (pi_externalDependencies i))),
     (''body'', enc_body (pi_body i))]
     @ (case pi_source i of None \<Rightarrow> [] | Some s \<Rightarrow> [(''source'', enc_source s)]))"

section \<open>Backlogs\<close>

record planning_backlog =
  pb_projects :: "planning_project list"
  pb_issues :: "planning_issue list"

type_synonym backlog_issue = "string list \<times> string"

definition at_index :: "string \<Rightarrow> nat \<Rightarrow> string list \<Rightarrow> string list" where
  "at_index xs n rest = xs # show_nat n # rest"

definition report_if :: "bool \<Rightarrow> string list \<Rightarrow> string \<Rightarrow> backlog_issue list" where
  "report_if b path msg = (if b then [(path, msg)] else [])"

definition draft_keys :: "planning_backlog \<Rightarrow> string list" where
  "draft_keys b = map pi_draftKey (pb_issues b)"

definition project_issues :: "planning_backlog \<Rightarrow> backlog_issue list" where
  "project_issues b =
     concat (map (\<lambda>(n, p). report_if (pp_key p \<in> set (map pp_key (take n (pb_projects b))))
         (at_index ''projects'' n [''key'']) ''duplicate project key'') (enumerate 0 (pb_projects b)))"

definition key_issues :: "planning_backlog \<Rightarrow> backlog_issue list" where
  "key_issues b =
     concat (map (\<lambda>(n, i).
         report_if (pi_draftKey i \<in> set (take n (draft_keys b))) (at_index ''issues'' n [''draftKey'']) ''duplicate issue key''
         @ report_if (case pi_projectKey i of None \<Rightarrow> False | Some k \<Rightarrow> k \<notin> set (map pp_key (pb_projects b)))
             (at_index ''issues'' n [''projectKey'']) ''unknown project key'') (enumerate 0 (pb_issues b)))"

definition source_issues :: "planning_backlog \<Rightarrow> backlog_issue list" where
  "source_issues b =
     (let hydrated = length (filter (\<lambda>i. pi_source i \<noteq> None) (pb_issues b)) in
      report_if (hydrated \<noteq> 0 \<and> hydrated \<noteq> length (pb_issues b)) [''issues'']
        ''source data must be present for either all issues or none'')"

text \<open>\<open>new Map(entries)\<close> keeps the last value of a key.\<close>

definition identifiers_by_key :: "planning_backlog \<Rightarrow> (string \<times> string) list" where
  "identifiers_by_key b =
     foldl (\<lambda>m i. case pi_source i of None \<Rightarrow> m | Some s \<Rightarrow> map_set (pi_draftKey i) (is_linearIdentifier s) m)
       [] (pb_issues b)"

definition blocker_issues :: "planning_backlog \<Rightarrow> nat \<Rightarrow> planning_issue \<Rightarrow> backlog_issue list" where
  "blocker_issues b n i =
     concat (map (\<lambda>(k, key).
         let path = at_index ''issues'' n [''blockedByDraftKeys'', show_nat k] in
         report_if (key \<in> set (take k (pi_blockedByDraftKeys i))) path ''duplicate dependency key''
         @ (if key = pi_draftKey i then [(path, ''issue cannot block itself'')]
            else report_if (key \<notin> set (draft_keys b)) path ''unknown dependency key''))
       (enumerate 0 (pi_blockedByDraftKeys i)))"

definition relation_issues :: "planning_backlog \<Rightarrow> nat \<Rightarrow> planning_issue \<Rightarrow> backlog_issue list" where
  "relation_issues b n i =
     (case pi_source i of
        None \<Rightarrow> []
      | Some s \<Rightarrow>
          report_if (join nul (sort (List.map_filter (map_of (identifiers_by_key b)) (pi_blockedByDraftKeys i)))
              \<noteq> join nul (sort (is_linearBlockedByIdentifiers s)))
            (at_index ''issues'' n [''source'', ''linearBlockedByIdentifiers''])
            ''Linear blockedBy relations do not match the planning contract'')"

text \<open>The graph: in-degrees by key and dependents by blocker, collected in document order.\<close>

type_synonym graph = "(string \<times> int) list \<times> (string \<times> string list) list"

definition add_blocker :: "string set \<Rightarrow> string \<Rightarrow> graph \<Rightarrow> string \<Rightarrow> graph" where
  "add_blocker keys key g b =
     (if b = key \<or> b \<notin> keys then g
      else (map_set key (or_else (map_of (fst g) key) 0 + 1) (fst g),
            map_set b (or_else (map_of (snd g) b) [] @ [key]) (snd g)))"

definition add_issue :: "string set \<Rightarrow> graph \<Rightarrow> planning_issue \<Rightarrow> graph" where
  "add_issue keys g i =
     foldl (add_blocker keys (pi_draftKey i)) (map_set (pi_draftKey i) 0 (fst g), snd g) (pi_blockedByDraftKeys i)"

definition dependency_graph :: "planning_backlog \<Rightarrow> graph" where
  "dependency_graph b = foldl (add_issue (set (draft_keys b))) ([], []) (pb_issues b)"

definition visited_count :: "planning_backlog \<Rightarrow> nat" where
  "visited_count b =
     (let (deg, deps) = dependency_graph b in
      kahn (\<lambda>k. or_else (map_of deps k) []) (map fst (filter (\<lambda>e. snd e = 0) deg)) deg 0)"

definition cycle_issues :: "planning_backlog \<Rightarrow> backlog_issue list" where
  "cycle_issues b = report_if (visited_count b \<noteq> length (pb_issues b)) [''issues''] ''dependency graph contains a cycle''"

definition backlog_issues :: "planning_backlog \<Rightarrow> backlog_issue list" where
  "backlog_issues b =
     project_issues b @ key_issues b @ source_issues b
     @ concat (map (\<lambda>(n, i). blocker_issues b n i @ relation_issues b n i) (enumerate 0 (pb_issues b)))
     @ cycle_issues b"

text \<open>The schema also asks for at least one issue.\<close>

definition backlog_ok :: "planning_backlog \<Rightarrow> bool" where
  "backlog_ok b = (pb_issues b \<noteq> [] \<and> backlog_issues b = [])"

section \<open>The dependency graph of a backlog\<close>

definition counts_edge :: "string set \<Rightarrow> string \<Rightarrow> string \<Rightarrow> bool" where
  "counts_edge keys key b \<longleftrightarrow> b \<noteq> key \<and> b \<in> keys"

definition issue_edges :: "string set \<Rightarrow> planning_issue \<Rightarrow> (string \<times> string) list" where
  "issue_edges keys i = map (\<lambda>b. (b, pi_draftKey i)) (filter (counts_edge keys (pi_draftKey i)) (pi_blockedByDraftKeys i))"

definition edges :: "planning_backlog \<Rightarrow> (string \<times> string) list" where
  "edges b = concat (map (issue_edges (set (draft_keys b))) (pb_issues b))"

text \<open>What a graph under construction holds of a list of edges.\<close>

definition represents :: "string list \<Rightarrow> (string \<times> string) list \<Rightarrow> graph \<Rightarrow> bool" where
  "represents ks E g \<longleftrightarrow> map fst (fst g) = ks
     \<and> (\<forall>k \<in> set ks. map_of (fst g) k = Some (in_count E {} k))
     \<and> (\<forall>c. or_else (map_of (snd g) c) [] = dependents E c)"

lemma in_count_snoc: "in_count (E @ [(b, k)]) {} k' = in_count E {} k' + (if k' = k then 1 else 0)"
  by (simp add: in_count_def)

lemma dependents_snoc: "dependents (E @ [(b, k)]) c = dependents E c @ (if c = b then [k] else [])"
  by (simp add: dependents_def)

lemma represents_add_blocker:
  assumes "represents ks E g" "key \<in> set ks" "distinct ks"
  shows "represents ks (E @ (if counts_edge keys key b then [(b, key)] else [])) (add_blocker keys key g b)"
proof (cases "counts_edge keys key b")
  case True
  from assms have "map_of (fst g) key = Some (in_count E {} key)" "map fst (fst g) = ks"
    by (simp_all add: represents_def)
  with True assms(1,2) show ?thesis
    by (auto simp: represents_def add_blocker_def counts_edge_def in_count_snoc dependents_snoc keys_map_set image_set [symmetric])
next
  case False
  then have "add_blocker keys key g b = g" by (auto simp: add_blocker_def counts_edge_def)
  with False assms(1) show ?thesis by simp
qed

lemma represents_add_blockers:
  assumes "represents ks E g" "key \<in> set ks" "distinct ks"
  shows "represents ks (E @ map (\<lambda>b. (b, key)) (filter (counts_edge keys key) bs)) (foldl (add_blocker keys key) g bs)"
  using assms(1)
proof (induction bs arbitrary: E g)
  case (Cons b bs)
  from Cons.IH [OF represents_add_blocker [OF Cons.prems assms(2,3), of keys b]] show ?case
    by (cases "counts_edge keys key b") simp_all
qed simp

lemma represents_new_key:
  assumes "represents ks E g" "k \<notin> set ks" "\<forall>e \<in> set E. snd e \<noteq> k"
  shows "represents (ks @ [k]) E (map_set k 0 (fst g), snd g)"
proof -
  from assms(3) have "in_count E {} k = 0" by (auto simp: in_count_0)
  moreover have "k \<notin> fst ` set (fst g)" using assms(1,2) by (auto simp: represents_def image_set)
  ultimately show ?thesis using assms by (auto simp: represents_def keys_map_set)
qed

lemma represents_issues:
  assumes "represents ks E g" and "distinct (ks @ map pi_draftKey xs)" and "\<forall>e \<in> set E. snd e \<in> set ks"
  shows "represents (ks @ map pi_draftKey xs) (E @ concat (map (issue_edges keys) xs)) (foldl (add_issue keys) g xs)"
  using assms
proof (induction xs arbitrary: ks E g)
  case (Cons i xs)
  let ?k = "pi_draftKey i"
  have "represents (ks @ [?k]) E (map_set ?k 0 (fst g), snd g)"
    using Cons.prems by (intro represents_new_key) auto
  then have "represents (ks @ [?k]) (E @ issue_edges keys i) (add_issue keys g i)"
    unfolding add_issue_def issue_edges_def using Cons.prems(2) by (intro represents_add_blockers) auto
  moreover have "\<forall>e \<in> set (E @ issue_edges keys i). snd e \<in> set (ks @ [?k])"
    using Cons.prems(3) by (auto simp: issue_edges_def)
  ultimately show ?case
    using Cons.IH [of "ks @ [?k]" "E @ issue_edges keys i" "add_issue keys g i"] Cons.prems(2) by simp
qed simp

lemma represents_empty: "represents [] [] ([], [])"
  by (simp add: represents_def dependents_def)

lemma dependency_graph_represents:
  "distinct (draft_keys b) \<Longrightarrow> represents (draft_keys b) (edges b) (dependency_graph b)"
  using represents_issues [of "[]" "[]" "([], [])" "pb_issues b" "set (draft_keys b)"]
  unfolding dependency_graph_def edges_def
  by (simp add: represents_empty flip: draft_keys_def)

lemma visited_all_iff_acyclic:
  assumes "distinct (draft_keys b)"
  shows "visited_count b = length (pb_issues b) \<longleftrightarrow> acyclic (set (edges b))"
proof -
  obtain deg deps where g: "dependency_graph b = (deg, deps)" by (cases "dependency_graph b")
  with dependency_graph_represents [OF assms] have keys: "map fst deg = draft_keys b"
    and deg: "\<And>k. k \<in> set (draft_keys b) \<Longrightarrow> map_of deg k = Some (in_count (edges b) {} k)"
    and deps: "(\<lambda>c. or_else (map_of deps c) []) = dependents (edges b)"
    by (auto simp: represents_def)
  let ?q = "map fst (filter (\<lambda>e. snd e = 0) deg)"
  have dist: "distinct (map fst deg)" using assms by (simp add: keys)
  have zero: "k \<in> set ?q \<longleftrightarrow> map_of deg k = Some 0" for k
    using dist by (force simp: map_of_eq_Some_iff)
  have known: "map_of deg k = Some 0 \<Longrightarrow> k \<in> set (draft_keys b)" for k
    by (metis domI dom_map_of_conv_image_fst keys image_set)
  have "k \<in> set ?q \<longleftrightarrow> k \<in> set (draft_keys b) \<and> in_count (edges b) {} k = 0" for k
    unfolding zero using known [of k] deg [of k] by (cases "k \<in> set (draft_keys b)") auto
  then have q: "set ([] @ ?q) = {k \<in> set (draft_keys b). in_count (edges b) (set []) k = 0}"
    unfolding set_eq_iff append_Nil list.set(1) mem_Collect_eq by blast
  have "kahn (dependents (edges b)) ?q deg 0 = card (set (draft_keys b)) \<longleftrightarrow> acyclic (set (edges b))"
    by (rule kahn_from [OF _ q])
      (use dist deg in \<open>auto simp: distinct_map_filter edges_def issue_edges_def draft_keys_def counts_edge_def\<close>)
  then show ?thesis
    using assms by (simp add: visited_count_def g deps distinct_card) (simp add: draft_keys_def)
qed

section \<open>Which backlogs are accepted\<close>

lemma report_if_Nil [simp]: "report_if b path msg = [] \<longleftrightarrow> \<not> b"
  by (simp add: report_if_def)

lemma distinct_iff_nth_take:
  "distinct xs \<longleftrightarrow> (\<forall>n < length xs. xs ! n \<notin> set (take n xs))"
proof (induction xs rule: rev_induct)
  case (snoc x xs)
  then show ?case by (auto simp: nth_append less_Suc_eq)
qed simp

lemma all_enumerate: "(\<forall>e \<in> set (enumerate 0 xs). P e) \<longleftrightarrow> (\<forall>n < length xs. P (n, xs ! n))"
  by (force simp: in_set_enumerate_eq)

lemma all_enumerate_snd: "(\<forall>e \<in> set (enumerate 0 xs). P (snd e)) \<longleftrightarrow> (\<forall>x \<in> set xs. P x)"
proof -
  have "set xs = snd ` set (enumerate 0 xs)" by (metis list.set_map map_snd_enumerate)
  then show ?thesis by simp
qed

lemma project_issues_Nil: "project_issues b = [] \<longleftrightarrow> distinct (map pp_key (pb_projects b))"
  by (simp add: project_issues_def all_enumerate distinct_iff_nth_take [of "map pp_key (pb_projects b)"] take_map split_def)

definition blockers_ok :: "planning_backlog \<Rightarrow> planning_issue \<Rightarrow> bool" where
  "blockers_ok b i \<longleftrightarrow> distinct (pi_blockedByDraftKeys i) \<and> pi_draftKey i \<notin> set (pi_blockedByDraftKeys i)
     \<and> set (pi_blockedByDraftKeys i) \<subseteq> set (draft_keys b)"

definition relations_ok :: "planning_backlog \<Rightarrow> planning_issue \<Rightarrow> bool" where
  "relations_ok b i \<longleftrightarrow> relation_issues b 0 i = []"

lemma key_issues_Nil:
  "key_issues b = [] \<longleftrightarrow> distinct (draft_keys b)
     \<and> (\<forall>i \<in> set (pb_issues b). \<forall>k. pi_projectKey i = Some k \<longrightarrow> k \<in> set (map pp_key (pb_projects b)))"
proof -
  have "distinct (draft_keys b) \<longleftrightarrow> (\<forall>n < length (pb_issues b). pi_draftKey (pb_issues b ! n) \<notin> set (take n (draft_keys b)))"
    by (subst distinct_iff_nth_take) (simp add: draft_keys_def)
  moreover have "key_issues b = [] \<longleftrightarrow>
      (\<forall>n < length (pb_issues b). pi_draftKey (pb_issues b ! n) \<notin> set (take n (draft_keys b)))
      \<and> (\<forall>n < length (pb_issues b). \<forall>k. pi_projectKey (pb_issues b ! n) = Some k \<longrightarrow> k \<in> set (map pp_key (pb_projects b)))"
    by (auto simp: key_issues_def all_enumerate split_def split: option.splits)
  ultimately show ?thesis by (simp add: all_set_conv_all_nth [of "pb_issues b"])
qed

lemma blocker_issues_Nil: "blocker_issues b n i = [] \<longleftrightarrow> blockers_ok b i"
proof -
  have "blocker_issues b n i = [] \<longleftrightarrow> (\<forall>k < length (pi_blockedByDraftKeys i).
      pi_blockedByDraftKeys i ! k \<notin> set (take k (pi_blockedByDraftKeys i))
      \<and> pi_blockedByDraftKeys i ! k \<noteq> pi_draftKey i \<and> pi_blockedByDraftKeys i ! k \<in> set (draft_keys b))"
    by (auto simp: blocker_issues_def all_enumerate split_def Let_def)
  also have "\<dots> \<longleftrightarrow> blockers_ok b i"
    by (auto simp: blockers_ok_def distinct_iff_nth_take [of "pi_blockedByDraftKeys i"] in_set_conv_nth subset_iff)
  finally show ?thesis .
qed

lemma relation_issues_Nil: "relation_issues b n i = [] \<longleftrightarrow> relations_ok b i"
  by (simp add: relations_ok_def relation_issues_def split: option.splits)

text \<open>The relation \<open>blocks\<close> of an accepted backlog is the graph the loop works on.\<close>

definition blocks :: "planning_backlog \<Rightarrow> (string \<times> string) set" where
  "blocks b = {(k, pi_draftKey i) | k i. i \<in> set (pb_issues b) \<and> k \<in> set (pi_blockedByDraftKeys i)}"

lemma edges_blocks: "(\<forall>i \<in> set (pb_issues b). blockers_ok b i) \<Longrightarrow> set (edges b) = blocks b"
  by (fastforce simp: edges_def issue_edges_def blocks_def blockers_ok_def counts_edge_def)

lemma backlog_issues_Nil:
  "backlog_issues b = [] \<longleftrightarrow>
     distinct (map pp_key (pb_projects b)) \<and> distinct (draft_keys b)
     \<and> (\<forall>i \<in> set (pb_issues b). \<forall>k. pi_projectKey i = Some k \<longrightarrow> k \<in> set (map pp_key (pb_projects b)))
     \<and> source_issues b = []
     \<and> (\<forall>i \<in> set (pb_issues b). blockers_ok b i \<and> relations_ok b i)
     \<and> acyclic (blocks b)"
proof -
  have "(\<forall>e \<in> set (enumerate 0 (pb_issues b)). blocker_issues b (fst e) (snd e) = [] \<and> relation_issues b (fst e) (snd e) = [])
      \<longleftrightarrow> (\<forall>i \<in> set (pb_issues b). blockers_ok b i \<and> relations_ok b i)"
    unfolding blocker_issues_Nil relation_issues_Nil by (rule all_enumerate_snd)
  moreover have "cycle_issues b = [] \<longleftrightarrow> acyclic (blocks b)"
    if "distinct (draft_keys b)" "\<forall>i \<in> set (pb_issues b). blockers_ok b i"
    using visited_all_iff_acyclic [OF that(1)] edges_blocks [OF that(2)] by (simp add: cycle_issues_def)
  ultimately show ?thesis
    by (auto simp: backlog_issues_def project_issues_Nil key_issues_Nil split_def)
qed

section \<open>The stored contract decodes to itself\<close>

lemma dropWhile_idem: "dropWhile p (dropWhile p xs) = dropWhile p xs"
  by (induction xs) auto

lemma trim_trim [simp]: "trim (trim s) = trim s"
proof -
  define a where "a = dropWhile is_space s"
  define t where "t = rev (dropWhile is_space (rev a))"
  have t: "trim s = t" by (simp add: trim_def t_def a_def)
  obtain u where "rev a = u @ dropWhile is_space (rev a)" by (metis takeWhile_dropWhile_id)
  then have "a = t @ rev u" by (metis rev_append rev_rev_ident t_def)
  moreover have "a = [] \<or> \<not> is_space (hd a)" by (metis a_def hd_dropWhile)
  ultimately have "t = [] \<or> \<not> is_space (hd t)" by (cases t) auto
  then have "dropWhile is_space t = t" by (cases t) auto
  moreover have "rev (dropWhile is_space (rev t)) = t" by (simp add: t_def dropWhile_idem)
  ultimately show ?thesis by (simp add: t) (simp add: trim_def)
qed

text \<open>A decoder is stable under an encoder when what it returns decodes to itself.\<close>

definition stable :: "(json \<Rightarrow> 'a option) \<Rightarrow> ('a \<Rightarrow> json) \<Rightarrow> bool" where
  "stable dec enc \<longleftrightarrow> (\<forall>j x. dec j = Some x \<longrightarrow> dec (enc x) = Some x)"

lemma stableD: "stable dec enc \<Longrightarrow> dec j = Some x \<Longrightarrow> dec (enc x) = Some x"
  by (auto simp: stable_def)

lemma stable_text: "stable dec_text JStr"
  by (auto simp: stable_def dec_text_def split: json.splits if_splits)

lemma stable_key: "stable dec_key JStr"
  by (auto simp: stable_def dec_key_def split: json.splits if_splits)

lemma stable_enum: "stable (dec_enum vs) JStr"
  by (auto simp: stable_def dec_enum_def split: json.splits if_splits)

lemma stable_datetime: "stable (dec_datetime dt) JStr"
  by (auto simp: stable_def dec_datetime_def split: json.splits if_splits)

lemma stable_complexity: "stable dec_complexity (\<lambda>c. JStr (show_complexity c))"
proof -
  have "find (\<lambda>c. show_complexity c = show_complexity x) complexity_values = Some x" for x
    by (cases x) (simp_all add: complexity_values_def)
  then show ?thesis by (simp add: stable_def dec_complexity_def)
qed

lemma all_some_Some: "all_some xs = Some ys \<longleftrightarrow> xs = map Some ys"
  by (induction xs arbitrary: ys rule: all_some.induct) auto

lemma stable_list:
  assumes "stable dec enc" shows "stable (dec_list n dec) (\<lambda>xs. JArr (map enc xs))"
  unfolding stable_def
proof (intro allI impI)
  fix j xs assume "dec_list n dec j = Some xs"
  then obtain js where js: "n \<le> length js" "map dec js = map Some xs"
    by (auto simp: dec_list_def all_some_Some not_less split: json.splits if_splits)
  then have "length xs = length js" by (metis length_map)
  moreover have "dec (enc x) = Some x" if "x \<in> set xs" for x
  proof -
    from that js(2) have "Some x \<in> dec ` set js" by (metis imageI list.set_map)
    then obtain j' where "dec j' = Some x" by (metis imageE)
    with assms show ?thesis by (rule stableD)
  qed
  ultimately show "dec_list n dec (JArr (map enc xs)) = Some xs"
    using js(1) by (simp add: dec_list_def all_some_Some comp_def)
qed

lemma stable_unique: "stable (dec_unique n) enc_texts"
  using stable_list [OF stable_text, of n]
  unfolding stable_def dec_unique_def enc_texts_def by (auto split: option.splits if_splits)

lemma stable_nullable:
  assumes "stable dec JStr" shows "stable (dec_nullable dec) (\<lambda>v. case v of None \<Rightarrow> JNull | Some k \<Rightarrow> JStr k)"
  using assms unfolding stable_def dec_nullable_def by (auto split: option.splits)

lemma field_stable: "stable dec enc \<Longrightarrow> field o' k dec = Some x \<Longrightarrow> dec (enc x) = Some x"
  by (auto simp: field_def bind_eq_Some_conv dest: stableD)

lemmas decoders = stable_text stable_key stable_enum stable_datetime stable_complexity stable_unique
  stable_list [OF stable_key, folded enc_texts_def] stable_list [OF stable_enum, folded enc_texts_def]
  stable_nullable [OF stable_key]

lemma field_here: "field ((k, j) # o') k dec = dec j"
  by (simp add: field_def)

lemma field_later: "k \<noteq> k' \<Longrightarrow> field ((k', j) # o') k dec = field o' k dec"
  by (simp add: field_def)

lemma strict_JObj: "strict_object ks (JObj o') = (if fst ` set o' \<subseteq> set ks then Some o' else None)"
  by (simp add: strict_object_def)

lemma stable_dependency: "stable dec_dependency enc_dependency"
  unfolding stable_def
proof (intro allI impI)
  fix j x assume "dec_dependency j = Some x"
  then obtain o' where f: "field o' ''key'' dec_key = Some (ed_key x)"
    "field o' ''description'' dec_text = Some (ed_description x)"
    "field o' ''verification'' dec_text = Some (ed_verification x)"
    by (auto simp: dec_dependency_def bind_eq_Some_conv)
  note v = f(1) [THEN field_stable [OF stable_key]] f(2,3) [THEN field_stable [OF stable_text]]
  show "dec_dependency (enc_dependency x) = Some x"
    by (simp add: dec_dependency_def enc_dependency_def strict_JObj field_here field_later v del: One_nat_def)
qed

lemma stable_body: "stable dec_body enc_body"
  unfolding stable_def
proof (intro allI impI)
  fix j x assume "dec_body j = Some x"
  then obtain o' where t: "field o' ''backgroundProblem'' dec_text = Some (ib_backgroundProblem x)"
      "field o' ''goal'' dec_text = Some (ib_goal x)" "field o' ''technicalNotes'' dec_text = Some (ib_technicalNotes x)"
    and u: "field o' ''requirements'' (dec_unique 1) = Some (ib_requirements x)"
      "field o' ''acceptanceCriteria'' (dec_unique 1) = Some (ib_acceptanceCriteria x)"
      "field o' ''relevantAreas'' (dec_unique 1) = Some (ib_relevantAreas x)"
      "field o' ''edgeCases'' (dec_unique 1) = Some (ib_edgeCases x)"
      "field o' ''testingValidation'' (dec_unique 1) = Some (ib_testingValidation x)"
      "field o' ''outOfScope'' (dec_unique 1) = Some (ib_outOfScope x)"
    by (auto simp: dec_body_def bind_eq_Some_conv)
  note v = t [THEN field_stable [OF stable_text]] u [THEN field_stable [OF stable_unique]]
  show "dec_body (enc_body x) = Some x"
    by (simp add: dec_body_def enc_body_def strict_JObj field_here field_later v del: One_nat_def)
qed

lemma stable_source: "stable (dec_source dt) enc_source"
  unfolding stable_def
proof (intro allI impI)
  fix j x assume "dec_source dt j = Some x"
  then obtain o' where t: "field o' ''linearIssueId'' dec_text = Some (is_linearIssueId x)"
      "field o' ''linearIdentifier'' dec_text = Some (is_linearIdentifier x)"
      "field o' ''gitBranchName'' dec_text = Some (is_gitBranchName x)"
    and d: "field o' ''linearCreatedAt'' (dec_datetime dt) = Some (is_linearCreatedAt x)"
    and u: "field o' ''linearBlockedByIdentifiers'' (dec_unique 0) = Some (is_linearBlockedByIdentifiers x)"
    by (auto simp: dec_source_def bind_eq_Some_conv)
  note v = t [THEN field_stable [OF stable_text]] d [THEN field_stable [OF stable_datetime]]
    u [THEN field_stable [OF stable_unique]]
  show "dec_source dt (enc_source x) = Some x"
    by (simp add: dec_source_def enc_source_def strict_JObj field_here field_later v del: One_nat_def)
qed

lemma optional_field_stable:
  "stable dec enc \<Longrightarrow> optional_field o' k dec = Some (Some x) \<Longrightarrow> dec (enc x) = Some x"
  by (auto simp: optional_field_def dest: stableD split: option.splits)

lemma enc_issue_fields:
  assumes "enc_issue i = JObj o'"
  shows "field o' ''draftKey'' f1 = f1 (JStr (pi_draftKey i))"
    "field o' ''projectKey'' f2 = f2 (case pi_projectKey i of None \<Rightarrow> JNull | Some k \<Rightarrow> JStr k)"
    "field o' ''title'' f3 = f3 (JStr (pi_title i))" "field o' ''type'' f4 = f4 (JStr (pi_type i))"
    "field o' ''priority'' f5 = f5 (JStr (pi_priority i))" "field o' ''estimate'' f6 = f6 (JStr (pi_estimate i))"
    "field o' ''complexity'' f7 = f7 (JStr (show_complexity (pi_complexity i)))"
    "field o' ''labels'' f8 = f8 (enc_texts (pi_labels i))"
    "field o' ''repositories'' f9 = f9 (enc_texts (pi_repositories i))"
    "field o' ''blockedByDraftKeys'' f10 = f10 (enc_texts (pi_blockedByDraftKeys i))"
    "field o' ''externalDependencies'' f11 = f11 (JArr (map enc_dependency (pi_externalDependencies i)))"
    "field o' ''body'' f12 = f12 (enc_body (pi_body i))"
    "optional_field o' ''source'' f13 =
       (case pi_source i of None \<Rightarrow> Some None | Some s \<Rightarrow> map_option Some (f13 (enc_source s)))"
    "strict_object issue_keys (JObj o') = Some o'"
  using assms by (auto simp: enc_issue_def field_def optional_field_def strict_JObj issue_keys_def split: option.splits)

lemma stable_issue: "stable (dec_issue dt) enc_issue"
  unfolding stable_def
proof (intro allI impI)
  fix j x assume "dec_issue dt j = Some x"
  then obtain o' where f: "field o' ''draftKey'' dec_key = Some (pi_draftKey x)"
      "field o' ''projectKey'' (dec_nullable dec_key) = Some (pi_projectKey x)"
      "field o' ''title'' dec_text = Some (pi_title x)"
      "field o' ''type'' (dec_enum [''Feature'', ''Improvement'', ''Refactor'']) = Some (pi_type x)"
      "field o' ''priority'' (dec_enum [''Urgent'', ''High'', ''Medium'', ''Low'']) = Some (pi_priority x)"
      "field o' ''estimate'' (dec_enum [''S'', ''M'', ''L'']) = Some (pi_estimate x)"
      "field o' ''complexity'' dec_complexity = Some (pi_complexity x)"
      "field o' ''labels'' (dec_list 2 (dec_enum label_names)) = Some (pi_labels x)"
      "field o' ''repositories'' (dec_list 1 (dec_enum repository_names)) = Some (pi_repositories x)"
      "field o' ''blockedByDraftKeys'' (dec_list 0 dec_key) = Some (pi_blockedByDraftKeys x)"
      "field o' ''externalDependencies'' (dec_list 0 dec_dependency) = Some (pi_externalDependencies x)"
      "field o' ''body'' dec_body = Some (pi_body x)"
    and s: "optional_field o' ''source'' (dec_source dt) = Some (pi_source x)" and rules: "issue_rules x"
    by (auto simp: dec_issue_def bind_eq_Some_conv Let_def split: if_splits)
  note v = f(1) [THEN field_stable [OF stable_key]] f(2) [THEN field_stable [OF stable_nullable [OF stable_key]]]
    f(3) [THEN field_stable [OF stable_text]] f(4-6) [THEN field_stable [OF stable_enum]]
    f(7) [THEN field_stable [OF stable_complexity]]
    f(8,9) [THEN field_stable [OF stable_list [OF stable_enum], folded enc_texts_def]]
    f(10) [THEN field_stable [OF stable_list [OF stable_key], folded enc_texts_def]]
    f(11) [THEN field_stable [OF stable_list [OF stable_dependency]]] f(12) [THEN field_stable [OF stable_body]]
  have src: "(case pi_source x of None \<Rightarrow> Some None | Some y \<Rightarrow> map_option Some (dec_source dt (enc_source y))) = Some (pi_source x)"
    using s optional_field_stable [OF stable_source] by (auto split: option.splits)
  obtain e where e: "enc_issue x = JObj e" by (simp add: enc_issue_def)
  show "dec_issue dt (enc_issue x) = Some x"
    using rules by (simp add: e dec_issue_def enc_issue_fields [OF e] v src Let_def issue_rules_def del: One_nat_def)
qed

end
