(* ===== verification/Ledger.thy ===== *)
theory Ledger
  imports TaskStore
begin

text \<open>
  The rest of \<open>src/repositories/task.repository.ts\<close>: workspace identities and delivery facts of
  work units, stage checkpoints, stage attempts and the intent records of external operations,
  with \<open>src/repositories/retention.repository.ts\<close>. The lemmas are the contract of the attempt
  log (numbers count finished runs and at most one open one), of the intent records (a key is
  recorded once and its first record wins) and the frame of retention.
\<close>

section \<open>Work units\<close>

text \<open>Two rows that agree on a unique index whose columns are not null.\<close>

definition same_identity :: "work_unit_row \<Rightarrow> work_unit_row \<Rightarrow> bool" where
  "same_identity u v \<longleftrightarrow>
     (wu_taskId u = wu_taskId v \<and> wu_repository u = wu_repository v)
     \<or> (wu_repository u = wu_repository v \<and> wu_branch u \<noteq> None \<and> wu_branch u = wu_branch v)
     \<or> (wu_workspacePath u \<noteq> None \<and> wu_workspacePath u = wu_workspacePath v)
     \<or> (wu_repository u = wu_repository v \<and> wu_pullRequestNumber u \<noteq> None
          \<and> wu_pullRequestNumber u = wu_pullRequestNumber v)"

fun identities_unique :: "work_unit_row list \<Rightarrow> bool" where
  "identities_unique [] = True"
| "identities_unique (u # us) = (list_all (\<lambda>v. \<not> same_identity u v) us \<and> identities_unique us)"

definition unit_of :: "task_id \<Rightarrow> string \<Rightarrow> work_unit_row \<Rightarrow> bool" where
  "unit_of i repo u = (wu_taskId u = i \<and> wu_repository u = repo)"

text \<open>
  \<open>UPDATE task_work_units \<dots> WHERE task_id = i AND repository = repo AND EXISTS (leased)\<close>: no row
  and no lease look alike to the caller, and a unique index refuses the statement.
\<close>

definition update_unit ::
  "task_id \<Rightarrow> worker \<Rightarrow> string \<Rightarrow> (work_unit_row \<Rightarrow> work_unit_row) \<Rightarrow> orch_error \<Rightarrow> database
     \<Rightarrow> (orch_error, work_unit_row \<times> database) result" where
  "update_unit i w repo f conflict d =
     (let units = update_where (unit_of i repo) f (db_workUnits d) in
      if \<not> leased_by i w d then Inl (LeaseOwnershipError i)
      else if \<not> identities_unique units then Inl conflict
      else case first_of (returning (unit_of i repo) f (db_workUnits d)) of
        None \<Rightarrow> Inl (LeaseOwnershipError i)
      | Some u \<Rightarrow> Inr (u, d\<lparr>db_workUnits := units\<rparr>))"

record workspace_identity =
  wi_repository :: string
  wi_workspacePath :: string
  wi_branch :: string
  wi_baseCommit :: string

definition record_work_unit_workspace ::
  "time \<Rightarrow> task_id \<Rightarrow> worker \<Rightarrow> workspace_identity \<Rightarrow> database
     \<Rightarrow> (orch_error, work_unit_row \<times> database) result" where
  "record_work_unit_workspace clk i w v d =
     update_unit i w (wi_repository v)
       (\<lambda>u. u\<lparr>wu_workspacePath := Some (wi_workspacePath v), wu_branch := Some (wi_branch v),
              wu_baseCommit := Some (wi_baseCommit v), wu_workspaceReleasedAt := None,
              wu_workspaceCleanupBlockedReason := None, wu_updatedAt := clk\<rparr>)
       (WorkspaceIdentityConflictError (wi_repository v)) d"

text \<open>A field the update leaves out keeps its value.\<close>

record delivery_update =
  du_state :: "task_state option"
  du_outcome :: "string option"
  du_pushedCommit :: "string option"
  du_pullRequest :: "(int \<times> string) option"
  du_mergeCommit :: "string option option"
  du_observation :: "json option"

definition no_update :: delivery_update where
  "no_update = \<lparr>du_state = None, du_outcome = None, du_pushedCommit = None, du_pullRequest = None,
     du_mergeCommit = None, du_observation = None\<rparr>"

definition delivered :: "time \<Rightarrow> delivery_update \<Rightarrow> work_unit_row \<Rightarrow> work_unit_row" where
  "delivered clk v u = u\<lparr>wu_state := or_else (du_state v) (wu_state u),
     wu_outcome := or_opt (du_outcome v) (wu_outcome u),
     wu_pushedCommit := or_opt (du_pushedCommit v) (wu_pushedCommit u),
     wu_pullRequestNumber := or_opt (map_option fst (du_pullRequest v)) (wu_pullRequestNumber u),
     wu_pullRequestUrl := or_opt (map_option snd (du_pullRequest v)) (wu_pullRequestUrl u),
     wu_mergeCommit := or_else (du_mergeCommit v) (wu_mergeCommit u),
     wu_deliveryObservation := or_opt (du_observation v) (wu_deliveryObservation u),
     wu_deliveryObservedAt := (if du_observation v = None then wu_deliveryObservedAt u else Some clk),
     wu_updatedAt := clk\<rparr>"

definition record_work_unit_delivery ::
  "time \<Rightarrow> task_id \<Rightarrow> worker \<Rightarrow> string \<Rightarrow> delivery_update \<Rightarrow> database
     \<Rightarrow> (orch_error, work_unit_row \<times> database) result" where
  "record_work_unit_delivery clk i w repo v d = update_unit i w repo (delivered clk v) unique_violation d"

text \<open>Work units of terminal, unleased tasks that still have a workspace.\<close>

definition pending_release :: "database \<Rightarrow> work_unit_row \<Rightarrow> bool" where
  "pending_release d u \<longleftrightarrow>
     list_ex (\<lambda>t. t_id t = wu_taskId u \<and> t_state t \<in> {COMPLETED, CANCELLED} \<and> t_leaseOwner t = None)
       (db_tasks d)
     \<and> wu_workspacePath u \<noteq> None \<and> wu_branch u \<noteq> None \<and> wu_workspaceReleasedAt u = None"

definition list_workspaces_pending_release :: "nat \<Rightarrow> database \<Rightarrow> work_unit_row list" where
  "list_workspaces_pending_release limit d =
     take limit (sort_key wu_updatedAt (filter (pending_release d) (db_workUnits d)))"

definition mark_workspace_released :: "time \<Rightarrow> string \<Rightarrow> string option \<Rightarrow> database \<Rightarrow> database" where
  "mark_workspace_released now uid blocked d =
     d\<lparr>db_workUnits := update_where (\<lambda>u. wu_id u = uid)
         (\<lambda>u. case blocked of
                None \<Rightarrow> u\<lparr>wu_workspaceReleasedAt := Some now, wu_workspaceCleanupBlockedReason := None,
                          wu_updatedAt := now\<rparr>
              | Some reason \<Rightarrow> u\<lparr>wu_workspaceCleanupBlockedReason := Some reason, wu_updatedAt := now\<rparr>)
         (db_workUnits d)\<rparr>"

section \<open>Checkpoints\<close>

definition checkpoint_of :: "task_id \<Rightarrow> string \<Rightarrow> checkpoint_row \<Rightarrow> bool" where
  "checkpoint_of i key c = (cp_taskId c = i \<and> cp_checkpointKey c = key)"

definition record_checkpoint ::
  "time \<Rightarrow> task_id \<Rightarrow> task_state \<Rightarrow> string \<Rightarrow> json \<Rightarrow> database \<Rightarrow> (orch_error, database) result" where
  "record_checkpoint clk i stage key payload d =
     (if list_ex (checkpoint_of i key) (db_checkpoints d)
      then Inr (d\<lparr>db_checkpoints := update_where (checkpoint_of i key)
             (\<lambda>c. c\<lparr>cp_stage := stage, cp_payload := payload, cp_completedAt := clk\<rparr>) (db_checkpoints d)\<rparr>)
      else if i \<notin> t_id ` set (db_tasks d) then Inl foreign_key_violation
      else Inr (d\<lparr>db_checkpoints := db_checkpoints d @
             [\<lparr>cp_taskId = i, cp_stage = stage, cp_checkpointKey = key, cp_payload = payload,
               cp_completedAt = clk\<rparr>]\<rparr>))"

definition get_checkpoint :: "task_id \<Rightarrow> string \<Rightarrow> database \<Rightarrow> json option" where
  "get_checkpoint i key d = map_option cp_payload (first_of (filter (checkpoint_of i key) (db_checkpoints d)))"

section \<open>Stage attempts\<close>

definition attempt_in :: "task_id \<Rightarrow> task_state \<Rightarrow> attempt_row \<Rightarrow> bool" where
  "attempt_in i stage a = (at_taskId a = i \<and> at_stage a = stage)"

definition attempts_in :: "task_id \<Rightarrow> task_state \<Rightarrow> database \<Rightarrow> attempt_row list" where
  "attempts_in i stage d = filter (attempt_in i stage) (db_attempts d)"

definition latest_attempt :: "task_id \<Rightarrow> task_state \<Rightarrow> database \<Rightarrow> attempt_row option" where
  "latest_attempt i stage d = first_least (\<lambda>a. - at_attempt a) (attempts_in i stage d)"

definition start_attempt ::
  "string \<Rightarrow> time \<Rightarrow> task_id \<Rightarrow> task_state \<Rightarrow> worker \<Rightarrow> json \<Rightarrow> database
     \<Rightarrow> (orch_error, int \<times> database) result" where
  "start_attempt uid clk i stage w payload d =
     (if \<not> leased_by i w d then Inl (LeaseOwnershipError i)
      else case latest_attempt i stage d of
        Some a \<Rightarrow>
          if at_completedAt a = None
          then Inr (at_attempt a, d\<lparr>db_attempts := update_where (\<lambda>r. at_id r = at_id a)
                 (\<lambda>r. r\<lparr>at_input := Some payload, at_startedAt := clk\<rparr>) (db_attempts d)\<rparr>)
          else Inr (at_attempt a + 1, d\<lparr>db_attempts := db_attempts d @
                 [\<lparr>at_id = uid, at_taskId = i, at_stage = stage, at_attempt = at_attempt a + 1,
                   at_failureCategory = None, at_input = Some payload, at_result = None,
                   at_evidence = None, at_usage = None, at_startedAt = clk, at_completedAt = None\<rparr>]\<rparr>)
      | None \<Rightarrow> Inr (1, d\<lparr>db_attempts := db_attempts d @
                 [\<lparr>at_id = uid, at_taskId = i, at_stage = stage, at_attempt = 1,
                   at_failureCategory = None, at_input = Some payload, at_result = None,
                   at_evidence = None, at_usage = None, at_startedAt = clk, at_completedAt = None\<rparr>]\<rparr>))"

record attempt_outcome =
  ao_failureCategory :: "string option"
  ao_result :: "json option"
  ao_evidence :: "json option"
  ao_usage :: "json option"
  ao_completedAt :: "time option"

definition attempt_numbered :: "task_id \<Rightarrow> task_state \<Rightarrow> int \<Rightarrow> attempt_row \<Rightarrow> bool" where
  "attempt_numbered i stage n a = (attempt_in i stage a \<and> at_attempt a = n)"

definition complete_attempt ::
  "time \<Rightarrow> task_id \<Rightarrow> task_state \<Rightarrow> int \<Rightarrow> attempt_outcome \<Rightarrow> database \<Rightarrow> (orch_error, database) result" where
  "complete_attempt clk i stage n v d =
     (if list_ex (attempt_numbered i stage n) (db_attempts d)
      then Inr (d\<lparr>db_attempts := update_where (attempt_numbered i stage n)
             (\<lambda>a. a\<lparr>at_failureCategory := ao_failureCategory v, at_result := ao_result v,
                    at_evidence := ao_evidence v, at_usage := ao_usage v,
                    at_completedAt := Some (or_else (ao_completedAt v) clk)\<rparr>) (db_attempts d)\<rparr>)
      else Inl (PlainError (''Attempt not found: '' @ show_state stage @ '' '' @ show_int n
                  @ '' for task '' @ i)))"

definition record_attempt ::
  "string \<Rightarrow> time \<Rightarrow> task_id \<Rightarrow> task_state \<Rightarrow> int \<Rightarrow> attempt_outcome \<Rightarrow> database \<Rightarrow> (orch_error, database) result" where
  "record_attempt uid clk i stage n v d =
     (if n \<le> 0 then Inl (PlainError ''attempt must be positive'')
      else if list_ex (attempt_numbered i stage n) (db_attempts d)
      then Inr (d\<lparr>db_attempts := update_where (attempt_numbered i stage n)
             (\<lambda>a. a\<lparr>at_failureCategory := ao_failureCategory v, at_result := ao_result v,
                    at_completedAt := ao_completedAt v\<rparr>) (db_attempts d)\<rparr>)
      else if i \<notin> t_id ` set (db_tasks d) then Inl foreign_key_violation
      else Inr (d\<lparr>db_attempts := db_attempts d @
             [\<lparr>at_id = uid, at_taskId = i, at_stage = stage, at_attempt = n,
               at_failureCategory = ao_failureCategory v, at_input = None, at_result = ao_result v,
               at_evidence = None, at_usage = None, at_startedAt = clk,
               at_completedAt = ao_completedAt v\<rparr>]\<rparr>))"

definition list_attempts :: "task_id \<Rightarrow> database \<Rightarrow> attempt_row list" where
  "list_attempts i d =
     sort_key (\<lambda>a. (at_startedAt a, at_attempt a)) (filter (\<lambda>a. at_taskId a = i) (db_attempts d))"

section \<open>External operations\<close>

record operation_request =
  or_taskId :: task_id
  or_operationType :: string
  or_idempotencyKey :: string
  or_request :: json

definition has_key :: "string \<Rightarrow> external_operation_row \<Rightarrow> bool" where
  "has_key key x = (xo_idempotencyKey x = key)"

definition begin_external_operation ::
  "string \<Rightarrow> time \<Rightarrow> operation_request \<Rightarrow> database
     \<Rightarrow> (orch_error, (external_operation_row \<times> bool) \<times> database) result" where
  "begin_external_operation uid clk r d =
     (case first_of (filter (has_key (or_idempotencyKey r)) (db_operations d)) of
        Some x \<Rightarrow> Inr ((x, False), d)
      | None \<Rightarrow>
          if or_taskId r \<notin> t_id ` set (db_tasks d) then Inl foreign_key_violation
          else
            let x = \<lparr>xo_id = uid, xo_taskId = or_taskId r, xo_operationType = or_operationType r,
                     xo_idempotencyKey = or_idempotencyKey r, xo_status = ''PENDING'',
                     xo_request = or_request r, xo_response = None, xo_startedAt = clk,
                     xo_completedAt = None\<rparr> in
            Inr ((x, True), d\<lparr>db_operations := db_operations d @ [x]\<rparr>))"

definition record_external_operation ::
  "string \<Rightarrow> time \<Rightarrow> operation_request \<Rightarrow> database
     \<Rightarrow> (orch_error, external_operation_row \<times> database) result" where
  "record_external_operation uid clk r d =
     and_then (begin_external_operation uid clk r d) (\<lambda>((x, _), d'). Inr (x, d'))"

definition complete_external_operation ::
  "time \<Rightarrow> string \<Rightarrow> task_id \<Rightarrow> worker \<Rightarrow> json \<Rightarrow> database \<Rightarrow> (orch_error, database) result" where
  "complete_external_operation clk oid i w response d =
     (if leased_by i w d \<and> list_ex (\<lambda>x. xo_id x = oid \<and> xo_taskId x = i) (db_operations d)
      then Inr (d\<lparr>db_operations := update_where (\<lambda>x. xo_id x = oid \<and> xo_taskId x = i)
             (\<lambda>x. x\<lparr>xo_status := ''SUCCEEDED'', xo_response := Some response,
                    xo_completedAt := Some clk\<rparr>) (db_operations d)\<rparr>)
      else Inl (LeaseOwnershipError i))"

definition list_external_operations :: "task_id \<Rightarrow> database \<Rightarrow> external_operation_row list" where
  "list_external_operations i d =
     sort_key xo_startedAt (filter (\<lambda>x. xo_taskId x = i) (db_operations d))"

section \<open>Retention\<close>

record retention_result =
  rr_attemptEvidence :: nat
  rr_checkpoints :: nat
  rr_quarantines :: nat

definition prunable :: "time \<Rightarrow> database \<Rightarrow> task_id \<Rightarrow> bool" where
  "prunable before d i \<longleftrightarrow>
     list_ex (\<lambda>t. t_id t = i \<and> t_state t \<in> {COMPLETED, CANCELLED} \<and> t_updatedAt t < before) (db_tasks d)"

definition prune :: "time \<Rightarrow> time \<Rightarrow> database \<Rightarrow> retention_result \<times> database" where
  "prune terminalBefore quarantineBefore d =
     (let evidence = (\<lambda>a. prunable terminalBefore d (at_taskId a) \<and> at_evidence a \<noteq> None);
          checkpoint = (\<lambda>c. prunable terminalBefore d (cp_taskId c));
          quarantine = (\<lambda>q. iq_lastSeenAt q < quarantineBefore) in
      (\<lparr>rr_attemptEvidence = length (filter evidence (db_attempts d)),
        rr_checkpoints = length (filter checkpoint (db_checkpoints d)),
        rr_quarantines = length (filter quarantine (db_quarantines d))\<rparr>,
       d\<lparr>db_attempts := update_where evidence (\<lambda>a. a\<lparr>at_evidence := None\<rparr>) (db_attempts d),
         db_checkpoints := filter (\<lambda>c. \<not> checkpoint c) (db_checkpoints d),
         db_quarantines := filter (\<lambda>q. \<not> quarantine q) (db_quarantines d)\<rparr>))"

section \<open>Frames\<close>

text \<open>None of these operations touches the task table or the recorded history.\<close>

definition same_tasks :: "database \<Rightarrow> database \<Rightarrow> bool" where
  "same_tasks d d' \<longleftrightarrow> db_tasks d' = db_tasks d \<and> db_transitions d' = db_transitions d"

lemma store_ok_same_tasks: "store_ok d \<Longrightarrow> same_tasks d d' \<Longrightarrow> store_ok d'"
  unfolding same_tasks_def by (erule store_ok_frame) simp_all

lemma update_unit_frame: "update_unit i w repo f e d = Inr (u, d') \<Longrightarrow> same_tasks d d'"
  by (auto simp: update_unit_def same_tasks_def Let_def split: option.splits if_splits)

lemma record_work_unit_workspace_frame:
  "record_work_unit_workspace clk i w v d = Inr (u, d') \<Longrightarrow> same_tasks d d'"
  unfolding record_work_unit_workspace_def by (rule update_unit_frame)

lemma record_work_unit_delivery_frame:
  "record_work_unit_delivery clk i w repo v d = Inr (u, d') \<Longrightarrow> same_tasks d d'"
  unfolding record_work_unit_delivery_def by (rule update_unit_frame)

lemma mark_workspace_released_frame: "same_tasks d (mark_workspace_released now uid b d)"
  by (simp add: mark_workspace_released_def same_tasks_def)

lemma record_checkpoint_frame: "record_checkpoint clk i s k p d = Inr d' \<Longrightarrow> same_tasks d d'"
  by (auto simp: record_checkpoint_def same_tasks_def split: if_splits)

lemma start_attempt_frame: "start_attempt uid clk i s w p d = Inr (n, d') \<Longrightarrow> same_tasks d d'"
  by (auto simp: start_attempt_def same_tasks_def split: if_splits option.splits)

lemma complete_attempt_frame: "complete_attempt clk i s n v d = Inr d' \<Longrightarrow> same_tasks d d'"
  by (auto simp: complete_attempt_def same_tasks_def split: if_splits)

lemma record_attempt_frame: "record_attempt uid clk i s n v d = Inr d' \<Longrightarrow> same_tasks d d'"
  by (auto simp: record_attempt_def same_tasks_def split: if_splits)

lemma begin_external_operation_frame: "begin_external_operation uid clk r d = Inr (x, d') \<Longrightarrow> same_tasks d d'"
  by (auto simp: begin_external_operation_def same_tasks_def Let_def split: if_splits option.splits)

lemma complete_external_operation_frame:
  "complete_external_operation clk oid i w response d = Inr d' \<Longrightarrow> same_tasks d d'"
  by (auto simp: complete_external_operation_def same_tasks_def split: if_splits)

lemma prune_frame: "same_tasks d (snd (prune t q d))"
  by (simp add: prune_def same_tasks_def Let_def)

lemmas ledger_frames = record_work_unit_workspace_frame record_work_unit_delivery_frame
  mark_workspace_released_frame record_checkpoint_frame start_attempt_frame complete_attempt_frame
  record_attempt_frame begin_external_operation_frame complete_external_operation_frame prune_frame

section \<open>The lease contract of work units\<close>

lemma update_unit_refuses: "\<not> leased_by i w d \<Longrightarrow> update_unit i w repo f e d = Inl (LeaseOwnershipError i)"
  by (simp add: update_unit_def Let_def)

lemma update_unit_Inr:
  assumes "update_unit i w repo f e d = Inr (u, d')"
  shows "leased_by i w d" and "db_workUnits d' = update_where (unit_of i repo) f (db_workUnits d)"
    and "identities_unique (db_workUnits d')" and "u \<in> set (returning (unit_of i repo) f (db_workUnits d))"
  using assms unfolding update_unit_def Let_def
  by (simp_all split: if_splits option.splits add: first_of_SomeD) (auto dest: first_of_SomeD)

lemma identities_unique_mem:
  "identities_unique us \<Longrightarrow> u \<in> set us \<Longrightarrow> v \<in> set us \<Longrightarrow> same_identity u v \<Longrightarrow> u = v"
proof (induction us)
  case (Cons x xs)
  have sym: "same_identity a b = same_identity b a" for a b
    unfolding same_identity_def by (metis (no_types))
  from Cons show ?case by (simp add: list_all_iff) (metis sym)
qed simp

text \<open>
  A workspace is recorded only when no other work unit has its path, nor its branch in the same
  repository: two tasks never share a working tree.
\<close>

lemma record_work_unit_workspace_exclusive:
  assumes "record_work_unit_workspace clk i w v d = Inr (u, d')"
    and "x \<in> set (db_workUnits d')" and "x \<noteq> u"
  shows "wu_workspacePath x \<noteq> Some (wi_workspacePath v)"
    and "wu_repository x = wi_repository v \<longrightarrow> wu_branch x \<noteq> Some (wi_branch v)"
proof -
  define f where "f = (\<lambda>u :: work_unit_row. u\<lparr>wu_workspacePath := Some (wi_workspacePath v), wu_branch := Some (wi_branch v),
              wu_baseCommit := Some (wi_baseCommit v), wu_workspaceReleasedAt := None,
              wu_workspaceCleanupBlockedReason := None, wu_updatedAt := clk\<rparr>)"
  from assms(1) have "update_unit i w (wi_repository v) f (WorkspaceIdentityConflictError (wi_repository v)) d = Inr (u, d')"
    by (simp add: record_work_unit_workspace_def f_def)
  from update_unit_Inr [OF this]
  have d': "db_workUnits d' = update_where (unit_of i (wi_repository v)) f (db_workUnits d)"
    and uniq: "identities_unique (db_workUnits d')"
    and "u \<in> set (returning (unit_of i (wi_repository v)) f (db_workUnits d))" by simp_all
  then obtain q where q: "q \<in> set (db_workUnits d)" "unit_of i (wi_repository v) q" "u = f q"
    by (auto simp: returning_def)
  then have "u \<in> set (db_workUnits d')" unfolding d' set_update_where by (intro bexI [of _ q]) simp_all
  then have "\<not> same_identity u x"
    using identities_unique_mem [OF uniq _ assms(2)] assms(3) by blast
  moreover have "wu_workspacePath u = Some (wi_workspacePath v)" "wu_branch u = Some (wi_branch v)"
    "wu_repository u = wi_repository v"
    unfolding \<open>u = f q\<close> f_def using q(2) by (simp_all add: unit_of_def)
  ultimately show "wu_workspacePath x \<noteq> Some (wi_workspacePath v)"
    and "wu_repository x = wi_repository v \<longrightarrow> wu_branch x \<noteq> Some (wi_branch v)"
    unfolding same_identity_def by (metis option.distinct(1))+
qed

text \<open>A cleared workspace is offered to the janitor until it is released.\<close>

lemma mark_workspace_released_done:
  assumes "u \<in> set (db_workUnits (mark_workspace_released now uid None d))" and "wu_id u = uid"
  shows "\<not> pending_release d' u"
proof -
  from assms(1) obtain q where "q \<in> set (db_workUnits d)"
    and u: "u = (if wu_id q = uid then q\<lparr>wu_workspaceReleasedAt := Some now,
       wu_workspaceCleanupBlockedReason := None, wu_updatedAt := now\<rparr> else q)"
    by (auto simp: mark_workspace_released_def set_update_where simp del: if_split)
  then have "wu_workspaceReleasedAt u = Some now" using assms(2) by (cases "wu_id q = uid") simp_all
  then show ?thesis by (simp add: pending_release_def)
qed

section \<open>Checkpoints\<close>

lemma first_of_filter_append:
  "first_of (filter p (xs @ [x])) = (case first_of (filter p xs) of None \<Rightarrow> if p x then Some x else None | Some y \<Rightarrow> Some y)"
  by (cases "filter p xs") auto

lemma filter_update_where:
  "(\<And>r. p (f r) = p r) \<Longrightarrow> filter p (update_where q f rows) = update_where q f (filter p rows)"
  by (induction rows) (auto simp: update_where_def)

lemma first_of_update_where: "first_of (update_where q f rows) = map_option (\<lambda>r. if q r then f r else r) (first_of rows)"
  by (cases rows) (auto simp: update_where_def)

lemma list_ex_filter: "list_ex p xs \<longleftrightarrow> filter p xs \<noteq> []"
  by (induction xs) auto

lemma get_after_record_checkpoint:
  assumes "record_checkpoint clk i s k p d = Inr d'"
  shows "get_checkpoint i' k' d' = (if i' = i \<and> k' = k then Some p else get_checkpoint i' k' d)"
proof (cases "list_ex (checkpoint_of i k) (db_checkpoints d)")
  case True
  define f where "f = (\<lambda>c :: checkpoint_row. c\<lparr>cp_stage := s, cp_payload := p, cp_completedAt := clk\<rparr>)"
  have rows: "db_checkpoints d' = update_where (checkpoint_of i k) f (db_checkpoints d)"
    using assms True by (auto simp: record_checkpoint_def f_def)
  have "filter (checkpoint_of i' k') (db_checkpoints d')
      = update_where (checkpoint_of i k) f (filter (checkpoint_of i' k') (db_checkpoints d))"
    unfolding rows by (rule filter_update_where) (simp add: f_def checkpoint_of_def)
  then have got: "get_checkpoint i' k' d' = map_option (\<lambda>r. cp_payload (if checkpoint_of i k r then f r else r))
      (first_of (filter (checkpoint_of i' k') (db_checkpoints d)))"
    by (simp add: get_checkpoint_def first_of_update_where option.map_comp comp_def)
  show ?thesis
  proof (cases "first_of (filter (checkpoint_of i' k') (db_checkpoints d))")
    case None
    with True show ?thesis unfolding got by (auto simp: get_checkpoint_def list_ex_filter)
  next
    case (Some c)
    then have "checkpoint_of i' k' c" by (auto dest: first_of_SomeD)
    then show ?thesis unfolding got by (auto simp: get_checkpoint_def checkpoint_of_def f_def Some)
  qed
next
  case False
  then have "db_checkpoints d' = db_checkpoints d @ [\<lparr>cp_taskId = i, cp_stage = s, cp_checkpointKey = k, cp_payload = p, cp_completedAt = clk\<rparr>]"
    using assms by (auto simp: record_checkpoint_def split: if_splits)
  with False show ?thesis
    by (auto simp: get_checkpoint_def first_of_filter_append list_ex_filter checkpoint_of_def split: option.splits)
qed

section \<open>The attempt log\<close>

text \<open>
  The runs of one stage of one task are numbered from 1 without gaps, and every run but the
  last has finished.
\<close>

definition log_ok :: "attempt_row list \<Rightarrow> bool" where
  "log_ok as \<longleftrightarrow> map at_attempt as = map int [1..<Suc (length as)]
     \<and> (\<forall>a \<in> set (butlast as). at_completedAt a \<noteq> None)"

definition finished :: "attempt_row list \<Rightarrow> attempt_row list" where
  "finished as = filter (\<lambda>a. at_completedAt a \<noteq> None) as"

definition attempt_ids_ok :: "database \<Rightarrow> bool" where
  "attempt_ids_ok d = distinct (map at_id (db_attempts d))"

lemma log_ok_Nil [simp]: "log_ok []"
  by (simp add: log_ok_def)

lemma log_ok_snoc:
  "log_ok (as @ [a]) \<longleftrightarrow> log_ok as \<and> (\<forall>x \<in> set as. at_completedAt x \<noteq> None) \<and> at_attempt a = int (length as) + 1"
proof -
  have "set (butlast as) \<subseteq> set as" by (auto dest: in_set_butlastD)
  then show ?thesis by (auto simp: log_ok_def)
qed

lemma log_ok_bound: "log_ok as \<Longrightarrow> a \<in> set as \<Longrightarrow> 1 \<le> at_attempt a \<and> at_attempt a \<le> int (length as)"
proof -
  assume "log_ok as" "a \<in> set as"
  then have "at_attempt a \<in> set (map int [1..<Suc (length as)])"
    by (metis imageI list.set_map log_ok_def)
  then show ?thesis by auto
qed

lemma first_least_snoc:
  "(\<forall>x \<in> set xs. key a < key x) \<Longrightarrow> first_least key (xs @ [a]) = Some a"
  by (induction xs) auto

lemma latest_attempt_snoc:
  "attempts_in i s d = as @ [a] \<Longrightarrow> log_ok (as @ [a]) \<Longrightarrow> latest_attempt i s d = Some a"
  unfolding latest_attempt_def by (simp, rule first_least_snoc) (auto simp: log_ok_snoc dest: log_ok_bound)

lemma attempts_in_appended:
  "db_attempts d' = db_attempts d @ [a] \<Longrightarrow>
     attempts_in i s d' = attempts_in i s d @ (if attempt_in i s a then [a] else [])"
  by (simp add: attempts_in_def)

lemma attempts_in_updated:
  "db_attempts d' = update_where q f (db_attempts d) \<Longrightarrow> (\<And>a. attempt_in i s (f a) = attempt_in i s a) \<Longrightarrow>
     attempts_in i s d' = update_where q f (attempts_in i s d)"
  by (simp add: attempts_in_def filter_update_where)

lemma ids_attempts_in: "attempt_ids_ok d \<Longrightarrow> distinct (map at_id (attempts_in i s d))"
  by (simp add: attempt_ids_ok_def attempts_in_def distinct_map_filter)

text \<open>
  Starting a run: the number returned counts the finished runs plus one; an interrupted run is
  taken up again, so the finished runs and the runs of other stages stay as they are.
\<close>

definition restarted :: "time \<Rightarrow> json \<Rightarrow> attempt_row \<Rightarrow> attempt_row" where
  "restarted clk payload a = a\<lparr>at_input := Some payload, at_startedAt := clk\<rparr>"

lemma start_attempt_log:
  assumes step: "start_attempt uid clk i s w payload d = Inr (n, d')"
    and log: "log_ok (attempts_in i s d)" and ids: "attempt_ids_ok d"
  obtains a where "attempts_in i s d' = finished (attempts_in i s d) @ [a]" and "at_attempt a = n"
    and "n = int (length (finished (attempts_in i s d))) + 1" and "at_completedAt a = None"
    and "at_input a = Some payload"
    and "\<And>i' s'. (i', s') \<noteq> (i, s) \<Longrightarrow> attempts_in i' s' d' = attempts_in i' s' d"
proof (cases "attempts_in i s d" rule: rev_cases)
  case Nil
  then have none: "latest_attempt i s d = None" by (simp add: latest_attempt_def)
  define a where "a = \<lparr>at_id = uid, at_taskId = i, at_stage = s, at_attempt = 1,
                   at_failureCategory = None, at_input = Some payload, at_result = None,
                   at_evidence = None, at_usage = None, at_startedAt = clk, at_completedAt = None\<rparr>"
  from step none have "n = 1" "db_attempts d' = db_attempts d @ [a]"
    by (auto simp: start_attempt_def a_def split: if_splits)
  then show thesis using Nil
    by (intro that [of a]) (auto simp: attempts_in_appended attempt_in_def a_def finished_def)
next
  case (snoc as b)
  note latest = latest_attempt_snoc [OF snoc log [unfolded snoc]]
  from log snoc have done_before: "\<forall>x \<in> set as. at_completedAt x \<noteq> None"
    and num: "at_attempt b = int (length as) + 1" by (simp_all add: log_ok_snoc)
  from done_before have fin: "finished as = as" by (simp add: finished_def)
  have "b \<in> set (attempts_in i s d)" by (simp add: snoc)
  then have b: "attempt_in i s b" "b \<in> set (db_attempts d)" by (simp_all add: attempts_in_def)
  show thesis
  proof (cases "at_completedAt b")
    case None
    with step latest have "n = at_attempt b" and rows:
      "db_attempts d' = update_where (\<lambda>r. at_id r = at_id b) (restarted clk payload) (db_attempts d)"
      by (auto simp: start_attempt_def restarted_def [abs_def] split: if_splits)
    have in_upd: "attempts_in i' s' d' = update_where (\<lambda>r. at_id r = at_id b) (restarted clk payload) (attempts_in i' s' d)" for i' s'
      by (rule attempts_in_updated [OF rows]) (simp add: restarted_def attempt_in_def)
    have "at_id b \<notin> at_id ` set as"
      using ids_attempts_in [OF ids, of i s] by (simp add: snoc)
    then have "update_where (\<lambda>r. at_id r = at_id b) (restarted clk payload) (as @ [b]) = as @ [restarted clk payload b]"
      by (auto simp: update_where_def image_iff intro!: map_idI)
    then have here: "attempts_in i s d' = as @ [restarted clk payload b]" by (simp add: in_upd snoc)
    have other: "attempts_in i' s' d' = attempts_in i' s' d" if "(i', s') \<noteq> (i, s)" for i' s'
      unfolding in_upd
    proof (rule update_where_none)
      fix r assume r: "r \<in> set (attempts_in i' s' d)"
      with that b have "r \<noteq> b" by (auto simp: attempts_in_def attempt_in_def)
      moreover from r have "r \<in> set (db_attempts d)" by (simp add: attempts_in_def)
      ultimately show "at_id r \<noteq> at_id b"
        using ids b(2) unfolding attempt_ids_ok_def by (metis distinct_map inj_onD)
    qed
    show thesis
      using None num \<open>n = at_attempt b\<close> fin
      by (intro that [OF _ _ _ _ _ other, of "restarted clk payload b"])
        (auto simp: here snoc restarted_def finished_def)
  next
    case (Some c)
    define a where "a = \<lparr>at_id = uid, at_taskId = i, at_stage = s, at_attempt = at_attempt b + 1,
                   at_failureCategory = None, at_input = Some payload, at_result = None,
                   at_evidence = None, at_usage = None, at_startedAt = clk, at_completedAt = None\<rparr>"
    from step latest Some have n: "n = at_attempt b + 1" "db_attempts d' = db_attempts d @ [a]"
      by (auto simp: start_attempt_def a_def split: if_splits)
    from fin Some have fin': "finished (as @ [b]) = as @ [b]" by (simp add: finished_def)
    show thesis using n num fin'
      by (intro that [of a]) (auto simp: attempts_in_appended attempt_in_def a_def snoc)
  qed
qed

lemma log_ok_finished_snoc:
  assumes "log_ok as" and "at_attempt a = int (length (finished as)) + 1"
  shows "log_ok (finished as @ [a])"
proof (cases as rule: rev_cases)
  case (snoc bs b)
  with assms(1) have "finished bs = bs" "log_ok bs" by (auto simp: log_ok_snoc finished_def)
  moreover have "finished as = bs \<or> finished as = as"
    using snoc \<open>finished bs = bs\<close> by (auto simp: finished_def)
  ultimately show ?thesis using assms by (auto simp: log_ok_snoc finished_def filter_id_conv)
qed (use assms in \<open>simp add: finished_def log_ok_snoc [of "[]", simplified]\<close>)

lemma complete_attempt_log:
  assumes step: "complete_attempt clk i s n v d = Inr d'" and log: "log_ok (attempts_in i' s' d)"
  shows "log_ok (attempts_in i' s' d')" and "attempt_ids_ok d \<Longrightarrow> attempt_ids_ok d'"
proof -
  define f where "f = (\<lambda>a :: attempt_row. a\<lparr>at_failureCategory := ao_failureCategory v, at_result := ao_result v,
                    at_evidence := ao_evidence v, at_usage := ao_usage v,
                    at_completedAt := Some (or_else (ao_completedAt v) clk)\<rparr>)"
  have rows: "db_attempts d' = update_where (attempt_numbered i s n) f (db_attempts d)"
    using step by (auto simp: complete_attempt_def f_def split: if_splits)
  have "attempts_in i' s' d' = update_where (attempt_numbered i s n) f (attempts_in i' s' d)"
    by (rule attempts_in_updated [OF rows]) (simp add: f_def attempt_in_def)
  moreover have "map at_attempt (update_where q f as) = map at_attempt as" for q as
    by (rule map_update_where) (simp add: f_def)
  moreover have "at_completedAt a \<noteq> None"
    if "a \<in> set (butlast (update_where q f as))" "\<forall>a \<in> set (butlast as). at_completedAt a \<noteq> None" for q as a
    using that by (auto simp: update_where_def map_butlast [symmetric] f_def)
  ultimately show "log_ok (attempts_in i' s' d')" using log unfolding log_ok_def by simp
  show "attempt_ids_ok d'" if "attempt_ids_ok d"
    using that unfolding attempt_ids_ok_def rows by (simp add: map_update_where f_def)
qed

section \<open>Intent records\<close>

definition keys_ok :: "database \<Rightarrow> bool" where
  "keys_ok d = (distinct (map xo_idempotencyKey (db_operations d)) \<and> distinct (map xo_id (db_operations d)))"

definition operation_with :: "string \<Rightarrow> database \<Rightarrow> external_operation_row option" where
  "operation_with key d = first_of (filter (has_key key) (db_operations d))"

lemma operation_with_SomeD: "operation_with key d = Some x \<Longrightarrow> x \<in> set (db_operations d) \<and> xo_idempotencyKey x = key"
  by (auto simp: operation_with_def has_key_def dest!: first_of_SomeD)

text \<open>The first record of a key wins; beginning the operation again finds it and changes nothing.\<close>

lemma begin_external_operation_Inr:
  assumes "begin_external_operation uid clk r d = Inr ((x, created), d')"
  shows "operation_with (or_idempotencyKey r) d' = Some x"
    and "created \<longleftrightarrow> operation_with (or_idempotencyKey r) d = None"
    and "\<not> created \<Longrightarrow> d' = d"
    and "created \<Longrightarrow> xo_status x = ''PENDING'' \<and> xo_taskId x = or_taskId r \<and> xo_id x = uid"
    and "key \<noteq> or_idempotencyKey r \<Longrightarrow> operation_with key d' = operation_with key d"
  using assms unfolding begin_external_operation_def operation_with_def
  by (auto simp: Let_def has_key_def first_of_filter_append split: option.splits if_splits)

lemma begin_external_operation_keys:
  assumes "begin_external_operation uid clk r d = Inr (x, d')" and "keys_ok d" and "uid \<notin> xo_id ` set (db_operations d)"
  shows "keys_ok d'"
  using assms unfolding begin_external_operation_def keys_ok_def
  by (simp add: Let_def has_key_def filter_empty_conv split: option.splits if_splits) force+

lemma complete_external_operation_Inr:
  assumes step: "complete_external_operation clk oid i w response d = Inr d'" and "keys_ok d"
    and x: "operation_with key d = Some x" and "xo_id x = oid" and "xo_taskId x = i"
  shows "operation_with key d' = Some (x\<lparr>xo_status := ''SUCCEEDED'', xo_response := Some response, xo_completedAt := Some clk\<rparr>)"
    and "leased_by i w d" and "keys_ok d'"
proof -
  define q where "q = (\<lambda>x :: external_operation_row. xo_id x = oid \<and> xo_taskId x = i)"
  define f where "f = (\<lambda>x :: external_operation_row. x\<lparr>xo_status := ''SUCCEEDED'', xo_response := Some response, xo_completedAt := Some clk\<rparr>)"
  from step have rows: "db_operations d' = update_where q f (db_operations d)" and "leased_by i w d"
    by (auto simp: complete_external_operation_def q_def f_def split: if_splits)
  then show "leased_by i w d" by simp
  have "filter (has_key key) (db_operations d') = update_where q f (filter (has_key key) (db_operations d))"
    unfolding rows by (rule filter_update_where) (simp add: has_key_def f_def)
  then have "operation_with key d' = map_option (\<lambda>r. if q r then f r else r) (operation_with key d)"
    by (simp add: operation_with_def first_of_update_where)
  then show "operation_with key d' = Some (x\<lparr>xo_status := ''SUCCEEDED'', xo_response := Some response, xo_completedAt := Some clk\<rparr>)"
    using assms(3-5) by (simp add: q_def f_def)
  show "keys_ok d'" using \<open>keys_ok d\<close> unfolding keys_ok_def rows by (simp add: map_update_where f_def)
qed

section \<open>Retention\<close>

text \<open>
  Retention empties evidence and deletes checkpoints of finished tasks only: what a task that
  can still run has recorded stays, and no attempt, operation or operator action is removed.
\<close>

lemma prune_keeps_live:
  assumes "\<forall>t \<in> set (db_tasks d). t_id t = i \<longrightarrow> t_state t \<notin> {COMPLETED, CANCELLED}"
  shows "attempts_in i s (snd (prune tb qb d)) = attempts_in i s d"
    and "get_checkpoint i k (snd (prune tb qb d)) = get_checkpoint i k d"
proof -
  have live: "\<not> prunable tb d i" using assms by (auto simp: prunable_def list_ex_iff)
  define q where "q = (\<lambda>a :: attempt_row. prunable tb d (at_taskId a) \<and> at_evidence a \<noteq> None)"
  define f where "f = (\<lambda>a :: attempt_row. a\<lparr>at_evidence := None\<rparr>)"
  have rows: "db_attempts (snd (prune tb qb d)) = update_where q f (db_attempts d)"
    by (simp add: prune_def Let_def q_def f_def)
  have "attempts_in i s (snd (prune tb qb d)) = update_where q f (attempts_in i s d)"
    by (rule attempts_in_updated [OF rows]) (simp add: f_def attempt_in_def)
  also have "\<dots> = attempts_in i s d"
    by (rule update_where_none) (use live in \<open>auto simp: q_def attempts_in_def attempt_in_def\<close>)
  finally show "attempts_in i s (snd (prune tb qb d)) = attempts_in i s d" .
  have "filter (checkpoint_of i k) (filter (\<lambda>c. \<not> prunable tb d (cp_taskId c)) rows) = filter (checkpoint_of i k) rows" for rows
    using live by (induction rows) (auto simp: checkpoint_of_def)
  then show "get_checkpoint i k (snd (prune tb qb d)) = get_checkpoint i k d"
    by (simp add: get_checkpoint_def prune_def Let_def)
qed

lemma prune_keeps_audit:
  "db_operations (snd (prune tb qb d)) = db_operations d"
  "db_actions (snd (prune tb qb d)) = db_actions d"
  "map at_id (db_attempts (snd (prune tb qb d))) = map at_id (db_attempts d)"
  by (simp_all add: prune_def Let_def map_update_where)

end
