(* ===== verification/Intake.thy ===== *)
theory Intake
  imports Planning Ledger
begin

text \<open>
  Discovery and persistence of Linear issues (\<open>src/intake/linear-discovery.ts\<close>). The search of the
  contract block follows the regular expression, with its backtracking over line breaks. The
  texts of parser and schema errors, \<open>JSON.parse\<close> and the timestamp format are parameters grouped
  in a record. Persisting is a sequence of repository calls, each its own transaction: an error
  leaves what earlier calls wrote.
\<close>

section \<open>The contract block of a description\<close>

definition newline :: char where
  "newline = char_of (10 :: nat)"

definition line_terminator :: "char \<Rightarrow> bool" where
  "line_terminator c = (of_char c \<in> {10 :: nat, 13})"

definition fence :: string where
  "fence = replicate 3 (CHR 0x60)"

text \<open>The text before the first line break followed by a closing fence.\<close>

fun until_fence :: "string \<Rightarrow> string option" where
  "until_fence [] = None"
| "until_fence (c # s) =
     (if starts_with (c # s) (newline # fence) then Some [] else map_option (Cons c) (until_fence s))"

text \<open>What may follow \<open>\s*\n\<close> inside a run of white space, the longest match first.\<close>

fun after_newlines :: "string \<Rightarrow> string list" where
  "after_newlines [] = []"
| "after_newlines (c # s) =
     (if is_space c then after_newlines s @ (if c = newline then [s] else []) else [])"

definition block_at :: "string \<Rightarrow> string \<Rightarrow> string option" where
  "block_at heading s =
     (let start = ''## '' @ heading in
      if \<not> starts_with s start then None
      else let rest = drop (length start) s; gap = takeWhile is_space rest; body = dropWhile is_space rest in
        if gap = [] \<or> last gap \<noteq> newline \<or> \<not> starts_with body (fence @ ''json'') then None
        else first_of (List.map_filter until_fence (after_newlines (drop 7 body))))"

fun search_lines :: "string \<Rightarrow> bool \<Rightarrow> string \<Rightarrow> string option" where
  "search_lines heading at_start [] = None"
| "search_lines heading at_start (c # s) =
     (case (if at_start then block_at heading (c # s) else None) of
        Some b \<Rightarrow> Some b
      | None \<Rightarrow> search_lines heading (line_terminator c) s)"

record schema_library =
  sl_parse :: "string \<Rightarrow> (string, json) result"
  sl_datetime :: "string \<Rightarrow> bool"
  sl_issueError :: "json \<Rightarrow> string"
  sl_projectError :: "json \<Rightarrow> string"
  sl_backlogError :: "planning_backlog \<Rightarrow> string"

definition extract_contract :: "schema_library \<Rightarrow> string \<Rightarrow> string \<Rightarrow> (string, json) result" where
  "extract_contract lib description heading =
     (case search_lines heading True description of
        None \<Rightarrow> Inl (''Missing '' @ heading @ '' JSON contract'')
      | Some b \<Rightarrow> if b = [] then Inl (''Missing '' @ heading @ '' JSON contract'') else sl_parse lib b)"

section \<open>Discovery\<close>

record linear_issue =
  lx_id :: string
  lx_identifier :: string
  lx_description :: string
  lx_branchName :: "string option"
  lx_createdAt :: string
  lx_stateType :: string
  lx_labels :: "string list"
  lx_blockedByIdentifiers :: "string list"
  lx_projectDescription :: "string option"

record quarantine_entry =
  qe_id :: string
  qe_identifier :: string
  qe_reason :: string
  qe_payload :: json

record intake_report =
  ir_eligible :: "planning_issue list"
  ir_quarantined :: "quarantine_entry list"
  ir_ignored :: "(string \<times> string) list"

definition blank :: "string option \<Rightarrow> bool" where
  "blank s = (case s of None \<Rightarrow> True | Some t \<Rightarrow> t = [])"

definition source_json :: "linear_issue \<Rightarrow> string \<Rightarrow> json" where
  "source_json x branch = JObj [(''linearIssueId'', JStr (lx_id x)), (''linearIdentifier'', JStr (lx_identifier x)),
     (''linearCreatedAt'', JStr (lx_createdAt x)), (''gitBranchName'', JStr branch),
     (''linearBlockedByIdentifiers'', enc_texts (lx_blockedByIdentifiers x))]"

text \<open>\<open>{...contract, source}\<close>: spreading a value that is no object contributes no field of the contract.\<close>

definition hydrate :: "json \<Rightarrow> json \<Rightarrow> json" where
  "hydrate contract source =
     (case contract of JObj kvs \<Rightarrow> JObj (map_set ''source'' source kvs) | _ \<Rightarrow> JObj [(''source'', source)])"

type_synonym projects = "(string \<times> planning_project) list"

definition hydrate_issue ::
  "schema_library \<Rightarrow> linear_issue \<Rightarrow> projects \<Rightarrow> (string, planning_issue \<times> projects) result" where
  "hydrate_issue lib x ps =
     (if blank (lx_branchName x) then Inl ''Linear issue has no branchName''
      else and_then (extract_contract lib (lx_description x) ''AI Orchestrator Contract'') (\<lambda>contract.
        let doc = hydrate contract (source_json x (or_else (lx_branchName x) [])) in
        case dec_issue (sl_datetime lib) doc of
          None \<Rightarrow> Inl (sl_issueError lib doc)
        | Some i \<Rightarrow>
            (case pi_projectKey i of
               None \<Rightarrow> Inr (i, ps)
             | Some k \<Rightarrow>
                 if blank (lx_projectDescription x) then Inl ''Linear issue project has no description''
                 else and_then (extract_contract lib (or_else (lx_projectDescription x) []) ''AI Orchestrator Project Contract'') (\<lambda>pj.
                   case dec_project pj of
                     None \<Rightarrow> Inl (sl_projectError lib pj)
                   | Some p \<Rightarrow>
                       if pp_key p \<noteq> k then Inl ''Project contract key does not match issue projectKey''
                       else Inr (i, map_set (pp_key p) p ps)))))"

definition nullable_text :: "string option \<Rightarrow> json" where
  "nullable_text s = (case s of None \<Rightarrow> JNull | Some t \<Rightarrow> JStr t)"

definition discovery_step ::
  "schema_library \<Rightarrow> string list \<Rightarrow> string list \<Rightarrow> linear_issue
     \<Rightarrow> intake_report \<times> projects \<Rightarrow> intake_report \<times> projects" where
  "discovery_step lib required excluded x st =
     (let (r, ps) = st;
          ignore = (\<lambda>why. (r\<lparr>ir_ignored := ir_ignored r @ [(lx_identifier x, why)]\<rparr>, ps)) in
      if lx_stateType x = ''completed'' \<or> lx_stateType x = ''canceled''
        then ignore (''Linear state is '' @ lx_stateType x)
      else if \<not> list_all (\<lambda>l. l \<in> set (lx_labels x)) required then ignore ''Missing required label''
      else if list_ex (\<lambda>l. l \<in> set (lx_labels x)) excluded then ignore ''Has excluded label''
      else case hydrate_issue lib x ps of
          Inr (i, ps') \<Rightarrow> (r\<lparr>ir_eligible := ir_eligible r @ [i]\<rparr>, ps')
        | Inl why \<Rightarrow> (r\<lparr>ir_quarantined := ir_quarantined r @
              [\<lparr>qe_id = lx_id x, qe_identifier = lx_identifier x, qe_reason = why,
                qe_payload = JObj [(''description'', JStr (lx_description x)), (''branchName'', nullable_text (lx_branchName x))]\<rparr>]\<rparr>, ps))"

definition quarantine_of :: "string \<Rightarrow> planning_issue \<Rightarrow> quarantine_entry" where
  "quarantine_of why i =
     (case pi_source i of
        Some s \<Rightarrow> \<lparr>qe_id = is_linearIssueId s, qe_identifier = is_linearIdentifier s, qe_reason = why, qe_payload = enc_issue i\<rparr>
      | None \<Rightarrow> \<lparr>qe_id = pi_draftKey i, qe_identifier = pi_draftKey i, qe_reason = why, qe_payload = enc_issue i\<rparr>)"

text \<open>
  The backlog of all eligible issues is checked together. The issues and projects are outputs of
  the schema, which decode to themselves, so the check is \<open>backlog_ok\<close> on them.
\<close>

definition discover_linear_issues ::
  "schema_library \<Rightarrow> linear_issue list \<Rightarrow> string list \<Rightarrow> string list \<Rightarrow> intake_report" where
  "discover_linear_issues lib xs required excluded =
     (let (r, ps) = fold (discovery_step lib required excluded) xs
            (\<lparr>ir_eligible = [], ir_quarantined = [], ir_ignored = []\<rparr>, []);
          b = \<lparr>pb_projects = map snd ps, pb_issues = ir_eligible r\<rparr> in
      if backlog_ok b then r
      else r\<lparr>ir_eligible := [],
             ir_quarantined := ir_quarantined r @ map (quarantine_of (sl_backlogError lib b)) (ir_eligible r)\<rparr>)"

section \<open>Persistence\<close>

definition task_input :: "planning_issue \<Rightarrow> issue_source \<Rightarrow> create_task_input" where
  "task_input i s = \<lparr>ct_linearIssueId = is_linearIssueId s, ct_linearIdentifier = is_linearIdentifier s,
     ct_contractSnapshot = enc_issue i, ct_complexity = pi_complexity i, ct_risk = None,
     ct_blockerTaskIds = None, ct_workUnits = map (\<lambda>r. (r, None)) (pi_repositories i)\<rparr>"

record persist_state =
  ps_db :: database
  ps_taskIds :: "(string \<times> task_id) list"
  ps_quarantined :: "quarantine_entry list"

text \<open>
  The first loop. \<open>gen n\<close> is the identity the database generates for the task of the n-th issue and
  \<open>gen_unit n\<close> those of its work units; an error of another kind than a changed contract ends it.
\<close>

definition upsert_step ::
  "(string \<Rightarrow> string \<Rightarrow> bool) \<Rightarrow> (nat \<Rightarrow> task_id) \<Rightarrow> (nat \<Rightarrow> nat \<Rightarrow> string) \<Rightarrow> time
     \<Rightarrow> nat \<times> planning_issue \<Rightarrow> persist_state \<Rightarrow> (orch_error \<times> persist_state, persist_state) result" where
  "upsert_step lc gen gen_unit clk e st =
     (let n = fst e; i = snd e in
      case pi_source i of
        None \<Rightarrow> Inr st
      | Some s \<Rightarrow>
          (case upsert_discovered_task lc (gen n) (gen_unit n) clk (task_input i s) (ps_db st) of
             Inr ((t, _), d') \<Rightarrow> Inr (st\<lparr>ps_db := d', ps_taskIds := map_set (pi_draftKey i) (t_id t) (ps_taskIds st)\<rparr>)
           | Inl (ContractChangedError x) \<Rightarrow>
               Inr (st\<lparr>ps_quarantined := ps_quarantined st @
                 [\<lparr>qe_id = is_linearIssueId s, qe_identifier = is_linearIdentifier s,
                   qe_reason = error_message (ContractChangedError x), qe_payload = enc_issue i\<rparr>]\<rparr>)
           | Inl err \<Rightarrow> Inl (err, st)))"

definition dependency_step ::
  "time \<Rightarrow> planning_issue \<Rightarrow> persist_state \<Rightarrow> (orch_error \<times> persist_state, persist_state) result" where
  "dependency_step clk i st =
     (case map_of (ps_taskIds st) (pi_draftKey i) of
        None \<Rightarrow> Inr st
      | Some t \<Rightarrow>
          (case replace_dependencies clk t (List.map_filter (map_of (ps_taskIds st)) (pi_blockedByDraftKeys i)) (ps_db st) of
             Inr d' \<Rightarrow> Inr (st\<lparr>ps_db := d'\<rparr>)
           | Inl err \<Rightarrow> Inl (err, st)))"

definition quarantine_all :: "time \<Rightarrow> quarantine_entry list \<Rightarrow> database \<Rightarrow> database" where
  "quarantine_all clk qs d =
     fold (\<lambda>q. quarantine_intake clk (qe_id q) (qe_identifier q) (qe_reason q) (qe_payload q)) qs d"

definition persist_linear_intake ::
  "(string \<Rightarrow> string \<Rightarrow> bool) \<Rightarrow> (nat \<Rightarrow> task_id) \<Rightarrow> (nat \<Rightarrow> nat \<Rightarrow> string) \<Rightarrow> time
     \<Rightarrow> intake_report \<Rightarrow> database \<Rightarrow> (orch_error, unit) result \<times> database" where
  "persist_linear_intake lc gen gen_unit clk r d =
     (case and_then (fold_result (upsert_step lc gen gen_unit clk) (enumerate 0 (ir_eligible r))
              \<lparr>ps_db = d, ps_taskIds = [], ps_quarantined = ir_quarantined r\<rparr>)
            (fold_result (dependency_step clk) (ir_eligible r)) of
        Inl (err, st) \<Rightarrow> (Inl err, ps_db st)
      | Inr st \<Rightarrow> (Inr (), quarantine_all clk (ps_quarantined st) (ps_db st)))"

section \<open>Eligible issues\<close>

text \<open>What a report offers for execution is one accepted backlog of open issues.\<close>

lemma discovery_step_eligible:
  assumes "discovery_step lib req exc x (r, ps) = (r', ps')"
  shows "ir_eligible r' = ir_eligible r \<or> (\<exists>i. ir_eligible r' = ir_eligible r @ [i]
     \<and> lx_stateType x \<notin> {''completed'', ''canceled''} \<and> set req \<subseteq> set (lx_labels x)
     \<and> set exc \<inter> set (lx_labels x) = {}
     \<and> (\<exists>ps. hydrate_issue lib x ps = Inr (i, ps')))"
proof (cases "hydrate_issue lib x ps")
  case (Inl e)
  with assms show ?thesis by (simp add: discovery_step_def Let_def split: if_splits) auto
next
  case (Inr y)
  then show ?thesis using assms
    by (cases y) (auto simp: discovery_step_def Let_def list_all_iff list_ex_iff split: if_splits)
qed

lemma hydrate_issue_Inr:
  assumes "hydrate_issue lib x ps = Inr (i, ps')"
  shows "\<exists>doc. dec_issue (sl_datetime lib) doc = Some i"
  using assms by (auto simp: hydrate_issue_def Let_def result_simps split: if_splits option.splits)

lemma discover_eligible_backlog:
  assumes "ir_eligible (discover_linear_issues lib xs req exc) \<noteq> []"
  obtains ps where "backlog_ok \<lparr>pb_projects = ps, pb_issues = ir_eligible (discover_linear_issues lib xs req exc)\<rparr>"
  using assms unfolding discover_linear_issues_def
  by (auto simp: Let_def split_def split: if_splits)

lemma fold_discovery:
  assumes "fold (discovery_step lib req exc) xs (r, ps) = (r', ps')" and "i \<in> set (ir_eligible r')"
  shows "i \<in> set (ir_eligible r) \<or> (\<exists>x \<in> set xs. lx_stateType x \<notin> {''completed'', ''canceled''}
     \<and> set req \<subseteq> set (lx_labels x) \<and> set exc \<inter> set (lx_labels x) = {}
     \<and> (\<exists>ps ps'. hydrate_issue lib x ps = Inr (i, ps')))"
  using assms
proof (induction xs arbitrary: r ps)
  case (Cons x xs)
  obtain r1 ps1 where step: "discovery_step lib req exc x (r, ps) = (r1, ps1)"
    by (cases "discovery_step lib req exc x (r, ps)")
  with Cons.prems have "fold (discovery_step lib req exc) xs (r1, ps1) = (r', ps')" by simp
  from Cons.IH [OF this Cons.prems(2)] discovery_step_eligible [OF step] show ?case by auto
qed simp

lemma discover_eligible_open:
  assumes "i \<in> set (ir_eligible (discover_linear_issues lib xs req exc))"
  obtains x ps ps' where "x \<in> set xs" "lx_stateType x \<notin> {''completed'', ''canceled''}"
    "set req \<subseteq> set (lx_labels x)" "set exc \<inter> set (lx_labels x) = {}" "hydrate_issue lib x ps = Inr (i, ps')"
proof -
  obtain r ps where f: "fold (discovery_step lib req exc) xs (\<lparr>ir_eligible = [], ir_quarantined = [], ir_ignored = []\<rparr>, []) = (r, ps)"
    by (cases "fold (discovery_step lib req exc) xs (\<lparr>ir_eligible = [], ir_quarantined = [], ir_ignored = []\<rparr>, [])")
  with assms have "i \<in> set (ir_eligible r)"
    by (auto simp: discover_linear_issues_def Let_def split: if_splits)
  from fold_discovery [OF f this] that show thesis by auto
qed

section \<open>What persisting keeps and records\<close>

text \<open>A loop that stops at an error with the state it has reached keeps an invariant either way.\<close>

lemma fold_result_both:
  assumes "I s" and "\<And>x s. x \<in> set xs \<Longrightarrow> I s \<Longrightarrow> case f x s of Inl (e, s') \<Rightarrow> I s' | Inr s' \<Rightarrow> I s'"
  shows "case fold_result f xs s of Inl (e, s') \<Rightarrow> I s' | Inr s' \<Rightarrow> I s'"
  using assms
proof (induction xs arbitrary: s)
  case (Cons x xs)
  from Cons.prems(2) [of x s] Cons.prems(1) have step: "case f x s of Inl (e, s') \<Rightarrow> I s' | Inr s' \<Rightarrow> I s'" by simp
  show ?case
  proof (cases "f x s")
    case (Inr s')
    with step have "I s'" by simp
    from Cons.IH [OF this] Cons.prems(2) Inr show ?thesis by simp
  qed (use step in \<open>auto split: prod.splits\<close>)
qed simp

lemma upsert_step_keeps:
  assumes "P (ps_db st)" and "\<And>i uid c r d d'. P d \<Longrightarrow> upsert_discovered_task lc i uid clk c d = Inr (r, d') \<Longrightarrow> P d'"
  shows "case upsert_step lc gen gu clk e st of Inl (err, st') \<Rightarrow> P (ps_db st') | Inr st' \<Rightarrow> P (ps_db st')"
  using assms(1)
  by (auto simp: upsert_step_def Let_def split: option.splits sum.splits prod.splits orch_error.splits dest: assms(2))

text \<open>What each repository call of the intake keeps, persisting keeps.\<close>

lemma persist_linear_intake_keeps:
  assumes "P d"
    and ups: "\<And>i uid c r d d'. P d \<Longrightarrow> upsert_discovered_task lc i uid clk c d = Inr (r, d') \<Longrightarrow> P d'"
    and dep: "\<And>i bs d d'. P d \<Longrightarrow> replace_dependencies clk i bs d = Inr d' \<Longrightarrow> P d'"
    and quar: "\<And>a b c p d. P d \<Longrightarrow> P (quarantine_intake clk a b c p d)"
  shows "P (snd (persist_linear_intake lc gen gu clk r d))"
proof -
  let ?st = "\<lparr>ps_db = d, ps_taskIds = [], ps_quarantined = ir_quarantined r\<rparr>"
  have q: "case dependency_step clk i st of Inl (err, st') \<Rightarrow> P (ps_db st') | Inr st' \<Rightarrow> P (ps_db st')"
    if "P (ps_db st)" for i st
    using that by (auto simp: dependency_step_def split: option.splits sum.splits dest: dep)
  have quars: "P (quarantine_all clk qs d)" if "P d" for qs d
    using that unfolding quarantine_all_def by (induction qs arbitrary: d) (simp_all add: quar)
  have one: "case fold_result (upsert_step lc gen gu clk) (enumerate 0 (ir_eligible r)) ?st of
      Inl (e, s') \<Rightarrow> P (ps_db s') | Inr s' \<Rightarrow> P (ps_db s')"
    by (rule fold_result_both [where I = "\<lambda>s. P (ps_db s)"]) (use assms(1) upsert_step_keeps [where P = P, OF _ ups] in auto)
  have two: "case fold_result (dependency_step clk) (ir_eligible r) st of
      Inl (e, s') \<Rightarrow> P (ps_db s') | Inr s' \<Rightarrow> P (ps_db s')" if "P (ps_db st)" for st
    by (rule fold_result_both [where I = "\<lambda>s. P (ps_db s)"]) (use that q in auto)
  show ?thesis
  proof (cases "fold_result (upsert_step lc gen gu clk) (enumerate 0 (ir_eligible r)) ?st")
    case (Inl a)
    with one show ?thesis by (cases a) (simp add: persist_linear_intake_def)
  next
    case (Inr st)
    with one have "P (ps_db st)" by simp
    from two [OF this] Inr show ?thesis
      by (cases "fold_result (dependency_step clk) (ir_eligible r) st")
        (auto simp: persist_linear_intake_def quars split: prod.splits)
  qed
qed

lemma persist_linear_intake_ok:
  "store_ok d \<Longrightarrow> store_ok (snd (persist_linear_intake lc gen gu clk r d))"
  by (rule persist_linear_intake_keeps [where P = store_ok])
    (auto intro: upsert_discovered_task_ok replace_dependencies_ok quarantine_intake_ok)

text \<open>The blockers recorded for a task.\<close>

definition blockers_of :: "task_id \<Rightarrow> database \<Rightarrow> task_id set" where
  "blockers_of i d = dep_blockerTaskId ` {r \<in> set (db_dependencies d). dep_taskId r = i}"

lemma blockers_of_replace:
  assumes "replace_dependencies clk i bs d = Inr d'"
  shows "blockers_of j d' = (if j = i then set bs else blockers_of j d)"
proof -
  from assms have rows: "db_dependencies d' = filter (\<lambda>r. dep_taskId r \<noteq> i) (db_dependencies d) @ map (new_dependency i clk) bs"
    by (auto simp: replace_dependencies_def split: if_splits)
  have new: "{r \<in> set (map (new_dependency i clk) bs). dep_taskId r = j} = (if j = i then new_dependency i clk ` set bs else {})"
    by (auto simp: new_dependency_def)
  have old: "{r \<in> set (filter (\<lambda>r. dep_taskId r \<noteq> i) (db_dependencies d)). dep_taskId r = j} =
      (if j = i then {} else {r \<in> set (db_dependencies d). dep_taskId r = j})"
    by auto
  have "{r \<in> set (db_dependencies d'). dep_taskId r = j} =
      {r \<in> set (filter (\<lambda>r. dep_taskId r \<noteq> i) (db_dependencies d)). dep_taskId r = j}
      \<union> {r \<in> set (map (new_dependency i clk) bs). dep_taskId r = j}"
    unfolding rows by auto
  then show ?thesis
    unfolding blockers_of_def old new by (simp add: image_image new_dependency_def)
qed

lemma blockers_of_quarantine: "blockers_of j (quarantine_all clk qs d) = blockers_of j d"
proof -
  have "db_dependencies (quarantine_all clk qs d) = db_dependencies d"
    unfolding quarantine_all_def by (induction qs arbitrary: d) (simp_all add: quarantine_intake_def)
  then show ?thesis by (simp add: blockers_of_def)
qed

lemma set_map_filter: "set (List.map_filter f xs) = {y. \<exists>x \<in> set xs. f x = Some y}"
  by (induction xs) (auto simp: map_filter_simps split: option.splits)

definition wanted :: "(string \<times> task_id) list \<Rightarrow> planning_issue \<Rightarrow> task_id set" where
  "wanted m i = {b. \<exists>k \<in> set (pi_blockedByDraftKeys i). map_of m k = Some b}"

lemma wanted_known:
  assumes "\<And>k. k \<in> set (pi_blockedByDraftKeys i) \<Longrightarrow> map_of m k = Some (f k)"
  shows "wanted m i = f ` set (pi_blockedByDraftKeys i)"
proof -
  have "{b. \<exists>k \<in> K. map_of m k = Some b} = f ` K" if "\<And>k. k \<in> K \<Longrightarrow> map_of m k = Some (f k)" for K
    using that by force
  with assms show ?thesis unfolding wanted_def by blast
qed

lemma dependency_step_Inr:
  assumes "dependency_step clk x st = Inr st1"
  shows "ps_taskIds st1 = ps_taskIds st" and "ps_quarantined st1 = ps_quarantined st"
    and "blockers_of t (ps_db st1) = (if map_of (ps_taskIds st) (pi_draftKey x) = Some t
        then wanted (ps_taskIds st) x else blockers_of t (ps_db st))"
    and "db_tasks (ps_db st1) = db_tasks (ps_db st)"
proof -
  have "st1 = st \<and> map_of (ps_taskIds st) (pi_draftKey x) = None
    \<or> (\<exists>t d'. map_of (ps_taskIds st) (pi_draftKey x) = Some t \<and> st1 = st\<lparr>ps_db := d'\<rparr>
        \<and> replace_dependencies clk t (List.map_filter (map_of (ps_taskIds st)) (pi_blockedByDraftKeys x)) (ps_db st) = Inr d')"
    using assms by (auto simp: dependency_step_def split: option.splits sum.splits)
  moreover have "db_tasks d' = db_tasks d" if "replace_dependencies clk i bs d = Inr d'" for i bs d d'
    using that by (auto simp: replace_dependencies_def split: if_splits)
  ultimately show "ps_taskIds st1 = ps_taskIds st" and "ps_quarantined st1 = ps_quarantined st"
    and "blockers_of t (ps_db st1) = (if map_of (ps_taskIds st) (pi_draftKey x) = Some t
        then wanted (ps_taskIds st) x else blockers_of t (ps_db st))"
    and "db_tasks (ps_db st1) = db_tasks (ps_db st)"
    by (auto simp: blockers_of_replace set_map_filter wanted_def)
qed

text \<open>After the second loop the recorded blockers of every known issue are exactly its known blockers.\<close>

lemma dependency_steps_exact:
  assumes "fold_result (dependency_step clk) xs st = Inr st'" and "distinct (map pi_draftKey xs)"
    and "inj_on (map_of (ps_taskIds st)) (dom (map_of (ps_taskIds st)))"
  shows "ps_taskIds st' = ps_taskIds st \<and> ps_quarantined st' = ps_quarantined st
    \<and> db_tasks (ps_db st') = db_tasks (ps_db st)
    \<and> (\<forall>t. (\<forall>i \<in> set xs. map_of (ps_taskIds st) (pi_draftKey i) = Some t \<longrightarrow> blockers_of t (ps_db st') = wanted (ps_taskIds st) i)
         \<and> ((\<forall>i \<in> set xs. map_of (ps_taskIds st) (pi_draftKey i) \<noteq> Some t) \<longrightarrow> blockers_of t (ps_db st') = blockers_of t (ps_db st)))"
  using assms
proof (induction xs arbitrary: st)
  case (Cons x xs)
  from Cons.prems(1) obtain st1 where one: "dependency_step clk x st = Inr st1"
    and rest: "fold_result (dependency_step clk) xs st1 = Inr st'" by (auto simp: result_simps)
  note eff = dependency_step_Inr [OF one]
  have IH: "ps_taskIds st' = ps_taskIds st" "ps_quarantined st' = ps_quarantined st" "db_tasks (ps_db st') = db_tasks (ps_db st)"
    "\<And>t i. i \<in> set xs \<Longrightarrow> map_of (ps_taskIds st) (pi_draftKey i) = Some t \<Longrightarrow> blockers_of t (ps_db st') = wanted (ps_taskIds st) i"
    "\<And>t. \<forall>i \<in> set xs. map_of (ps_taskIds st) (pi_draftKey i) \<noteq> Some t \<Longrightarrow> blockers_of t (ps_db st') = blockers_of t (ps_db st1)"
    using Cons.IH [OF rest] Cons.prems(2,3) eff by simp_all
  have apart: "map_of (ps_taskIds st) (pi_draftKey i) \<noteq> Some t"
    if "map_of (ps_taskIds st) (pi_draftKey x) = Some t" "i \<in> set xs" for i t
  proof
    assume "map_of (ps_taskIds st) (pi_draftKey i) = Some t"
    then have "pi_draftKey x = pi_draftKey i"
      by (intro inj_onD [OF Cons.prems(3)]) (simp_all add: that(1) domI)
    with Cons.prems(2) that(2) show False by auto
  qed
  show ?case
  proof (intro conjI allI ballI impI)
    fix t i assume "i \<in> set (x # xs)" and t: "map_of (ps_taskIds st) (pi_draftKey i) = Some t"
    then consider "i = x" | "i \<in> set xs" by auto
    then show "blockers_of t (ps_db st') = wanted (ps_taskIds st) i"
    proof cases
      case 1
      with t apart have "\<forall>j \<in> set xs. map_of (ps_taskIds st) (pi_draftKey j) \<noteq> Some t" by blast
      with IH(5) eff(3) [of t] 1 t show ?thesis by simp
    qed (use IH(4) t in blast)
  next
    fix t assume "\<forall>i \<in> set (x # xs). map_of (ps_taskIds st) (pi_draftKey i) \<noteq> Some t"
    with IH(5) eff(3) [of t] show "blockers_of t (ps_db st') = blockers_of t (ps_db st)" by simp
  qed (use IH in simp_all)
qed auto

text \<open>
  The first loop records every issue whose contract did not change, under a task that carries
  its Linear identity.
\<close>

definition recorded_ok :: "persist_state \<Rightarrow> (string \<Rightarrow> string option) \<Rightarrow> bool" where
  "recorded_ok st linear \<longleftrightarrow> (\<forall>k t. map_of (ps_taskIds st) k = Some t \<longrightarrow>
     (\<exists>r \<in> set (db_tasks (ps_db st)). t_id r = t \<and> Some (t_linearIssueId r) = linear k))"

definition linear_id :: "planning_issue \<Rightarrow> string option" where
  "linear_id i = map_option is_linearIssueId (pi_source i)"

lemma upsert_discovered_task_Inr:
  assumes "upsert_discovered_task lc i uid now c d = Inr ((t, b), d')"
  shows "t \<in> set (db_tasks d')" and "t_linearIssueId t = ct_linearIssueId c" and "set (db_tasks d) \<subseteq> set (db_tasks d')"
  using assms
  by (auto simp: upsert_discovered_task_def result_simps create_task_def Let_def new_task_def
      split: option.splits if_splits dest: first_of_SomeD)

lemma upsert_step_Inr:
  assumes "upsert_step lc gen gu clk (n, i) st = Inr st'" and "recorded_ok st linear"
    and "linear (pi_draftKey i) = linear_id i"
  shows "recorded_ok st' linear"
    and "map_of (ps_taskIds st) k \<noteq> None \<Longrightarrow> map_of (ps_taskIds st') k \<noteq> None"
    and "\<exists>qs. ps_quarantined st' = ps_quarantined st @ qs
      \<and> (qs = [] \<longrightarrow> pi_source i \<noteq> None \<longrightarrow> map_of (ps_taskIds st') (pi_draftKey i) \<noteq> None)"
proof -
  consider "pi_source i = None" "st' = st"
    | s t b d' where "pi_source i = Some s" "upsert_discovered_task lc (gen n) (gu n) clk (task_input i s) (ps_db st) = Inr ((t, b), d')"
        "st' = st\<lparr>ps_db := d', ps_taskIds := map_set (pi_draftKey i) (t_id t) (ps_taskIds st)\<rparr>"
    | q where "st' = st\<lparr>ps_quarantined := ps_quarantined st @ [q]\<rparr>"
    using assms(1) by (auto simp: upsert_step_def Let_def split: option.splits sum.splits prod.splits orch_error.splits)
  then have "recorded_ok st' linear \<and> (map_of (ps_taskIds st) k \<noteq> None \<longrightarrow> map_of (ps_taskIds st') k \<noteq> None)
      \<and> (\<exists>qs. ps_quarantined st' = ps_quarantined st @ qs
        \<and> (qs = [] \<longrightarrow> pi_source i \<noteq> None \<longrightarrow> map_of (ps_taskIds st') (pi_draftKey i) \<noteq> None))"
  proof cases
    case (2 s t b d')
    note up = upsert_discovered_task_Inr [OF 2(2)]
    have lin: "linear (pi_draftKey i) = Some (t_linearIssueId t)"
      using assms(3) 2(1) up(2) by (simp add: linear_id_def task_input_def)
    have "recorded_ok st' linear"
      unfolding recorded_ok_def
    proof (intro allI impI)
      fix k t' assume "map_of (ps_taskIds st') k = Some t'"
      then have "k = pi_draftKey i \<and> t' = t_id t \<or> map_of (ps_taskIds st) k = Some t'"
        by (cases "k = pi_draftKey i") (simp_all add: 2(3))
      then consider (new) "k = pi_draftKey i" "t' = t_id t" | (old) "map_of (ps_taskIds st) k = Some t'" by blast
      then show "\<exists>r \<in> set (db_tasks (ps_db st')). t_id r = t' \<and> Some (t_linearIssueId r) = linear k"
      proof cases
        case new
        with up(1) lin show ?thesis by (auto simp: 2(3))
      next
        case old
        with assms(2) up(3) show ?thesis unfolding recorded_ok_def 2(3) by fastforce
      qed
    qed
    then show ?thesis by (simp add: 2(3))
  qed (use assms(2) in \<open>auto simp: recorded_ok_def\<close>)
  then show "recorded_ok st' linear"
    and "map_of (ps_taskIds st) k \<noteq> None \<Longrightarrow> map_of (ps_taskIds st') k \<noteq> None"
    and "\<exists>qs. ps_quarantined st' = ps_quarantined st @ qs
      \<and> (qs = [] \<longrightarrow> pi_source i \<noteq> None \<longrightarrow> map_of (ps_taskIds st') (pi_draftKey i) \<noteq> None)"
    by simp_all
qed

lemma upsert_steps_Inr:
  assumes "fold_result (upsert_step lc gen gu clk) es st = Inr st'" and "recorded_ok st linear"
    and "\<forall>e \<in> set es. linear (pi_draftKey (snd e)) = linear_id (snd e)"
  shows "recorded_ok st' linear
    \<and> (\<forall>k. map_of (ps_taskIds st) k \<noteq> None \<longrightarrow> map_of (ps_taskIds st') k \<noteq> None)
    \<and> (\<exists>qs. ps_quarantined st' = ps_quarantined st @ qs
      \<and> (qs = [] \<longrightarrow> (\<forall>e \<in> set es. pi_source (snd e) \<noteq> None \<longrightarrow> map_of (ps_taskIds st') (pi_draftKey (snd e)) \<noteq> None)))"
  using assms
proof (induction es arbitrary: st)
  case (Cons e es)
  obtain n i where e: "e = (n, i)" by (cases e)
  from Cons.prems(1) obtain st1 where one: "upsert_step lc gen gu clk (n, i) st = Inr st1"
    and rest: "fold_result (upsert_step lc gen gu clk) es st1 = Inr st'" by (auto simp: e result_simps)
  from Cons.prems(3) have lin: "linear (pi_draftKey i) = linear_id i" by (simp add: e)
  note step = upsert_step_Inr [OF one Cons.prems(2) lin]
  from Cons.IH [OF rest step(1)] Cons.prems(3) have IH: "recorded_ok st' linear"
    "\<And>k. map_of (ps_taskIds st1) k \<noteq> None \<Longrightarrow> map_of (ps_taskIds st') k \<noteq> None"
    "\<exists>qs. ps_quarantined st' = ps_quarantined st1 @ qs
      \<and> (qs = [] \<longrightarrow> (\<forall>e \<in> set es. pi_source (snd e) \<noteq> None \<longrightarrow> map_of (ps_taskIds st') (pi_draftKey (snd e)) \<noteq> None))"
    by (simp_all)
  from step(3) obtain q1 where q1: "ps_quarantined st1 = ps_quarantined st @ q1"
    "q1 = [] \<Longrightarrow> pi_source i \<noteq> None \<Longrightarrow> map_of (ps_taskIds st1) (pi_draftKey i) \<noteq> None" by blast
  from IH(3) obtain q2 where q2: "ps_quarantined st' = ps_quarantined st1 @ q2"
    "q2 = [] \<Longrightarrow> \<forall>e \<in> set es. pi_source (snd e) \<noteq> None \<longrightarrow> map_of (ps_taskIds st') (pi_draftKey (snd e)) \<noteq> None" by blast
  have "ps_quarantined st' = ps_quarantined st @ (q1 @ q2)" by (simp add: q1(1) q2(1))
  moreover have "q1 @ q2 = [] \<longrightarrow> (\<forall>e' \<in> set (e # es). pi_source (snd e') \<noteq> None \<longrightarrow> map_of (ps_taskIds st') (pi_draftKey (snd e')) \<noteq> None)"
    using q1(2) q2(2) IH(2) by (simp add: e)
  moreover have "\<forall>k. map_of (ps_taskIds st) k \<noteq> None \<longrightarrow> map_of (ps_taskIds st') k \<noteq> None"
    using step(2) IH(2) by blast
  ultimately show ?case using IH(1) by blast
qed simp

lemma recorded_ok_inj:
  assumes "recorded_ok st linear" and "inj_on linear (dom (map_of (ps_taskIds st)))" and "unique_task_ids (ps_db st)"
  shows "inj_on (map_of (ps_taskIds st)) (dom (map_of (ps_taskIds st)))"
proof (rule inj_onI)
  fix k k' assume k: "k \<in> dom (map_of (ps_taskIds st))" and k': "k' \<in> dom (map_of (ps_taskIds st))"
    and eq: "map_of (ps_taskIds st) k = map_of (ps_taskIds st) k'"
  from k obtain t where t: "map_of (ps_taskIds st) k = Some t" by auto
  with assms(1) eq obtain r r' where r: "r \<in> set (db_tasks (ps_db st))" "t_id r = t" "Some (t_linearIssueId r) = linear k"
    and r': "r' \<in> set (db_tasks (ps_db st))" "t_id r' = t" "Some (t_linearIssueId r') = linear k'"
    unfolding recorded_ok_def by (metis (no_types))
  with same_task [OF assms(3) r(1) r'(1)] have "linear k = linear k'" by simp
  with assms(2) k k' show "k = k'" by (meson inj_onD)
qed

text \<open>
  Contracts that did not change: a task that already carries the Linear identity of an issue
  holds the contract of that issue.
\<close>

definition contract_kept :: "(string \<Rightarrow> string \<Rightarrow> bool) \<Rightarrow> database \<Rightarrow> planning_issue \<Rightarrow> bool" where
  "contract_kept lc d i \<longleftrightarrow> (\<forall>t \<in> set (db_tasks d). Some (t_linearIssueId t) = linear_id i \<longrightarrow>
     stable_json lc (t_contractSnapshot t) = stable_json lc (enc_issue i))"

lemma upsert_kept:
  assumes "contract_kept lc d i" and "pi_source i = Some s"
  shows "upsert_discovered_task lc a u clk (task_input i s) d \<noteq> Inl (ContractChangedError x)"
proof (cases "first_of (filter (\<lambda>t. t_linearIssueId t = is_linearIssueId s) (db_tasks d))")
  case None
  then show ?thesis
    by (auto simp: upsert_discovered_task_def task_input_def create_task_def Let_def unique_violation_def foreign_key_violation_def
        and_then_def split: sum.splits if_splits)
next
  case (Some t)
  then have "t \<in> set (db_tasks d)" "t_linearIssueId t = is_linearIssueId s" by (auto dest: first_of_SomeD)
  with assms have "stable_json lc (t_contractSnapshot t) = stable_json lc (enc_issue i)"
    by (simp add: contract_kept_def linear_id_def)
  with Some show ?thesis by (simp add: upsert_discovered_task_def task_input_def)
qed

lemma upsert_keeps_others:
  assumes "upsert_discovered_task lc a u clk c d = Inr (r, d')" and "contract_kept lc d i"
    and "linear_id i \<noteq> Some (ct_linearIssueId c)"
  shows "contract_kept lc d' i"
  using assms
  by (auto simp: upsert_discovered_task_def result_simps create_task_def Let_def new_task_def contract_kept_def
      split: option.splits if_splits)

lemma upsert_step_kept:
  assumes "upsert_step lc gen gu clk e st = Inr st'" and "contract_kept lc (ps_db st) (snd e)"
  shows "ps_quarantined st' = ps_quarantined st"
    and "contract_kept lc (ps_db st) j \<Longrightarrow> linear_id j \<noteq> linear_id (snd e) \<Longrightarrow> contract_kept lc (ps_db st') j"
proof -
  obtain n i where e: "e = (n, i)" by (cases e)
  have "pi_source i = None \<and> st' = st \<or> (\<exists>s t b d'. pi_source i = Some s
      \<and> upsert_discovered_task lc (gen n) (gu n) clk (task_input i s) (ps_db st) = Inr ((t, b), d')
      \<and> st' = st\<lparr>ps_db := d', ps_taskIds := map_set (pi_draftKey i) (t_id t) (ps_taskIds st)\<rparr>)"
    using assms upsert_kept unfolding e
    by (fastforce simp: upsert_step_def Let_def split: option.splits sum.splits prod.splits orch_error.splits)
  then show "ps_quarantined st' = ps_quarantined st"
    and "contract_kept lc (ps_db st) j \<Longrightarrow> linear_id j \<noteq> linear_id (snd e) \<Longrightarrow> contract_kept lc (ps_db st') j"
    using upsert_keeps_others [of lc _ _ clk "task_input i _" "ps_db st"]
    by (auto simp: e linear_id_def task_input_def)
qed

lemma upsert_steps_kept:
  assumes "fold_result (upsert_step lc gen gu clk) es st = Inr st'"
    and "\<forall>e \<in> set es. contract_kept lc (ps_db st) (snd e)" and "distinct (map (\<lambda>e. linear_id (snd e)) es)"
  shows "ps_quarantined st' = ps_quarantined st"
  using assms
proof (induction es arbitrary: st)
  case (Cons e es)
  from Cons.prems(1) obtain st1 where one: "upsert_step lc gen gu clk e st = Inr st1"
    and rest: "fold_result (upsert_step lc gen gu clk) es st1 = Inr st'" by (auto simp: result_simps)
  from Cons.prems(2) have "contract_kept lc (ps_db st) (snd e)" by simp
  note kept = upsert_step_kept [OF one this]
  have "\<forall>e' \<in> set es. contract_kept lc (ps_db st1) (snd e')"
  proof
    fix e' assume e': "e' \<in> set es"
    then have "linear_id (snd e') \<in> (\<lambda>e. linear_id (snd e)) ` set es" by (rule imageI)
    moreover have "linear_id (snd e) \<notin> (\<lambda>e. linear_id (snd e)) ` set es" using Cons.prems(3) by simp
    ultimately have "linear_id (snd e') \<noteq> linear_id (snd e)" by metis
    with e' Cons.prems(2) show "contract_kept lc (ps_db st1) (snd e')" by (intro kept(2)) simp_all
  qed
  from Cons.IH [OF rest this] Cons.prems(3) kept(1) show ?case by simp
qed simp

text \<open>
  When no contract changed, every issue of the report ends up with a task that carries its
  Linear identity, and the recorded blockers of that task are the tasks of the issues that block it.
\<close>

lemma persist_exact_dependencies:
  assumes run: "persist_linear_intake lc gen gu clk r d = (Inr (), d')" and ok: "store_ok d"
    and keys: "distinct (map pi_draftKey (ir_eligible r))"
    and src: "\<forall>i \<in> set (ir_eligible r). pi_source i \<noteq> None" and ids: "distinct (map linear_id (ir_eligible r))"
    and kept: "\<forall>i \<in> set (ir_eligible r). contract_kept lc d i"
    and known: "\<forall>i \<in> set (ir_eligible r). set (pi_blockedByDraftKeys i) \<subseteq> pi_draftKey ` set (ir_eligible r)"
  obtains tid where "\<forall>i \<in> set (ir_eligible r). \<exists>t \<in> set (db_tasks d'). t_id t = tid (pi_draftKey i) \<and> Some (t_linearIssueId t) = linear_id i"
    and "\<forall>i \<in> set (ir_eligible r). blockers_of (tid (pi_draftKey i)) d' = tid ` set (pi_blockedByDraftKeys i)"
proof -
  let ?xs = "ir_eligible r" and ?st = "\<lparr>ps_db = d, ps_taskIds = [], ps_quarantined = ir_quarantined r\<rparr>"
  from run obtain st1 st2 where one: "fold_result (upsert_step lc gen gu clk) (enumerate 0 ?xs) ?st = Inr st1"
    and two: "fold_result (dependency_step clk) ?xs st1 = Inr st2"
    and d': "d' = quarantine_all clk (ps_quarantined st2) (ps_db st2)"
    by (auto simp: persist_linear_intake_def and_then_def split: sum.splits prod.splits)
  define linear where "linear k = Option.bind (map_of (map (\<lambda>i. (pi_draftKey i, linear_id i)) ?xs) k) id" for k
  have lin: "linear (pi_draftKey i) = linear_id i" if "i \<in> set ?xs" for i
  proof -
    have "map_of (map (\<lambda>i. (pi_draftKey i, linear_id i)) ?xs) (pi_draftKey i) = Some (linear_id i)"
      by (rule map_of_is_SomeI) (use keys that in \<open>auto simp: comp_def\<close>)
    then show ?thesis by (simp add: linear_def)
  qed
  have lin_known: "\<exists>i \<in> set ?xs. k = pi_draftKey i" if "linear k \<noteq> None" for k
    using that by (auto simp: linear_def dest!: map_of_SomeD split: option.splits Option.bind_splits)
  have snds: "snd ` set (enumerate 0 ?xs) = set ?xs" by (metis list.set_map map_snd_enumerate)
  have lin_es: "\<forall>e \<in> set (enumerate 0 ?xs). linear (pi_draftKey (snd e)) = linear_id (snd e)"
    using lin snds by blast
  have "recorded_ok ?st linear" by (simp add: recorded_ok_def)
  note up = upsert_steps_Inr [OF one this lin_es]
  have "map (\<lambda>e. linear_id (snd e)) (enumerate 0 ?xs) = map linear_id ?xs"
    by (metis (mono_tags, lifting) list.map_comp comp_apply map_eq_conv map_snd_enumerate)
  then have "ps_quarantined st1 = ps_quarantined ?st"
    using kept ids snds by (intro upsert_steps_kept [OF one]) (auto simp: image_iff)
  with up src snds have all: "\<forall>i \<in> set ?xs. map_of (ps_taskIds st1) (pi_draftKey i) \<noteq> None"
    by (metis (no_types, lifting) imageI image_iff append_self_conv)
  have "case fold_result (upsert_step lc gen gu clk) (enumerate 0 ?xs) ?st of
      Inl (e, s') \<Rightarrow> store_ok (ps_db s') | Inr s' \<Rightarrow> store_ok (ps_db s')"
    by (rule fold_result_both [where I = "\<lambda>s. store_ok (ps_db s)"])
      (use ok in simp, rule upsert_step_keeps, assumption, rule upsert_discovered_task_ok)
  then have ok1: "store_ok (ps_db st1)" by (simp add: one)
  have "inj_on linear (dom (map_of (ps_taskIds st1)))"
  proof (rule inj_onI)
    fix k k' assume "k \<in> dom (map_of (ps_taskIds st1))" "k' \<in> dom (map_of (ps_taskIds st1))" and eq: "linear k = linear k'"
    with up have "linear k \<noteq> None" "linear k' \<noteq> None" unfolding recorded_ok_def by (metis domIff not_None_eq)+
    with lin_known obtain i i' where i: "i \<in> set ?xs" "k = pi_draftKey i" "i' \<in> set ?xs" "k' = pi_draftKey i'" by blast
    with eq lin have "linear_id i = linear_id i'" by simp
    with i ids have "i = i'" by (metis distinct_map inj_onD)
    with i show "k = k'" by simp
  qed
  note inj = recorded_ok_inj [OF conjunct1 [OF up] this store_okD(1) [OF ok1]]
  note dep = dependency_steps_exact [OF two keys inj]
  define tid where "tid k = the (map_of (ps_taskIds st1) k)" for k
  have tid: "map_of (ps_taskIds st1) (pi_draftKey i) = Some (tid (pi_draftKey i))" if "i \<in> set ?xs" for i
    using all that by (auto simp: tid_def)
  have rows: "db_tasks d' = db_tasks (ps_db st1)"
  proof -
    have "db_tasks (quarantine_all clk qs d) = db_tasks d" for qs d
      unfolding quarantine_all_def by (induction qs arbitrary: d) (simp_all add: quarantine_intake_def)
    with dep d' show ?thesis by simp
  qed
  show thesis
  proof (rule that [of tid])
    show "\<forall>i \<in> set ?xs. \<exists>t \<in> set (db_tasks d'). t_id t = tid (pi_draftKey i) \<and> Some (t_linearIssueId t) = linear_id i"
    proof
      fix i assume i: "i \<in> set ?xs"
      from conjunct1 [OF up, unfolded recorded_ok_def, rule_format, OF tid [OF i]]
      show "\<exists>t \<in> set (db_tasks d'). t_id t = tid (pi_draftKey i) \<and> Some (t_linearIssueId t) = linear_id i"
        by (simp add: rows lin [OF i])
    qed
    show "\<forall>i \<in> set ?xs. blockers_of (tid (pi_draftKey i)) d' = tid ` set (pi_blockedByDraftKeys i)"
    proof
      fix i assume i: "i \<in> set ?xs"
      from dep tid [OF i] i have "blockers_of (tid (pi_draftKey i)) (ps_db st2) = wanted (ps_taskIds st1) i" by blast
      moreover have "wanted (ps_taskIds st1) i = tid ` set (pi_blockedByDraftKeys i)"
      proof -
        have "map_of (ps_taskIds st1) k = Some (tid k)" if "k \<in> set (pi_blockedByDraftKeys i)" for k
        proof -
          from known i that obtain j where "j \<in> set ?xs" "k = pi_draftKey j" by (meson imageE subsetD)
          with tid show ?thesis by simp
        qed
        then show ?thesis by (rule wanted_known)
      qed
      ultimately show "blockers_of (tid (pi_draftKey i)) d' = tid ` set (pi_blockedByDraftKeys i)"
        by (simp add: d' blockers_of_quarantine)
    qed
  qed
qed

end
