(* ===== verification/Scheduler.thy ===== *)
theory Scheduler
  imports Worker Intake Ledger
begin

text \<open>
  The tick of a scheduler process (\<open>src/orchestrator/scheduler.ts\<close>): controls, recovery,
  maintenance, Linear intake, and the claims of both lanes under holds, schedule gates and limits.
  The runs of the claimed tasks are concurrent; here they are part of what happens between two
  accesses (\<open>tenv n\<close> before the \<open>n\<close>-th), which may change the database, end in-flight tasks or move
  them to another stage, ask for shutdown, and let time pass. The code between two accesses runs
  without interruption.
\<close>

section \<open>State of a process\<close>

record between =
  bt_db :: "database \<Rightarrow> database"
  bt_now :: time
  bt_date :: time
  bt_stopping :: bool
  bt_inFlight :: "(task_id \<times> task_state) list \<Rightarrow> (task_id \<times> task_state) list"
  bt_locked :: "task_id list"

record last_tick =
  lt_startedAt :: "time option"
  lt_completedAt :: "time option"
  lt_error :: "string option"

record intake_counts =
  ik_eligible :: nat
  ik_quarantined :: nat
  ik_ignored :: nat

record intake_status =
  ik_at :: time
  ik_outcome :: "string + intake_counts"

record process_state =
  pc_at :: nat
  pc_db :: database
  pc_now :: time
  pc_date :: time
  pc_locked :: "task_id list"
  pc_stopping :: bool
  pc_controls :: "controls option"
  pc_inFlight :: "(task_id \<times> task_state) list"
  pc_holds :: "(claim_lane \<times> lane_hold) list"
  pc_lastTick :: last_tick
  pc_lastIntake :: "intake_status option"

text \<open>
  \<open>so_listIssues\<close> is the Linear provider (its answer to the request made at an access),
  \<open>so_maintenance\<close> the registered housekeeping, \<open>so_library\<close>, \<open>so_localeCompare\<close> and the generated
  ids what the intake takes from its libraries.
\<close>

record 'x scheduler_options =
  so_worker :: "'x worker_options"
  so_dryRun :: bool
  so_listIssues :: "nat \<Rightarrow> (orch_error, linear_issue list) result"
  so_maintenance :: "(string \<times> (time \<Rightarrow> database \<Rightarrow> (orch_error, unit) result \<times> database)) list"
  so_library :: schema_library
  so_localeCompare :: "string \<Rightarrow> string \<Rightarrow> bool"
  so_taskId :: "nat \<Rightarrow> nat \<Rightarrow> task_id"
  so_unitId :: "nat \<Rightarrow> nat \<Rightarrow> nat \<Rightarrow> string"

definition so_settings :: "'x scheduler_options \<Rightarrow> orchestrator_settings" where
  "so_settings so = c_orchestrator (wo_config (so_worker so))"

definition let_pass :: "(nat \<Rightarrow> between) \<Rightarrow> process_state \<Rightarrow> process_state" where
  "let_pass tenv s =
     (let b = tenv (pc_at s) in
      s\<lparr>pc_at := Suc (pc_at s), pc_db := bt_db b (pc_db s), pc_now := bt_now b, pc_date := bt_date b,
        pc_locked := bt_locked b, pc_stopping := (pc_stopping s \<or> bt_stopping b),
        pc_inFlight := bt_inFlight b (pc_inFlight s)\<rparr>)"

section \<open>Holds and status\<close>

definition engaged :: "'x scheduler_options \<Rightarrow> process_state \<Rightarrow> bool" where
  "engaged so s = (wo_forceKillSwitch (so_worker so)
     \<or> (case pc_controls s of None \<Rightarrow> False | Some c \<Rightarrow> co_killSwitch c))"

definition hold_claims :: "claim_lane \<Rightarrow> time \<Rightarrow> string \<Rightarrow> process_state \<Rightarrow> process_state" where
  "hold_claims lane until reason s =
     (if (case map_of (pc_holds s) lane of None \<Rightarrow> False | Some h \<Rightarrow> until \<le> lh_until h) then s
      else s\<lparr>pc_holds := map_set lane \<lparr>lh_until = until, lh_reason = reason\<rparr> (pc_holds s)\<rparr>)"

definition active_hold :: "claim_lane \<Rightarrow> process_state \<Rightarrow> lane_hold option" where
  "active_hold lane s =
     (case map_of (pc_holds s) lane of
        None \<Rightarrow> None
      | Some h \<Rightarrow> if pc_now s < lh_until h then Some h else None)"

text \<open>\<open>isLive\<close>: no tick has been running for longer than allowed.\<close>

definition is_live :: "timing \<Rightarrow> process_state \<Rightarrow> bool" where
  "is_live tm s =
     (case lt_startedAt (pc_lastTick s) of
        None \<Rightarrow> True
      | Some started \<Rightarrow>
          \<not> ((case lt_completedAt (pc_lastTick s) of None \<Rightarrow> True | Some c \<Rightarrow> c < started)
             \<and> tm_stuckTickMs tm < pc_now s - started))"

section \<open>Eligibility of a claim\<close>

fun filter_result :: "('a \<Rightarrow> ('e, bool) result) \<Rightarrow> 'a list \<Rightarrow> ('e, 'a list) result" where
  "filter_result p [] = Inr []"
| "filter_result p (x # xs) =
     and_then (p x) (\<lambda>b. and_then (filter_result p xs) (\<lambda>ys. Inr (if b then x # ys else ys)))"

definition stage_permitted :: "schedule_config \<Rightarrow> schedule_override \<Rightarrow> wall_clock \<Rightarrow> task_state \<Rightarrow> (orch_error, bool) result" where
  "stage_permitted sc ov c st =
     and_then (stage_gate sc st ov c) (\<lambda>g. Inr (case g of None \<Rightarrow> False | Some d \<Rightarrow> gd_permitted d))"

definition claimable_work_of ::
  "'x scheduler_options \<Rightarrow> schedule_override \<Rightarrow> time \<Rightarrow> (orch_error, claimable_work) result" where
  "claimable_work_of so ov now =
     (let w = so_worker so; sc = c_schedule (wo_config w); c = wo_zone w now in
      and_then (filter_result (stage_permitted sc ov c) (map fst (wo_handlers w))) (\<lambda>permitted.
      and_then (if ANALYZING \<in> set permitted
                then and_then (operation_gate sc TASK_DISCOVERY ov c) (\<lambda>g. Inr (gd_permitted g))
                else Inr False) (\<lambda>queued.
        Inr \<lparr>cw_queued = queued, cw_parkedStates = permitted,
             cw_scheduleResumeStates = filter (\<lambda>s. s \<in> set (transition_map PAUSED_SCHEDULE)) permitted,
             cw_limitResumeStates = filter (\<lambda>s. s \<in> set (transition_map PAUSED_LIMIT)) permitted\<rparr>)))"

definition repository_limits :: "config \<Rightarrow> (string \<times> int) list" where
  "repository_limits c = List.map_filter (\<lambda>(name, r). map_option (Pair name) (rc_maxConcurrentTasks r)) (c_repositories c)"

definition in_flight_in :: "claim_lane \<Rightarrow> process_state \<Rightarrow> int" where
  "in_flight_in lane s = int (length (filter (\<lambda>(i, st). claim_lane_of st = lane) (pc_inFlight s)))"

section \<open>Claiming\<close>

definition lane_claim :: "'x scheduler_options \<Rightarrow> claim_lane \<Rightarrow> claimable_work \<Rightarrow> int \<Rightarrow> time \<Rightarrow> claim_input" where
  "lane_claim so lane work limit now =
     \<lparr>ci_leaseOwner = wo_workerId (so_worker so),
      ci_leaseDurationMs = tm_leaseDurationMs (wo_timing (so_worker so)),
      ci_now = Some now, ci_work = work, ci_maxConcurrentTasks = Some limit, ci_lane = Some lane,
      ci_repositoryLimits = Some (repository_limits (wo_config (so_worker so))),
      ci_rollout = Some \<lparr>ro_repositories = os_rolloutRepositories (so_settings so),
                         ro_maxNewTasksPerDay = os_rolloutMaxNewTasksPerDay (so_settings so)\<rparr>\<rparr>"

definition has_lane_work :: "claim_lane \<Rightarrow> claimable_work \<Rightarrow> bool" where
  "has_lane_work lane w =
     (if lane = Delivery then list_ex (\<lambda>s. claim_lane_of s = Delivery) (cw_parkedStates w)
      else cw_queued w \<or> list_ex (\<lambda>s. claim_lane_of s = Execution) (cw_parkedStates w)
         \<or> cw_scheduleResumeStates w \<noteq> [] \<or> cw_limitResumeStates w \<noteq> [])"

definition start_task :: "task_row \<Rightarrow> process_state \<Rightarrow> process_state" where
  "start_task t s = s\<lparr>pc_inFlight := map_set (t_id t) (t_state t) (pc_inFlight s)\<rparr>"

text \<open>
  The refill loop of a lane, for at most as many rounds as the first argument: \<open>None\<close> is a loop
  that has not ended by then. The rows claimed are returned in order.
\<close>

primrec claim_loop ::
  "nat \<Rightarrow> 'x scheduler_options \<Rightarrow> (nat \<Rightarrow> between) \<Rightarrow> claim_lane \<Rightarrow> claimable_work \<Rightarrow> int \<Rightarrow> time \<Rightarrow> task_row list
     \<Rightarrow> process_state \<Rightarrow> ((orch_error, task_row list) result \<times> process_state) option" where
  "claim_loop 0 so tenv lane work limit deadline claimed s = None"
| "claim_loop (Suc n) so tenv lane work limit deadline claimed s =
     (if pc_stopping s \<or> \<not> in_flight_in lane s < limit \<or> \<not> pc_date s < deadline then Some (Inr claimed, s)
      else
        let now = pc_now s; s1 = let_pass tenv s in
        case claim_next_task (pc_now s1) (pc_locked s1) (lane_claim so lane work limit now) (pc_db s1) of
          Inl e \<Rightarrow> Some (Inl e, s1)
        | Inr (None, d) \<Rightarrow> Some (Inr claimed, s1\<lparr>pc_db := d\<rparr>)
        | Inr (Some t, d) \<Rightarrow>
            claim_loop n so tenv lane work limit deadline (claimed @ [t]) (start_task t (s1\<lparr>pc_db := d\<rparr>)))"

definition claim_in_lane ::
  "nat \<Rightarrow> 'x scheduler_options \<Rightarrow> (nat \<Rightarrow> between) \<Rightarrow> claim_lane \<Rightarrow> claimable_work \<Rightarrow> int \<Rightarrow> process_state
     \<Rightarrow> ((orch_error, task_row list) result \<times> process_state) option" where
  "claim_in_lane n so tenv lane work limit s =
     (if \<not> has_lane_work lane work then Some (Inr [], s)
      else if active_hold lane s \<noteq> None then Some (Inr [], s)
      else claim_loop n so tenv lane work limit
             (pc_date s + tm_pollIntervalMs (wo_timing (so_worker so))) [] s)"

definition claim_available_work ::
  "nat \<Rightarrow> 'x scheduler_options \<Rightarrow> (nat \<Rightarrow> between) \<Rightarrow> process_state
     \<Rightarrow> ((orch_error, task_row list) result \<times> process_state) option" where
  "claim_available_work n so tenv s =
     (case pc_controls s of
        None \<Rightarrow> Some (Inr [], s)
      | Some c \<Rightarrow>
          if so_dryRun so \<or> pc_stopping s \<or> co_pauseNewWork c \<or> engaged so s then Some (Inr [], s)
          else
            case claimable_work_of so (co_scheduleOverride c) (pc_now s) of
              Inl e \<Rightarrow> Some (Inl e, s)
            | Inr work \<Rightarrow>
                (case claim_in_lane n so tenv Execution work (os_maxConcurrentTasks (so_settings so)) s of
                   None \<Rightarrow> None
                 | Some (Inl e, s1) \<Rightarrow> Some (Inl e, s1)
                 | Some (Inr xs, s1) \<Rightarrow>
                     (case claim_in_lane n so tenv Delivery work (os_maxConcurrentDeliveryTasks (so_settings so)) s1 of
                        None \<Rightarrow> None
                      | Some (Inl e, s2) \<Rightarrow> Some (Inl e, s2)
                      | Some (Inr ys, s2) \<Rightarrow> Some (Inr (xs @ ys), s2))))"

section \<open>Maintenance and intake\<close>

text \<open>A failed housekeeping task is logged; the others still run.\<close>

definition run_maintenance :: "'x scheduler_options \<Rightarrow> (nat \<Rightarrow> between) \<Rightarrow> process_state \<Rightarrow> process_state" where
  "run_maintenance so tenv s =
     fold (\<lambda>(name, run) s. let s1 = let_pass tenv s in s1\<lparr>pc_db := snd (run (pc_now s1) (pc_db s1))\<rparr>)
       (so_maintenance so) s"

definition intake_failed :: "orch_error \<Rightarrow> process_state \<Rightarrow> process_state" where
  "intake_failed e s = s\<lparr>pc_lastIntake := Some \<lparr>ik_at = pc_now s, ik_outcome = Inl (error_text e)\<rparr>\<rparr>"

definition poll_intake :: "'x scheduler_options \<Rightarrow> (nat \<Rightarrow> between) \<Rightarrow> process_state \<Rightarrow> process_state" where
  "poll_intake so tenv s0 =
     (let n = pc_at s0; s = let_pass tenv s0; ln = c_linear (wo_config (so_worker so)) in
      case so_listIssues so n of
        Inl e \<Rightarrow> intake_failed e s
      | Inr issues \<Rightarrow>
          let report = discover_linear_issues (so_library so) issues (ln_requiredLabels ln) (ln_excludedLabels ln);
              (saved, s1) = (if so_dryRun so then (Inr (), s)
                else let s1 = let_pass tenv s;
                         (r, d) = persist_linear_intake (so_localeCompare so) (so_taskId so n) (so_unitId so n)
                                    (pc_now s1) report (pc_db s1) in
                     (r, s1\<lparr>pc_db := d\<rparr>)) in
          case saved of
            Inl e \<Rightarrow> intake_failed e s1
          | Inr u \<Rightarrow> s1\<lparr>pc_lastIntake := Some \<lparr>ik_at = pc_now s1,
              ik_outcome = Inr \<lparr>ik_eligible = length (ir_eligible report),
                ik_quarantined = length (ir_quarantined report), ik_ignored = length (ir_ignored report)\<rparr>\<rparr>\<rparr>)"

section \<open>The tick\<close>

definition tick_started :: "process_state \<Rightarrow> process_state" where
  "tick_started s = s\<lparr>pc_lastTick := \<lparr>lt_startedAt = Some (pc_now s), lt_completedAt = None, lt_error = None\<rparr>\<rparr>"

definition tick_done :: "string option \<Rightarrow> process_state \<Rightarrow> process_state" where
  "tick_done err s =
     s\<lparr>pc_lastTick := (pc_lastTick s)\<lparr>lt_completedAt := Some (pc_now s),
         lt_error := or_opt err (lt_error (pc_lastTick s))\<rparr>\<rparr>"

definition recover_expired :: "'x scheduler_options \<Rightarrow> (nat \<Rightarrow> between) \<Rightarrow> process_state \<Rightarrow> (orch_error, process_state) result \<times> process_state" where
  "recover_expired so tenv s =
     (if so_dryRun so then (Inr s, s)
      else
        let now = pc_now s; s1 = let_pass tenv s in
        case recover_expired_leases (pc_now s1) (pc_locked s1) now (pc_db s1) of
          Inl e \<Rightarrow> (Inl e, s1)
        | Inr (rows, d) \<Rightarrow> (Inr (s1\<lparr>pc_db := d\<rparr>), s1\<lparr>pc_db := d\<rparr>))"

definition tick ::
  "nat \<Rightarrow> 'x scheduler_options \<Rightarrow> (nat \<Rightarrow> between) \<Rightarrow> process_state \<Rightarrow> (task_row list \<times> process_state) option" where
  "tick n so tenv s0 =
     (let s1 = let_pass tenv (tick_started s0);
          s2 = s1\<lparr>pc_controls := Some (get_controls (pc_db s1))\<rparr> in
      case recover_expired so tenv s2 of
        (Inl e, s3) \<Rightarrow> Some ([], tick_done (Some (error_text e)) s3)
      | (Inr s3, _) \<Rightarrow>
          let s4 = (if so_dryRun so \<or> engaged so s2 then s3 else run_maintenance so tenv s3);
              s5 = poll_intake so tenv s4 in
          case claim_available_work n so tenv s5 of
            None \<Rightarrow> None
          | Some (Inl e, s6) \<Rightarrow> Some ([], tick_done (Some (error_text e)) s6)
          | Some (Inr ts, s6) \<Rightarrow> Some (ts, tick_done None s6))"

section \<open>What may be claimed\<close>

lemma filter_result_Inr:
  "filter_result p xs = Inr ys \<Longrightarrow> ys = filter (\<lambda>x. p x = Inr True) xs \<and> (\<forall>x \<in> set xs. \<exists>b. p x = Inr b)"
  by (induction xs arbitrary: ys) (auto simp: result_simps)

text \<open>Every state a claim with this eligibility can leave a row in is a parked state.\<close>

definition work_closed :: "claimable_work \<Rightarrow> bool" where
  "work_closed w \<longleftrightarrow> (cw_queued w \<longrightarrow> ANALYZING \<in> set (cw_parkedStates w))
     \<and> set (cw_parkedStates w) \<inter> {QUEUED, PAUSED_SCHEDULE, PAUSED_LIMIT} = {}
     \<and> set (cw_scheduleResumeStates w) \<subseteq> set (cw_parkedStates w) \<inter> set (transition_map PAUSED_SCHEDULE)
     \<and> set (cw_limitResumeStates w) \<subseteq> set (cw_parkedStates w) \<inter> set (transition_map PAUSED_LIMIT)"

lemma stage_permitted_executable:
  "stage_permitted sc ov c st = Inr True \<Longrightarrow> executable_stage_operations st \<noteq> None"
  by (auto simp: stage_permitted_def stage_gate_def result_simps split: option.splits)

lemma claimable_work_of_Inr:
  assumes "claimable_work_of so ov now = Inr w"
  shows "work_closed w"
    and "st \<in> set (cw_parkedStates w) \<Longrightarrow> st \<in> fst ` set (wo_handlers (so_worker so))
      \<and> stage_permitted (c_schedule (wo_config (so_worker so))) ov (wo_zone (so_worker so) now) st = Inr True"
    and "cw_queued w \<Longrightarrow> \<exists>g. operation_gate (c_schedule (wo_config (so_worker so))) TASK_DISCOVERY ov
           (wo_zone (so_worker so) now) = Inr g \<and> gd_permitted g"
proof -
  let ?p = "stage_permitted (c_schedule (wo_config (so_worker so))) ov (wo_zone (so_worker so) now)"
  from assms obtain ps q where ps: "filter_result ?p (map fst (wo_handlers (so_worker so))) = Inr ps"
    and q: "(if ANALYZING \<in> set ps then and_then (operation_gate (c_schedule (wo_config (so_worker so)))
        TASK_DISCOVERY ov (wo_zone (so_worker so) now)) (\<lambda>g. Inr (gd_permitted g)) else Inr False) = Inr q"
    and w: "w = \<lparr>cw_queued = q, cw_parkedStates = ps,
             cw_scheduleResumeStates = filter (\<lambda>s. s \<in> set (transition_map PAUSED_SCHEDULE)) ps,
             cw_limitResumeStates = filter (\<lambda>s. s \<in> set (transition_map PAUSED_LIMIT)) ps\<rparr>"
    by (auto simp: claimable_work_of_def Let_def result_simps)
  note ps' = filter_result_Inr [OF ps, THEN conjunct1]
  have "st \<notin> {QUEUED, PAUSED_SCHEDULE, PAUSED_LIMIT}" if "st \<in> set ps" for st
  proof -
    have "?p st = Inr True" using that ps' by auto
    then have "executable_stage_operations st \<noteq> None" by (rule stage_permitted_executable)
    then show ?thesis by (auto simp: executable_stage_operations_def)
  qed
  moreover have "q \<longrightarrow> ANALYZING \<in> set ps" using q by (auto split: if_splits)
  ultimately show "work_closed w" unfolding work_closed_def w by auto
  show "st \<in> set (cw_parkedStates w) \<Longrightarrow> st \<in> fst ` set (wo_handlers (so_worker so)) \<and> ?p st = Inr True"
    using ps' by (auto simp: w)
  show "cw_queued w \<Longrightarrow> \<exists>g. operation_gate (c_schedule (wo_config (so_worker so))) TASK_DISCOVERY ov
           (wo_zone (so_worker so) now) = Inr g \<and> gd_permitted g"
    using q by (auto simp: w result_simps split: if_splits)
qed

lemma claimed_state_permitted:
  assumes w: "work_closed w"
    and c: "claimable (lane_work lane w) (start_new_tasks (lane_work lane w) ro now d) ro now d t"
  shows "claimed_state t \<in> set (cw_parkedStates w)" and "claim_lane_of (claimed_state t) = lane"
proof -
  have lanes: "set (transition_map PAUSED_SCHEDULE) \<inter> set delivery_states = {}"
    "set (transition_map PAUSED_LIMIT) \<inter> set delivery_states = {}"
    by (simp_all add: delivery_states_def)
  consider (queued) "t_state t = QUEUED" "cw_queued w" "lane = Execution"
    | (parked) "t_state t \<in> set (cw_parkedStates w)" "in_lane lane (t_state t)"
    | (resume) r where "is_paused (t_state t)" "t_resumeState t = Some r" "lane = Execution"
        "r \<in> set (cw_scheduleResumeStates w) \<union> set (cw_limitResumeStates w)"
    using c by (cases lane) (auto simp: claimable_def start_new_tasks_def is_paused_def resume_in_def split: option.splits)
  then have "claimed_state t \<in> set (cw_parkedStates w) \<and> claim_lane_of (claimed_state t) = lane"
  proof cases
    case queued
    then show ?thesis using w by (simp add: claimed_state_def work_closed_def claim_lane_of_def delivery_states_def)
  next
    case parked
    then have "\<not> is_paused (t_state t)" "t_state t \<noteq> QUEUED" using w by (auto simp: work_closed_def is_paused_def)
    then show ?thesis using parked by (cases lane) (simp_all add: claimed_state_def claim_lane_of_def in_lane_def)
  next
    case resume
    then have "t_state t \<noteq> QUEUED" by (auto simp: is_paused_def)
    then have "claimed_state t = r" using resume by (simp add: claimed_state_def)
    then show ?thesis using resume w lanes by (auto simp: work_closed_def claim_lane_of_def)
  qed
  then show "claimed_state t \<in> set (cw_parkedStates w)" "claim_lane_of (claimed_state t) = lane" by simp_all
qed

text \<open>The environment of a tick that keeps the store well-formed.\<close>

definition between_keeps :: "(database \<Rightarrow> bool) \<Rightarrow> (nat \<Rightarrow> between) \<Rightarrow> bool" where
  "between_keeps I tenv = (\<forall>n d. I d \<longrightarrow> I (bt_db (tenv n) d))"

lemma let_pass_simps [simp]:
  "pc_db (let_pass tenv s) = bt_db (tenv (pc_at s)) (pc_db s)" "pc_at (let_pass tenv s) = Suc (pc_at s)"
  "pc_controls (let_pass tenv s) = pc_controls s" "pc_holds (let_pass tenv s) = pc_holds s"
  by (simp_all add: let_pass_def Let_def)

lemma let_pass_keeps: "between_keeps I tenv \<Longrightarrow> I (pc_db s) \<Longrightarrow> I (pc_db (let_pass tenv s))"
  by (simp add: between_keeps_def)

text \<open>What a row looks like right after this process claimed it in a lane.\<close>

definition claimed_ok :: "'x scheduler_options \<Rightarrow> claim_lane \<Rightarrow> claimable_work \<Rightarrow> task_row \<Rightarrow> bool" where
  "claimed_ok so lane w u \<longleftrightarrow> t_leaseOwner u = Some (wo_workerId (so_worker so))
     \<and> t_state u \<in> set (cw_parkedStates w) \<and> claim_lane_of (t_state u) = lane"

lemma lane_claim_ok:
  assumes "store_ok d" "work_closed w" "claim_next_task clk locked (lane_claim so lane w limit now) d = Inr (Some u, d')"
  shows "claimed_ok so lane w u"
proof -
  from claim_next_task_Some [OF store_okD(1) [OF assms(1)] assms(3)] obtain t where
    a: "claim_allowed clk locked (lane_claim so lane w limit now) d t"
    and u: "t_state u = claimed_state t" "t_leaseOwner u = Some (ci_leaseOwner (lane_claim so lane w limit now))"
    by blast
  have "claimable (lane_work lane w) (start_new_tasks (lane_work lane w) (claim_rollout (lane_claim so lane w limit now)) now d)
      (claim_rollout (lane_claim so lane w limit now)) now d t"
    using a by (simp add: claim_allowed_def Let_def lane_claim_def)
  from claimed_state_permitted [OF assms(2) this] u show ?thesis
    by (simp add: claimed_ok_def lane_claim_def)
qed

lemma claim_loop_ok:
  assumes "between_keeps store_ok tenv" "work_closed w"
    and "store_ok (pc_db s)" "\<forall>u \<in> set claimed. claimed_ok so lane w u"
    and "claim_loop n so tenv lane w limit deadline claimed s = Some (r, s')"
  shows "store_ok (pc_db s') \<and> (\<forall>us. r = Inr us \<longrightarrow> (\<forall>u \<in> set us. claimed_ok so lane w u))"
  using assms(3-)
proof (induction n arbitrary: claimed s)
  case (Suc n)
  let ?s1 = "let_pass tenv s"
  have s1: "store_ok (pc_db ?s1)" by (rule let_pass_keeps [OF assms(1) Suc.prems(1)])
  show ?case
  proof (cases "pc_stopping s \<or> \<not> in_flight_in lane s < limit \<or> \<not> pc_date s < deadline")
    case True
    then show ?thesis using Suc.prems by auto
  next
    case False
    let ?c = "claim_next_task (pc_now ?s1) (pc_locked ?s1) (lane_claim so lane w limit (pc_now s)) (pc_db ?s1)"
    have run: "(case ?c of Inl e \<Rightarrow> Some (Inl e, ?s1) | Inr (None, d) \<Rightarrow> Some (Inr claimed, ?s1\<lparr>pc_db := d\<rparr>)
        | Inr (Some t, d) \<Rightarrow> claim_loop n so tenv lane w limit deadline (claimed @ [t]) (start_task t (?s1\<lparr>pc_db := d\<rparr>)))
        = Some (r, s')"
      using Suc.prems(3) False by (simp add: Let_def)
    show ?thesis
    proof (cases ?c)
      case (Inl e)
      then show ?thesis using run s1 by auto
    next
      case (Inr q)
      obtain o' d where q: "q = (o', d)" by fastforce
      have d: "store_ok d" using claim_next_task_ok [OF s1 Inr [unfolded q]] .
      show ?thesis
      proof (cases o')
        case None
        then show ?thesis using run Inr q d Suc.prems(2) by auto
      next
        case (Some u)
        have "claimed_ok so lane w u" using lane_claim_ok [OF s1 assms(2)] Inr q Some by blast
        then have "\<forall>u \<in> set (claimed @ [u]). claimed_ok so lane w u" using Suc.prems(2) by simp
        moreover have "store_ok (pc_db (start_task u (?s1\<lparr>pc_db := d\<rparr>)))" using d by (simp add: start_task_def)
        moreover have "claim_loop n so tenv lane w limit deadline (claimed @ [u]) (start_task u (?s1\<lparr>pc_db := d\<rparr>)) = Some (r, s')"
          using run Inr q Some by simp
        ultimately show ?thesis using Suc.IH by blast
      qed
    qed
  qed
qed simp

text \<open>A lane claims for at most one polling interval: once the clock has passed it, the loop is over.\<close>

lemma claim_loop_ends:
  assumes "deadline \<le> bt_date (tenv (pc_at s + k))" and "Suc k < n"
  shows "claim_loop n so tenv lane w limit deadline claimed s \<noteq> None"
  using assms
proof (induction n arbitrary: claimed s k)
  case (Suc n)
  have late: "claim_loop n so tenv lane w limit deadline cl q \<noteq> None" if "deadline \<le> pc_date q" "0 < n" for cl q
    using that by (cases n) auto
  let ?s1 = "let_pass tenv s"
  have next_ends: "claim_loop n so tenv lane w limit deadline cl q \<noteq> None"
    if "pc_at q = Suc (pc_at s)" "pc_date q = bt_date (tenv (pc_at s))" for cl q
  proof (cases k)
    case 0
    then show ?thesis using Suc.prems that by (intro late) auto
  next
    case (Suc j)
    show ?thesis
      by (rule Suc.IH [of q j]) (use Suc.prems that Suc in auto)
  qed
  show ?case
  proof (cases "pc_stopping s \<or> \<not> in_flight_in lane s < limit \<or> \<not> pc_date s < deadline")
    case True
    then show ?thesis by auto
  next
    case False
    let ?c = "claim_next_task (pc_now ?s1) (pc_locked ?s1) (lane_claim so lane w limit (pc_now s)) (pc_db ?s1)"
    have step: "claim_loop (Suc n) so tenv lane w limit deadline claimed s =
        (case ?c of Inl e \<Rightarrow> Some (Inl e, ?s1) | Inr (None, d) \<Rightarrow> Some (Inr claimed, ?s1\<lparr>pc_db := d\<rparr>)
        | Inr (Some t, d) \<Rightarrow> claim_loop n so tenv lane w limit deadline (claimed @ [t]) (start_task t (?s1\<lparr>pc_db := d\<rparr>)))"
      using False by (simp add: Let_def)
    show ?thesis
    proof (cases ?c)
      case (Inl e)
      then show ?thesis using step by simp
    next
      case (Inr q)
      obtain o' d where q: "q = (o', d)" by fastforce
      show ?thesis
      proof (cases o')
        case None
        then show ?thesis using step Inr q by simp
      next
        case (Some u)
        have "claim_loop n so tenv lane w limit deadline (claimed @ [u]) (start_task u (?s1\<lparr>pc_db := d\<rparr>)) \<noteq> None"
          by (rule next_ends) (simp_all add: start_task_def let_pass_def Let_def)
        then show ?thesis using step Inr q Some by simp
      qed
    qed
  qed
qed simp

lemma held_lane_claims_nothing:
  "active_hold lane s = Some h \<Longrightarrow> claim_in_lane n so tenv lane w limit s = Some (Inr [], s)"
  by (simp add: claim_in_lane_def)

lemma claim_in_lane_ok:
  assumes "between_keeps store_ok tenv" "work_closed w" "store_ok (pc_db s)"
    and "claim_in_lane n so tenv lane w limit s = Some (r, s')"
  shows "store_ok (pc_db s')" and "r = Inr us \<Longrightarrow> u \<in> set us \<Longrightarrow> claimed_ok so lane w u"
proof -
  have "store_ok (pc_db s') \<and> (\<forall>us. r = Inr us \<longrightarrow> (\<forall>u \<in> set us. claimed_ok so lane w u))"
    using assms(3,4) claim_loop_ok [OF assms(1,2,3), of "[]" so lane n limit _ r s']
    by (auto simp: claim_in_lane_def split: if_splits)
  then show "store_ok (pc_db s')" "r = Inr us \<Longrightarrow> u \<in> set us \<Longrightarrow> claimed_ok so lane w u" by blast+
qed

text \<open>A claimed task is leased to this process in a state it has a handler for and whose gate was open.\<close>

definition claimed_in_hours :: "'x scheduler_options \<Rightarrow> controls \<Rightarrow> time \<Rightarrow> task_row \<Rightarrow> bool" where
  "claimed_in_hours so c now u \<longleftrightarrow> t_leaseOwner u = Some (wo_workerId (so_worker so))
     \<and> t_state u \<in> fst ` set (wo_handlers (so_worker so))
     \<and> stage_permitted (c_schedule (wo_config (so_worker so))) (co_scheduleOverride c)
         (wo_zone (so_worker so) now) (t_state u) = Inr True"

lemma claim_available_work_ok:
  assumes env: "between_keeps store_ok tenv" and ok: "store_ok (pc_db s)"
    and step: "claim_available_work n so tenv s = Some (r, s')"
  shows "store_ok (pc_db s')
    \<and> (\<forall>us u. r = Inr us \<longrightarrow> u \<in> set us \<longrightarrow> (\<exists>c. pc_controls s = Some c \<and> \<not> so_dryRun so \<and> \<not> pc_stopping s
         \<and> \<not> co_pauseNewWork c \<and> \<not> engaged so s \<and> claimed_in_hours so c (pc_now s) u))"
proof (cases "pc_controls s")
  case None
  then show ?thesis using step ok by (auto simp: claim_available_work_def)
next
  case (Some c)
  show ?thesis
  proof (cases "so_dryRun so \<or> pc_stopping s \<or> co_pauseNewWork c \<or> engaged so s")
    case True
    then show ?thesis using step ok Some by (auto simp: claim_available_work_def)
  next
    case False
    note step = step [unfolded claim_available_work_def Some option.case if_not_P [OF False]]
    show ?thesis
    proof (cases "claimable_work_of so (co_scheduleOverride c) (pc_now s)")
      case (Inl e)
      then show ?thesis using step ok by auto
    next
      case (Inr w)
      note w = claimable_work_of_Inr [OF Inr]
      let ?m = "os_maxConcurrentTasks (so_settings so)" and ?k = "os_maxConcurrentDeliveryTasks (so_settings so)"
      have hours: "claimed_in_hours so c (pc_now s) u" if "claimed_ok so lane w u" for lane u
        using that w(2) by (auto simp: claimed_ok_def claimed_in_hours_def)
      obtain r1 s1 where l1: "claim_in_lane n so tenv Execution w ?m s = Some (r1, s1)"
        using step Inr by (auto split: option.splits)
      note ok1 = claim_in_lane_ok [OF env w(1) ok l1]
      show ?thesis
      proof (cases r1)
        case (Inl e)
        then show ?thesis using step Inr l1 ok1 by auto
      next
        case r1: (Inr xs)
        obtain r2 s2 where l2: "claim_in_lane n so tenv Delivery w ?k s1 = Some (r2, s2)"
          using step Inr l1 r1 by (auto split: option.splits)
        note ok2 = claim_in_lane_ok [OF env w(1) ok1(1) l2]
        show ?thesis
        proof (cases r2)
          case (Inl e)
          then show ?thesis using step Inr l1 r1 l2 ok2 by auto
        next
          case r2: (Inr ys)
          then have "r = Inr (xs @ ys)" "s' = s2" using step Inr l1 r1 l2 by auto
          then show ?thesis
            using ok1(2) [OF r1] ok2 (2) [OF r2] ok2(1) Some False hours by auto
        qed
      qed
    qed
  qed
qed

section \<open>The tick as a whole\<close>

definition maintenance_keeps :: "(database \<Rightarrow> bool) \<Rightarrow> 'x scheduler_options \<Rightarrow> bool" where
  "maintenance_keeps I so = (\<forall>(name, run) \<in> set (so_maintenance so). \<forall>clk d. I d \<longrightarrow> I (snd (run clk d)))"

lemma run_maintenance_frame:
  "pc_controls (run_maintenance so tenv s) = pc_controls s"
proof -
  have "pc_controls (fold (\<lambda>(name, run) s. let s1 = let_pass tenv s in s1\<lparr>pc_db := snd (run (pc_now s1) (pc_db s1))\<rparr>) ms s)
      = pc_controls s" for ms
    by (induction ms arbitrary: s) (auto simp: Let_def)
  then show ?thesis unfolding run_maintenance_def by blast
qed

lemma run_maintenance_keeps:
  assumes "between_keeps I tenv" "maintenance_keeps I so" "I (pc_db s)"
  shows "I (pc_db (run_maintenance so tenv s))"
proof -
  have "I (pc_db (fold (\<lambda>(name, run) s. let s1 = let_pass tenv s in s1\<lparr>pc_db := snd (run (pc_now s1) (pc_db s1))\<rparr>) ms s))"
    if "set ms \<subseteq> set (so_maintenance so)" "I (pc_db s)" for ms s
    using that
  proof (induction ms arbitrary: s)
    case (Cons m ms)
    obtain name run where m: "m = (name, run)" by fastforce
    have "I (pc_db (let_pass tenv s))" by (rule let_pass_keeps [OF assms(1) Cons.prems(2)])
    then have "I (snd (run (pc_now (let_pass tenv s)) (pc_db (let_pass tenv s))))"
      using assms(2) Cons.prems(1) m unfolding maintenance_keeps_def by fastforce
    then show ?case using Cons.IH Cons.prems(1) by (simp add: m Let_def)
  qed simp
  then show ?thesis unfolding run_maintenance_def using assms(3) by blast
qed

lemma poll_intake_frame: "pc_controls (poll_intake so tenv s) = pc_controls s"
  by (simp add: poll_intake_def Let_def intake_failed_def split: sum.splits prod.splits if_splits)
    (auto simp: Let_def split: prod.splits)

lemma poll_intake_ok:
  assumes env: "between_keeps store_ok tenv" and s: "store_ok (pc_db s)"
  shows "store_ok (pc_db (poll_intake so tenv s))"
proof -
  define s1 where "s1 = let_pass tenv s"
  define s2 where "s2 = let_pass tenv s1"
  have ok: "store_ok (pc_db s1)" "store_ok (pc_db s2)"
    using env s by (simp_all add: s1_def s2_def between_keeps_def)
  show ?thesis
  proof (cases "so_listIssues so (pc_at s)")
    case (Inl e)
    then show ?thesis using ok(1) by (simp add: poll_intake_def Let_def s1_def [symmetric] intake_failed_def)
  next
    case (Inr issues)
    let ?ln = "c_linear (wo_config (so_worker so))"
    let ?p = "persist_linear_intake (so_localeCompare so) (so_taskId so (pc_at s)) (so_unitId so (pc_at s)) (pc_now s2)
      (discover_linear_issues (so_library so) issues (ln_requiredLabels ?ln) (ln_excludedLabels ?ln)) (pc_db s2)"
    have "pc_db (poll_intake so tenv s) = (if so_dryRun so then pc_db s1 else snd ?p)"
      by (simp add: poll_intake_def Let_def s1_def [symmetric] s2_def [symmetric] Inr intake_failed_def
          split: sum.splits prod.splits) auto
    then show ?thesis using ok persist_linear_intake_ok [OF ok(2)] by simp
  qed
qed

lemma recover_expired_ok:
  assumes env: "between_keeps store_ok tenv" and s: "store_ok (pc_db s)"
    and step: "recover_expired so tenv s = (r, s')"
  shows "store_ok (pc_db s')" and "r = Inr q \<Longrightarrow> store_ok (pc_db q) \<and> pc_controls q = pc_controls s"
proof -
  have s1: "store_ok (pc_db (let_pass tenv s))" by (rule let_pass_keeps [OF env s])
  have keep: "store_ok d" if "recover_expired_leases (pc_now (let_pass tenv s)) (pc_locked (let_pass tenv s)) (pc_now s)
      (pc_db (let_pass tenv s)) = Inr (rows, d)" for rows d
    using recover_leases_ok [OF s1] that unfolding recover_expired_leases_def by blast
  show "store_ok (pc_db s')"
    using step s keep s1 by (auto simp: recover_expired_def Let_def simp del: let_pass_simps split: if_splits sum.splits)
  show "r = Inr q \<Longrightarrow> store_ok (pc_db q) \<and> pc_controls q = pc_controls s"
    using step s keep by (auto simp: recover_expired_def Let_def split: if_splits sum.splits)
qed

text \<open>The controls a tick reads.\<close>

definition tick_controls :: "(nat \<Rightarrow> between) \<Rightarrow> process_state \<Rightarrow> controls" where
  "tick_controls tenv s = get_controls (bt_db (tenv (pc_at s)) (pc_db s))"

text \<open>
  A tick keeps the store well-formed, and whatever it claims it claims with claiming permitted, in
  hours, for states it can run.
\<close>

lemma tick_ok:
  assumes env: "between_keeps store_ok tenv" and m: "maintenance_keeps store_ok so" and ok: "store_ok (pc_db s)"
    and step: "tick n so tenv s = Some (ts, s')"
  shows "store_ok (pc_db s') \<and> (\<forall>u \<in> set ts. \<not> so_dryRun so \<and> \<not> co_pauseNewWork (tick_controls tenv s)
      \<and> \<not> co_killSwitch (tick_controls tenv s) \<and> \<not> wo_forceKillSwitch (so_worker so)
      \<and> (\<exists>now. claimed_in_hours so (tick_controls tenv s) now u))"
proof -
  define s1 where "s1 = let_pass tenv (tick_started s)"
  define s2 where "s2 = s1\<lparr>pc_controls := Some (get_controls (pc_db s1))\<rparr>"
  have [simp]: "pc_db (tick_done e q) = pc_db q" for e q by (simp add: tick_done_def)
  have "store_ok (pc_db s1)" using env ok by (simp add: s1_def tick_started_def between_keeps_def)
  then have s2: "store_ok (pc_db s2)" by (simp add: s2_def)
  have c2: "pc_controls s2 = Some (tick_controls tenv s)" by (simp add: s2_def s1_def tick_started_def tick_controls_def)
  obtain r3 q3 where rec: "recover_expired so tenv s2 = (r3, q3)" by fastforce
  note rec_ok = recover_expired_ok [OF env s2 rec]
  note step = step [unfolded tick_def Let_def, folded s1_def, folded s2_def, unfolded rec prod.case]
  show ?thesis
  proof (cases r3)
    case (Inl e)
    then show ?thesis using step rec_ok by auto
  next
    case (Inr s3)
    define s5 where "s5 = poll_intake so tenv (if so_dryRun so \<or> engaged so s2 then s3 else run_maintenance so tenv s3)"
    have "store_ok (pc_db (if so_dryRun so \<or> engaged so s2 then s3 else run_maintenance so tenv s3))"
      using rec_ok(2) [OF Inr] run_maintenance_keeps [OF env m] by auto
    then have s5: "store_ok (pc_db s5)" unfolding s5_def by (rule poll_intake_ok [OF env])
    have c5: "pc_controls s5 = Some (tick_controls tenv s)"
      using rec_ok(2) [OF Inr] c2 by (simp add: s5_def poll_intake_frame run_maintenance_frame)
    note step = step [unfolded Inr sum.case, folded s5_def]
    obtain r6 s6 where cl: "claim_available_work n so tenv s5 = Some (r6, s6)"
      using step by (auto split: option.splits)
    note cl_ok = claim_available_work_ok [OF env s5 cl]
    show ?thesis
      using step cl cl_ok c5 by (cases r6) (auto simp: engaged_def)
  qed
qed

text \<open>A dry run writes nothing.\<close>

lemma dry_run_writes_nothing:
  assumes "so_dryRun so" and "\<And>n d. bt_db (tenv n) d = d" and "tick n so tenv s = Some (ts, s')"
  shows "pc_db s' = pc_db s" and "ts = []"
proof -
  have [simp]: "pc_db (poll_intake so tenv q) = pc_db q" for q
    using assms(1,2) by (simp add: poll_intake_def Let_def intake_failed_def split: sum.splits)
  have [simp]: "claim_available_work n so tenv q = Some (Inr [], q)" for q
    using assms(1) by (simp add: claim_available_work_def split: option.splits)
  show "pc_db s' = pc_db s" "ts = []"
    using assms by (auto simp: tick_def Let_def recover_expired_def tick_done_def tick_started_def)
qed

lemma tick_completes:
  assumes "tick n so tenv s = Some (ts, s')"
  shows "lt_completedAt (pc_lastTick s') = Some (pc_now s')"
  using assms by (auto simp: tick_def Let_def tick_done_def split: prod.splits sum.splits option.splits)

section \<open>Every tick completes\<close>

text \<open>
  A clock that moves between two accesses bounds the claim loops: each ends within a polling
  interval. \<open>dated\<close> is the part of the state this needs.
\<close>

definition clock_moves :: "(nat \<Rightarrow> between) \<Rightarrow> bool" where
  "clock_moves tenv = (\<forall>n. bt_date (tenv n) + 1 \<le> bt_date (tenv (Suc n)))"

definition dated :: "(nat \<Rightarrow> between) \<Rightarrow> process_state \<Rightarrow> bool" where
  "dated tenv s = (pc_date s \<le> bt_date (tenv (pc_at s)))"

lemma clock_moves_by:
  assumes "clock_moves tenv"
  shows "bt_date (tenv n) + int k \<le> bt_date (tenv (n + k))"
proof (induction k)
  case (Suc k)
  have "bt_date (tenv (n + k)) + 1 \<le> bt_date (tenv (Suc (n + k)))"
    using assms by (simp add: clock_moves_def)
  with Suc show ?case by simp
qed simp

lemma dated_let_pass: "clock_moves tenv \<Longrightarrow> dated tenv (let_pass tenv s)"
  unfolding dated_def clock_moves_def let_pass_def Let_def by simp (metis add_le_cancel_left le_add_same_cancel1 order_trans zero_le_one)

lemma dated_frame [simp]:
  "dated tenv (s\<lparr>pc_db := d\<rparr>) = dated tenv s" "dated tenv (s\<lparr>pc_controls := c\<rparr>) = dated tenv s"
  "dated tenv (s\<lparr>pc_lastIntake := i\<rparr>) = dated tenv s" "dated tenv (start_task t s) = dated tenv s"
  "dated tenv (intake_failed e s) = dated tenv s"
  by (simp_all add: dated_def start_task_def intake_failed_def)

lemma claim_in_lane_returns:
  assumes "clock_moves tenv" "dated tenv s" and n: "nat (tm_pollIntervalMs (wo_timing (so_worker so))) + 1 < n"
  shows "claim_in_lane n so tenv lane w limit s \<noteq> None"
proof -
  let ?p = "tm_pollIntervalMs (wo_timing (so_worker so))"
  have "pc_date s + ?p \<le> bt_date (tenv (pc_at s)) + int (nat ?p)" using assms(2) by (simp add: dated_def)
  also have "\<dots> \<le> bt_date (tenv (pc_at s + nat ?p))" by (rule clock_moves_by [OF assms(1)])
  finally have "claim_loop n so tenv lane w limit (pc_date s + ?p) [] s \<noteq> None"
    by (rule claim_loop_ends) (use n in simp)
  then show ?thesis by (simp add: claim_in_lane_def)
qed

lemma claim_loop_dated:
  assumes "clock_moves tenv" "dated tenv s" "claim_loop n so tenv lane w limit deadline cl s = Some (r, s')"
  shows "dated tenv s'"
  using assms(2,3)
proof (induction n arbitrary: cl s)
  case (Suc n)
  have "dated tenv (let_pass tenv s)" by (rule dated_let_pass [OF assms(1)])
  with Suc.prems Suc.IH [of "start_task t (let_pass tenv s\<lparr>pc_db := d\<rparr>)" for t d] show ?case
    by (auto simp: Let_def split: if_splits sum.splits option.splits)
qed simp

lemma claim_in_lane_dated:
  assumes "clock_moves tenv" "dated tenv s" "claim_in_lane n so tenv lane w limit s = Some (r, s')"
  shows "dated tenv s'"
  using assms claim_loop_dated by (auto simp: claim_in_lane_def split: if_splits)

lemma claim_available_work_returns:
  assumes "clock_moves tenv" "dated tenv s" and "nat (tm_pollIntervalMs (wo_timing (so_worker so))) + 1 < n"
  shows "claim_available_work n so tenv s \<noteq> None"
proof -
  have lane: "(claim_in_lane n so tenv l w m q = None) = False" if "dated tenv q" for l w m q
    unfolding eq_False by (rule claim_in_lane_returns [OF assms(1) that assms(3)])
  have second: "(claim_in_lane n so tenv l w m q = None) = False"
    if "claim_in_lane n so tenv l' w' m' s = Some (r, q)" for l w m q l' w' m' r
    by (rule lane [OF claim_in_lane_dated [OF assms(1,2) that]])
  show ?thesis
    by (simp add: claim_available_work_def lane [OF assms(2)] split: option.split sum.split prod.split)
      (auto simp: second)
qed

lemma run_maintenance_dated:
  assumes "clock_moves tenv" "dated tenv s"
  shows "dated tenv (run_maintenance so tenv s)"
proof -
  have "dated tenv (fold (\<lambda>(name, run) s. let s1 = let_pass tenv s in s1\<lparr>pc_db := snd (run (pc_now s1) (pc_db s1))\<rparr>) ms s)" for ms
    using assms(2)
    by (induction ms arbitrary: s) (auto simp: Let_def dated_let_pass [OF assms(1)])
  then show ?thesis unfolding run_maintenance_def .
qed

lemma poll_intake_dated: "clock_moves tenv \<Longrightarrow> dated tenv (poll_intake so tenv s)"
  by (simp add: poll_intake_def Let_def dated_let_pass split: sum.splits prod.splits if_splits)
    (auto simp: dated_let_pass split: prod.splits)

lemma tick_returns:
  assumes "clock_moves tenv" and "nat (tm_pollIntervalMs (wo_timing (so_worker so))) + 1 < n"
  shows "tick n so tenv s \<noteq> None"
proof -
  have ends: "(claim_available_work n so tenv (poll_intake so tenv q) = None) = False" for q
    unfolding eq_False by (rule claim_available_work_returns [OF assms(1) poll_intake_dated [OF assms(1)] assms(2)])
  show ?thesis by (simp add: tick_def Let_def ends split: prod.split sum.split option.split)
qed

end
