(* ===== verification/Routing.thy ===== *)
theory Routing
  imports Config
begin

text \<open>
  Providers and model routing: \<open>src/config/providers.ts\<close>, \<open>src/routing/\<close>,
  \<open>src/orchestrator/retry-policy.ts\<close>, \<open>src/execution/adapters/capabilities.ts\<close>,
  \<open>src/execution/provider-registry.ts\<close> and \<open>src/execution/dispatching-runner.ts\<close>. A lookup in an
  object with free keys is \<open>map_of\<close>; keys that name members of the object prototype are outside
  the model.
\<close>

section \<open>Adapter capabilities\<close>

datatype own_confinement = OwnProviderSandbox | OwnNone
datatype command_confinement = ConfinedByProvider | ConfinedByBwrap | Unconfined

record adapter_capabilities =
  ac_ownConfinement :: own_confinement
  ac_wrappable :: bool
  ac_effortMap :: "(effort \<times> string) list"

definition adapter_capabilities_table :: "(string \<times> adapter_capabilities) list" where
  "adapter_capabilities_table =
     [(''codex-cli'', \<lparr>ac_ownConfinement = OwnProviderSandbox, ac_wrappable = False,
        ac_effortMap = [(EffortMax, ''xhigh'')]\<rparr>),
      (''cli'', \<lparr>ac_ownConfinement = OwnNone, ac_wrappable = True, ac_effortMap = []\<rparr>)]"

definition adapter_kinds :: "string list" where
  "adapter_kinds = map fst adapter_capabilities_table"

definition is_adapter_kind :: "string \<Rightarrow> bool" where
  "is_adapter_kind kind = (kind \<in> set adapter_kinds)"

definition adapter_capabilities_of :: "string \<Rightarrow> (orch_error, adapter_capabilities) result" where
  "adapter_capabilities_of kind =
     (case map_of adapter_capabilities_table kind of
        None \<Rightarrow> Inl (PlainError (''Unknown agent runner kind: '' @ kind @ ''. Known kinds: '' @ join '', '' adapter_kinds))
      | Some c \<Rightarrow> Inr c)"

definition effective_confinement :: "adapter_capabilities \<Rightarrow> sandbox_kind \<Rightarrow> command_confinement" where
  "effective_confinement c k =
     (if ac_ownConfinement c = OwnProviderSandbox then ConfinedByProvider
      else if k = SandboxBubblewrap \<and> ac_wrappable c then ConfinedByBwrap
      else Unconfined)"

definition resolve_effort_map :: "adapter_capabilities \<Rightarrow> (effort \<times> string) list \<Rightarrow> (effort \<times> string) list" where
  "resolve_effort_map c overrides =
     map (\<lambda>e. (e, or_else (or_opt (map_of overrides e) (map_of (ac_effortMap c) e)) (show_effort e))) effort_values"

section \<open>Providers in force\<close>

record resolved_provider =
  rp_alias :: string
  rp_kind :: string
  rp_executable :: string
  rp_environment :: "string list"
  rp_effort :: "(effort \<times> string) list"
  rp_cli :: "cli_transport option"
  rp_legacy :: bool

definition declared_provider :: "string \<times> model_provider \<Rightarrow> resolved_provider" where
  "declared_provider e = \<lparr>rp_alias = fst e, rp_kind = mp_kind (snd e), rp_executable = mp_executable (snd e),
     rp_environment = mp_environment (snd e), rp_effort = mp_effort (snd e), rp_cli = mp_cli (snd e),
     rp_legacy = False\<rparr>"

definition legacy_provider :: "runner_config \<Rightarrow> string \<Rightarrow> resolved_provider" where
  "legacy_provider r exe = \<lparr>rp_alias = rn_kind r, rp_kind = rn_kind r, rp_executable = exe,
     rp_environment = rn_environment r, rp_effort = [], rp_cli = None, rp_legacy = True\<rparr>"

definition runner_of :: "config \<Rightarrow> runner_config option" where
  "runner_of c = map_option ag_runner (c_agents c)"

definition effective_providers :: "config \<Rightarrow> resolved_provider list" where
  "effective_providers c =
     (let declared = map declared_provider (mc_providers (c_models c)) in
      if declared \<noteq> [] then declared
      else case runner_of c of
        None \<Rightarrow> []
      | Some r \<Rightarrow> (case rn_executable r of None \<Rightarrow> [] | Some exe \<Rightarrow> [legacy_provider r exe]))"

definition sole_provider :: "config \<Rightarrow> resolved_provider option" where
  "sole_provider c = (case effective_providers c of [p] \<Rightarrow> Some p | _ \<Rightarrow> None)"

definition unconfigured_provider :: string where
  "unconfigured_provider = ''unconfigured''"

definition tier_of :: "config \<Rightarrow> string \<Rightarrow> model_tier option" where
  "tier_of c t = map_of (mc_tiers (c_models c)) t"

definition provider_alias_for_tier :: "config \<Rightarrow> string \<Rightarrow> string option" where
  "provider_alias_for_tier c t =
     (case Option.bind (tier_of c t) mt_provider of
        Some alias \<Rightarrow> Some alias
      | None \<Rightarrow> (case effective_providers c of
            [] \<Rightarrow> Some unconfigured_provider
          | [p] \<Rightarrow> Some (rp_alias p)
          | _ \<Rightarrow> None))"

definition provider_for_tier :: "config \<Rightarrow> string \<Rightarrow> resolved_provider option" where
  "provider_for_tier c t =
     (case provider_alias_for_tier c t of
        None \<Rightarrow> None
      | Some alias \<Rightarrow> find (\<lambda>p. rp_alias p = alias) (effective_providers c))"

section \<open>Routing\<close>

definition mk_route :: "string \<Rightarrow> effort \<Rightarrow> route" where
  "mk_route t e = \<lparr>rt_tier = t, rt_effort = e\<rparr>"

fun default_routing :: "complexity \<Rightarrow> route" where
  "default_routing VeryLow = mk_route ''luna'' EffortMedium"
| "default_routing Low = mk_route ''luna'' EffortHigh"
| "default_routing Medium = mk_route ''terra'' EffortMedium"
| "default_routing High = mk_route ''terra'' EffortHigh"
| "default_routing VeryHigh = mk_route ''sol'' EffortMedium"
| "default_routing Critical = mk_route ''sol'' EffortHigh"

fun default_escalation :: "complexity \<Rightarrow> route list" where
  "default_escalation VeryLow = [mk_route ''luna'' EffortMedium, mk_route ''luna'' EffortHigh,
     mk_route ''terra'' EffortHigh, mk_route ''sol'' EffortHigh]"
| "default_escalation Low = [mk_route ''luna'' EffortHigh, mk_route ''terra'' EffortHigh, mk_route ''sol'' EffortHigh]"
| "default_escalation Medium = [mk_route ''terra'' EffortMedium, mk_route ''terra'' EffortHigh, mk_route ''sol'' EffortHigh]"
| "default_escalation High = [mk_route ''terra'' EffortHigh, mk_route ''sol'' EffortHigh, mk_route ''sol'' EffortMax]"
| "default_escalation VeryHigh = [mk_route ''sol'' EffortMedium, mk_route ''sol'' EffortHigh, mk_route ''sol'' EffortMax]"
| "default_escalation Critical = [mk_route ''sol'' EffortHigh, mk_route ''sol'' EffortMax]"

definition routing_for :: "config \<Rightarrow> complexity \<Rightarrow> route" where
  "routing_for c x = or_else (map_of (mc_routes (c_models c)) x) (default_routing x)"

definition resolve_route :: "config \<Rightarrow> route \<Rightarrow> (orch_error, model_selection) result" where
  "resolve_route c r =
     (case tier_of c (rt_tier r) of
        None \<Rightarrow> Inl (PlainError (''No model configured for tier: '' @ rt_tier r))
      | Some t \<Rightarrow> (case provider_alias_for_tier c (rt_tier r) of
            None \<Rightarrow> Inl (PlainError (''Tier '' @ rt_tier r @ '' must name a provider when several providers are configured''))
          | Some p \<Rightarrow> Inr \<lparr>ms_provider = p, ms_tier = rt_tier r, ms_model = mt_model t, ms_effort = rt_effort r\<rparr>))"

definition select_model :: "config \<Rightarrow> complexity \<Rightarrow> (orch_error, model_selection) result" where
  "select_model c x = resolve_route c (routing_for c x)"

definition escalation_ladder :: "config \<Rightarrow> complexity \<Rightarrow> route list" where
  "escalation_ladder c x = or_else (map_of (mc_escalation (c_models c)) x) (default_escalation x)"

text \<open>Attempts are integers here; \<open>None\<close> is \<open>undefined\<close>: no rung for this attempt.\<close>

definition escalation_step :: "config \<Rightarrow> complexity \<Rightarrow> int \<Rightarrow> (orch_error, model_selection option) result" where
  "escalation_step c x attempt =
     (if attempt < 1 \<or> attempt > lm_maxImplementationAttempts (c_limits c) then Inr None
      else let ladder = escalation_ladder c x; k = nat (attempt - 1) in
        if k < length ladder then and_then (resolve_route c (ladder ! k)) (\<lambda>m. Inr (Some m))
        else Inr None)"

definition role_model :: "config \<Rightarrow> agent_role \<Rightarrow> route \<Rightarrow> (orch_error, model_selection) result" where
  "role_model c role own = resolve_route c (or_else (map_of (mc_roles (c_models c)) role) own)"

datatype retry_kind = RetryImplementation | RetryQualityFix | RetryReview

definition can_retry :: "limits_config \<Rightarrow> retry_kind \<Rightarrow> int \<Rightarrow> bool" where
  "can_retry l k attempts =
     (attempts < (case k of
        RetryImplementation \<Rightarrow> lm_maxImplementationAttempts l
      | RetryQualityFix \<Rightarrow> lm_maxQualityFixAttempts l
      | RetryReview \<Rightarrow> lm_maxReviewCycles l))"

section \<open>The provider registry and dispatch\<close>

text \<open>What an adapter does with a request is the provider's; a handle carries it as \<open>'r\<close>.\<close>

record 'r provider_handle =
  ph_alias :: string
  ph_kind :: string
  ph_executable :: string
  ph_confinement :: command_confinement
  ph_runner :: 'r

definition to_handle ::
  "(resolved_provider \<Rightarrow> (orch_error, 'r) result) \<Rightarrow> config \<Rightarrow> resolved_provider \<Rightarrow> (orch_error, 'r provider_handle) result" where
  "to_handle create c p =
     and_then (adapter_capabilities_of (rp_kind p)) (\<lambda>cap.
     and_then (create p) (\<lambda>r.
       Inr \<lparr>ph_alias = rp_alias p, ph_kind = rp_kind p, ph_executable = rp_executable p,
            ph_confinement = effective_confinement cap (sb_kind (c_sandbox c)), ph_runner = r\<rparr>))"

definition create_adapter ::
  "(resolved_provider \<Rightarrow> 'r) \<Rightarrow> (resolved_provider \<Rightarrow> cli_transport \<Rightarrow> (effort \<times> string) list \<Rightarrow> 'r)
     \<Rightarrow> resolved_provider \<Rightarrow> (orch_error, 'r) result" where
  "create_adapter codex cli p =
     (if rp_kind p = ''codex-cli'' then Inr (codex p)
      else if rp_kind p = ''cli''
      then (case rp_cli p of
          None \<Rightarrow> Inl (PlainError (''Provider '' @ rp_alias p @ '' uses kind cli but declares no command line''))
        | Some t \<Rightarrow> and_then (adapter_capabilities_of ''cli'') (\<lambda>cap. Inr (cli p t (resolve_effort_map cap (rp_effort p)))))
      else Inl (PlainError (''No adapter implementation for agent runner kind: '' @ rp_kind p)))"

fun map_result :: "('a \<Rightarrow> ('e, 'b) result) \<Rightarrow> 'a list \<Rightarrow> ('e, 'b list) result" where
  "map_result f [] = Inr []"
| "map_result f (x # xs) = and_then (f x) (\<lambda>y. and_then (map_result f xs) (\<lambda>ys. Inr (y # ys)))"

text \<open>
  The registry's extra legacy handle is built from the same runner block as
  \<open>effectiveProviders\<close>, so it is the one already in the list whenever its condition holds.
\<close>

definition create_provider_registry ::
  "(resolved_provider \<Rightarrow> (orch_error, 'r) result) \<Rightarrow> config \<Rightarrow> (orch_error, 'r provider_handle list) result" where
  "create_provider_registry create c =
     and_then (map_result (to_handle create c) (effective_providers c)) (\<lambda>handles.
       case (handles, Option.bind (runner_of c) (\<lambda>r. map_option (Pair r) (rn_executable r))) of
         ([], Some (r, exe)) \<Rightarrow> and_then (to_handle create c (legacy_provider r exe)) (\<lambda>h. Inr [h])
       | _ \<Rightarrow> Inr handles)"

definition for_selection :: "'r provider_handle list \<Rightarrow> model_selection \<Rightarrow> 'r provider_handle option" where
  "for_selection handles sel =
     (case find (\<lambda>h. ph_alias h = ms_provider sel) handles of
        Some h \<Rightarrow> Some h
      | None \<Rightarrow> (case handles of [h] \<Rightarrow> Some h | _ \<Rightarrow> None))"

text \<open>A run is handed to the selected handle's adapter, or fails without running anything.\<close>

definition no_provider_message :: "model_selection \<Rightarrow> string" where
  "no_provider_message m = ''No provider serves model selection '' @ ms_provider m @ ''/'' @ ms_tier m @ '' ('' @ ms_model m @ '')''"

definition dispatch_run :: "('q \<Rightarrow> 'o) provider_handle list \<Rightarrow> (string \<Rightarrow> 'o) \<Rightarrow> model_selection \<Rightarrow> 'q \<Rightarrow> 'o" where
  "dispatch_run handles failed m q =
     (case for_selection handles m of
        None \<Rightarrow> failed (no_provider_message m)
      | Some h \<Rightarrow> ph_runner h q)"

end
