(* ===== verification/ConfigRules.thy ===== *)
theory ConfigRules
  imports Routing
begin

text \<open>
  The cross-field rules of \<open>configSchema.superRefine\<close> (\<open>src/config/schema.ts\<close>): the list of issues
  in the order the code adds them. A configuration is accepted when there is none. The time zone
  database is a parameter. The lemmas show what acceptance buys: every route an attempt can take
  resolves to a model and to a provider the registry has, and pinned write roles are confined.
\<close>

type_synonym issue = "string list \<times> string"

section \<open>Placeholders of a command line (\<open>src/execution/adapters/cli-contract.ts\<close>)\<close>

definition cli_placeholders :: "string list" where
  "cli_placeholders = [''{model}'', ''{effort}'', ''{schema}'', ''{schemaFile}'', ''{resultFile}'',
     ''{taskDirectory}'', ''{prompt}'']"

definition is_letter :: "char \<Rightarrow> bool" where
  "is_letter c = (is_lower c \<or> is_upper c)"

definition is_alnum :: "char \<Rightarrow> bool" where
  "is_alnum c = (is_letter c \<or> is_digit c)"

text \<open>The match of \<open>\{[a-zA-Z][a-zA-Z0-9]*\}\<close> at the head of a text.\<close>

definition placeholder_at :: "string \<Rightarrow> string option" where
  "placeholder_at s =
     (case s of
        c # x # rest \<Rightarrow>
          if c = CHR ''{'' \<and> is_letter x
          then (let name = takeWhile is_alnum rest in
            case drop (length name) rest of
              e # _ \<Rightarrow> if e = CHR ''}'' then Some (c # x # name @ [e]) else None
            | [] \<Rightarrow> None)
          else None
      | _ \<Rightarrow> None)"

lemma placeholder_at_length: "placeholder_at s = Some p \<Longrightarrow> 0 < length p"
  by (auto simp: placeholder_at_def Let_def split: list.splits if_splits)

function cli_placeholders_in :: "string \<Rightarrow> string list" where
  "cli_placeholders_in [] = []"
| "cli_placeholders_in (c # s) =
     (case placeholder_at (c # s) of
        Some p \<Rightarrow> p # cli_placeholders_in (drop (length p) (c # s))
      | None \<Rightarrow> cli_placeholders_in s)"
  by pat_completeness auto

termination
  by (relation "measure length") (auto dest: placeholder_at_length)

section \<open>Reachable tiers\<close>

text \<open>A \<open>Set\<close> keeps the first occurrence of each element.\<close>

fun unique_in_order :: "'a list \<Rightarrow> 'a list" where
  "unique_in_order [] = []"
| "unique_in_order (x # xs) = x # filter (\<lambda>y. y \<noteq> x) (unique_in_order xs)"

lemma set_unique_in_order [simp]: "set (unique_in_order xs) = set xs"
  by (induction xs) auto

definition reachable_tiers :: "config \<Rightarrow> string list" where
  "reachable_tiers c =
     unique_in_order
       (concat (map (\<lambda>x. rt_tier (routing_for c x) # map rt_tier (escalation_ladder c x)) complexity_values)
        @ [rt_tier (mc_analyzer (c_models c)), rt_tier (mc_reviewer (c_models c))]
        @ map (\<lambda>e. rt_tier (snd e)) (mc_roles (c_models c)))"

section \<open>Sandbox paths\<close>

text \<open>
  The pattern of paths no sandbox may expose, between the leading and an optional trailing slash:
  nothing, \<open>home\<close>, one home directory, \<open>root\<close>, \<open>proc\<close> and \<open>run/credentials\<close> with anything below.
  A dot of the pattern matches no line terminator.
\<close>

definition no_line_break :: "string \<Rightarrow> bool" where
  "no_line_break s = list_all (\<lambda>c. of_char c \<notin> {10 :: nat, 13}) s"

definition below :: "string \<Rightarrow> string \<Rightarrow> bool" where
  "below dir s = (s = dir \<or> (starts_with s (dir @ ''/'') \<and> no_line_break (drop (length dir + 1) s)))"

definition exposing_core :: "string \<Rightarrow> bool" where
  "exposing_core s \<longleftrightarrow>
     s = [] \<or> s = ''home''
     \<or> (starts_with s ''home/'' \<and> drop 5 s \<noteq> [] \<and> CHR ''/'' \<notin> set (drop 5 s))
     \<or> s = ''root'' \<or> below ''proc'' s \<or> below ''run/credentials'' s"

definition exposing_path :: "string \<Rightarrow> bool" where
  "exposing_path p =
     (case p of
        [] \<Rightarrow> False
      | c # s \<Rightarrow> c = CHR ''/'' \<and> (exposing_core s \<or> (s \<noteq> [] \<and> last s = CHR ''/'' \<and> exposing_core (butlast s))))"

section \<open>Withheld credentials (\<open>src/security/credentials.ts\<close>)\<close>

definition withheld_environment :: "string list" where
  "withheld_environment = [''DATABASE_URL'', ''LINEAR_API_KEY'', ''ORCHESTRATOR_OPERATOR_TOKEN'',
     ''GITHUB_TOKEN'', ''GH_TOKEN'']"

definition provider_credential_environment :: "string list" where
  "provider_credential_environment = [''OPENAI_API_KEY'', ''CODEX_API_KEY'', ''ANTHROPIC_API_KEY'',
     ''CLAUDE_CODE_OAUTH_TOKEN'', ''GEMINI_API_KEY'', ''GOOGLE_API_KEY'', ''GROQ_API_KEY'',
     ''MISTRAL_API_KEY'', ''OPENROUTER_API_KEY'', ''DEEPSEEK_API_KEY'', ''XAI_API_KEY'',
     ''AZURE_OPENAI_API_KEY'', ''AWS_BEARER_TOKEN_BEDROCK'', ''TOGETHER_API_KEY'', ''PERPLEXITY_API_KEY'']"

section \<open>The rules\<close>

definition issue_if :: "bool \<Rightarrow> string list \<Rightarrow> string \<Rightarrow> issue list" where
  "issue_if b path msg = (if b then [(path, msg)] else [])"

lemma issue_if_Nil [simp]: "issue_if b path msg = [] \<longleftrightarrow> \<not> b"
  by (simp add: issue_if_def)

definition base_issues :: "(string \<Rightarrow> bool) \<Rightarrow> config \<Rightarrow> issue list" where
  "base_issues valid_zone c =
     (let s = c_orchestrator c in
      issue_if (\<not> valid_zone (c_timezone c)) [''timezone''] ''must be a valid IANA timezone''
      @ issue_if (os_heartbeatIntervalSeconds s * 2 > os_leaseDurationSeconds s)
          [''orchestrator'', ''heartbeatIntervalSeconds'']
          ''must be at most half of leaseDurationSeconds so one missed heartbeat does not expire a lease''
      @ (if os_prepareWorkspaces s
         then issue_if (c_workspace c = None) [''workspace'']
                ''is required when orchestrator.execution.prepareWorkspaces is true''
              @ issue_if (c_repositories c = []) [''repositories'']
                ''must register at least one repository when orchestrator.execution.prepareWorkspaces is true''
         else []))"

definition agent_issues :: "config \<Rightarrow> issue list" where
  "agent_issues c =
     (let s = c_orchestrator c in
      if \<not> os_runAgents s then []
      else issue_if (\<not> os_prepareWorkspaces s) [''orchestrator'', ''execution'', ''prepareWorkspaces'']
             ''must be true when orchestrator.execution.runAgents is true''
        @ issue_if (c_agents c = None) [''agents''] ''is required when orchestrator.execution.runAgents is true''
        @ issue_if (Option.bind (runner_of c) rn_executable = None \<and> effective_providers c = [])
             [''agents'', ''runner'', ''executable'']
             ''is required when orchestrator.execution.runAgents is true and models.providers is empty''
        @ issue_if (mc_providers (c_models c) = [] \<and> map_option rn_kind (runner_of c) = Some ''cli'')
             [''agents'', ''runner'', ''kind'']
             ''cannot be cli, because this block has no command line: declare the client under models.providers with a cli block instead''
        @ map (\<lambda>t. ([''models'', ''tiers''], ''must configure routed model tier '' @ t
              @ '' when orchestrator.execution.runAgents is true''))
            (filter (\<lambda>t. tier_of c t = None) (reachable_tiers c))
        @ concat (map (\<lambda>(name, repo).
              issue_if (ql_checks (rc_quality repo) = []) [''repositories'', name, ''quality'', ''checks'']
                ''must define at least one check when orchestrator.execution.runAgents is true''
              @ issue_if (ql_documentation (rc_quality repo) \<noteq> [] \<and> Option.bind (c_agents c) ag_documentation = None)
                [''repositories'', name, ''quality'', ''documentation''] ''requires agents.documentation.root'')
            (c_repositories c)))"

definition delivery_issues :: "config \<Rightarrow> issue list" where
  "delivery_issues c =
     (let s = c_orchestrator c in
      if \<not> os_deliver s then []
      else issue_if (\<not> os_runAgents s) [''orchestrator'', ''execution'', ''runAgents'']
             ''must be true when orchestrator.execution.deliver is true''
        @ issue_if (c_delivery c = None) [''delivery''] ''is required when orchestrator.execution.deliver is true'')"

definition longest_runner_minutes :: "config \<Rightarrow> int" where
  "longest_runner_minutes c =
     (case runner_of c of
        None \<Rightarrow> 0
      | Some r \<Rightarrow> (let t = rn_timeoutMinutes r in
          max (max (tm_analysis t) (tm_implementation t)) (max (tm_fix t) (tm_review t))))"

definition path_issues :: "config \<Rightarrow> issue list" where
  "path_issues c =
     issue_if (re_runnerScratchHours (c_retention c) * 60 \<le> longest_runner_minutes c)
       [''retention'', ''runnerScratchHours'']
       ''must exceed the longest agents.runner.timeoutMinutes so a running agent keeps its scratch directory''
     @ concat (map (\<lambda>(path, paths). issue_if (list_ex exposing_path paths) path
           ''must not expose /, a whole home directory, /proc, or systemd credentials'')
         [([''sandbox'', ''writablePaths''], sb_writablePaths (c_sandbox c)),
          ([''sandbox'', ''readOnlyPaths''], sb_readOnlyPaths (c_sandbox c))])"

definition mentions :: "string list \<Rightarrow> string \<Rightarrow> bool" where
  "mentions args p = includes_text (join '' '' args) p"

definition transport_issues :: "string \<Rightarrow> cli_transport \<Rightarrow> issue list" where
  "transport_issues alias t =
     (let path = [''models'', ''providers'', alias, ''cli'']; args = cli_args t in
      concat (map (\<lambda>(n, a). concat (map (\<lambda>p. issue_if (p \<notin> set cli_placeholders)
            (path @ [''args'', show_nat n])
            (''uses unknown placeholder '' @ p @ ''; supported placeholders are '' @ join '', '' cli_placeholders))
          (cli_placeholders_in a))) (enumerate 0 args))
      @ issue_if (cli_prompt t = PromptArgument \<and> \<not> mentions args ''{prompt}'') (path @ [''prompt''])
          ''is argument, so one args entry must contain the {prompt} placeholder''
      @ issue_if (cli_prompt t = PromptStdin \<and> mentions args ''{prompt}'') (path @ [''prompt''])
          ''is stdin, so no args entry may contain the {prompt} placeholder''
      @ issue_if (cli_resultSource t = ResultFile \<and> \<not> mentions args ''{resultFile}'') (path @ [''result'', ''source''])
          ''is file, so one args entry must contain the {resultFile} placeholder to tell the client where to write it''
      @ issue_if (\<not> mentions args ''{schema}'' \<and> \<not> mentions args ''{schemaFile}'') (path @ [''args''])
          ''must pass the result schema to the client, through the {schema} or {schemaFile} placeholder'')"

definition provider_issues :: "string \<times> model_provider \<Rightarrow> issue list" where
  "provider_issues e =
     (let alias = fst e; p = snd e in
      if \<not> is_adapter_kind (mp_kind p)
      then [([''models'', ''providers'', alias, ''kind''],
             ''must be a known agent runner kind: '' @ join '', '' adapter_kinds)]
      else if mp_kind p \<noteq> ''cli''
      then issue_if (mp_cli p \<noteq> None) [''models'', ''providers'', alias, ''cli'']
             (''is only used by the cli transport, and this provider uses kind '' @ mp_kind p
               @ '', whose command line is fixed by its adapter'')
      else case mp_cli p of
        None \<Rightarrow> [([''models'', ''providers'', alias, ''cli''],
             ''is required for kind cli, because only the operator knows how to invoke this model client'')]
      | Some t \<Rightarrow> transport_issues alias t)"

definition ambiguity_issues :: "config \<Rightarrow> issue list" where
  "ambiguity_issues c =
     (let aliases = map fst (mc_providers (c_models c)) in
      if length aliases \<le> 1 then []
      else map (\<lambda>t. ([''models'', ''tiers'', t, ''provider''],
             ''must name a provider because more than one provider is configured ('' @ join '', '' aliases @ '')''))
        (filter (\<lambda>t. map_option mt_provider (tier_of c t) = Some None) (reachable_tiers c)))"

definition confinement_of :: "config \<Rightarrow> resolved_provider \<Rightarrow> command_confinement" where
  "confinement_of c p =
     (case adapter_capabilities_of (rp_kind p) of
        Inr cap \<Rightarrow> effective_confinement cap (sb_kind (c_sandbox c))
      | Inl _ \<Rightarrow> Unconfined)"

definition role_assignments :: "config \<Rightarrow> (string list \<times> agent_role \<times> string) list" where
  "role_assignments c =
     ([''models'', ''analyzer'', ''tier''], Analyzer, rt_tier (mc_analyzer (c_models c)))
     # ([''models'', ''reviewer'', ''tier''], Reviewer, rt_tier (mc_reviewer (c_models c)))
     # map (\<lambda>(role, r). ([''models'', ''roles'', show_role role, ''tier''], role, rt_tier r)) (mc_roles (c_models c))"

definition assignment_issues :: "config \<Rightarrow> string list \<times> agent_role \<times> string \<Rightarrow> issue list" where
  "assignment_issues c a =
     (case a of (path, role, tier) \<Rightarrow>
      if tier_of c tier = None \<or> role \<notin> set write_roles then []
      else case provider_alias_for_tier c tier of
        None \<Rightarrow> []
      | Some alias \<Rightarrow> (case find (\<lambda>p. rp_alias p = alias) (effective_providers c) of
            None \<Rightarrow> [(path, ''must reference a configured provider alias: '' @ alias)]
          | Some p \<Rightarrow> issue_if (confinement_of c p = Unconfined) path
              (''stage '' @ show_role role @ '' writes code, so provider '' @ rp_alias p @ '' (kind '' @ rp_kind p
                @ '') must confine commands: use a provider with a command sandbox, or one the bubblewrap command sandbox can wrap'')))"

definition exposure_issues :: "config \<Rightarrow> issue list" where
  "exposure_issues c =
     concat (map (\<lambda>(path, names, withheld). map (\<lambda>v. (path, ''must not expose orchestrator credential '' @ v))
           (filter (\<lambda>n. n \<in> set withheld) names))
       (([''agents'', ''runner'', ''environment''],
           (case runner_of c of None \<Rightarrow> [] | Some r \<Rightarrow> rn_environment r), withheld_environment)
        # map (\<lambda>(name, repo). ([''repositories'', name, ''quality'', ''environment''],
              ql_environment (rc_quality repo), withheld_environment @ provider_credential_environment))
            (c_repositories c)))"

definition reference_issues :: "config \<Rightarrow> issue list" where
  "reference_issues c =
     concat (map (\<lambda>(role, r). issue_if (tier_of c (rt_tier r) = None) [''models'', show_role role, ''tier'']
           (''must reference a configured model tier: '' @ rt_tier r))
         [(Analyzer, mc_analyzer (c_models c)), (Reviewer, mc_reviewer (c_models c))])
     @ concat (map (\<lambda>(role, r). issue_if (tier_of c (rt_tier r) = None) [''models'', ''roles'', show_role role, ''tier'']
           (''must reference a configured model tier: '' @ rt_tier r)) (mc_roles (c_models c)))
     @ concat (map (\<lambda>(name, t). case mt_provider t of
           None \<Rightarrow> []
         | Some alias \<Rightarrow> issue_if (alias \<notin> fst ` set (mc_providers (c_models c)))
             [''models'', ''tiers'', name, ''provider''] (''must reference a configured provider alias: '' @ alias))
         (mc_tiers (c_models c)))"

definition config_issues :: "(string \<Rightarrow> bool) \<Rightarrow> config \<Rightarrow> issue list" where
  "config_issues valid_zone c =
     base_issues valid_zone c @ agent_issues c @ delivery_issues c @ path_issues c
     @ concat (map provider_issues (mc_providers (c_models c)))
     @ ambiguity_issues c
     @ concat (map (assignment_issues c) (role_assignments c))
     @ exposure_issues c @ reference_issues c"

section \<open>What acceptance buys\<close>

definition accepted :: "(string \<Rightarrow> bool) \<Rightarrow> config \<Rightarrow> bool" where
  "accepted valid_zone c = (config_issues valid_zone c = [])"

text \<open>\<open>agents.runner.kind\<close> is an enumeration of the adapter kinds.\<close>

definition runner_kind_ok :: "config \<Rightarrow> bool" where
  "runner_kind_ok c = (case runner_of c of None \<Rightarrow> True | Some r \<Rightarrow> is_adapter_kind (rn_kind r))"

lemma accepted_parts:
  assumes "accepted z c"
  shows "base_issues z c = []" "agent_issues c = []" "delivery_issues c = []"
    "\<And>e. e \<in> set (mc_providers (c_models c)) \<Longrightarrow> provider_issues e = []"
    "ambiguity_issues c = []" "\<And>a. a \<in> set (role_assignments c) \<Longrightarrow> assignment_issues c a = []"
    "exposure_issues c = []" "reference_issues c = []"
  using assms by (simp_all add: accepted_def config_issues_def)

lemma accepted_reachable_tier:
  assumes "accepted z c" "os_runAgents (c_orchestrator c)" "t \<in> set (reachable_tiers c)"
  obtains m where "tier_of c t = Some m"
  using accepted_parts(2) [OF assms(1)] assms(2,3)
  by (auto simp: agent_issues_def Let_def filter_empty_conv)

lemma accepted_has_provider:
  assumes "accepted z c" "os_runAgents (c_orchestrator c)"
  shows "effective_providers c \<noteq> []"
proof
  assume none: "effective_providers c = []"
  with accepted_parts(2) [OF assms(1)] assms(2) have "Option.bind (runner_of c) rn_executable \<noteq> None"
    by (auto simp: agent_issues_def Let_def)
  then obtain r exe where "runner_of c = Some r" "rn_executable r = Some exe"
    by (cases "runner_of c") auto
  with none show False by (simp add: effective_providers_def Let_def split: if_splits)
qed

lemma effective_providers_many:
  "length (effective_providers c) > 1 \<Longrightarrow> effective_providers c = map declared_provider (mc_providers (c_models c))"
  by (auto simp: effective_providers_def Let_def split: option.splits if_splits)

lemma declared_in_force:
  "e \<in> set (mc_providers (c_models c)) \<Longrightarrow> declared_provider e \<in> set (effective_providers c)"
  by (auto simp: effective_providers_def Let_def)

text \<open>Every tier an attempt can be routed to resolves to a model served by a provider in force.\<close>

lemma accepted_route_resolves:
  assumes acc: "accepted z c" and run: "os_runAgents (c_orchestrator c)" and "rt_tier r \<in> set (reachable_tiers c)"
  obtains m where "resolve_route c r = Inr m" and "ms_tier m = rt_tier r" and "ms_effort m = rt_effort r"
    and "ms_provider m \<in> rp_alias ` set (effective_providers c)"
proof -
  obtain t where t: "tier_of c (rt_tier r) = Some t"
    using accepted_reachable_tier [OF acc run assms(3)] by blast
  have "\<exists>p. provider_alias_for_tier c (rt_tier r) = Some p \<and> p \<in> rp_alias ` set (effective_providers c)"
  proof (cases "mt_provider t")
    case (Some a)
    from t have "(rt_tier r, t) \<in> set (mc_tiers (c_models c))" by (simp add: tier_of_def map_of_SomeD)
    with accepted_parts(8) [OF acc] Some have "a \<in> fst ` set (mc_providers (c_models c))"
      by (force simp: reference_issues_def)
    then obtain e where "e \<in> set (mc_providers (c_models c))" "a = rp_alias (declared_provider e)"
      by (auto simp: declared_provider_def)
    with t Some show ?thesis by (auto simp: provider_alias_for_tier_def dest: declared_in_force)
  next
    case None
    have "\<not> length (effective_providers c) > 1"
    proof
      assume "length (effective_providers c) > 1"
      then have "length (mc_providers (c_models c)) > 1" using effective_providers_many by fastforce
      with accepted_parts(5) [OF acc] assms(3) t None show False
        by (auto simp: ambiguity_issues_def Let_def filter_empty_conv)
    qed
    with accepted_has_provider [OF acc run] obtain p where "effective_providers c = [p]"
      by (cases "effective_providers c") auto
    with t None show ?thesis by (simp add: provider_alias_for_tier_def)
  qed
  with t show thesis by (auto simp: resolve_route_def intro: that)
qed

lemma reachable_ladder: "r \<in> set (escalation_ladder c x) \<Longrightarrow> rt_tier r \<in> set (reachable_tiers c)"
  by (cases x) (auto simp: reachable_tiers_def complexity_values_def)

lemma reachable_routing: "rt_tier (routing_for c x) \<in> set (reachable_tiers c)"
  by (cases x) (auto simp: reachable_tiers_def complexity_values_def)

lemma reachable_role:
  "rt_tier (or_else (map_of (mc_roles (c_models c)) Analyzer) (mc_analyzer (c_models c))) \<in> set (reachable_tiers c)"
  "rt_tier (or_else (map_of (mc_roles (c_models c)) Reviewer) (mc_reviewer (c_models c))) \<in> set (reachable_tiers c)"
  by (auto simp: reachable_tiers_def or_else_def image_iff split: option.splits dest!: map_of_SomeD)
    (metis snd_conv)+

section \<open>The registry of an accepted configuration\<close>

lemma map_result_Inr_iff: "map_result f xs = Inr ys \<longleftrightarrow> list_all2 (\<lambda>x y. f x = Inr y) xs ys"
  by (induction xs arbitrary: ys) (auto simp: result_simps list_all2_Cons1)

lemma map_result_total:
  assumes "\<And>x. x \<in> set xs \<Longrightarrow> \<exists>y. f x = Inr y"
  obtains ys where "map_result f xs = Inr ys"
proof -
  from assms have "\<exists>ys. map_result f xs = Inr ys"
    by (induction xs) (auto simp: result_simps)
  with that show thesis by blast
qed

lemma to_handle_Inr:
  assumes "to_handle create c p = Inr h"
  shows "ph_alias h = rp_alias p" and "ph_confinement h = confinement_of c p"
  using assms by (auto simp: to_handle_def result_simps confinement_of_def)

lemma accepted_provider_ready:
  assumes acc: "accepted z c" and run: "os_runAgents (c_orchestrator c)" and kind: "runner_kind_ok c"
    and p: "p \<in> set (effective_providers c)"
  shows "\<exists>h. to_handle (create_adapter codex cli) c p = Inr h"
proof (cases "mc_providers (c_models c) = []")
  case True
  with p obtain r exe where r: "runner_of c = Some r" "p = legacy_provider r exe"
    by (auto simp: effective_providers_def Let_def split: option.splits dest: sym)
  with accepted_parts(2) [OF acc] run True have "rn_kind r \<noteq> ''cli''"
    by (auto simp: agent_issues_def Let_def)
  moreover have "is_adapter_kind (rn_kind r)" using kind r by (simp add: runner_kind_ok_def)
  ultimately have "rn_kind r = ''codex-cli''"
    by (auto simp: is_adapter_kind_def adapter_kinds_def adapter_capabilities_table_def)
  then show ?thesis
    by (simp add: to_handle_def r(2) legacy_provider_def create_adapter_def adapter_capabilities_of_def adapter_capabilities_table_def)
next
  case False
  with p obtain e where e: "e \<in> set (mc_providers (c_models c))" "p = declared_provider e"
    by (auto simp: effective_providers_def Let_def)
  from accepted_parts(4) [OF acc e(1)] have "is_adapter_kind (mp_kind (snd e))"
    and cli: "mp_kind (snd e) = ''cli'' \<Longrightarrow> mp_cli (snd e) \<noteq> None"
    by (auto simp: provider_issues_def Let_def split: if_splits option.splits)
  then have "mp_kind (snd e) = ''codex-cli'' \<or> mp_kind (snd e) = ''cli''"
    by (auto simp: is_adapter_kind_def adapter_kinds_def adapter_capabilities_table_def)
  then show ?thesis
    using cli by (auto simp: to_handle_def e(2) declared_provider_def create_adapter_def adapter_capabilities_of_def adapter_capabilities_table_def)
qed

lemma find_alias:
  "list_all2 (\<lambda>p h. to_handle create c p = Inr h) ps hs \<Longrightarrow>
     (case find (\<lambda>p. rp_alias p = a) ps of
        None \<Rightarrow> find (\<lambda>h. ph_alias h = a) hs = None
      | Some p \<Rightarrow> \<exists>h. find (\<lambda>h. ph_alias h = a) hs = Some h \<and> to_handle create c p = Inr h)"
proof (induction rule: list_all2_induct)
  case (Cons p ps h hs)
  then show ?case using to_handle_Inr(1) [OF Cons(1)] by (cases "rp_alias p = a"; cases "find (\<lambda>p. rp_alias p = a) ps") auto
qed simp

lemma accepted_registry:
  assumes acc: "accepted z c" and run: "os_runAgents (c_orchestrator c)" and kind: "runner_kind_ok c"
  obtains hs where "create_provider_registry (create_adapter codex cli) c = Inr hs"
    and "list_all2 (\<lambda>p h. to_handle (create_adapter codex cli) c p = Inr h) (effective_providers c) hs"
proof -
  obtain hs where hs: "map_result (to_handle (create_adapter codex cli) c) (effective_providers c) = Inr hs"
    by (rule map_result_total [of "effective_providers c"]) (rule accepted_provider_ready [OF acc run kind])
  then have all2: "list_all2 (\<lambda>p h. to_handle (create_adapter codex cli) c p = Inr h) (effective_providers c) hs"
    by (simp add: map_result_Inr_iff)
  with accepted_has_provider [OF acc run] have "hs \<noteq> []" by auto
  then show thesis using hs all2
    by (intro that [of hs]) (auto simp: create_provider_registry_def neq_Nil_conv)
qed

text \<open>A selection whose provider is in force is served by the handle of that very alias.\<close>

lemma selection_served:
  assumes "list_all2 (\<lambda>p h. to_handle create c p = Inr h) (effective_providers c) hs"
    and "ms_provider m \<in> rp_alias ` set (effective_providers c)"
  obtains p h where "find (\<lambda>p. rp_alias p = ms_provider m) (effective_providers c) = Some p"
    and "for_selection hs m = Some h" and "ph_alias h = ms_provider m" and "ph_confinement h = confinement_of c p"
proof -
  from assms(2) obtain p where p: "find (\<lambda>p. rp_alias p = ms_provider m) (effective_providers c) = Some p"
    by (cases "find (\<lambda>p. rp_alias p = ms_provider m) (effective_providers c)") (auto simp: find_None_iff)
  with find_alias [OF assms(1), of "ms_provider m"] obtain h where
    h: "find (\<lambda>h. ph_alias h = ms_provider m) hs = Some h" "to_handle create c p = Inr h" by auto
  from p have "rp_alias p = ms_provider m" by (auto simp: find_Some_iff)
  with h p to_handle_Inr [OF h(2)] show thesis by (intro that) (simp_all add: for_selection_def)
qed

lemma accepted_write_role_confined:
  assumes acc: "accepted z c" and "(role, r) \<in> set (mc_roles (c_models c))" and "role \<in> set write_roles"
    and "resolve_route c r = Inr m"
    and find: "find (\<lambda>p. rp_alias p = ms_provider m) (effective_providers c) = Some p"
  shows "confinement_of c p \<noteq> Unconfined"
proof -
  have "([''models'', ''roles'', show_role role, ''tier''], role, rt_tier r) \<in> set (role_assignments c)"
    using assms(2) by (force simp: role_assignments_def)
  from accepted_parts(6) [OF acc this] assms(3-5) show ?thesis
    by (auto simp: assignment_issues_def resolve_route_def split: option.splits)
qed

end
