(* ===== verification/Samples.thy ===== *)
theory Samples
  imports ConfigRules Operator
begin

text \<open>
  Concrete values at which the properties of the development are applied: a task row, stores with
  one task, and a configuration that the schema accepts. They model no code.
\<close>

section \<open>Tasks\<close>

definition sample_task :: "task_state \<Rightarrow> worker option \<Rightarrow> task_row" where
  "sample_task st w = \<lparr>t_id = ''t1'', t_linearIssueId = ''lin1'', t_linearIdentifier = ''KEL-1'',
     t_contractSnapshot = JObj [], t_repository = None, t_workspacePath = None, t_branch = None,
     t_state = st, t_resumeState = (if is_paused st then Some ANALYZING else None), t_complexity = Some Medium,
     t_risk = None, t_selectedModelTier = None, t_selectedModel = None, t_reasoningEffort = None,
     t_implementationAttempts = 0, t_qualityFixAttempts = 0, t_reviewAttempts = 0, t_prNumber = None,
     t_prUrl = None, t_pauseReason = None, t_pausedAt = None, t_lastError = None, t_leaseOwner = w,
     t_leaseExpiresAt = map_option (\<lambda>_. 100) w, t_lastHeartbeatAt = map_option (\<lambda>_. 0) w,
     t_requiresManualIntervention = False, t_resumeAfter = None, t_cancelRequestedAt = None,
     t_createdAt = 0, t_updatedAt = 0\<rparr>"

text \<open>One task, with the history that leads to its state.\<close>

definition sample_history :: "task_state list \<Rightarrow> transition_row list" where
  "sample_history path = map (\<lambda>(s, s'). \<lparr>st_taskId = ''t1'', st_fromState = Some s, st_toState = s',
     st_reason = None, st_createdAt = 0\<rparr>) (zip path (tl path))"

definition sample_store :: "task_state list \<Rightarrow> worker option \<Rightarrow> database" where
  "sample_store path w = empty_database\<lparr>db_tasks := [sample_task (last path) w],
     db_transitions := sample_history path\<rparr>"

definition sample_operator :: operator_context where
  "sample_operator = \<lparr>op_actor = ''ops'', op_reason = ''check''\<rparr>"

lemma row_ok_code [code]:
  "row_ok t \<longleftrightarrow>
     (is_paused (t_state t) \<longrightarrow>
        (case t_resumeState t of None \<Rightarrow> False | Some r \<Rightarrow> can_transition (t_state t) r))
     \<and> (t_leaseOwner t = None \<longleftrightarrow> t_leaseExpiresAt t = None)
     \<and> 0 \<le> t_implementationAttempts t \<and> 0 \<le> t_qualityFixAttempts t \<and> 0 \<le> t_reviewAttempts t"
  by (auto simp: row_ok_def split: option.splits)

text \<open>Executable tests for the shape of a result.\<close>

definition succeeds :: "('e, 'a) result \<Rightarrow> bool" where
  "succeeds r = (case r of Inl e \<Rightarrow> False | Inr x \<Rightarrow> True)"

definition finds :: "('e, 'a option \<times> 'b) result \<Rightarrow> bool" where
  "finds r = (case r of Inl e \<Rightarrow> False | Inr (v, s) \<Rightarrow> v \<noteq> None)"

lemma succeedsE:
  assumes "succeeds r" obtains x where "r = Inr x"
  using assms by (auto simp: succeeds_def split: sum.splits)

lemma findsE:
  assumes "finds r" obtains x s where "r = Inr (Some x, s)"
  using assms by (auto simp: finds_def split: sum.splits)

section \<open>A configuration\<close>

definition sample_day :: schedule_day where
  "sample_day = \<lparr>day_enabled = True, day_windows = [\<lparr>win_start = ''22:00'', win_end = ''06:00''\<rparr>]\<rparr>"

definition sample_schedule :: schedule_config where
  "sample_schedule = \<lparr>sch_enabled = True, sch_allowMechanicalOperationsOutsideHours = True,
     sch_finishCurrentStep = True, sch_startNewStepIfRemainingMinutesAtLeast = 20,
     sch_minimumRemainingMinutesForNewTask = 45, sch_minimumRemainingMinutesForAnalysis = 20,
     sch_minimumRemainingMinutesForImplementation = 45, sch_minimumRemainingMinutesForReview = 20,
     sch_days = \<lparr>sd_monday = sample_day, sd_tuesday = sample_day, sd_wednesday = sample_day,
       sd_thursday = sample_day, sd_friday = sample_day, sd_saturday = sample_day, sd_sunday = sample_day\<rparr>\<rparr>"

definition sample_models :: models_config where
  "sample_models = \<lparr>
     mc_providers = [(''claude'', \<lparr>mp_kind = ''cli'', mp_executable = ''/usr/bin/claude'', mp_environment = [],
        mp_effort = [], mp_cli = Some \<lparr>cli_args = [''-p'', ''--json-schema'', ''{schema}''], cli_prompt = PromptStdin,
          cli_resultSource = ResultStdout, cli_resultPath = '''', cli_failure = None, cli_usage = None\<rparr>\<rparr>)],
     mc_tiers = [(''luna'', \<lparr>mt_model = ''m1'', mt_provider = None\<rparr>), (''terra'', \<lparr>mt_model = ''m2'', mt_provider = None\<rparr>),
        (''sol'', \<lparr>mt_model = ''m3'', mt_provider = None\<rparr>)],
     mc_routes = [], mc_escalation = [], mc_roles = [],
     mc_analyzer = mk_route ''terra'' EffortHigh, mc_reviewer = mk_route ''sol'' EffortHigh\<rparr>"

definition sample_config :: config where
  "sample_config = \<lparr>c_timezone = ''Asia/Jakarta'',
     c_orchestrator = \<lparr>os_maxConcurrentTasks = 1, os_maxConcurrentDeliveryTasks = 2, os_pollingIntervalSeconds = 60,
       os_leaseDurationSeconds = 300, os_heartbeatIntervalSeconds = 60, os_shutdownGracePeriodSeconds = 30,
       os_usageLimitPauseMinutes = 30, os_rolloutRepositories = None, os_rolloutMaxNewTasksPerDay = None,
       os_prepareWorkspaces = True, os_runAgents = True, os_deliver = False\<rparr>,
     c_workspace = Some \<lparr>wk_root = ''/srv/w'', wk_minimumFreeDiskMb = 2048, wk_remoteRetryMinutes = 5\<rparr>,
     c_repositories = [(''kelolakelas-api'', \<lparr>rc_path = ''/srv/r'', rc_github = ''k/api'', rc_remote = ''origin'',
        rc_baseBranch = ''main'', rc_maxConcurrentTasks = None,
        rc_quality = \<lparr>ql_setup = [], ql_checks = [\<lparr>qc_name = ''test'', qc_command = [''make'', ''test''], qc_timeoutSeconds = 900,
           qc_network = None\<rparr>], ql_environment = [], ql_documentation = []\<rparr>\<rparr>)],
     c_agents = Some \<lparr>ag_runner = \<lparr>rn_kind = ''codex-cli'', rn_executable = None, rn_environment = [],
          rn_timeoutMinutes = \<lparr>tm_analysis = 20, tm_implementation = 60, tm_fix = 45, tm_review = 20\<rparr>, rn_rateLimitRetryMinutes = 5\<rparr>,
        ag_documentation = None,
        ag_diffPolicy = \<lparr>dp_maxChangedFiles = 50, dp_maxChangedLines = 2000, dp_maxUnplannedFiles = 10,
          dp_forbiddenPaths = [''.git/**''], dp_generatedPaths = [''**/dist/**''], dp_allowedBinaryPaths = []\<rparr>,
        ag_maxReviewDiffBytes = 200000\<rparr>,
     c_delivery = None,
     c_sandbox = \<lparr>sb_kind = SandboxNone, sb_executable = ''/usr/bin/bwrap'', sb_readOnlyPaths = [''/usr''], sb_writablePaths = [], sb_maskedPaths = []\<rparr>,
     c_circuitBreaker = \<lparr>cb_failureThreshold = 5, cb_openSeconds = 300\<rparr>,
     c_retention = \<lparr>re_enabled = True, re_terminalTaskArtifactDays = 90, re_quarantineDays = 30, re_runnerScratchHours = 24, re_intervalMinutes = 60\<rparr>,
     c_schedule = sample_schedule,
     c_linear = \<lparr>ln_teamKey = ''KEL'', ln_requiredLabels = [], ln_excludedLabels = []\<rparr>,
     c_models = sample_models,
     c_limits = \<lparr>lm_maxImplementationAttempts = 4, lm_maxQualityFixAttempts = 3, lm_maxReviewCycles = 3\<rparr>\<rparr>"

end
