(* ===== verification/Lifecycle.thy ===== *)
theory Lifecycle
  imports Intake Ledger Samples
begin

text \<open>
  The repository as a transition system. The database of the orchestrator is shared by every worker
  process, the intake and the operators, each of which runs one repository operation (one SQL
  transaction) at a time; a step is any such operation that commits, in any order. The abstract
  specification is the task state machine of \<open>src/orchestrator/state-machine.ts\<close> alone: a task appears in
  \<open>QUEUED\<close> and moves along allowed transitions only.
\<close>

section \<open>Steps\<close>

text \<open>Operations on the records beside the task table.\<close>

inductive ledger_step :: "database \<Rightarrow> database \<Rightarrow> bool" where
  workspace_recorded: "record_work_unit_workspace clk i w v d = Inr (u, d') \<Longrightarrow> ledger_step d d'"
| delivery_recorded: "record_work_unit_delivery clk i w repo dv d = Inr (u, d') \<Longrightarrow> ledger_step d d'"
| workspace_released: "ledger_step d (mark_workspace_released now uid b d)"
| checkpoint_recorded: "record_checkpoint clk i s k p d = Inr d' \<Longrightarrow> ledger_step d d'"
| attempt_started: "start_attempt uid clk i s w p d = Inr (n, d') \<Longrightarrow> ledger_step d d'"
| attempt_completed: "complete_attempt clk i s n ao d = Inr d' \<Longrightarrow> ledger_step d d'"
| attempt_recorded: "record_attempt uid clk i s n ao d = Inr d' \<Longrightarrow> ledger_step d d'"
| operation_begun: "begin_external_operation uid clk r d = Inr (x, d') \<Longrightarrow> ledger_step d d'"
| operation_completed: "complete_external_operation clk oid i w p d = Inr d' \<Longrightarrow> ledger_step d d'"
| pruned: "ledger_step d (snd (prune t q d))"

inductive repository_step :: "database \<Rightarrow> database \<Rightarrow> bool" where
  intake_persisted: "repository_step d (snd (persist_linear_intake lc gen gu clk r d))"
| claimed: "claim_next_task clk locked c d = Inr (x, d') \<Longrightarrow> repository_step d d'"
| transitioned: "transition_task_row clk m d = Inr (u, d') \<Longrightarrow> repository_step d d'"
| released: "release_lease clk i w e f d = Inr (u, d') \<Longrightarrow> repository_step d d'"
| deferred: "defer_task clk i w until e d = Inr (u, d') \<Longrightarrow> repository_step d d'"
| renewed: "heartbeat i w ms now d = Inr (u, d') \<Longrightarrow> repository_step d d'"
| model_recorded: "record_model_selection clk i w a b e d = Inr (u, d') \<Longrightarrow> repository_step d d'"
| recovered: "recover_leases clk locked cnd reason d = Inr (ts, d') \<Longrightarrow> repository_step d d'"
| retried: "retry_task clk i oc d = Inr (u, d') \<Longrightarrow> repository_step d d'"
| cancelled: "cancel_task clk i oc d = Inr (y, d') \<Longrightarrow> repository_step d d'"
| flagged: "require_manual_intervention clk i oc d = Inr (u, d') \<Longrightarrow> repository_step d d'"
| controlled: "repository_step d (snd (update_controls clk patch a oc details d))"
| bookkept: "ledger_step d d' \<Longrightarrow> repository_step d d'"

inductive_cases ledger_stepE: "ledger_step d d'"
inductive_cases repository_stepE: "repository_step d d'"

lemma ledger_step_frame: "ledger_step d d' \<Longrightarrow> same_tasks d d'"
  by (cases rule: ledger_step.cases) (auto intro: ledger_frames)

section \<open>The store stays well-formed\<close>

lemmas operation_ok = claim_next_task_ok transition_task_row_ok release_lease_ok defer_task_ok heartbeat_ok
  record_model_selection_ok recover_leases_ok retry_task_ok cancel_task_ok require_manual_intervention_ok

lemma repository_step_ok:
  assumes "store_ok d" and "repository_step d d'"
  shows "store_ok d'"
  using assms(2)
proof (cases rule: repository_step.cases)
  case bookkept
  then show ?thesis by (blast intro: store_ok_same_tasks assms(1) ledger_step_frame)
qed (simp_all only: persist_linear_intake_ok [OF assms(1)] update_controls_ok [OF assms(1)], (erule operation_ok [OF assms(1)])+)

interpretation repository: inductive_invariant "\<lambda>d. d = empty_database" repository_step store_ok
  by unfold_locales (auto simp: store_ok_empty intro: repository_step_ok)

section \<open>What one operation adds\<close>

text \<open>
  One operation appends at most one history row per task, and only for tasks that were there; no task
  disappears, and a store that satisfies the invariant before and after then has every task moved
  along at most one allowed transition.
\<close>

definition grows :: "database \<Rightarrow> database \<Rightarrow> bool" where
  "grows d d' \<longleftrightarrow> (\<exists>rs. db_transitions d' = db_transitions d @ rs \<and> distinct (map st_taskId rs)
       \<and> st_taskId ` set rs \<subseteq> t_id ` set (db_tasks d))
     \<and> t_id ` set (db_tasks d) \<subseteq> t_id ` set (db_tasks d')"

text \<open>The operations of the intake append no history at all, so they compose.\<close>

definition extends :: "database \<Rightarrow> database \<Rightarrow> bool" where
  "extends d d' \<longleftrightarrow> db_transitions d' = db_transitions d \<and> t_id ` set (db_tasks d) \<subseteq> t_id ` set (db_tasks d')"

lemma extends_refl [simp]: "extends d d"
  by (simp add: extends_def)

lemma extends_trans: "extends a b \<Longrightarrow> extends b c \<Longrightarrow> extends a c"
  by (auto simp: extends_def)

lemma extends_grows: "extends d d' \<Longrightarrow> grows d d'"
  by (auto simp: extends_def grows_def)

lemma extends_frame: "db_tasks d' = db_tasks d \<Longrightarrow> db_transitions d' = db_transitions d \<Longrightarrow> extends d d'"
  by (simp add: extends_def)

lemma extends_same_tasks: "same_tasks d d' \<Longrightarrow> extends d d'"
  by (simp add: same_tasks_def extends_frame)

lemma extends_update:
  assumes "\<And>t. t_id (f t) = t_id t"
  shows "extends d (update_tasks p f d)"
proof -
  have "map t_id (db_tasks (update_tasks p f d)) = map t_id (db_tasks d)"
    using assms by (simp add: map_update_where)
  then have "t_id ` set (db_tasks (update_tasks p f d)) = t_id ` set (db_tasks d)"
    by (metis list.set_map)
  then show ?thesis by (simp add: extends_def)
qed

lemma extends_leased:
  assumes "update_leased i w f d = Inr (u, d')" and "\<And>t. t_id (f t) = t_id t"
  shows "extends d d'"
  using update_leased_Inr [OF assms(1)] extends_update assms(2) by blast

lemma grows_audit: "grows d d' \<Longrightarrow> grows d (audit clk a oc i x d')"
  by (simp add: grows_def)

lemma grows_update: "(\<And>t. t_id (f t) = t_id t) \<Longrightarrow> grows d (update_tasks p f d)"
  by (rule extends_grows [OF extends_update])

lemma grows_transition:
  assumes "transition_locked_task now t m d = Inr (u, d')"
  shows "grows d d'"
  using assms
proof (rule transition_locked_task_Inr)
  fix tn
  assume tasks: "db_tasks d' = update_where (task_has_id (t_id t)) (transition_updates now t m tn) (db_tasks d)"
    and hist: "db_transitions d' = db_transitions d @ [history_entry now (t_id t) tn]"
    and u: "updated_task (task_has_id (t_id t)) (transition_updates now t m tn) d = Some u"
  have "map t_id (db_tasks d') = map t_id (db_tasks d)"
    unfolding tasks by (rule ids_update_where) simp
  then have "t_id ` set (db_tasks d') = t_id ` set (db_tasks d)" by (metis list.set_map)
  moreover have "t_id t \<in> t_id ` set (db_tasks d)"
    using updated_task_SomeD [OF u] unfolding task_has_id_def by (metis imageI)
  ultimately show ?thesis
    unfolding grows_def hist by (auto simp: history_entry_def intro!: exI [of _ "[history_entry now (t_id t) tn]"])
qed

lemma grows_take: "take_task clk now i t d = Inr (u, d') \<Longrightarrow> grows d d'"
  by (auto simp: take_task_def Let_def split: if_splits option.splits intro: grows_transition grows_update)

lemma grows_claim:
  assumes "claim_next_task clk locked i d = Inr (r, d')"
  shows "grows d d'"
  using assms by (cases rule: claim_next_task_cases) (auto intro: grows_take extends_grows)

lemma grows_recover:
  assumes "unique_task_ids d" and "recover_leases clk locked cnd reason d = Inr (out, d')"
  shows "grows d d'"
proof -
  let ?cs = "recovery_candidates locked cnd d"
  let ?rs = "map (\<lambda>t. history_entry clk (t_id t) (recovery_transition reason t)) ?cs"
  from assms recover_leases_eq have d': "d' = recovered_store clk reason ?cs d" by simp
  have "map t_id (db_tasks d') = map t_id (db_tasks d)" by (simp add: d' recovered_store_def)
  then have "t_id ` set (db_tasks d') = t_id ` set (db_tasks d)" by (metis list.set_map)
  moreover have "map st_taskId ?rs = map t_id ?cs" by (simp add: history_entry_def)
  moreover have "distinct (map t_id ?cs)"
    unfolding distinct_map inj_on_def
    using recovery_candidates_props(1) [OF assms(1), of locked cnd] recovery_candidates_props(2) [of locked cnd d]
    by (blast intro: same_task [OF assms(1)])
  moreover have "st_taskId ` set ?rs \<subseteq> t_id ` set (db_tasks d)"
    using recovery_candidates_props(2) [of locked cnd d] by (auto simp: history_entry_def)
  moreover have "db_transitions d' = db_transitions d @ ?rs" by (simp add: d' recovered_store_def)
  ultimately show ?thesis unfolding grows_def by (intro conjI exI [of _ ?rs]) (simp_all only: order_refl)
qed

lemma grows_retry: "retry_task clk i c d = Inr (u, d') \<Longrightarrow> grows d d'"
  by (erule retry_task_cases) (auto intro: grows_audit grows_transition)

lemma grows_cancel: "cancel_task clk i c d = Inr (r, d') \<Longrightarrow> grows d d'"
  unfolding cancel_task_def
  by (erule with_locked_task_Inr)
    (auto simp: result_simps Let_def split: option.splits if_splits intro!: grows_audit grows_update intro: grows_transition)

lemma grows_flag: "require_manual_intervention clk i c d = Inr (r, d') \<Longrightarrow> grows d d'"
  unfolding require_manual_intervention_def
  by (erule with_locked_task_Inr)
    (auto simp: result_simps Let_def split: option.splits if_splits intro!: grows_audit grows_update intro: grows_transition)

lemma extends_create: "create_task i uid now c d = Inr (u, d') \<Longrightarrow> extends d d'"
  by (auto simp: create_task_def Let_def extends_def split: if_splits)

lemma extends_upsert: "upsert_discovered_task lc i uid now c d = Inr (r, d') \<Longrightarrow> extends d d'"
  by (auto simp: upsert_discovered_task_def result_simps split: option.splits if_splits dest: extends_create)

lemma extends_dependencies: "replace_dependencies now i bs d = Inr d' \<Longrightarrow> extends d d'"
  by (auto simp: replace_dependencies_def split: if_splits intro: extends_frame)

lemma extends_intake: "extends d (snd (persist_linear_intake lc gen gu clk r d))"
proof (rule persist_linear_intake_keeps [where P = "extends d"])
  show "extends d e'" if "extends d e" "upsert_discovered_task lc i uid clk c e = Inr (x, e')" for i uid c x e e'
    using that by (blast intro: extends_trans extends_upsert)
  show "extends d e'" if "extends d e" "replace_dependencies clk i bs e = Inr e'" for i bs e e'
    using that by (blast intro: extends_trans extends_dependencies)
  show "extends d (quarantine_intake clk a b c p e)" if "extends d e" for a b c p e
    using that by (simp add: extends_def quarantine_intake_def)
qed simp

text \<open>A step by cases of what it adds.\<close>

lemma repository_step_grows:
  assumes "store_ok d" and "repository_step d d'"
  shows "grows d d'"
  using assms(2)
proof (cases rule: repository_step.cases)
  case (released clk i w e f u)
  then show ?thesis unfolding release_lease_def by (rule extends_grows [OF extends_leased]) simp
next
  case (deferred clk i w until e u)
  then show ?thesis unfolding defer_task_def by (rule extends_grows [OF extends_leased]) simp
next
  case (renewed i w ms now u)
  then have "\<exists>f. update_leased i w f d = Inr (u, d') \<and> (\<forall>t. t_id (f t) = t_id t)"
    by (auto simp: heartbeat_def split: if_splits)
  then show ?thesis by (blast intro: extends_grows extends_leased)
next
  case (model_recorded clk i w a b e u)
  then show ?thesis unfolding record_model_selection_def by (rule extends_grows [OF extends_leased]) simp
next
  case (controlled clk patch a oc details)
  then show ?thesis by (simp add: update_controls_def Let_def grows_def)
qed (auto intro: extends_grows extends_intake grows_claim grows_transition grows_recover grows_retry grows_cancel
    grows_flag extends_same_tasks ledger_step_frame store_okD(1) [OF assms(1)] elim: transition_task_row_cases)

section \<open>The task state machine as specification\<close>

text \<open>The state of every task, and a step of the machine: a new task is queued, a present one stays or
  moves along one allowed transition.\<close>

definition states_of :: "database \<Rightarrow> task_id \<Rightarrow> task_state option" where
  "states_of d i = map_option t_state (select_task i d)"

definition machine_step :: "(task_id \<Rightarrow> task_state option) \<Rightarrow> (task_id \<Rightarrow> task_state option) \<Rightarrow> bool" where
  "machine_step m m' \<longleftrightarrow> (\<forall>i. case m i of
       None \<Rightarrow> m' i = None \<or> m' i = Some QUEUED
     | Some s \<Rightarrow> m' i = Some s \<or> (\<exists>s'. m' i = Some s' \<and> can_transition s s'))"

lemma follows_end: "follows s rs e \<Longrightarrow> follows s rs e' \<Longrightarrow> e' = e"
  by (induction rs arbitrary: s) auto

lemma follows_grown:
  assumes "follows s (hs @ rs) e'" and "follows s hs e" and "length rs \<le> 1"
  shows "e' = e \<or> can_transition e e'"
  using assms by (cases rs) (auto simp: follows_snoc dest: follows_end)

lemma filter_distinct_key: "distinct (map f rs) \<Longrightarrow> length (filter (\<lambda>r. f r = i) rs) \<le> 1"
proof (induction rs)
  case (Cons r rs)
  have "filter (\<lambda>x. f x = f r) rs = []"
    using Cons.prems by (auto simp: filter_empty_conv) (metis imageI)
  with Cons show ?case by (cases "f r = i") auto
qed simp

lemma states_of_Some:
  "unique_task_ids d \<Longrightarrow> states_of d i = Some s \<longleftrightarrow> (\<exists>t \<in> set (db_tasks d). t_id t = i \<and> t_state t = s)"
  by (auto simp: states_of_def dest: select_task_SomeD intro: select_task_eqI)

lemma states_of_None: "states_of d i = None \<longleftrightarrow> i \<notin> t_id ` set (db_tasks d)"
  by (auto simp: states_of_def select_task_None_iff)

lemma grows_machine_step:
  assumes ok: "store_ok d" "store_ok d'" and "grows d d'"
  shows "machine_step (states_of d) (states_of d')"
  unfolding machine_step_def
proof (rule allI)
  fix i
  from \<open>grows d d'\<close> obtain rs where rs: "db_transitions d' = db_transitions d @ rs" "distinct (map st_taskId rs)"
    "st_taskId ` set rs \<subseteq> t_id ` set (db_tasks d)" and ids: "t_id ` set (db_tasks d) \<subseteq> t_id ` set (db_tasks d')"
    unfolding grows_def by blast
  define r where "r = filter (\<lambda>x. st_taskId x = i) rs"
  have hist: "history_of i d' = history_of i d @ r" by (simp add: history_of_def rs(1) r_def)
  have short: "length r \<le> 1" unfolding r_def by (rule filter_distinct_key [OF rs(2)])
  show "case states_of d i of None \<Rightarrow> states_of d' i = None \<or> states_of d' i = Some QUEUED
    | Some s \<Rightarrow> states_of d' i = Some s \<or> (\<exists>s'. states_of d' i = Some s' \<and> can_transition s s')"
  proof (cases "states_of d i")
    case None
    then have new: "i \<notin> t_id ` set (db_tasks d)" by (simp add: states_of_None)
    then have "history_of i d' = []"
      using store_okD(4) [OF ok(1)] rs(1,3) by (auto simp: history_of_def filter_empty_conv)
    then have "states_of d' i = Some s \<Longrightarrow> s = QUEUED" for s
      using store_okD(3) [OF ok(2)] by (fastforce simp: states_of_Some [OF store_okD(1) [OF ok(2)]])
    then show ?thesis using None by (cases "states_of d' i") auto
  next
    case (Some s)
    then obtain t where t: "t \<in> set (db_tasks d)" "t_id t = i" "t_state t = s"
      by (auto simp: states_of_Some [OF store_okD(1) [OF ok(1)]])
    from t(1,2) have "i \<in> t_id ` set (db_tasks d)" by (rule rev_image_eqI [OF _ sym])
    with ids have "i \<in> t_id ` set (db_tasks d')" by (rule subsetD)
    then obtain t' where t': "t' \<in> set (db_tasks d')" "t_id t' = i" by (auto simp: image_iff)
    have "follows QUEUED (history_of i d @ r) (t_state t')" "follows QUEUED (history_of i d) s"
      using store_okD(3) [OF ok(2) t'(1)] store_okD(3) [OF ok(1) t(1)] by (simp_all only: t t' hist)
    from follows_grown [OF this short] have "t_state t' = s \<or> can_transition s (t_state t')" .
    moreover have "states_of d' i = Some (t_state t')"
      using t' by (auto simp: states_of_Some [OF store_okD(1) [OF ok(2)]])
    ultimately show ?thesis using Some by auto
  qed
qed

text \<open>Refinement: an implementation with an invariant simulates a specification through an abstraction.\<close>

locale simulation =
  fixes inv :: "'c \<Rightarrow> bool"
    and cstep :: "'c \<Rightarrow> 'c \<Rightarrow> bool"
    and abs :: "'c \<Rightarrow> 'a"
    and astep :: "'a \<Rightarrow> 'a \<Rightarrow> bool"
  assumes inv_kept: "inv c \<Longrightarrow> cstep c c' \<Longrightarrow> inv c'"
    and simulated: "inv c \<Longrightarrow> cstep c c' \<Longrightarrow> astep (abs c) (abs c')"
begin

lemma run:
  assumes "cstep\<^sup>*\<^sup>* c c'" and "inv c"
  shows "inv c' \<and> astep\<^sup>*\<^sup>* (abs c) (abs c')"
  using assms by (induction rule: rtranclp_induct) (auto intro: inv_kept simulated rtranclp.rtrancl_into_rtrancl)

end

interpretation machine: simulation store_ok repository_step states_of machine_step
  by unfold_locales (auto intro: repository_step_ok repository_step_grows grows_machine_step)

text \<open>On the side of the specification: a final state is never left.\<close>

lemma machine_final:
  assumes "machine_step\<^sup>*\<^sup>* m m'" and "m i = Some s" and "s \<in> set terminal_states"
  shows "m' i = Some s"
  using assms
proof (induction rule: rtranclp_induct)
  case (step y z)
  then show ?case
    using terminal_is_final [OF assms(3)] by (auto simp: machine_step_def dest: spec [of _ i])
qed simp

end
