(* ===== verification/TaskGuarantees.thy ===== *)
theory TaskGuarantees
  imports Ledger Samples
begin

text \<open>
  What the task tables promise their callers: who may change a task, which task a claim takes,
  what recovery and the operator actions leave behind, and what the history of a finished task
  shows. Each property is followed by an application to a concrete store.
\<close>

section \<open>Leases\<close>

text \<open>C28: Of all workers only the one that holds the lease of a task can renew, release, defer or
  record on it; every other worker gets a lease ownership error from each of these operations.\<close>

theorem lease_is_exclusive:
  assumes "unique_task_ids d" and "leased_by i w d" and "w' \<noteq> w"
  shows "(\<exists>r. heartbeat i w (1 + int n) now d = Inr r)
    \<and> heartbeat i w' (1 + int m) now' d = Inl (LeaseOwnershipError i)
    \<and> release_lease clk i w' e flag d = Inl (LeaseOwnershipError i)
    \<and> defer_task clk i w' until le d = Inl (LeaseOwnershipError i)
    \<and> record_model_selection clk i w' tier model effort d = Inl (LeaseOwnershipError i)"
proof -
  have "\<not> leased_by i w' d"
    using assms same_task unfolding leased_by_iff by (metis option.inject)
  then show ?thesis
    using assms(2) by (simp add: beating.accepts beating.refuses releasing.refuses deferring.refuses
      routing_record.refuses)
qed

lemma lease_is_exclusive_witness:
  "release_lease 5 ''t1'' ''other'' None None (sample_store [QUEUED, ANALYZING] (Some ''w'')) =
     Inl (LeaseOwnershipError ''t1'')"
proof -
  have "unique_task_ids (sample_store [QUEUED, ANALYZING] (Some ''w''))" by code_simp
  moreover have "leased_by ''t1'' ''w'' (sample_store [QUEUED, ANALYZING] (Some ''w''))" by code_simp
  moreover have "''other'' \<noteq> ''w''" by simp
  ultimately show ?thesis using lease_is_exclusive by blast
qed

section \<open>Claims\<close>

lemma take_task_total:
  assumes ok: "store_ok d" and mem: "t \<in> set (db_tasks d)" and free: "t_leaseOwner t = None"
  shows "\<exists>u d'. take_task clk now i t d = Inr (u, d')"
proof -
  have upd: "updated_task (task_has_id (t_id t)) f d \<noteq> None" for f
    using mem by (auto simp: updated_task_None_iff task_has_id_def)
  have lk: "\<exists>u d'. transition_locked_task clk t ((transition_to s)\<lparr>li_reason := r, li_lease := Some l\<rparr>) d = Inr (u, d')"
    if "can_transition (t_state t) s" "\<not> is_paused s" for s r l
    using that free upd
    by (auto simp: transition_locked_task_def lease_guard_def transition_to_def transition_task_def
        is_paused_def Let_def split: option.splits)
  have row: "row_ok t" by (rule store_okD(2) [OF ok mem])
  show ?thesis
  proof (cases "t_state t = QUEUED")
    case True
    then show ?thesis
      using lk [of ANALYZING] by (simp add: take_task_def Let_def can_transition_iff is_paused_def)
  next
    case False
    show ?thesis
    proof (cases "is_paused (t_state t) \<and> t_resumeState t \<noteq> None")
      case True
      then obtain r where r: "t_resumeState t = Some r" "can_transition (t_state t) r" "is_paused (t_state t)"
        using row by (auto simp: row_ok_def)
      then have "\<not> is_paused r" by (auto simp: is_paused_def can_transition_iff)
      then show ?thesis using lk [OF r(2)] r False by (simp add: take_task_def Let_def)
    next
      case False
      then show ?thesis using \<open>t_state t \<noteq> QUEUED\<close> upd
        by (simp add: take_task_def Let_def split: option.splits) auto
    qed
  qed
qed

lemma length_filter_replaced:
  assumes "distinct xs" and "\<not> p t"
  shows "length (filter p (map (\<lambda>q. if q = t then u else q) xs)) \<le> Suc (length (filter p xs))"
  using assms
proof (induction xs)
  case (Cons x xs)
  have "map (\<lambda>q. if q = t then u else q) xs = xs" if "t \<notin> set xs"
    using that by (intro map_idI) auto
  with Cons show ?case by (cases "x = t") auto
qed simp

text \<open>C29: A successful claim takes a task that is unleased, unflagged, not cancelled, not locked by
  another transaction, within the repository limits and claimable now, of the highest priority
  among all such tasks; it leases that row to the claiming worker in the state it starts in and
  changes no other row.\<close>

theorem claim_takes_first_claimable:
  assumes "unique_task_ids d" and "claim_next_task clk locked i d = Inr (Some u, d')"
  shows "\<exists>t. claim_allowed clk locked i d t
    \<and> (\<forall>q. claim_allowed clk locked i d q \<longrightarrow> claim_priority t \<le> claim_priority q)
    \<and> t_id u = t_id t \<and> t_state u = claimed_state t \<and> t_leaseOwner u = Some (ci_leaseOwner i)
    \<and> db_tasks d' = map (\<lambda>q. if q = t then u else q) (db_tasks d)"
  by (rule claim_next_task_Some [OF assms]) blast

definition sample_claim :: claim_input where
  "sample_claim = \<lparr>ci_leaseOwner = ''w'', ci_leaseDurationMs = 1000, ci_now = Some 7,
     ci_work = \<lparr>cw_queued = True, cw_parkedStates = [ANALYZING], cw_scheduleResumeStates = [ANALYZING],
       cw_limitResumeStates = []\<rparr>,
     ci_maxConcurrentTasks = Some 1, ci_lane = None, ci_repositoryLimits = None, ci_rollout = None\<rparr>"

lemma claim_takes_first_claimable_witness:
  "\<exists>t. claim_allowed 7 [] sample_claim (sample_store [QUEUED] None) t"
proof -
  have "unique_task_ids (sample_store [QUEUED] None)" by code_simp
  moreover have "finds (claim_next_task 7 [] sample_claim (sample_store [QUEUED] None))" by code_simp
  ultimately show ?thesis using claim_takes_first_claimable by (blast elim: findsE)
qed


text \<open>When the lane has room, a task that may be claimed is never passed over by an empty answer:
  the claim succeeds on some task. In a well-formed store no claim fails on a row it selected.\<close>

theorem claim_finds_work:
  assumes ok: "store_ok d" and ms: "0 < ci_leaseDurationMs i"
    and room: "\<not> lane_full (claim_lane i) (ci_maxConcurrentTasks i) d"
    and work: "claim_allowed clk locked i d q"
  shows "\<exists>u d'. claim_next_task clk locked i d = Inr (Some u, d')"
proof -
  let ?w = "lane_work (claim_lane i) (ci_work i)" and ?now = "claim_now clk i" and ?ro = "claim_rollout i"
  let ?el = "eligibility ?w (start_new_tasks ?w ?ro ?now d) ?ro ?now d"
  let ?cs = "claim_candidates locked (saturated_repositories (claim_lane i) i d) ?el d"
  have q: "q \<in> set ?cs" using work claim_candidates_iff by blast
  then obtain t where t: "first_least claim_priority ?cs = Some t"
    by (metis first_least_None list.set_cases neq_Nil_conv not_Some_eq empty_iff empty_set)
  have el: "?el \<noteq> []" using q by (auto simp: claim_candidates_def)
  have allowed: "claim_allowed clk locked i d t" using first_least_mem [OF t] claim_candidates_iff by blast
  then have mem: "t \<in> set (db_tasks d)" and unleased: "t_leaseOwner t = None"
    by (simp_all add: claim_allowed_def Let_def)
  have can: "\<exists>u d'. take_task clk ?now i t d = Inr (u, d')"
    by (rule take_task_total [OF ok mem unleased])
  then show ?thesis
    using ms room el t by (auto simp: claim_next_task_def Let_def)
qed

lemma claim_finds_work_witness:
  "\<exists>u d'. claim_next_task 7 [] sample_claim (sample_store [QUEUED] None) = Inr (Some u, d')"
proof -
  have "store_ok (sample_store [QUEUED] None)" by code_simp
  moreover have "0 < ci_leaseDurationMs sample_claim" by code_simp
  moreover have "\<not> lane_full (claim_lane sample_claim) (ci_maxConcurrentTasks sample_claim) (sample_store [QUEUED] None)"
    by code_simp
  moreover have "claim_allowed 7 [] sample_claim (sample_store [QUEUED] None) (sample_task QUEUED None)"
    by code_simp
  ultimately show ?thesis by (rule claim_finds_work)
qed

text \<open>Claims keep the concurrency limit of the lane they fill: after a claim that moves a task
  within its lane, at most the allowed number of tasks of that lane are leased, whoever leased them.\<close>

theorem claim_within_lane_limit:
  assumes "unique_task_ids d" and "claim_next_task clk locked i d = Inr (Some u, d')"
    and "ci_maxConcurrentTasks i = Some m"
  shows "int (length (leased_in_lane (claim_lane i) d')) \<le> m"
proof -
  obtain t where t: "claim_allowed clk locked i d t"
    and d': "db_tasks d' = map (\<lambda>q. if q = t then u else q) (db_tasks d)"
    and free: "\<not> lane_full (claim_lane i) (ci_maxConcurrentTasks i) d"
    by (rule claim_next_task_Some [OF assms(1,2)]) blast
  have "t \<in> set (db_tasks d)" "t_leaseOwner t = None" using t by (simp_all add: claim_allowed_def Let_def)
  moreover have "distinct (db_tasks d)" using assms(1) by (simp add: unique_task_ids_def distinct_map)
  ultimately have "length (leased_in_lane (claim_lane i) d') \<le> Suc (length (leased_in_lane (claim_lane i) d))"
    unfolding leased_in_lane_def d' by (intro length_filter_replaced) auto
  then show ?thesis using free assms(3) by (simp add: lane_full_def)
qed

lemma claim_within_lane_limit_witness:
  "\<exists>d'. int (length (leased_in_lane Execution d')) \<le> 1"
proof -
  have "unique_task_ids (sample_store [QUEUED] None)" by code_simp
  moreover obtain u d' where "claim_next_task 7 [] sample_claim (sample_store [QUEUED] None) = Inr (Some u, d')"
    by (rule findsE [of "claim_next_task 7 [] sample_claim (sample_store [QUEUED] None)"]) code_simp
  moreover have "ci_maxConcurrentTasks sample_claim = Some 1" "claim_lane sample_claim = Execution"
    by (simp_all add: sample_claim_def)
  ultimately show ?thesis using claim_within_lane_limit by metis
qed


section \<open>Recovery\<close>

text \<open>Recovery of expired leases always succeeds. Every task it returns is blocked, flagged for
  manual intervention and unleased; afterwards no task outside \<open>BLOCKED\<close>, \<open>COMPLETED\<close> and
  \<open>CANCELLED\<close> has an expired lease; every row that was not recovered is unchanged.\<close>

theorem recovery_clears_expired_leases:
  assumes ok: "store_ok d"
  shows "\<exists>out d'. recover_expired_leases clk [] now d = Inr (out, d')
    \<and> (\<forall>u \<in> set out. t_state u = BLOCKED \<and> t_leaseOwner u = None \<and> t_requiresManualIntervention u)
    \<and> (\<forall>t \<in> set (db_tasks d'). lease_expired now t \<longrightarrow> t_state t \<in> {BLOCKED, COMPLETED, CANCELLED})
    \<and> (\<forall>t \<in> set (db_tasks d). t_id t \<notin> t_id ` set out \<longrightarrow> t \<in> set (db_tasks d'))"
proof -
  define cs where "cs = recovery_candidates [] (lease_expired now) d"
  define reason where "reason = ''Lease expired; manual recovery required''"
  have eq: "recover_expired_leases clk [] now d
      = Inr (map (recovered_row clk reason) cs, recovered_store clk reason cs d)"
    unfolding recover_expired_leases_def recover_leases_eq [OF store_okD(1) [OF ok]] cs_def reason_def ..
  have "t_state t \<in> {BLOCKED, COMPLETED, CANCELLED}"
    if "t \<in> set (db_tasks (recovered_store clk reason cs d))" "lease_expired now t" for t
  proof -
    from that(1) obtain q where q: "q \<in> set (db_tasks d)"
      "t = (if q \<in> set cs then recovered_row clk reason q else q)"
      by (auto simp: recovered_store_def)
    show ?thesis
    proof (cases "q \<in> set cs")
      case False
      have "t_leaseOwner q \<noteq> None"
        using that(2) q False store_okD(2) [OF ok q(1)] by (auto simp: lease_expired_def row_ok_def split: option.splits)
      then show ?thesis
        using that(2) q False by (auto simp: cs_def recovery_candidates_def)
    qed (simp add: q(2))
  qed
  moreover have "t \<in> set (db_tasks (recovered_store clk reason cs d))"
    if "t \<in> set (db_tasks d)" "t_id t \<notin> t_id ` set (map (recovered_row clk reason) cs)" for t
    using that by (auto simp: recovered_store_def image_iff intro!: bexI [of _ t])
  ultimately show ?thesis unfolding eq by auto
qed

lemma recovery_clears_expired_leases_witness:
  "\<exists>out d'. recover_expired_leases 200 [] 200 (sample_store [QUEUED, ANALYZING] (Some ''w'')) = Inr (out, d')"
proof -
  have "store_ok (sample_store [QUEUED, ANALYZING] (Some ''w''))" by code_simp
  from recovery_clears_expired_leases [OF this] show ?thesis by blast
qed

section \<open>What a history shows\<close>

lemma follows_into:
  assumes "follows s rs e" and "e \<in> T" and "s \<notin> T"
    and "\<And>a b. can_transition a b \<Longrightarrow> b \<in> T \<Longrightarrow> a \<notin> T \<Longrightarrow> a = x \<and> b = y"
  shows "\<exists>r \<in> set rs. st_fromState r = Some x \<and> st_toState r = y"
  using assms(1-3)
proof (induction rs arbitrary: s)
  case (Cons r rs)
  show ?case
  proof (cases "st_toState r \<in> T")
    case True
    then show ?thesis using Cons.prems assms(4) [of s "st_toState r"] by auto
  next
    case False
    then show ?thesis using Cons.IH [of "st_toState r"] Cons.prems by auto
  qed
qed simp

lemma entering_delivery:
  assumes "can_transition a b" "b \<in> insert COMPLETED (set delivery_states)" "a \<notin> insert COMPLETED (set delivery_states)"
  shows "a = REVIEWING \<and> b = PR_CREATED"
  using assms by (cases a) (auto simp: can_transition_iff delivery_states_def)

text \<open>C30: A completed task has been reviewed, delivered and approved: its recorded history holds the
  transition out of \<open>REVIEWING\<close> that created its pull request and the one by which a human review
  completed it, and every task in a delivery state has passed review as well.\<close>

theorem completed_means_reviewed:
  assumes ok: "store_ok d" and mem: "t \<in> set (db_tasks d)"
    and st: "t_state t = COMPLETED \<or> t_state t \<in> set delivery_states"
  shows "(\<exists>r \<in> set (history_of (t_id t) d). st_fromState r = Some REVIEWING \<and> st_toState r = PR_CREATED)
    \<and> (t_state t = COMPLETED \<longrightarrow> (\<exists>r \<in> set (history_of (t_id t) d).
       st_fromState r = Some READY_FOR_HUMAN_REVIEW \<and> st_toState r = COMPLETED))"
proof
  note path = store_okD(3) [OF ok mem]
  show "\<exists>r \<in> set (history_of (t_id t) d). st_fromState r = Some REVIEWING \<and> st_toState r = PR_CREATED"
    by (rule follows_into [OF path, where T = "insert COMPLETED (set delivery_states)"])
      (use st entering_delivery in \<open>auto simp: delivery_states_def\<close>)
  show "t_state t = COMPLETED \<longrightarrow> (\<exists>r \<in> set (history_of (t_id t) d).
       st_fromState r = Some READY_FOR_HUMAN_REVIEW \<and> st_toState r = COMPLETED)"
    using follows_into [OF path, where T = "{COMPLETED}"] by (auto simp: completed_only_from_review)
qed

definition full_path :: "task_state list" where
  "full_path = [QUEUED, ANALYZING, READY, IMPLEMENTING, TESTING, REVIEWING, PR_CREATED, WAITING_CI,
     READY_FOR_HUMAN_REVIEW, COMPLETED]"

lemma completed_means_reviewed_witness:
  "\<exists>r \<in> set (history_of ''t1'' (sample_store full_path None)).
     st_fromState r = Some READY_FOR_HUMAN_REVIEW \<and> st_toState r = COMPLETED"
proof -
  have "store_ok (sample_store full_path None)" by code_simp
  moreover have "sample_task COMPLETED None \<in> set (db_tasks (sample_store full_path None))" by code_simp
  moreover have "t_state (sample_task COMPLETED None) = COMPLETED" "t_id (sample_task COMPLETED None) = ''t1''"
    by (simp_all add: sample_task_def)
  ultimately show ?thesis using completed_means_reviewed by metis
qed

section \<open>Operator actions\<close>

lemma first_of_map: "first_of (map f xs) = map_option f (first_of xs)"
  by (cases xs) simp_all

text \<open>A transition that the guards admit succeeds, on the selected row.\<close>

lemma transition_locked_task_total:
  assumes ids: "unique_task_ids d" and mem: "t \<in> set (db_tasks d)"
    and "lease_guard t m = Inr ()" and can: "can_transition (t_state t) (li_to m)" and "\<not> is_paused (li_to m)"
    and P: "\<And>tn. tn_to tn = li_to m \<Longrightarrow> P (transition_updates now t m tn t)"
  obtains u d' where "transition_locked_task now t m d = Inr (u, d')" and "P u"
proof -
  obtain tn where tn: "transition_task (t_state t) (li_to m) \<lparr>det_reason = li_reason m,
      det_resumeState = li_resumeState m, det_pauseReason = li_pauseReason m\<rparr> = Inr tn"
    using can assms(5) by (cases "li_resumeState m") (auto simp: transition_task_def is_paused_def)
  obtain u where u: "updated_task (task_has_id (t_id t)) (transition_updates now t m tn) d = Some u"
    using mem by (fastforce simp: updated_task_None_iff task_has_id_def
        intro: option.exhaust [of "updated_task (task_has_id (t_id t)) (transition_updates now t m tn) d"])
  from updated_task_SomeD [OF u] obtain q where "q \<in> set (db_tasks d)" "t_id q = t_id t" "u = transition_updates now t m tn q"
    by (auto simp: task_has_id_def)
  then have "u = transition_updates now t m tn t" using same_task [OF ids _ mem] by blast
  then have "P u" using P transition_task_Inr(3) [OF tn] by simp
  moreover have "\<exists>d'. transition_locked_task now t m d = Inr (u, d')"
    using assms(3) tn u by (simp add: transition_locked_task_def Let_def)
  ultimately show thesis using that by blast
qed

text \<open>An operator retry succeeds exactly on an unleased blocked or failed task. It re-queues the task
  with its error, its intervention flag and its cancellation request cleared, with the attempt
  counters reset only when the task had failed, and it appends one audit record naming the operator.\<close>

theorem retry_outcome:
  assumes "store_ok d" and "select_task i d = Some t"
  shows "(if t_leaseOwner t = None \<and> t_state t \<in> {BLOCKED, FAILED}
    then \<exists>u d'. retry_task clk i c d = Inr (u, d') \<and> select_task i d' = Some u
       \<and> t_state u = QUEUED \<and> t_leaseOwner u = None \<and> \<not> t_requiresManualIntervention u
       \<and> t_lastError u = None \<and> t_cancelRequestedAt u = None
       \<and> t_implementationAttempts u = (if t_state t = FAILED then 0 else t_implementationAttempts t)
       \<and> (\<exists>det. db_actions d' = db_actions d @ [\<lparr>oa_action = ''RETRY_TASK'', oa_actor = op_actor c,
              oa_reason = op_reason c, oa_taskId = Some i, oa_details = det, oa_createdAt = clk\<rparr>])
    else \<exists>m. retry_task clk i c d = Inl (OperatorActionError m CONFLICT))"
proof (cases "t_leaseOwner t = None \<and> t_state t \<in> {BLOCKED, FAILED}")
  case False
  have "retry_task clk i c d = (case t_leaseOwner t of
       Some w \<Rightarrow> Inl (OperatorActionError (''Task '' @ i @ '' is leased by '' @ w) CONFLICT)
     | None \<Rightarrow> Inl (OperatorActionError (''Task '' @ i @ '' cannot be retried from '' @ show_state (t_state t)) CONFLICT))"
    using False assms(2) by (auto simp: retry_task_def with_locked_task_def queued_reachable_iff split: option.splits)
  then show ?thesis using False by (auto split: option.splits)
next
  case True
  have mem: "t \<in> set (db_tasks d)" "t_id t = i" using select_task_SomeD [OF assms(2)] by auto
  define m where "m = (transition_to QUEUED)
       \<lparr>li_reason := Some (''Operator retry by '' @ op_actor c @ '': '' @ op_reason c),
        li_requiresManualIntervention := Some False, li_lastError := Some None,
        li_clearCancelRequest := True, li_resetAttemptCounters := (t_state t = FAILED)\<rparr>"
  define P where "P = (\<lambda>u :: task_row. t_lastError u = None \<and> t_cancelRequestedAt u = None
      \<and> t_implementationAttempts u = (if t_state t = FAILED then 0 else t_implementationAttempts t))"
  have P: "P (transition_updates clk t m tn t)" for tn
    by (auto simp: P_def m_def transition_to_def transition_updates_def set_lease_def increment_counter_def
        reset_counters_def)
  obtain u d1 where step: "transition_locked_task clk t m d = Inr (u, d1)" and u: "P u"
    by (rule transition_locked_task_total [where m = m and now = clk and P = P, OF store_okD(1) [OF assms(1)] mem(1)])
      (use True P in \<open>auto simp: m_def transition_to_def lease_guard_def queued_reachable_iff is_paused_def\<close>)
  note u = u [unfolded P_def]
  have run: "retry_task clk i c d = Inr (u, audit clk RETRY_TASK c (Some i) [(''from'', JStr (show_state (t_state t)))] d1)"
    using True assms(2) step mem(2)
    by (simp add: retry_task_def with_locked_task_def queued_reachable_iff m_def)
  note row = transition_locked_task_row [OF store_okD(1) [OF assms(1)] mem(1) step]
  have "store_ok d1" by (rule transition_locked_task_ok [OF assms(1) mem(1) _ step]) (simp add: m_def transition_to_def)
  moreover have "u \<in> set (db_tasks d1)" using row(7) mem(1) by (auto simp: image_iff)
  ultimately have "select_task i d1 = Some u" using row(1) mem(2) store_okD(1) by (intro select_task_eqI) auto
  moreover have "db_actions d1 = db_actions d" using step by (elim transition_locked_task_Inr) simp
  ultimately show ?thesis
    using True run u row(2,4,5) by (simp add: audit_def select_task_def m_def transition_to_def)
qed

lemma retry_outcome_witness:
  "\<exists>u d'. retry_task 9 ''t1'' sample_operator (sample_store [QUEUED, BLOCKED] None) = Inr (u, d') \<and> t_state u = QUEUED"
proof -
  have "store_ok (sample_store [QUEUED, BLOCKED] None)" by code_simp
  moreover have "select_task ''t1'' (sample_store [QUEUED, BLOCKED] None) = Some (sample_task BLOCKED None)" by code_simp
  moreover have "t_leaseOwner (sample_task BLOCKED None) = None \<and> t_state (sample_task BLOCKED None) \<in> {BLOCKED, FAILED}"
    by (simp add: sample_task_def)
  ultimately show ?thesis using retry_outcome [where clk = 9 and c = sample_operator] by fastforce
qed


text \<open>An operator cancellation is refused on a finished task, takes effect at once on an unleased one,
  and on a leased one only records the request (keeping the first request's time) and leaves the
  state and the lease to the worker.\<close>

theorem cancel_outcome:
  assumes "store_ok d" and "select_task i d = Some t"
  shows "(if t_state t \<in> set terminal_states then \<exists>m. cancel_task clk i c d = Inl (OperatorActionError m CONFLICT)
    else if t_leaseOwner t = None
    then \<exists>u d'. cancel_task clk i c d = Inr ((u, False), d') \<and> select_task i d' = Some u \<and> t_state u = CANCELLED
    else \<exists>u d'. cancel_task clk i c d = Inr ((u, True), d') \<and> select_task i d' = Some u
       \<and> u = t\<lparr>t_cancelRequestedAt := Some (or_else (t_cancelRequestedAt t) clk), t_updatedAt := clk\<rparr>
       \<and> db_transitions d' = db_transitions d)"
proof -
  have mem: "t \<in> set (db_tasks d)" "t_id t = i" using select_task_SomeD [OF assms(2)] by auto
  note ids = store_okD(1) [OF assms(1)]
  show ?thesis
  proof (cases "t_state t \<in> set terminal_states")
    case True
    then show ?thesis using assms(2) by (simp add: cancel_task_def with_locked_task_def cancel_iff)
  next
    case open_: False
    then have can: "can_transition (t_state t) CANCELLED" by (simp add: cancel_iff)
    show ?thesis
    proof (cases "t_leaseOwner t")
      case None
      define m where "m = (transition_to CANCELLED)
        \<lparr>li_reason := Some (''Operator cancellation by '' @ op_actor c @ '': '' @ op_reason c)\<rparr>"
      obtain u d1 where step: "transition_locked_task clk t m d = Inr (u, d1)"
        by (rule transition_locked_task_total [where m = m and now = clk and P = "\<lambda>_. True", OF ids mem(1)])
          (use None can in \<open>auto simp: m_def transition_to_def lease_guard_def is_paused_def\<close>)
      note row = transition_locked_task_row [OF ids mem(1) step]
      have "store_ok d1" by (rule transition_locked_task_ok [OF assms(1) mem(1) _ step]) (simp add: m_def transition_to_def)
      moreover have "u \<in> set (db_tasks d1)" using row(7) mem(1) by (auto simp: image_iff)
      ultimately have "select_task i d1 = Some u" using row(1) mem(2) store_okD(1) by (intro select_task_eqI) auto
      then show ?thesis
        using open_ None can assms(2) step mem(2) row(2)
        by (simp add: cancel_task_def with_locked_task_def m_def audit_def select_task_def transition_to_def)
    next
      case (Some w)
      define f where "f = (\<lambda>r :: task_row. r\<lparr>t_cancelRequestedAt := Some (or_else (t_cancelRequestedAt t) clk), t_updatedAt := clk\<rparr>)"
      have fid: "t_id (f r) = t_id r" for r by (simp add: f_def)
      have up: "updated_task (task_has_id (t_id t)) f d = Some (f t)"
        using select_task_eqI [OF ids mem(1) refl]
        by (simp add: updated_task_def returning_def select_task_def first_of_map)
      have "select_task i (update_tasks (task_has_id (t_id t)) f d) = Some (f t)"
        by (rule select_task_eqI)
          (use mem ids in \<open>auto simp: unique_update_tasks fid set_update_where task_has_id_def\<close>)
      then show ?thesis
        using open_ Some can assms(2) up mem(2)
        by (simp add: cancel_task_def with_locked_task_def audit_def select_task_def Let_def f_def)
    qed
  qed
qed

lemma cancel_outcome_witness:
  "\<exists>u d'. cancel_task 9 ''t1'' sample_operator (sample_store [QUEUED, ANALYZING] (Some ''w'')) = Inr ((u, True), d')"
proof -
  let ?d = "sample_store [QUEUED, ANALYZING] (Some ''w'')" and ?t = "sample_task ANALYZING (Some ''w'')"
  have "store_ok ?d" by code_simp
  moreover have "select_task ''t1'' ?d = Some ?t" by code_simp
  moreover have "t_state ?t \<notin> set terminal_states" "t_leaseOwner ?t \<noteq> None"
    by (simp_all add: sample_task_def terminal_states_def)
  ultimately show ?thesis using cancel_outcome [where clk = 9 and c = sample_operator] by fastforce
qed

section \<open>Two gaps\<close>


definition stranded :: database where
  "stranded = sample_store [QUEUED, ANALYZING, BLOCKED] (Some ''dead'')"


end
