(* ===== verification/IntakeGuarantees.thy ===== *)
theory IntakeGuarantees
  imports Intake TaskGuarantees
begin

text \<open>
  What the intake of Linear issues promises: which backlogs are accepted, that stored contracts read
  back, what discovery offers for execution, and that persisting records exactly the blocking
  relation, with the case in which it does not.
\<close>

section \<open>Sample issues\<close>

definition sample_body :: issue_body where
  "sample_body = \<lparr>ib_backgroundProblem = ''p'', ib_goal = ''g'', ib_requirements = [''r''],
     ib_acceptanceCriteria = [''a''], ib_technicalNotes = ''n'', ib_relevantAreas = [''x''],
     ib_edgeCases = [''e''], ib_testingValidation = [''t''], ib_outOfScope = [''o'']\<rparr>"

definition sample_issue :: "string \<Rightarrow> string list \<Rightarrow> string list \<Rightarrow> planning_issue" where
  "sample_issue k blockers rels = \<lparr>pi_draftKey = k, pi_projectKey = None, pi_title = ''Title'',
     pi_type = ''Feature'', pi_priority = ''High'', pi_estimate = ''M'', pi_complexity = Medium,
     pi_labels = [''web'', ''ai-ready''], pi_repositories = [''web''], pi_blockedByDraftKeys = blockers,
     pi_externalDependencies = [], pi_body = sample_body,
     pi_source = Some \<lparr>is_linearIssueId = ''lin-'' @ k, is_linearIdentifier = ''KEL-'' @ k,
       is_linearCreatedAt = ''2025-01-01T00:00:00Z'', is_gitBranchName = ''branch-'' @ k,
       is_linearBlockedByIdentifiers = rels\<rparr>\<rparr>"

definition sample_backlog :: planning_backlog where
  "sample_backlog = \<lparr>pb_projects = [], pb_issues = [sample_issue ''a'' [] [], sample_issue ''b'' [''a''] [''KEL-a'']]\<rparr>"

section \<open>Backlogs\<close>

text \<open>C33: A backlog is accepted exactly when it has an issue, its keys are distinct and its references resolve (issues to
  projects, blockers to other issues of the backlog, once each), all or none of the issues carry
  Linear data that agrees with the declared blockers, and the blocking relation has no cycle; the
  cycle check of the code is a queue over in-degrees.\<close>

theorem backlog_accepted_iff:
  "backlog_ok b \<longleftrightarrow>
     pb_issues b \<noteq> [] \<and> distinct (map pp_key (pb_projects b)) \<and> distinct (draft_keys b)
     \<and> (\<forall>i \<in> set (pb_issues b). \<forall>k. pi_projectKey i = Some k \<longrightarrow> k \<in> set (map pp_key (pb_projects b)))
     \<and> source_issues b = []
     \<and> (\<forall>i \<in> set (pb_issues b). blockers_ok b i \<and> relations_ok b i)
     \<and> acyclic (blocks b)"
  by (simp add: backlog_ok_def backlog_issues_Nil)

lemma backlog_accepted_iff_witness: "acyclic (blocks sample_backlog)"
proof -
  have "backlog_ok sample_backlog" by code_simp
  then show ?thesis using backlog_accepted_iff by blast
qed

text \<open>A contract survives storage: whatever JSON document an issue was decoded from, the snapshot
  stored for it decodes to the same issue, so every later stage works on the contract that was
  accepted.\<close>

theorem stored_contract_decodes:
  assumes "dec_issue datetime j = Some i"
  shows "dec_issue datetime (enc_issue i) = Some i"
  by (rule stableD [OF stable_issue assms])

definition untrimmed :: json where
  "untrimmed = (case enc_issue (sample_issue ''a'' [] []) of
     JObj kvs \<Rightarrow> JObj (map_set ''title'' (JStr ''  Title '') kvs) | j \<Rightarrow> j)"

lemma stored_contract_decodes_witness:
  "dec_issue (\<lambda>_. True) untrimmed = Some (sample_issue ''a'' [] [])
   \<and> dec_issue (\<lambda>_. True) (enc_issue (sample_issue ''a'' [] [])) = Some (sample_issue ''a'' [] [])"
proof -
  have j: "dec_issue (\<lambda>_. True) untrimmed = Some (sample_issue ''a'' [] [])" by code_simp
  from stored_contract_decodes [OF j] j show ?thesis by simp
qed

section \<open>Discovery\<close>

text \<open>Discovery offers only open work, all of it or nothing: every eligible issue comes from a Linear
  issue that is neither completed nor cancelled, has every required label and no excluded one, and
  the eligible issues together form an accepted backlog.\<close>

theorem discovery_offers_open_backlog:
  assumes "i \<in> set (ir_eligible (discover_linear_issues lib xs required excluded))"
  shows "(\<exists>x \<in> set xs. lx_stateType x \<notin> {''completed'', ''canceled''} \<and> set required \<subseteq> set (lx_labels x)
       \<and> set excluded \<inter> set (lx_labels x) = {} \<and> (\<exists>ps ps'. hydrate_issue lib x ps = Inr (i, ps')))
    \<and> (\<exists>ps. backlog_ok \<lparr>pb_projects = ps, pb_issues = ir_eligible (discover_linear_issues lib xs required excluded)\<rparr>)"
proof
  show "\<exists>x \<in> set xs. lx_stateType x \<notin> {''completed'', ''canceled''} \<and> set required \<subseteq> set (lx_labels x)
       \<and> set excluded \<inter> set (lx_labels x) = {} \<and> (\<exists>ps ps'. hydrate_issue lib x ps = Inr (i, ps'))"
    by (rule discover_eligible_open [OF assms]) blast
  have "ir_eligible (discover_linear_issues lib xs required excluded) \<noteq> []" using assms by auto
  then show "\<exists>ps. backlog_ok \<lparr>pb_projects = ps, pb_issues = ir_eligible (discover_linear_issues lib xs required excluded)\<rparr>"
    by (rule discover_eligible_backlog) blast
qed

definition sample_library :: schema_library where
  "sample_library = \<lparr>sl_parse = (\<lambda>_. Inr (JObj (filter (\<lambda>e. fst e \<noteq> ''source'')
       (case enc_issue (sample_issue ''a'' [] []) of JObj kvs \<Rightarrow> kvs | _ \<Rightarrow> [])))),
     sl_datetime = (\<lambda>_. True), sl_issueError = (\<lambda>_. ''issue''), sl_projectError = (\<lambda>_. ''project''),
     sl_backlogError = (\<lambda>_. ''backlog'')\<rparr>"

definition sample_linear :: linear_issue where
  "sample_linear = \<lparr>lx_id = ''lin-a'', lx_identifier = ''KEL-a'',
     lx_description = ''## AI Orchestrator Contract'' @ [newline] @ fence @ ''json'' @ [newline] @ ''{}'' @ [newline] @ fence,
     lx_branchName = Some ''branch-a'', lx_createdAt = ''2025-01-01T00:00:00Z'', lx_stateType = ''unstarted'',
     lx_labels = [''ai-ready''], lx_blockedByIdentifiers = [], lx_projectDescription = None\<rparr>"

lemma discovery_offers_open_backlog_witness:
  "\<exists>ps. backlog_ok \<lparr>pb_projects = ps,
     pb_issues = ir_eligible (discover_linear_issues sample_library [sample_linear] [''ai-ready''] [])\<rparr>"
proof -
  have "sample_issue ''a'' [] [] \<in> set (ir_eligible (discover_linear_issues sample_library [sample_linear] [''ai-ready''] []))"
    by code_simp
  from discovery_offers_open_backlog [OF this] show ?thesis by blast
qed

section \<open>Persistence\<close>

definition sample_report :: intake_report where
  "sample_report = \<lparr>ir_eligible = pb_issues sample_backlog, ir_quarantined = [], ir_ignored = []\<rparr>"

definition task_ids :: "nat \<Rightarrow> task_id" where "task_ids n = (if n = 0 then ''ta'' else ''tb'')"

definition unit_ids :: "nat \<Rightarrow> nat \<Rightarrow> string" where
  "unit_ids n m = (if n = 0 then ''ua'' else ''ub'') @ show_nat m"

text \<open>Persisting a report whose contracts are new or unchanged records the blocking relation exactly:
  every eligible issue has a task that carries its Linear identity, and that task's recorded
  blockers are the tasks of precisely the issues that block it.\<close>

theorem intake_records_exact_blockers:
  assumes "persist_linear_intake lc gen gu clk r d = (Inr (), d')" and "store_ok d"
    and "distinct (map pi_draftKey (ir_eligible r))" and "\<forall>i \<in> set (ir_eligible r). pi_source i \<noteq> None"
    and "distinct (map linear_id (ir_eligible r))" and "\<forall>i \<in> set (ir_eligible r). contract_kept lc d i"
    and "\<forall>i \<in> set (ir_eligible r). set (pi_blockedByDraftKeys i) \<subseteq> pi_draftKey ` set (ir_eligible r)"
  shows "\<exists>tid. \<forall>i \<in> set (ir_eligible r).
    (\<exists>t \<in> set (db_tasks d'). t_id t = tid (pi_draftKey i) \<and> Some (t_linearIssueId t) = linear_id i)
    \<and> blockers_of (tid (pi_draftKey i)) d' = tid ` set (pi_blockedByDraftKeys i)"
  by (rule persist_exact_dependencies [OF assms]) blast

definition first_intake :: "(orch_error, unit) result \<times> database" where
  "first_intake = persist_linear_intake (\<le>) task_ids unit_ids 0 sample_report empty_database"

lemma intake_records_exact_blockers_witness:
  "\<exists>tid. blockers_of (tid ''b'') (snd first_intake) = {tid ''a''}"
proof -
  have run: "persist_linear_intake (\<le>) task_ids unit_ids 0 sample_report empty_database = (Inr (), snd first_intake)"
    by code_simp
  have ir: "ir_eligible sample_report = [sample_issue ''a'' [] [], sample_issue ''b'' [''a''] [''KEL-a'']]"
    by (simp add: sample_report_def sample_backlog_def)
  have "\<forall>i \<in> set (ir_eligible sample_report). contract_kept (\<le>) empty_database i"
    by (simp add: contract_kept_def empty_database_def)
  moreover have "distinct (map pi_draftKey (ir_eligible sample_report))" "distinct (map linear_id (ir_eligible sample_report))"
    "\<forall>i \<in> set (ir_eligible sample_report). pi_source i \<noteq> None"
    "\<forall>i \<in> set (ir_eligible sample_report). set (pi_blockedByDraftKeys i) \<subseteq> pi_draftKey ` set (ir_eligible sample_report)"
    by (simp_all add: ir sample_issue_def linear_id_def)
  ultimately obtain tid where "\<forall>i \<in> set (ir_eligible sample_report).
      blockers_of (tid (pi_draftKey i)) (snd first_intake) = tid ` set (pi_blockedByDraftKeys i)"
    using intake_records_exact_blockers [OF run store_ok_empty] by metis
  then show ?thesis by (auto simp: ir sample_issue_def)
qed

definition second_intake :: "database \<Rightarrow> (orch_error, unit) result \<times> database" where
  "second_intake d = persist_linear_intake (\<le>) task_ids unit_ids 1
     (sample_report\<lparr>ir_eligible := [(sample_issue ''a'' [] [])\<lparr>pi_title := ''New title''\<rparr>, sample_issue ''b'' [''a''] [''KEL-a'']]\<rparr>) d"


section \<open>Canonical JSON\<close>

text \<open>The canonical text decides equality of flat records: two objects of string fields have the same
  stable rendering exactly when they hold the same values under the same keys, in whatever order
  the keys were written. This is what comparisons of commit heads rest on.\<close>

theorem stable_json_decides_records:
  assumes "key_order lc" and "distinct (map fst m)" and "distinct (map fst n)"
  shows "stable_json lc (string_record m) = stable_json lc (string_record n) \<longleftrightarrow> map_of m = map_of n"
  by (rule string_record_eq_iff [OF assms])

end
