(* ===== verification/Circuit.thy ===== *)
theory Circuit
  imports Config
begin

text \<open>
  The circuit breaker of \<open>src/providers/circuit-breaker.ts\<close> and the guards of
  \<open>src/providers/guarded-providers.ts\<close>. \<open>execute\<close> is split at its \<open>await\<close>: \<open>begin_call\<close> admits
  or rejects, \<open>finish_call\<close> books the result of an admitted call, and other calls of the process
  may begin and finish in between. Each half reads the clock once. The step relation interleaves
  any number of calls; its invariant is what a client can rely on at every moment.
\<close>

section \<open>The breaker\<close>

datatype circuit_state = Closed | Open | HalfOpen

record breaker =
  br_failures :: nat
  br_state :: circuit_state
  br_openUntil :: "time option"
  br_probeInFlight :: bool

datatype call_mark = CallOk | CallFailure | CallError | CallRejected

datatype circuit_event = StateChange circuit_state "time option" | CallMark call_mark

definition new_breaker :: breaker where
  "new_breaker = \<lparr>br_failures = 0, br_state = Closed, br_openUntil = None, br_probeInFlight = False\<rparr>"

definition circuit_transition :: "circuit_state \<Rightarrow> time option \<Rightarrow> breaker \<Rightarrow> breaker \<times> circuit_event list" where
  "circuit_transition s until b = (b\<lparr>br_state := s, br_openUntil := until\<rparr>, [StateChange s until])"

definition refresh :: "time \<Rightarrow> breaker \<Rightarrow> breaker \<times> circuit_event list" where
  "refresh now b =
     (case br_openUntil b of
        Some until \<Rightarrow> if br_state b = Open \<and> now \<ge> until then circuit_transition HalfOpen None b else (b, [])
      | None \<Rightarrow> (b, []))"

record circuit_status =
  cs_state :: circuit_state
  cs_openUntil :: "time option"
  cs_consecutiveFailures :: nat

definition status :: "time \<Rightarrow> breaker \<Rightarrow> circuit_status \<times> breaker \<times> circuit_event list" where
  "status now b = (let (b', ev) = refresh now b in
     (\<lparr>cs_state = br_state b', cs_openUntil = br_openUntil b', cs_consecutiveFailures = br_failures b'\<rparr>, b', ev))"

definition open_ms :: "circuit_breaker_config \<Rightarrow> int" where
  "open_ms c = cb_openSeconds c * 1000"

text \<open>
  A rejected call carries the time after which to try again; an admitted one whether it is the probe.
\<close>

datatype admission = Refused time | Admitted bool

definition begin_call :: "circuit_breaker_config \<Rightarrow> time \<Rightarrow> breaker \<Rightarrow> admission \<times> breaker \<times> circuit_event list" where
  "begin_call c now b =
     (let (b', ev) = refresh now b in
      if br_state b' = Open \<or> (br_state b' = HalfOpen \<and> br_probeInFlight b')
      then (Refused (or_else (br_openUntil b') (now + open_ms c)), b', ev @ [CallMark CallRejected])
      else (let probe = (br_state b' = HalfOpen) in
        (Admitted probe, if probe then b'\<lparr>br_probeInFlight := True\<rparr> else b', ev)))"

text \<open>What the operation did: it returned, or threw an error that \<open>classify\<close> counted or not.\<close>

datatype call_result = Returned | Threw bool "time option"

definition finish_call ::
  "circuit_breaker_config \<Rightarrow> time \<Rightarrow> bool \<Rightarrow> call_result \<Rightarrow> breaker \<Rightarrow> breaker \<times> circuit_event list" where
  "finish_call c now probe r b =
     (let (b', ev) =
        (case r of
           Returned \<Rightarrow>
             (let b1 = b\<lparr>br_failures := 0\<rparr>;
                  (b2, ev) = (if br_state b1 \<noteq> Closed then circuit_transition Closed None b1 else (b1, [])) in
              (b2, ev @ [CallMark CallOk]))
         | Threw counted retryAfter \<Rightarrow>
             if counted
             then (let b1 = b\<lparr>br_failures := br_failures b + 1\<rparr>;
                       hinted = (case retryAfter of None \<Rightarrow> None | Some t \<Rightarrow> if t > now then Some t else None);
                       cooldown = now + open_ms c;
                       (b2, ev) =
                         (if probe \<or> hinted \<noteq> None \<or> br_failures b1 \<ge> cb_failureThreshold c
                          then circuit_transition Open
                            (Some (case hinted of
                                Some h \<Rightarrow> if h > cooldown then h else h
                              | None \<Rightarrow> cooldown)) b1
                          else (b1, [])) in
                   (b2, CallMark CallFailure # ev))
             else if probe
             then (let (b2, ev) = circuit_transition Closed None (b\<lparr>br_failures := 0\<rparr>) in
                   (b2, CallMark CallError # ev))
             else (b, [CallMark CallError])) in
      (if probe then b'\<lparr>br_probeInFlight := False\<rparr> else b', ev))"

section \<open>The guarded providers\<close>

text \<open>Which GitHub errors count, and the hint they carry; every Linear error counts.\<close>

definition classify_github :: "orch_error \<Rightarrow> call_result" where
  "classify_github e =
     (case e of
        GitHubRequestError m k st retry \<Rightarrow> Threw (k = Transient \<or> k = RateLimited) (if k = RateLimited then retry else None)
      | _ \<Rightarrow> Threw False None)"

definition classify_linear :: "orch_error \<Rightarrow> call_result" where
  "classify_linear e = Threw True None"

definition result_of_call :: "(orch_error \<Rightarrow> call_result) \<Rightarrow> (orch_error, 'a) result \<Rightarrow> call_result" where
  "result_of_call classify r = (case r of Inr _ \<Rightarrow> Returned | Inl e \<Rightarrow> classify e)"

text \<open>\<open>show_time\<close> renders a time in the error message.\<close>

definition circuit_open_message :: "(time \<Rightarrow> string) \<Rightarrow> string \<Rightarrow> time \<Rightarrow> string" where
  "circuit_open_message show_time provider t = provider @ '' circuit open until '' @ show_time t"

definition rejected_github :: "(time \<Rightarrow> string) \<Rightarrow> string \<Rightarrow> time \<Rightarrow> orch_error" where
  "rejected_github show_time provider t = GitHubRequestError (circuit_open_message show_time provider t) Transient None (Some t)"

text \<open>
  One guarded call while no other call of the breaker is in progress: the operation runs on the
  provider's state \<open>w\<close> at \<open>t1\<close> and its result is booked at \<open>t2\<close>.
\<close>

definition guard_call ::
  "(orch_error \<Rightarrow> call_result) \<Rightarrow> (time \<Rightarrow> orch_error) \<Rightarrow> circuit_breaker_config \<Rightarrow> time \<Rightarrow> time
     \<Rightarrow> ('w \<Rightarrow> (orch_error, 'a) result \<times> 'w) \<Rightarrow> breaker \<times> 'w
     \<Rightarrow> (orch_error, 'a) result \<times> breaker \<times> 'w" where
  "guard_call classify rejected c t1 t2 opn s =
     (case begin_call c t1 (fst s) of
        (Refused t, b, _) \<Rightarrow> (Inl (rejected t), b, snd s)
      | (Admitted probe, b, _) \<Rightarrow>
          (let (r, w) = opn (snd s); (b', _) = finish_call c t2 probe (result_of_call classify r) b in (r, b', w)))"

section \<open>Any number of calls\<close>

text \<open>The calls in progress, each with its probe flag.\<close>

record circuit_system =
  sy_breaker :: breaker
  sy_inFlight :: "bool list"

definition remove_nth :: "nat \<Rightarrow> 'a list \<Rightarrow> 'a list" where
  "remove_nth n xs = take n xs @ drop (Suc n) xs"

inductive circuit_step :: "circuit_breaker_config \<Rightarrow> circuit_system \<Rightarrow> circuit_system \<Rightarrow> bool"
  for c :: circuit_breaker_config where
  circuit_rejects: "begin_call c now (sy_breaker s) = (Refused t, b, ev) \<Longrightarrow>
     circuit_step c s (s\<lparr>sy_breaker := b\<rparr>)"
| circuit_admits: "begin_call c now (sy_breaker s) = (Admitted probe, b, ev) \<Longrightarrow>
     circuit_step c s \<lparr>sy_breaker = b, sy_inFlight = sy_inFlight s @ [probe]\<rparr>"
| circuit_finishes: "n < length (sy_inFlight s) \<Longrightarrow>
     finish_call c now (sy_inFlight s ! n) r (sy_breaker s) = (b, ev) \<Longrightarrow>
     circuit_step c s \<lparr>sy_breaker = b, sy_inFlight = remove_nth n (sy_inFlight s)\<rparr>"
| circuit_reports: "status now (sy_breaker s) = (st, b, ev) \<Longrightarrow> circuit_step c s (s\<lparr>sy_breaker := b\<rparr>)"

inductive_cases circuit_stepE: "circuit_step c s t"

definition circuit_start :: "circuit_system \<Rightarrow> bool" where
  "circuit_start s \<longleftrightarrow> s = \<lparr>sy_breaker = new_breaker, sy_inFlight = []\<rparr>"

text \<open>
  What holds at every moment: an open circuit has a reopen time and only then; a closed circuit
  is below the failure threshold; at most one probe is in flight, and the flag says so.
\<close>

definition circuit_ok :: "circuit_breaker_config \<Rightarrow> circuit_system \<Rightarrow> bool" where
  "circuit_ok c s \<longleftrightarrow>
     (br_state (sy_breaker s) = Open \<longleftrightarrow> br_openUntil (sy_breaker s) \<noteq> None)
     \<and> (br_state (sy_breaker s) = Closed \<longrightarrow> br_failures (sy_breaker s) < cb_failureThreshold c)
     \<and> length (filter (\<lambda>p. p) (sy_inFlight s)) = (if br_probeInFlight (sy_breaker s) then 1 else 0)"

lemma refresh_cases:
  obtains "refresh now b = (b, [])" and "br_state b = Open \<Longrightarrow> br_openUntil b = None \<or> now < the (br_openUntil b)"
  | until where "br_state b = Open" "br_openUntil b = Some until" "until \<le> now"
      "refresh now b = (b\<lparr>br_state := HalfOpen, br_openUntil := None\<rparr>, [StateChange HalfOpen None])"
proof (cases "\<exists>until. br_state b = Open \<and> br_openUntil b = Some until \<and> until \<le> now")
  case True
  then show thesis using that(2) by (auto simp: refresh_def circuit_transition_def)
next
  case False
  then show thesis using that(1) by (cases "br_openUntil b") (auto simp: refresh_def)
qed

lemma filter_remove_nth:
  "n < length xs \<Longrightarrow> length (filter p (remove_nth n xs)) = length (filter p xs) - (if p (xs ! n) then 1 else 0)"
proof -
  assume n: "n < length xs"
  define x where "x = xs ! n"
  have "filter p xs = filter p (take n xs) @ filter p (x # drop (Suc n) xs)"
    unfolding x_def using id_take_nth_drop [OF n] by (metis filter_append)
  then show ?thesis by (simp add: remove_nth_def flip: x_def)
qed

lemma circuit_ok_start: "0 < cb_failureThreshold c \<Longrightarrow> circuit_start s \<Longrightarrow> circuit_ok c s"
  by (simp add: circuit_start_def circuit_ok_def new_breaker_def)

lemma refresh_ok: "circuit_ok c s \<Longrightarrow> refresh now (sy_breaker s) = (b, ev) \<Longrightarrow> circuit_ok c (s\<lparr>sy_breaker := b\<rparr>)"
  by (rule refresh_cases [of now "sy_breaker s"]) (auto simp: circuit_ok_def)

lemma begin_call_cases:
  assumes "begin_call c now b = (a, b', ev)"
  obtains b1 ev1 where "refresh now b = (b1, ev1)"
    and "a = Admitted False \<and> br_state b1 = Closed \<and> b' = b1
       \<or> a = Admitted True \<and> br_state b1 = HalfOpen \<and> \<not> br_probeInFlight b1 \<and> b' = b1\<lparr>br_probeInFlight := True\<rparr>
       \<or> (\<exists>t. a = Refused t) \<and> b' = b1 \<and> (br_state b1 = Open \<or> br_state b1 = HalfOpen \<and> br_probeInFlight b1)"
proof -
  obtain b1 ev1 where r: "refresh now b = (b1, ev1)" by (cases "refresh now b")
  with assms show thesis
    by (intro that [of b1 ev1]; cases "br_state b1") (auto simp: begin_call_def Let_def split: if_splits)
qed

lemma finish_call_ok:
  assumes "circuit_ok c s" and "0 < cb_failureThreshold c" and n: "n < length (sy_inFlight s)"
    and "finish_call c now (sy_inFlight s ! n) r (sy_breaker s) = (b, ev)"
  shows "circuit_ok c \<lparr>sy_breaker = b, sy_inFlight = remove_nth n (sy_inFlight s)\<rparr>"
proof -
  let ?p = "sy_inFlight s ! n" and ?b = "sy_breaker s"
  have probe: "br_probeInFlight b = (br_probeInFlight ?b \<and> \<not> ?p)"
    using assms(4) by (auto simp: finish_call_def Let_def circuit_transition_def split: call_result.splits if_splits option.splits)
  have flag: "br_probeInFlight ?b" if ?p
  proof -
    from n have "?p \<in> set (sy_inFlight s)" by (rule nth_mem)
    with that have "?p \<in> set (filter (\<lambda>p. p) (sy_inFlight s))" by simp
    then have "length (filter (\<lambda>p. p) (sy_inFlight s)) \<noteq> 0" by (metis length_0_conv list.set(1) empty_iff)
    with assms(1) show ?thesis by (auto simp: circuit_ok_def split: if_splits)
  qed
  have state: "(br_state b = Open \<longleftrightarrow> br_openUntil b \<noteq> None) \<and> (br_state b = Closed \<longrightarrow> br_failures b < cb_failureThreshold c)"
    using assms(1,2,4) unfolding circuit_ok_def
    by (cases r) (auto simp: finish_call_def Let_def circuit_transition_def split: if_splits option.splits)
  show ?thesis using state probe flag assms(1) by (simp add: circuit_ok_def filter_remove_nth n)
qed

lemma circuit_step_ok:
  assumes "circuit_ok c s" "0 < cb_failureThreshold c" "circuit_step c s t"
  shows "circuit_ok c t"
  using assms(3)
proof cases
  case (circuit_rejects now t' b ev)
  then show ?thesis by (elim begin_call_cases) (auto intro: refresh_ok [OF assms(1)])
next
  case (circuit_admits now probe b ev)
  then obtain b1 ev1 where r: "refresh now (sy_breaker s) = (b1, ev1)"
    and "\<not> probe \<and> b = b1 \<or> probe \<and> br_state b1 = HalfOpen \<and> \<not> br_probeInFlight b1 \<and> b = b1\<lparr>br_probeInFlight := True\<rparr>"
    by (elim begin_call_cases) auto
  with refresh_ok [OF assms(1) r] circuit_admits(1) show ?thesis by (auto simp: circuit_ok_def)
next
  case (circuit_finishes n now r b ev)
  with finish_call_ok [OF assms(1,2)] show ?thesis by simp
next
  case (circuit_reports now st b ev)
  then show ?thesis by (cases "refresh now (sy_breaker s)") (auto simp: status_def intro: refresh_ok [OF assms(1)])
qed

text \<open>The invariant holds of every state a breaker with a positive threshold can reach.\<close>

definition circuit_inv :: "circuit_breaker_config \<Rightarrow> circuit_system \<Rightarrow> bool" where
  "circuit_inv c s \<longleftrightarrow> (0 < cb_failureThreshold c \<longrightarrow> circuit_ok c s)"

interpretation circuit: inductive_invariant circuit_start "circuit_step c" "circuit_inv c" for c
  by unfold_locales (auto simp: circuit_inv_def intro: circuit_ok_start circuit_step_ok)

end
