(* ===== verification/ConfigGuarantees.thy ===== *)
theory ConfigGuarantees
  imports Samples Schedule Circuit
begin

text \<open>
  What an accepted configuration and the components driven by it promise: operating hours and stage
  gates, model routing and provider dispatch, and the circuit breaker of the remote providers.
\<close>

section \<open>Operating hours and gates\<close>

text \<open>C31: For a schedule and a clock that pass validation, the operating hours decision is total and is
  what the calendar says: it is open exactly when some enabled day's window covers the moment,
  windows past midnight included, it may start exactly when at least the operation's minimum
  remains, and all of the minutes it reports as remaining are covered.\<close>

theorem operating_hours_follow_calendar:
  assumes "schedule_ok s" and "clock_ok c" and "wc_weekday c = weekday_of n" and "sch_enabled s"
  shows "\<exists>h r. operating_hours_for s opn c = Inr h \<and> oh_minutesRemaining h = Minutes r
    \<and> (oh_isOpen h \<longleftrightarrow> hours_cover s (of_int n * 1440 + current_minutes c))
    \<and> (oh_canStart h \<longleftrightarrow> oh_isOpen h \<and> minimum_minutes_for s opn \<le> r)
    \<and> (oh_isOpen h \<longrightarrow> 0 < r \<and> (\<forall>y. of_int n * 1440 + current_minutes c \<le> y
         \<and> y < of_int n * 1440 + current_minutes c + r \<longrightarrow> hours_cover s y))"
  by (rule operating_hours_cover [OF assms, of opn]) blast

definition sample_clock :: wall_clock where
  "sample_clock = \<lparr>wc_weekday = 1, wc_hour = 23, wc_minute = 30, wc_second = 0\<rparr>"

lemma operating_hours_follow_calendar_witness:
  "\<exists>h. operating_hours_for sample_schedule REVIEW sample_clock = Inr h
     \<and> (oh_isOpen h \<longleftrightarrow> hours_cover sample_schedule (of_int 0 * 1440 + current_minutes sample_clock))"
proof -
  have "schedule_ok sample_schedule" "clock_ok sample_clock" "sch_enabled sample_schedule" by code_simp+
  moreover have "wc_weekday sample_clock = weekday_of 0" by (simp add: sample_clock_def weekday_of_def)
  ultimately show ?thesis using operating_hours_follow_calendar by blast
qed

text \<open>The stage gate follows the operator's override: enabled lets everything start, disabled only the
  mechanical operations the configuration lets run outside hours; otherwise an operation starts
  within hours (an operation that uses AI only with the configured minutes left) or as a mechanical
  one outside them.\<close>

theorem gate_decision_is_exact:
  assumes "operation_gate s opn ov c = Inr g"
  shows "gd_operation g = opn \<and> (gd_mechanical g \<longleftrightarrow> is_mechanical_operation opn) \<and> (gd_permitted g \<longleftrightarrow>
    (case ov of
       OverrideEnabled \<Rightarrow> True
     | OverrideDisabled \<Rightarrow> is_mechanical_operation opn \<and> sch_allowMechanicalOperationsOutsideHours s
     | OverrideNormal \<Rightarrow>
         (\<exists>h. operating_hours_for s opn c = Inr h \<and> oh_canStart h
            \<and> (is_mechanical_operation opn
               \<or> \<not> shorter_than (oh_minutesRemaining h) (sch_startNewStepIfRemainingMinutesAtLeast s)))
         \<or> (is_mechanical_operation opn \<and> sch_allowMechanicalOperationsOutsideHours s
            \<and> (\<exists>h. operating_hours_for s opn c = Inr h \<and> \<not> oh_canStart h))))"
  using assms
  by (cases ov) (auto simp: operation_gate_def decision_def Let_def result_simps split: if_splits)

lemma gate_decision_is_exact_witness:
  "\<exists>g. operation_gate sample_schedule FIX OverrideDisabled sample_clock = Inr g \<and> \<not> gd_permitted g"
proof -
  have "\<not> is_mechanical_operation FIX" by code_simp
  moreover obtain g where "operation_gate sample_schedule FIX OverrideDisabled sample_clock = Inr g"
    by (rule succeedsE [of "operation_gate sample_schedule FIX OverrideDisabled sample_clock"]) code_simp
  ultimately show ?thesis using gate_decision_is_exact by fastforce
qed

text \<open>A stage that the heartbeat interrupts because the schedule closed cannot restart at the same
  instant: whenever a running stage is to be interrupted, the gate for that stage is shut, so the
  boundary pauses the task instead of running the stage again.\<close>

theorem interrupted_stage_is_not_permitted:
  assumes "should_interrupt_running_stage s st ov c = Inr True" and "stage_gate s st ov c = Inr (Some g)"
  shows "\<not> gd_permitted g"
proof -
  obtain opn where opn: "executable_stage_operations st = Some opn" and "ov \<noteq> OverrideEnabled"
    and "\<not> (is_mechanical_operation opn \<and> sch_allowMechanicalOperationsOutsideHours s)"
    and hrs: "ov = OverrideDisabled \<or> (\<exists>h. operating_hours_for s opn c = Inr h \<and> \<not> oh_isOpen h)"
    using assms(1) by (auto simp: should_interrupt_running_stage_def result_simps split: if_splits option.splits)
  have closed: "\<not> oh_canStart h" if "operating_hours_for s opn c = Inr h" "\<not> oh_isOpen h" for h
    using that by (auto simp: operating_hours_for_def result_simps split: if_splits prod.splits)
  show ?thesis
    using assms(2) opn \<open>ov \<noteq> OverrideEnabled\<close> \<open>\<not> (is_mechanical_operation opn \<and> _)\<close> hrs closed
    by (auto simp: stage_gate_def operation_gate_def decision_def Let_def result_simps split: if_splits)
qed

definition strict_schedule :: schedule_config where
  "strict_schedule = sample_schedule\<lparr>sch_finishCurrentStep := False\<rparr>"

definition noon :: wall_clock where
  "noon = \<lparr>wc_weekday = 1, wc_hour = 12, wc_minute = 0, wc_second = 0\<rparr>"

lemma interrupted_stage_is_not_permitted_witness:
  "\<exists>g. stage_gate strict_schedule IMPLEMENTING OverrideNormal noon = Inr (Some g) \<and> \<not> gd_permitted g"
proof -
  have "should_interrupt_running_stage strict_schedule IMPLEMENTING OverrideNormal noon = Inr True" by code_simp
  moreover obtain g where "operation_gate strict_schedule IMPLEMENTATION OverrideNormal noon = Inr g"
    by (rule succeedsE [of "operation_gate strict_schedule IMPLEMENTATION OverrideNormal noon"]) code_simp
  then have "stage_gate strict_schedule IMPLEMENTING OverrideNormal noon = Inr (Some g)"
    by (simp add: stage_gate_def executable_stage_operations_def)
  ultimately show ?thesis using interrupted_stage_is_not_permitted by blast
qed

section \<open>Routing and dispatch\<close>

text \<open>C32: In an accepted configuration that runs agents, every route an attempt can take (each rung of an
  escalation ladder, the routing table, the pinned analyzer and reviewer) resolves to a model of
  its own tier, and the registry is built and hands a run to the adapter of exactly the provider
  the selection names.\<close>

theorem accepted_routes_are_served:
  assumes "accepted z c" and "os_runAgents (c_orchestrator c)" and "runner_kind_ok c"
    and "rt_tier r \<in> set (reachable_tiers c)"
  shows "\<exists>m hs h. resolve_route c r = Inr m \<and> ms_tier m = rt_tier r \<and> ms_effort m = rt_effort r
    \<and> create_provider_registry (create_adapter codex cli) c = Inr hs
    \<and> for_selection hs m = Some h \<and> ph_alias h = ms_provider m
    \<and> (\<forall>failed q. dispatch_run hs failed m q = ph_runner h q)"
proof -
  obtain m where m: "resolve_route c r = Inr m" "ms_tier m = rt_tier r" "ms_effort m = rt_effort r"
    "ms_provider m \<in> rp_alias ` set (effective_providers c)"
    by (rule accepted_route_resolves [OF assms(1,2,4)])
  obtain hs where hs: "create_provider_registry (create_adapter codex cli) c = Inr hs"
    "list_all2 (\<lambda>p h. to_handle (create_adapter codex cli) c p = Inr h) (effective_providers c) hs"
    by (rule accepted_registry [OF assms(1-3)])
  obtain h where "for_selection hs m = Some h" "ph_alias h = ms_provider m"
    by (rule selection_served [OF hs(2) m(4)])
  then show ?thesis using m hs(1) by (auto simp: dispatch_run_def)
qed

lemma accepted_routes_are_served_witness:
  "\<exists>m. resolve_route sample_config (mk_route ''sol'' EffortMax) = Inr m \<and> ms_tier m = ''sol''"
proof -
  have "accepted (\<lambda>_. True) sample_config" "os_runAgents (c_orchestrator sample_config)" "runner_kind_ok sample_config"
    by code_simp+
  moreover have "rt_tier (mk_route ''sol'' EffortMax) \<in> set (reachable_tiers sample_config)" by code_simp
  ultimately show ?thesis
    using accepted_routes_are_served [where codex = "\<lambda>_ (_ :: unit). ()" and cli = "\<lambda>_ _ _ _. ()"]
    by (fastforce simp: mk_route_def)
qed

text \<open>Escalation is bounded and total: in an accepted configuration the implementation attempt \<open>n\<close> has a
  rung exactly while it is within the attempt limit and the ladder, and that rung is the ladder's
  \<open>n\<close>-th route, resolved.\<close>

theorem escalation_follows_ladder:
  assumes "accepted z c" and "os_runAgents (c_orchestrator c)"
  shows "if 1 \<le> n \<and> n \<le> lm_maxImplementationAttempts (c_limits c) \<and> n \<le> int (length (escalation_ladder c x))
    then \<exists>m. escalation_step c x n = Inr (Some m) \<and> resolve_route c (escalation_ladder c x ! nat (n - 1)) = Inr m
    else escalation_step c x n = Inr None"
proof (cases "1 \<le> n \<and> n \<le> lm_maxImplementationAttempts (c_limits c) \<and> n \<le> int (length (escalation_ladder c x))")
  case True
  then have k: "nat (n - 1) < length (escalation_ladder c x)" by linarith
  have "rt_tier (escalation_ladder c x ! nat (n - 1)) \<in> set (reachable_tiers c)"
    by (rule reachable_ladder [OF nth_mem [OF k]])
  then obtain m where "resolve_route c (escalation_ladder c x ! nat (n - 1)) = Inr m"
    by (rule accepted_route_resolves [OF assms])
  then show ?thesis using True k by (simp add: escalation_step_def Let_def)
next
  case False
  then show ?thesis by (auto simp: escalation_step_def Let_def)
qed

lemma escalation_follows_ladder_witness:
  "escalation_step sample_config High 5 = Inr None \<and> (\<exists>m. escalation_step sample_config High 2 = Inr (Some m))"
proof -
  have a: "accepted (\<lambda>_. True) sample_config" "os_runAgents (c_orchestrator sample_config)" by code_simp+
  have "lm_maxImplementationAttempts (c_limits sample_config) = 4" "length (escalation_ladder sample_config High) = 3"
    by code_simp+
  with escalation_follows_ladder [OF a, of 5 High] escalation_follows_ladder [OF a, of 2 High]
  show ?thesis by auto
qed


section \<open>Circuit breaker\<close>

text \<open>In every reachable state of a circuit breaker with a positive threshold, under any number of
  overlapping calls: the circuit has a reopen time exactly while it is open, a closed circuit is
  below its failure threshold, and at most one probe call is in flight.\<close>

theorem circuit_is_consistent:
  assumes "reaches circuit_start (circuit_step c) s" and "0 < cb_failureThreshold c"
  shows "circuit_ok c s"
  using circuit.always [OF assms(1)] assms(2) by (simp add: circuit_inv_def)

lemma circuit_is_consistent_witness:
  "\<exists>s. reaches circuit_start (circuit_step (c_circuitBreaker sample_config)) s \<and> sy_inFlight s = [False]
     \<and> circuit_ok (c_circuitBreaker sample_config) s"
proof -
  let ?c = "c_circuitBreaker sample_config"
  have "reaches circuit_start (circuit_step ?c) \<lparr>sy_breaker = new_breaker, sy_inFlight = []\<rparr>"
    by (rule reaches_init) (simp add: circuit_start_def)
  moreover have "begin_call ?c 5 new_breaker = (Admitted False, new_breaker, [])" by code_simp
  then have "circuit_step ?c \<lparr>sy_breaker = new_breaker, sy_inFlight = []\<rparr> \<lparr>sy_breaker = new_breaker, sy_inFlight = [False]\<rparr>"
    using circuit_admits [of ?c 5 "\<lparr>sy_breaker = new_breaker, sy_inFlight = []\<rparr>" False] by simp
  ultimately have "reaches circuit_start (circuit_step ?c) \<lparr>sy_breaker = new_breaker, sy_inFlight = [False]\<rparr>"
    by (rule reaches_step)
  moreover have "0 < cb_failureThreshold ?c" by code_simp
  ultimately show ?thesis using circuit_is_consistent by fastforce
qed

text \<open>An open circuit keeps the provider untouched: before its reopen time a guarded call fails with
  that time, without running the operation and without moving the time.\<close>

theorem open_circuit_refuses:
  assumes "br_state b = Open" and "br_openUntil b = Some until" and "t1 < until"
  shows "guard_call classify rejected c t1 t2 opn (b, w) = (Inl (rejected until), b, w)"
  using assms by (simp add: guard_call_def begin_call_def refresh_def Let_def)

lemma open_circuit_refuses_witness:
  "guard_call classify_linear (rejected_github show_int ''github'') (c_circuitBreaker sample_config) 5 6
     (\<lambda>n. (Inr n, Suc n)) (new_breaker\<lparr>br_state := Open, br_openUntil := Some 9\<rparr>, 0 :: nat)
   = (Inl (rejected_github show_int ''github'' 9), new_breaker\<lparr>br_state := Open, br_openUntil := Some 9\<rparr>, 0)"
  by (rule open_circuit_refuses) simp_all

end
