(* ===== verification/LedgerGuarantees.thy ===== *)
theory LedgerGuarantees
  imports TaskGuarantees
begin

text \<open>
  What the side tables of a task promise: workspace identities, checkpoints, the log of stage
  attempts, intent records of external operations, operator controls and retention.
\<close>

section \<open>Attempts\<close>

text \<open>Starting a stage attempt keeps the attempt log of every stage of every task well-formed: runs are
  numbered from 1 without gaps and only the last may be open. The number returned is that of the
  open run, which is now the last; a run that was interrupted before completing is restarted under
  its own number rather than counted again, and the logs of other stages are untouched.\<close>

theorem attempts_are_numbered:
  assumes "start_attempt uid clk i s w payload d = Inr (n, d')"
    and "log_ok (attempts_in i s d)" and "attempt_ids_ok d"
  shows "log_ok (attempts_in i s d') \<and> n = int (length (attempts_in i s d'))
    \<and> n = int (length (finished (attempts_in i s d))) + 1
    \<and> at_completedAt (last (attempts_in i s d')) = None
    \<and> (\<forall>i' s'. (i', s') \<noteq> (i, s) \<longrightarrow> attempts_in i' s' d' = attempts_in i' s' d)"
proof -
  obtain a where a: "attempts_in i s d' = finished (attempts_in i s d) @ [a]" "at_attempt a = n"
    "n = int (length (finished (attempts_in i s d))) + 1" "at_completedAt a = None"
    "\<And>i' s'. (i', s') \<noteq> (i, s) \<Longrightarrow> attempts_in i' s' d' = attempts_in i' s' d"
    by (rule start_attempt_log [OF assms]) blast
  have "log_ok (finished (attempts_in i s d) @ [a])"
    by (rule log_ok_finished_snoc [OF assms(2)]) (simp add: a(2,3))
  then show ?thesis using a by simp
qed

definition one_attempt :: "time option \<Rightarrow> database" where
  "one_attempt fin = (sample_store [QUEUED, ANALYZING] (Some ''w''))
     \<lparr>db_attempts := [\<lparr>at_id = ''a1'', at_taskId = ''t1'', at_stage = ANALYZING, at_attempt = 1,
        at_failureCategory = None, at_input = None, at_result = None, at_evidence = None, at_usage = None,
        at_startedAt = 0, at_completedAt = fin\<rparr>]\<rparr>"

lemma attempts_are_numbered_witness:
  "\<exists>d'. start_attempt ''a2'' 5 ''t1'' ANALYZING ''w'' JNull (one_attempt (Some 3)) = Inr (2, d')"
proof -
  have len: "length (finished (attempts_in ''t1'' ANALYZING (one_attempt (Some 3)))) = 1" by code_simp
  have "log_ok (attempts_in ''t1'' ANALYZING (one_attempt (Some 3)))" by code_simp
  moreover have "attempt_ids_ok (one_attempt (Some 3))" by code_simp
  moreover obtain n d' where "start_attempt ''a2'' 5 ''t1'' ANALYZING ''w'' JNull (one_attempt (Some 3)) = Inr (n, d')"
    by (rule succeedsE [of "start_attempt ''a2'' 5 ''t1'' ANALYZING ''w'' JNull (one_attempt (Some 3))"])
      (code_simp, metis surj_pair)
  ultimately show ?thesis using attempts_are_numbered len by fastforce
qed

section \<open>External operations\<close>

text \<open>The first record of an idempotency key wins: once a key is recorded, every later begin with that
  key returns the recorded row, reports it as not created and writes nothing; a key that is new is
  recorded as pending, exactly once, and no other key's record changes.\<close>

theorem first_intent_wins:
  assumes "begin_external_operation uid clk r d = Inr ((x, created), d')"
  shows "(created \<longleftrightarrow> operation_with (or_idempotencyKey r) d = None)
    \<and> (created \<longrightarrow> xo_status x = ''PENDING'')
    \<and> begin_external_operation uid' clk' (r\<lparr>or_request := q\<rparr>) d' = Inr ((x, False), d')
    \<and> (\<not> created \<longrightarrow> d' = d)
    \<and> (\<forall>key. key \<noteq> or_idempotencyKey r \<longrightarrow> operation_with key d' = operation_with key d)"
proof -
  note i = begin_external_operation_Inr [OF assms]
  have "begin_external_operation uid' clk' (r\<lparr>or_request := q\<rparr>) d' = Inr ((x, False), d')"
    using i(1) by (simp add: begin_external_operation_def operation_with_def)
  then show ?thesis using i(2-5) by blast
qed

definition sample_request :: operation_request where
  "sample_request = \<lparr>or_taskId = ''t1'', or_operationType = ''PUSH_BRANCH'', or_idempotencyKey = ''push:t1'',
     or_request = JNull\<rparr>"

lemma first_intent_wins_witness:
  "\<exists>x d'. begin_external_operation ''x2'' 6 (sample_request\<lparr>or_request := JObj []\<rparr>) d' = Inr ((x, False), d')"
proof -
  obtain x c d' where "begin_external_operation ''x1'' 5 sample_request (sample_store [QUEUED] None) = Inr ((x, c), d')"
    by (rule succeedsE [of "begin_external_operation ''x1'' 5 sample_request (sample_store [QUEUED] None)"])
      (code_simp, metis surj_pair)
  from first_intent_wins [OF this] show ?thesis by blast
qed

section \<open>Workspaces and checkpoints\<close>

text \<open>A recorded workspace belongs to one work unit: after a worker has recorded a workspace for a
  repository of its task, no other work unit has that path, and none of the same repository has
  that branch; the worker held the lease.\<close>

theorem workspace_identity_is_exclusive:
  assumes "record_work_unit_workspace clk i w v d = Inr (u, d')"
  shows "leased_by i w d \<and> (\<forall>x \<in> set (db_workUnits d'). x = u
    \<or> wu_workspacePath x \<noteq> Some (wi_workspacePath v)
      \<and> (wu_repository x = wi_repository v \<longrightarrow> wu_branch x \<noteq> Some (wi_branch v)))"
  using record_work_unit_workspace_exclusive [OF assms] update_unit_Inr(1) [OF assms [unfolded record_work_unit_workspace_def]]
  by blast

definition unit_store :: database where
  "unit_store = (sample_store [QUEUED, ANALYZING] (Some ''w''))
     \<lparr>db_workUnits := [\<lparr>wu_id = ''u1'', wu_taskId = ''t1'', wu_repository = ''api'', wu_state = QUEUED,
        wu_outcome = None, wu_workspacePath = None, wu_branch = None, wu_baseCommit = None,
        wu_workspaceReleasedAt = None, wu_workspaceCleanupBlockedReason = None, wu_pushedCommit = None,
        wu_pullRequestNumber = None, wu_pullRequestUrl = None, wu_mergeCommit = None,
        wu_deliveryObservation = None, wu_deliveryObservedAt = None, wu_createdAt = 0, wu_updatedAt = 0\<rparr>]\<rparr>"

definition sample_identity :: workspace_identity where
  "sample_identity = \<lparr>wi_repository = ''api'', wi_workspacePath = ''/w/t1/api'', wi_branch = ''agent/t1'', wi_baseCommit = ''c0''\<rparr>"

lemma workspace_identity_is_exclusive_witness: "leased_by ''t1'' ''w'' unit_store"
proof -
  obtain u d' where "record_work_unit_workspace 5 ''t1'' ''w'' sample_identity unit_store = Inr (u, d')"
    by (rule succeedsE [of "record_work_unit_workspace 5 ''t1'' ''w'' sample_identity unit_store"])
      (code_simp, metis surj_pair)
  from workspace_identity_is_exclusive [OF this] show ?thesis by blast
qed

text \<open>A checkpoint reads back as it was last written: recording under a task and key replaces what
  that task and key read, under whatever stage it is written, and nothing else.\<close>

theorem checkpoint_reads_last_write:
  assumes "record_checkpoint clk i s k p d = Inr d'"
  shows "get_checkpoint i' k' d' = (if i' = i \<and> k' = k then Some p else get_checkpoint i' k' d)"
  by (rule get_after_record_checkpoint [OF assms])

lemma checkpoint_reads_last_write_witness:
  "\<exists>d'. get_checkpoint ''t1'' ''quality-passed'' d' = Some JNull"
proof -
  obtain d' where "record_checkpoint 5 ''t1'' TESTING ''quality-passed'' JNull (sample_store [QUEUED] None) = Inr d'"
    by (rule succeedsE [of "record_checkpoint 5 ''t1'' TESTING ''quality-passed'' JNull (sample_store [QUEUED] None)"])
      code_simp
  from checkpoint_reads_last_write [OF this, of "''t1''" "''quality-passed''"] show ?thesis by auto
qed

section \<open>Retention\<close>

text \<open>Retention never touches live work: the attempts and checkpoints of every task that is not
  completed or cancelled are exactly as before, and for every task the audit trail, the external
  operations, the task rows and the attempt rows themselves stay; only evidence is blanked.\<close>

theorem retention_keeps_live_work:
  "((\<forall>t \<in> set (db_tasks d). t_id t = i \<longrightarrow> t_state t \<notin> {COMPLETED, CANCELLED})
      \<longrightarrow> attempts_in i s (snd (prune tb qb d)) = attempts_in i s d
        \<and> get_checkpoint i k (snd (prune tb qb d)) = get_checkpoint i k d)
    \<and> db_tasks (snd (prune tb qb d)) = db_tasks d \<and> db_transitions (snd (prune tb qb d)) = db_transitions d
    \<and> db_operations (snd (prune tb qb d)) = db_operations d
    \<and> db_actions (snd (prune tb qb d)) = db_actions d
    \<and> map at_id (db_attempts (snd (prune tb qb d))) = map at_id (db_attempts d)"
  using prune_keeps_live [of d i] prune_keeps_audit prune_frame [of d tb qb]
  by (auto simp: same_tasks_def)

lemma retention_keeps_live_work_witness:
  "attempts_in ''t1'' ANALYZING (snd (prune 1000 1000 (one_attempt None))) = attempts_in ''t1'' ANALYZING (one_attempt None)"
proof -
  have "\<forall>t \<in> set (db_tasks (one_attempt None)). t_id t = ''t1'' \<longrightarrow> t_state t \<notin> {COMPLETED, CANCELLED}" by code_simp
  with retention_keeps_live_work [of "one_attempt None" "''t1''" ANALYZING 1000 1000] show ?thesis by blast
qed

end
