(* ===== verification/RunGuarantees.thy ===== *)
theory RunGuarantees
  imports Scheduler Lifecycle IntakeGuarantees ConfigGuarantees LedgerGuarantees
begin

text \<open>
  What holds of whole runs: of every sequence of repository operations, of the run of a claimed task
  whatever the rest of the system does in between, and of the tick of a scheduler process.
\<close>

section \<open>The repository under any interleaving\<close>

definition second_claim :: claim_input where
  "second_claim = sample_claim\<lparr>ci_maxConcurrentTasks := Some 5\<rparr>"

definition claimed_intake :: "(orch_error, task_row option \<times> database) result" where
  "claimed_intake = claim_next_task 7 [] second_claim (snd first_intake)"

lemma claimed_intake_reachable:
  assumes "claimed_intake = Inr (r, d)"
  shows "reaches (\<lambda>d. d = empty_database) repository_step d"
proof (rule reaches_step)
  show "reaches (\<lambda>d. d = empty_database) repository_step (snd first_intake)"
    by (rule reaches_step [OF reaches_init]) (auto simp: first_intake_def intro: intake_persisted)
  show "repository_step (snd first_intake) d"
    using assms unfolding claimed_intake_def by (rule claimed)
qed

text \<open>C1: Whatever repository operations the workers, the intake and the operators commit, and in
  whatever order, the task store stays well-formed: task ids are unique, every task's state is the
  end of its recorded path from \<open>QUEUED\<close>, a paused task has a state it may resume in, and a
  lease has an owner exactly when it has an expiry.\<close>

theorem reachable_stores_are_well_formed:
  assumes "reaches (\<lambda>d. d = empty_database) repository_step d"
  shows "unique_task_ids d
    \<and> (\<forall>t \<in> set (db_tasks d). follows QUEUED (history_of (t_id t) d) (t_state t)
        \<and> (is_paused (t_state t) \<longrightarrow> (\<exists>r. t_resumeState t = Some r \<and> can_transition (t_state t) r))
        \<and> (t_leaseOwner t = None \<longleftrightarrow> t_leaseExpiresAt t = None))"
proof -
  have ok: "store_ok d" by (rule repository.always [OF assms])
  with store_okD(2) [OF ok] store_okD(1,3) show ?thesis by (auto simp: row_ok_def)
qed

lemma claimed_intake_succeeds: "finds claimed_intake"
  by code_simp

lemma reachable_stores_are_well_formed_witness:
  "\<exists>t d. claimed_intake = Inr (Some t, d) \<and> unique_task_ids d"
  using claimed_intake_succeeds reachable_stores_are_well_formed claimed_intake_reachable by (blast elim: findsE)

text \<open>C2: The repository refines the task state machine: under one operation a task that was not
  there appears in \<open>QUEUED\<close> or not at all, and a present task keeps its state or moves along one
  transition that \<open>canTransition\<close> allows.\<close>

theorem repository_refines_machine:
  assumes "store_ok d" and "repository_step d d'"
  shows "case states_of d i of
      None \<Rightarrow> states_of d' i = None \<or> states_of d' i = Some QUEUED
    | Some s \<Rightarrow> states_of d' i = Some s \<or> (\<exists>s'. states_of d' i = Some s' \<and> can_transition s s')"
  using machine.simulated [OF assms] by (simp add: machine_step_def)

lemma repository_refines_machine_witness:
  "\<exists>t d. claim_next_task 7 [] sample_claim (sample_store [QUEUED] None) = Inr (Some t, d)
     \<and> (states_of d ''t1'' = Some QUEUED \<or> (\<exists>s'. states_of d ''t1'' = Some s' \<and> can_transition QUEUED s'))"
proof -
  have ok: "store_ok (sample_store [QUEUED] None)" by code_simp
  have "finds (claim_next_task 7 [] sample_claim (sample_store [QUEUED] None))" by code_simp
  then obtain t d where step: "claim_next_task 7 [] sample_claim (sample_store [QUEUED] None) = Inr (Some t, d)"
    by (rule findsE)
  have "states_of (sample_store [QUEUED] None) ''t1'' = Some QUEUED" by code_simp
  with repository_refines_machine [OF ok claimed [OF step], of "''t1''"] step show ?thesis by auto
qed

text \<open>A final state is final: once a task of a well-formed store is completed or cancelled it stays
  so, whatever operations follow.\<close>

theorem final_states_are_permanent:
  assumes "store_ok d" and "repository_step\<^sup>*\<^sup>* d d'" and "states_of d i = Some s"
    and "s \<in> {COMPLETED, CANCELLED}"
  shows "states_of d' i = Some s"
  using machine_final [OF conjunct2 [OF machine.run [OF assms(2,1)]] assms(3)] assms(4)
  by (auto simp: terminal_states_def)

lemma final_states_are_permanent_witness:
  "\<exists>d. repository_step (sample_store [QUEUED, CANCELLED] None) d \<and> states_of d ''t1'' = Some CANCELLED"
proof -
  let ?d = "sample_store [QUEUED, CANCELLED] None"
  obtain e where step: "repository_step ?d e"
    by (rule that [OF controlled [of _ 0 id PAUSE_NEW_WORK sample_operator "[]"]])
  have ok: "store_ok ?d" by code_simp
  have "states_of ?d ''t1'' = Some CANCELLED" by code_simp
  from final_states_are_permanent [OF ok r_into_rtranclp [where r = repository_step, OF step] this] step
  show ?thesis by blast
qed

section \<open>A sample worker\<close>

definition sample_handler :: "task_row \<Rightarrow> unit stage_code" where
  "sample_handler t = Access (\<lambda>v w. w) (\<lambda>v w. Finished (Inr (Wait 500 ''later'' None)))"

definition sample_worker :: "unit worker_options" where
  "sample_worker = \<lparr>wo_config = sample_config, wo_timing = timing_of (c_orchestrator sample_config),
     wo_workerId = ''w'', wo_forceKillSwitch = False, wo_zone = (\<lambda>_. sample_clock),
     wo_handlers = [(ANALYZING, sample_handler)]\<rparr>"

definition quiet :: "nat \<Rightarrow> interference" where
  "quiet n = \<lparr>if_db = (\<lambda>d. d), if_now = int n, if_beat = (n = 3), if_refresh = (n = 2), if_stopping = False\<rparr>"

definition fresh_run :: "database \<Rightarrow> unit run_state" where
  "fresh_run d = \<lparr>rn_at = 0, rn_db = d, rn_ext = (), rn_now = 0, rn_controls = default_controls,
     rn_stopping = False, rn_holds = [], rn_signal = None, rn_leaseLost = False, rn_log = []\<rparr>"

lemma quiet_keeps: "others_keep I quiet"
  by (simp add: others_keep_def quiet_def)

lemma sample_worker_keeps: "handlers_keep I sample_worker"
  by (simp add: handlers_keep_def sample_worker_def sample_handler_def)

definition ends_with :: "run_end \<Rightarrow> (run_end \<times> unit run_state) option \<Rightarrow> bool" where
  "ends_with r x = (case x of None \<Rightarrow> False | Some (q, s) \<Rightarrow> q = r)"

lemma ends_withE:
  assumes "ends_with r x" obtains s where "x = Some (r, s)"
  using assms by (auto simp: ends_with_def split: option.splits)

lemma sample_run: "ends_with EndWaiting (run_task 1 sample_worker quiet ''t1'' (fresh_run (sample_store [QUEUED, ANALYZING] (Some ''w''))))"
  by code_simp

section \<open>The run of a claimed task\<close>

text \<open>C3: A run hands its task back: whatever other workers and operators do meanwhile, when the run
  ends other than by losing the lease or failing to write, the task is unleased; a cancelled run
  leaves it cancelled, a provider limit leaves it paused with a time and a state to resume, a wait
  leaves a time to resume, and a failed stage leaves the error and the manual-intervention flag.\<close>

theorem worker_hands_over:
  assumes "others_keep store_ok env" and "handlers_keep store_ok o'" and "store_ok (rn_db s)"
    and "run_task n o' env tid s = Some (r, s')" and "r \<notin> {EndLeaseLost, EndNotHeld, EndHandoffFailed}"
  shows "\<exists>t. select_task tid (rn_db s') = Some t \<and> t_leaseOwner t = None
    \<and> (r = EndCancelled \<longrightarrow> t_state t = CANCELLED)
    \<and> (r = EndPausedLimit \<longrightarrow> t_state t = PAUSED_LIMIT \<and> t_resumeAfter t \<noteq> None \<and> t_resumeState t \<noteq> None)
    \<and> (r = EndWaiting \<longrightarrow> t_resumeAfter t \<noteq> None)
    \<and> (r = EndFailed \<longrightarrow> t_requiresManualIntervention t \<and> t_lastError t \<noteq> None)"
proof -
  have "handed_over r tid (rn_db s')"
    by (rule run_task_handed_over [OF assms(1-4)]) (use assms(5) in \<open>simp add: writes_last_def\<close>)
  then show ?thesis by (auto simp: handed_over_def split: option.splits)
qed

lemma worker_hands_over_witness:
  "\<exists>s' t. run_task 1 sample_worker quiet ''t1'' (fresh_run (sample_store [QUEUED, ANALYZING] (Some ''w''))) = Some (EndWaiting, s')
     \<and> select_task ''t1'' (rn_db s') = Some t \<and> t_leaseOwner t = None \<and> t_resumeAfter t \<noteq> None"
proof -
  from sample_run obtain s' where run:
    "run_task 1 sample_worker quiet ''t1'' (fresh_run (sample_store [QUEUED, ANALYZING] (Some ''w''))) = Some (EndWaiting, s')"
    by (rule ends_withE)
  have ok: "store_ok (rn_db (fresh_run (sample_store [QUEUED, ANALYZING] (Some ''w''))))" by code_simp
  from worker_hands_over [OF quiet_keeps sample_worker_keeps ok run] run show ?thesis by auto
qed


definition first_start :: "(run_end \<times> unit run_state) option \<Rightarrow> (task_row \<times> controls \<times> time) option" where
  "first_start x = (case x of None \<Rightarrow> None | Some (r, s) \<Rightarrow>
     (case starts s of StageStarted t c n # es \<Rightarrow> Some (t, c, n) | _ \<Rightarrow> None))"


text \<open>The worker itself never touches the row of another task: if neither the stages nor the rest of
  the system do, then at the end of the run every other task has the row it had.\<close>

theorem worker_keeps_other_tasks:
  assumes "others_keep (other_rows_kept tid d) env" and "handlers_keep (other_rows_kept tid d) o'"
    and "run_task n o' env tid s = Some (r, s')" and "rn_db s = d"
    and "t \<in> set (db_tasks d)" and "t_id t \<noteq> tid"
  shows "t \<in> set (db_tasks (rn_db s'))"
proof -
  have "other_rows_kept tid d (rn_db s)" by (simp add: other_rows_kept_def assms(4))
  from rows_kept.run_task_keeps [OF assms(1,2) this assms(3)] assms(5,6) show ?thesis
    by (simp add: other_rows_kept_def)
qed

definition two_tasks :: database where
  "two_tasks = (sample_store [QUEUED, ANALYZING] (Some ''w''))
     \<lparr>db_tasks := [sample_task ANALYZING (Some ''w''), (sample_task QUEUED None)\<lparr>t_id := ''t2'', t_linearIssueId := ''lin2''\<rparr>]\<rparr>"

lemma worker_keeps_other_tasks_witness:
  "\<exists>s'. run_task 1 sample_worker quiet ''t1'' (fresh_run two_tasks) = Some (EndWaiting, s')
     \<and> (sample_task QUEUED None)\<lparr>t_id := ''t2'', t_linearIssueId := ''lin2''\<rparr> \<in> set (db_tasks (rn_db s'))"
proof -
  have "ends_with EndWaiting (run_task 1 sample_worker quiet ''t1'' (fresh_run two_tasks))" by code_simp
  then obtain s' where run: "run_task 1 sample_worker quiet ''t1'' (fresh_run two_tasks) = Some (EndWaiting, s')"
    by (rule ends_withE)
  have db: "rn_db (fresh_run two_tasks) = two_tasks" by (simp add: fresh_run_def)
  have mem: "(sample_task QUEUED None)\<lparr>t_id := ''t2'', t_linearIssueId := ''lin2''\<rparr> \<in> set (db_tasks two_tasks)"
    by (simp add: two_tasks_def)
  from worker_keeps_other_tasks [OF quiet_keeps sample_worker_keeps run db mem] run show ?thesis by simp
qed

text \<open>C40: Shutdown ends a run at its next stage boundary: a run that is told to stop returns after at
  most one more boundary, whatever the state of the task, the store and the handlers.\<close>

theorem shutdown_ends_run:
  assumes "rn_stopping s" and "0 < n"
  shows "\<exists>r s'. run_task n o' env tid s = Some (r, s')"
proof -
  obtain r s' where "run_task (Suc 0) o' env tid s = Some (r, s')" by (rule run_task_stopping [OF assms(1)])
  from run_task_more [OF this, of "n - 1"] assms(2) show ?thesis by auto
qed

lemma shutdown_ends_run_witness:
  "\<exists>r s'. run_task 3 sample_worker quiet ''t1''
     ((fresh_run (sample_store [QUEUED, ANALYZING] (Some ''w'')))\<lparr>rn_stopping := True\<rparr>) = Some (r, s')"
  by (rule shutdown_ends_run) simp_all

section \<open>The tick\<close>

definition sample_scheduler :: "unit scheduler_options" where
  "sample_scheduler = \<lparr>so_worker = sample_worker, so_dryRun = False, so_listIssues = (\<lambda>_. Inr []),
     so_maintenance = [], so_library = sample_library, so_localeCompare = (\<le>),
     so_taskId = (\<lambda>_. task_ids), so_unitId = (\<lambda>_. unit_ids)\<rparr>"

definition passing :: "nat \<Rightarrow> between" where
  "passing n = \<lparr>bt_db = (\<lambda>d. d), bt_now = int n, bt_date = int n, bt_stopping = False, bt_inFlight = (\<lambda>xs. xs), bt_locked = []\<rparr>"

definition fresh_process :: "database \<Rightarrow> process_state" where
  "fresh_process d = \<lparr>pc_at = 0, pc_db = d, pc_now = 0, pc_date = 0, pc_locked = [], pc_stopping = False,
     pc_controls = None, pc_inFlight = [], pc_holds = [], pc_lastTick = \<lparr>lt_startedAt = None, lt_completedAt = None, lt_error = None\<rparr>,
     pc_lastIntake = None\<rparr>"

lemma passing_keeps: "between_keeps I passing"
  by (simp add: between_keeps_def passing_def)

lemma sample_scheduler_keeps: "maintenance_keeps I sample_scheduler"
  by (simp add: maintenance_keeps_def sample_scheduler_def)

definition ticked :: "(task_row list \<times> process_state) option \<Rightarrow> task_row list" where
  "ticked x = (case x of None \<Rightarrow> [] | Some (ts, s) \<Rightarrow> ts)"



text \<open>C27: Every tick completes: when the clock moves between two accesses, the claim loops of both lanes
  end within a polling interval each, so the tick returns, and it then records its completion.\<close>

theorem tick_completes_in_time:
  assumes "clock_moves tenv" and "nat (tm_pollIntervalMs (wo_timing (so_worker so))) + 1 < n"
  shows "\<exists>ts s'. tick n so tenv s = Some (ts, s') \<and> lt_completedAt (pc_lastTick s') = Some (pc_now s')"
proof -
  obtain ts s' where "tick n so tenv s = Some (ts, s')" using tick_returns [OF assms] by fast
  with tick_completes [OF this] show ?thesis by blast
qed

lemma tick_completes_in_time_witness:
  "\<exists>ts s'. tick 60002 sample_scheduler passing (fresh_process (sample_store [QUEUED] None)) = Some (ts, s')
     \<and> lt_completedAt (pc_lastTick s') = Some (pc_now s')"
proof (rule tick_completes_in_time)
  show "clock_moves passing" by (simp add: clock_moves_def passing_def)
  show "nat (tm_pollIntervalMs (wo_timing (so_worker sample_scheduler))) + 1 < 60002"
    by (simp add: sample_scheduler_def sample_worker_def timing_of_def sample_config_def)
qed

text \<open>A dry run writes nothing and claims nothing, whatever the controls and the Linear provider say.\<close>

theorem dry_run_changes_nothing:
  assumes "so_dryRun so" and "\<forall>n d. bt_db (tenv n) d = d" and "tick n so tenv s = Some (ts, s')"
  shows "pc_db s' = pc_db s \<and> ts = []"
  using dry_run_writes_nothing [OF assms(1) _ assms(3)] assms(2) by blast

lemma dry_run_changes_nothing_witness:
  "\<exists>s'. tick 3 (sample_scheduler\<lparr>so_dryRun := True\<rparr>) passing (fresh_process (sample_store [QUEUED] None)) = Some ([], s')
     \<and> pc_db s' = sample_store [QUEUED] None"
proof -
  let ?x = "tick 3 (sample_scheduler\<lparr>so_dryRun := True\<rparr>) passing (fresh_process (sample_store [QUEUED] None))"
  have "(case ?x of None \<Rightarrow> False | Some y \<Rightarrow> True)" by code_simp
  then obtain ts s' where x: "?x = Some (ts, s')" by (auto split: option.splits)
  from dry_run_changes_nothing [OF _ _ x] x show ?thesis by (simp add: passing_def fresh_process_def)
qed

end
