(* ===== verification/Patterns.thy ===== *)
theory Patterns
  imports Prelude
begin

text \<open>
  Regular expressions as the program uses them. \<open>ends r s i\<close> lists the positions at which a match of
  \<open>r\<close> that starts at position \<open>i\<close> of \<open>s\<close> can end, in the order a backtracking matcher tries them, so
  that its head is the match JavaScript reports. \<open>denotes\<close> is the language of an expression without
  word boundaries, and the two agree.
\<close>

section \<open>Expressions\<close>

datatype rx =
    Eps
  | Cls "char \<Rightarrow> bool"
  | Seq rx rx
  | Alt rx rx
  | Star rx
  | Bnd

definition word_char :: "char \<Rightarrow> bool" where
  "word_char c = (is_lower c \<or> is_upper c \<or> is_digit c \<or> c = CHR ''_'')"

definition word_at :: "string \<Rightarrow> nat \<Rightarrow> bool" where
  "word_at s i = (i < length s \<and> word_char (s ! i))"

text \<open>The position between \<open>i - 1\<close> and \<open>i\<close> is a boundary (\<open>\b\<close>).\<close>

definition boundary_at :: "string \<Rightarrow> nat \<Rightarrow> bool" where
  "boundary_at s i = ((0 < i \<and> word_at s (i - 1)) \<noteq> word_at s i)"

text \<open>Iterations that consume something, longest first; the first argument bounds their number.\<close>

primrec star_ends :: "(nat \<Rightarrow> nat list) \<Rightarrow> nat \<Rightarrow> nat \<Rightarrow> nat list" where
  "star_ends f 0 i = [i]"
| "star_ends f (Suc n) i = concat (map (\<lambda>j. if i < j then star_ends f n j else []) (f i)) @ [i]"

primrec ends :: "rx \<Rightarrow> string \<Rightarrow> nat \<Rightarrow> nat list" where
  "ends Eps s = (\<lambda>i. [i])"
| "ends (Cls p) s = (\<lambda>i. if i < length s \<and> p (s ! i) then [Suc i] else [])"
| "ends (Seq a b) s = (\<lambda>i. concat (map (ends b s) (ends a s i)))"
| "ends (Alt a b) s = (\<lambda>i. ends a s i @ ends b s i)"
| "ends (Star a) s = (\<lambda>i. star_ends (ends a s) (length s - i) i)"
| "ends Bnd s = (\<lambda>i. if boundary_at s i then [i] else [])"

definition chr :: "char \<Rightarrow> rx" where
  "chr c = Cls (\<lambda>x. x = c)"

fun lit :: "string \<Rightarrow> rx" where
  "lit [] = Eps"
| "lit (c # cs) = Seq (chr c) (lit cs)"

definition opt :: "rx \<Rightarrow> rx" where
  "opt r = Alt r Eps"

fun alts :: "rx list \<Rightarrow> rx" where
  "alts [] = Cls (\<lambda>_. False)"
| "alts [r] = r"
| "alts (r # rs) = Alt r (alts rs)"

fun seqs :: "rx list \<Rightarrow> rx" where
  "seqs [] = Eps"
| "seqs [r] = r"
| "seqs (r # rs) = Seq r (seqs rs)"

primrec times :: "nat \<Rightarrow> rx \<Rightarrow> rx" where
  "times 0 r = Eps"
| "times (Suc n) r = Seq r (times n r)"

definition at_least :: "nat \<Rightarrow> rx \<Rightarrow> rx" where
  "at_least n r = Seq (times n r) (Star r)"

text \<open>The flag \<open>i\<close>: letters of either case.\<close>

definition to_lower :: "char \<Rightarrow> char" where
  "to_lower c = (if is_upper c then char_of (of_char c + 32 :: nat) else c)"

definition any_case :: "(char \<Rightarrow> bool) \<Rightarrow> char \<Rightarrow> bool" where
  "any_case p c = (p c \<or> p (to_lower c) \<or> (is_lower c \<and> p (char_of (of_char c - 32 :: nat))))"

primrec ignore_case :: "rx \<Rightarrow> rx" where
  "ignore_case Eps = Eps"
| "ignore_case (Cls p) = Cls (any_case p)"
| "ignore_case (Seq a b) = Seq (ignore_case a) (ignore_case b)"
| "ignore_case (Alt a b) = Alt (ignore_case a) (ignore_case b)"
| "ignore_case (Star a) = Star (ignore_case a)"
| "ignore_case Bnd = Bnd"

text \<open>\<open>.\<close> without the flag \<open>s\<close>: anything but a line terminator.\<close>

definition dot :: rx where
  "dot = Cls (\<lambda>c. c \<noteq> CHR 0x0A \<and> c \<noteq> CHR 0x0D)"

section \<open>Matching\<close>

text \<open>\<open>pattern.test(text)\<close>, and the test of an anchored pattern \<open>^\<dots>$\<close>.\<close>

definition test :: "rx \<Rightarrow> string \<Rightarrow> bool" where
  "test r s = list_ex (\<lambda>i. ends r s i \<noteq> []) [0..<Suc (length s)]"

definition full_match :: "rx \<Rightarrow> string \<Rightarrow> bool" where
  "full_match r s = (length s \<in> set (ends r s 0))"

text \<open>\<open>text.replace(pattern, by)\<close> with the flag \<open>g\<close>; \<open>n\<close> positions are left.\<close>

primrec replace_from :: "rx \<Rightarrow> string \<Rightarrow> string \<Rightarrow> nat \<Rightarrow> nat \<Rightarrow> string" where
  "replace_from r by' s 0 i = []"
| "replace_from r by' s (Suc n) i =
     (case ends r s i of
        j # _ \<Rightarrow> if i < j then by' @ replace_from r by' s n j
                 else by' @ (if i < length s then s ! i # replace_from r by' s n (Suc i) else [])
      | [] \<Rightarrow> if i < length s then s ! i # replace_from r by' s n (Suc i) else [])"

definition replace_all :: "rx \<Rightarrow> string \<Rightarrow> string \<Rightarrow> string" where
  "replace_all r by' s = replace_from r by' s (Suc (length s)) 0"

text \<open>\<open>text.split(part).join(by)\<close> for a non-empty part; the first argument bounds the recursion.\<close>

primrec replace_text_from :: "nat \<Rightarrow> string \<Rightarrow> string \<Rightarrow> string \<Rightarrow> string" where
  "replace_text_from 0 part by' s = s"
| "replace_text_from (Suc n) part by' s =
     (if starts_with s part then by' @ replace_text_from n part by' (drop (length part) s)
      else case s of [] \<Rightarrow> [] | c # cs \<Rightarrow> c # replace_text_from n part by' cs)"

definition replace_text :: "string \<Rightarrow> string \<Rightarrow> string \<Rightarrow> string" where
  "replace_text part by' s =
     (if part = [] then join by' (map (\<lambda>c. [c]) s) else replace_text_from (length s) part by' s)"

section \<open>The language of an expression\<close>

inductive star_of :: "(string \<Rightarrow> bool) \<Rightarrow> string \<Rightarrow> bool" for L :: "string \<Rightarrow> bool" where
  star_Nil: "star_of L []"
| star_app: "L u \<Longrightarrow> star_of L v \<Longrightarrow> star_of L (u @ v)"

inductive_cases star_ofE: "star_of L s"

primrec denotes :: "rx \<Rightarrow> string \<Rightarrow> bool" where
  "denotes Eps = (\<lambda>s. s = [])"
| "denotes (Cls p) = (\<lambda>s. \<exists>c. s = [c] \<and> p c)"
| "denotes (Seq a b) = (\<lambda>s. \<exists>u v. s = u @ v \<and> denotes a u \<and> denotes b v)"
| "denotes (Alt a b) = (\<lambda>s. denotes a s \<or> denotes b s)"
| "denotes (Star a) = star_of (denotes a)"
| "denotes Bnd = (\<lambda>s. False)"

primrec boundary_free :: "rx \<Rightarrow> bool" where
  "boundary_free Eps = True"
| "boundary_free (Cls p) = True"
| "boundary_free (Seq a b) = (boundary_free a \<and> boundary_free b)"
| "boundary_free (Alt a b) = (boundary_free a \<and> boundary_free b)"
| "boundary_free (Star a) = boundary_free a"
| "boundary_free Bnd = False"

text \<open>The part of a text between two positions.\<close>

definition between_pos :: "string \<Rightarrow> nat \<Rightarrow> nat \<Rightarrow> string" where
  "between_pos s i j = take (j - i) (drop i s)"

lemma between_same [simp]: "between_pos s i i = []"
  by (simp add: between_pos_def)

lemma between_append:
  assumes "i \<le> j" "j \<le> k"
  shows "between_pos s i k = between_pos s i j @ between_pos s j k"
proof -
  have "k - i = (j - i) + (k - j)" and "(j - i) + i = j" using assms by simp_all
  then show ?thesis unfolding between_pos_def by (metis drop_drop take_add)
qed

lemma between_Suc: "i < length s \<Longrightarrow> between_pos s i (Suc i) = [s ! i]"
  by (simp add: between_pos_def Suc_diff_le take_Suc_conv_app_nth hd_drop_conv_nth)

lemma between_all: "between_pos s 0 (length s) = s"
  by (simp add: between_pos_def)

lemma between_split:
  assumes "i \<le> j" "j \<le> length s" "between_pos s i j = u @ v"
  shows "u = between_pos s i (i + length u)" and "v = between_pos s (i + length u) j" and "i + length u \<le> j"
proof -
  have l: "length u + length v = j - i" using arg_cong [OF assms(3), of length] assms(1,2) by (simp add: between_pos_def)
  then show le: "i + length u \<le> j" using assms(1) by simp
  have "between_pos s i j = between_pos s i (i + length u) @ between_pos s (i + length u) j"
    by (rule between_append) (use le in simp_all)
  moreover have "length (between_pos s i (i + length u)) = length u" using le assms(2) by (simp add: between_pos_def)
  ultimately show "u = between_pos s i (i + length u)" "v = between_pos s (i + length u) j"
    using assms(3) by (metis append_eq_append_conv)+
qed

section \<open>The matcher decides the language\<close>

text \<open>Where a match of the language from position \<open>i\<close> can end.\<close>

definition matches :: "(string \<Rightarrow> bool) \<Rightarrow> string \<Rightarrow> nat \<Rightarrow> nat \<Rightarrow> bool" where
  "matches L s i j \<longleftrightarrow> i \<le> j \<and> j \<le> length s \<and> L (between_pos s i j)"

lemma matches_Seq:
  "matches (denotes (Seq a b)) s i j \<longleftrightarrow> (\<exists>k. matches (denotes a) s i k \<and> matches (denotes b) s k j)"
proof
  assume m: "matches (denotes (Seq a b)) s i j"
  then obtain u v where uv: "between_pos s i j = u @ v" "denotes a u" "denotes b v" by (auto simp: matches_def)
  from m have "i \<le> j" "j \<le> length s" by (simp_all add: matches_def)
  from between_split [OF this uv(1)] uv(2,3) this show "\<exists>k. matches (denotes a) s i k \<and> matches (denotes b) s k j"
    unfolding matches_def by (metis le_add1 le_trans)
next
  assume "\<exists>k. matches (denotes a) s i k \<and> matches (denotes b) s k j"
  then obtain k where k: "i \<le> k" "k \<le> j" "j \<le> length s" "denotes a (between_pos s i k)" "denotes b (between_pos s k j)"
    by (auto simp: matches_def)
  then show "matches (denotes (Seq a b)) s i j"
    using between_append [OF k(1,2)] by (auto simp: matches_def)
qed

text \<open>A path through positions that each advance.\<close>

inductive hops :: "(nat \<Rightarrow> nat \<Rightarrow> bool) \<Rightarrow> nat \<Rightarrow> nat \<Rightarrow> bool" for R :: "nat \<Rightarrow> nat \<Rightarrow> bool" where
  hops_refl: "hops R i i"
| hops_step: "R i j \<Longrightarrow> i < j \<Longrightarrow> hops R j k \<Longrightarrow> hops R i k"

lemma hops_le: "hops R i j \<Longrightarrow> i \<le> j"
  by (induction rule: hops.induct) auto

lemma star_ends_hops:
  assumes "\<And>i j. i \<le> m \<Longrightarrow> j \<in> set (f i) \<Longrightarrow> j \<le> m"
  shows "i \<le> m \<Longrightarrow> m - i \<le> n \<Longrightarrow> j \<in> set (star_ends f n i) \<longleftrightarrow> hops (\<lambda>i j. j \<in> set (f i)) i j"
proof (induction n arbitrary: i)
  case 0
  have "j = i" if "hops (\<lambda>i j. j \<in> set (f i)) i j"
    using that 0 assms by (cases rule: hops.cases) fastforce+
  then show ?case by (auto intro: hops_refl)
next
  case (Suc n)
  have ih: "j \<in> set (star_ends f n k) \<longleftrightarrow> hops (\<lambda>i j. j \<in> set (f i)) k j" if "i < k" "k \<in> set (f i)" for k
    by (rule Suc.IH) (use Suc.prems that assms in auto)
  have "j \<in> set (star_ends f (Suc n) i) \<longleftrightarrow> j = i \<or> (\<exists>k \<in> set (f i). i < k \<and> hops (\<lambda>i j. j \<in> set (f i)) k j)"
    using ih by (auto split: if_splits)
  also have "\<dots> \<longleftrightarrow> hops (\<lambda>i j. j \<in> set (f i)) i j"
    by (subst hops.simps) auto
  finally show ?case .
qed

lemma hops_mono:
  assumes "hops R i j" "i \<le> m" and "\<And>i j. i \<le> m \<Longrightarrow> R i j \<Longrightarrow> S i j \<and> j \<le> m"
  shows "hops S i j"
  using assms(1,2)
  by (induction rule: hops.induct) (auto intro: hops_refl hops_step dest: assms(3))

lemma hops_star:
  assumes "hops (matches L s) i j" and "i \<le> length s"
  shows "matches (star_of L) s i j"
  using assms
proof (induction rule: hops.induct)
  case (hops_refl i)
  then show ?case by (simp add: matches_def star_Nil)
next
  case (hops_step i j k)
  then have "matches L s i j" "matches (star_of L) s j k" by (simp_all add: matches_def)
  then show ?case
    using between_append [of i j k s] star_app [of L] by (auto simp: matches_def)
qed

lemma star_hops:
  assumes "star_of L u" and "i \<le> j" "j \<le> length s" "u = between_pos s i j"
  shows "hops (matches L s) i j"
  using assms
proof (induction arbitrary: i rule: star_of.induct)
  case star_Nil
  then have "length (between_pos s i j) = 0" by simp
  then have "i = j" using star_Nil by (simp add: between_pos_def)
  then show ?case by (simp add: hops_refl)
next
  case (star_app u v)
  note parts = between_split [OF star_app.prems(1,2) star_app.prems(3) [symmetric]]
  have rest: "hops (matches L s) (i + length u) j"
    by (rule star_app.IH [OF parts(3) star_app.prems(2) parts(2)])
  show ?case
  proof (cases "u = []")
    case True
    then show ?thesis using rest by simp
  next
    case False
    have "matches L s i (i + length u)"
      using star_app.hyps(1) parts(1,3) star_app.prems(2) by (auto simp: matches_def)
    then show ?thesis using rest False by (auto intro: hops_step)
  qed
qed

theorem ends_iff:
  "boundary_free r \<Longrightarrow> i \<le> length s \<Longrightarrow> j \<in> set (ends r s i) \<longleftrightarrow> matches (denotes r) s i j"
proof (induction r arbitrary: i j)
  case Eps
  then show ?case by (auto simp: matches_def between_pos_def)
next
  case (Cls p)
  show ?case
  proof
    assume "j \<in> set (ends (Cls p) s i)"
    then show "matches (denotes (Cls p)) s i j" by (auto simp: matches_def between_Suc split: if_splits)
  next
    assume m: "matches (denotes (Cls p)) s i j"
    then obtain c where c: "between_pos s i j = [c]" "p c" by (auto simp: matches_def)
    then have "length (between_pos s i j) = 1" by simp
    then have "j = Suc i" "i < length s" using m by (auto simp: matches_def between_pos_def)
    then show "j \<in> set (ends (Cls p) s i)" using c by (simp add: between_Suc)
  qed
next
  case (Seq a b)
  then have "j \<in> set (ends (Seq a b) s i) \<longleftrightarrow> (\<exists>k. matches (denotes a) s i k \<and> j \<in> set (ends b s k))" by auto
  also have "\<dots> \<longleftrightarrow> (\<exists>k. matches (denotes a) s i k \<and> matches (denotes b) s k j)"
    using Seq.IH(2) Seq.prems by (auto simp: matches_def)
  finally show ?case by (simp only: matches_Seq)
next
  case (Alt a b)
  then show ?case by (auto simp: matches_def)
next
  case (Star a)
  let ?m = "length s"
  have ih: "j \<in> set (ends a s i) \<longleftrightarrow> matches (denotes a) s i j" if "i \<le> ?m" for i j
    using Star that by simp
  have "j \<in> set (ends (Star a) s i) \<longleftrightarrow> hops (\<lambda>i j. j \<in> set (ends a s i)) i j"
    unfolding ends.simps by (rule star_ends_hops) (use ih Star.prems in \<open>auto simp: matches_def\<close>)
  also have "\<dots> \<longleftrightarrow> hops (matches (denotes a) s) i j"
  proof
    assume "hops (\<lambda>i j. j \<in> set (ends a s i)) i j"
    then show "hops (matches (denotes a) s) i j"
      by (rule hops_mono [OF _ Star.prems(2)]) (use ih in \<open>auto simp: matches_def\<close>)
  next
    assume "hops (matches (denotes a) s) i j"
    then show "hops (\<lambda>i j. j \<in> set (ends a s i)) i j"
      by (rule hops_mono [OF _ Star.prems(2)]) (use ih in \<open>auto simp: matches_def\<close>)
  qed
  also have "\<dots> \<longleftrightarrow> matches (star_of (denotes a)) s i j"
  proof
    assume "matches (star_of (denotes a)) s i j"
    then have "star_of (denotes a) (between_pos s i j)" "i \<le> j" "j \<le> ?m" by (simp_all add: matches_def)
    then show "hops (matches (denotes a) s) i j" by (rule star_hops) simp
  qed (rule hops_star [OF _ Star.prems(2)])
  finally show ?case by simp
next
  case Bnd
  then show ?case by simp
qed

section \<open>Texts that cannot match\<close>

text \<open>A pattern is stuck on a text when every match would need a character that the text does not have.\<close>

primrec stuck :: "string \<Rightarrow> rx \<Rightarrow> bool" where
  "stuck s Eps = False"
| "stuck s (Cls p) = list_all (\<lambda>c. \<not> p c) s"
| "stuck s (Seq a b) = (stuck s a \<or> stuck s b)"
| "stuck s (Alt a b) = (stuck s a \<and> stuck s b)"
| "stuck s (Star a) = False"
| "stuck s Bnd = False"

lemma stuck_ends: "stuck s r \<Longrightarrow> ends r s i = []"
  by (induction r arbitrary: i) (auto simp: list_all_iff)

lemma stuck_test: "stuck s r \<Longrightarrow> \<not> test r s"
  by (simp add: test_def stuck_ends list_ex_iff)

lemma stuck_times: "stuck s (times n r) = (0 < n \<and> stuck s r)"
  by (induction n) auto

lemma stuck_at_least: "stuck s (at_least n r) = (0 < n \<and> stuck s r)"
  by (simp add: at_least_def stuck_times)

lemma ignore_case_times: "ignore_case (times n r) = times n (ignore_case r)"
  by (induction n) auto

end
