(* ===== verification/DiffPolicy.thy ===== *)
theory DiffPolicy
  imports Patterns Config
begin

text \<open>
  What an agent may change: secret detection and redaction (\<open>src/execution/secrets.ts\<close>,
  \<open>src/security/credentials.ts\<close>), path globs and the diff policy (\<open>src/execution/diff-policy.ts\<close>), and
  the parsing of Git's diff output (\<open>src/execution/workspace-changes.ts\<close>).
\<close>

section \<open>Secrets\<close>

definition plus_of :: "rx \<Rightarrow> rx" where
  "plus_of r = Seq r (Star r)"

definition one_of :: "string \<Rightarrow> rx" where
  "one_of cs = Cls (\<lambda>c. c \<in> set cs)"

definition alnum_or :: "string \<Rightarrow> rx" where
  "alnum_or cs = Cls (\<lambda>c. is_lower c \<or> is_upper c \<or> is_digit c \<or> c \<in> set cs)"

definition upper_digit :: rx where
  "upper_digit = Cls (\<lambda>c. is_upper c \<or> is_digit c)"

definition quote_mark :: rx where
  "quote_mark = one_of [CHR 0x22, CHR 0x27]"

definition space :: rx where
  "space = Cls is_space"

definition provider_credential_patterns :: "(string \<times> rx) list" where
  "provider_credential_patterns =
     [(''openai-api-key'', seqs [Bnd, lit ''sk-'', opt (alts [lit ''proj-'', lit ''svcacct-'', lit ''ant-'']),
         at_least 32 (alnum_or ''_-''), Bnd]),
      (''anthropic-api-key'', seqs [Bnd, lit ''sk-ant-'', at_least 20 (alnum_or ''_-''), Bnd]),
      (''google-api-key'', seqs [Bnd, lit ''AIza'', at_least 30 (alnum_or ''_-''), Bnd]),
      (''xai-api-key'', seqs [Bnd, lit ''xai-'', at_least 20 (alnum_or []), Bnd]),
      (''groq-api-key'', seqs [Bnd, lit ''gsk_'', at_least 20 (alnum_or []), Bnd]),
      (''openrouter-api-key'', seqs [Bnd, lit ''sk-or-v1-'', at_least 20 (alnum_or []), Bnd])]"

definition secret_rules :: "(string \<times> rx) list" where
  "secret_rules =
     [(''private-key'', seqs [lit ''-----BEGIN '', Star (Seq (plus_of upper_digit) (chr CHR '' '')),
         lit ''PRIVATE KEY'', opt (lit '' BLOCK''), lit ''-----'']),
      (''aws-access-key-id'', seqs [Bnd, alts [lit ''AKIA'', lit ''ASIA''], times 16 upper_digit, Bnd]),
      (''github-token'', seqs [Bnd, alts [seqs [lit ''gh'', one_of ''pousr'', chr CHR ''_'', at_least 36 (alnum_or [])],
         Seq (lit ''github_pat_'') (at_least 40 (alnum_or ''_''))], Bnd]),
      (''linear-api-key'', seqs [Bnd, lit ''lin_'', alts [lit ''api'', lit ''oauth''], chr CHR ''_'',
         at_least 32 (alnum_or []), Bnd]),
      (''slack-token'', seqs [Bnd, lit ''xox'', one_of ''abprs'', chr CHR ''-'', at_least 10 (alnum_or ''-''), Bnd]),
      (''stripe-live-key'', seqs [Bnd, alts [lit ''sk'', lit ''rk''], lit ''_live_'', at_least 16 (alnum_or []), Bnd])]
     @ provider_credential_patterns @
     [(''credential-assignment'', ignore_case (seqs [alts [seqs [lit ''api'', opt (one_of ''_-''), lit ''key''],
           lit ''secret'', lit ''password'', lit ''passwd'', seqs [lit ''access'', opt (one_of ''_-''), lit ''token''],
           seqs [lit ''auth'', opt (one_of ''_-''), lit ''token'']],
         opt quote_mark, Star space, one_of '':='', Star space, quote_mark,
         at_least 24 (alnum_or ''+/=_-''), quote_mark]))]"

definition secret_variable_name :: rx where
  "secret_variable_name = ignore_case (alts [lit ''KEY'', lit ''TOKEN'', lit ''SECRET'', lit ''PASSWORD'',
     lit ''PASSWD'', lit ''CREDENTIAL'', lit ''DATABASE_URL''])"

definition minimum_secret_length :: nat where
  "minimum_secret_length = 8"

definition url_scheme :: rx where
  "url_scheme = ignore_case (seqs [Cls is_lower, Star (alnum_or ''+.-''), lit ''://''])"

text \<open>
  \<open>environment\<close> lists the defined variables; \<open>url_password\<close> is the decoded password of a text that
  Node's URL parser accepts. A \<open>Set\<close> keeps the first occurrence.
\<close>

definition collect_known_secrets :: "(string \<Rightarrow> string option) \<Rightarrow> (string \<times> string) list \<Rightarrow> string list" where
  "collect_known_secrets url_password environment =
     rev (remdups (rev (concat (map (\<lambda>(name, value).
       if length value < minimum_secret_length \<or> \<not> test secret_variable_name name then []
       else value # (if ends url_scheme value 0 = [] then []
         else case url_password value of
           None \<Rightarrow> []
         | Some p \<Rightarrow> if minimum_secret_length \<le> length p then [p] else [])) environment))))"

definition detect_secrets :: "string \<Rightarrow> string list \<Rightarrow> string list" where
  "detect_secrets text known =
     map fst (filter (\<lambda>(rule, pattern). test pattern text) secret_rules)
     @ (if list_ex (includes_text text) known then [''known-secret''] else [])"

lemma detect_secrets_stuck:
  "list_all (\<lambda>(rule, pattern). stuck text pattern) secret_rules \<Longrightarrow> detect_secrets text [] = []"
  by (auto simp: detect_secrets_def filter_empty_conv list_all_iff stuck_test)

lemmas stuck_rules = secret_rules_def provider_credential_patterns_def stuck_at_least stuck_times
  opt_def chr_def quote_mark_def one_of_def any_case_def to_lower_def is_lower_def is_upper_def char_of_def

definition redacted_mark :: string where
  "redacted_mark = ''[REDACTED]''"

text \<open>Longer secrets first; the sort is stable.\<close>

definition redact_secrets :: "string list \<Rightarrow> string \<Rightarrow> string" where
  "redact_secrets known text =
     fold (\<lambda>(rule, pattern). replace_all pattern redacted_mark) secret_rules
       (fold (\<lambda>secret. replace_text secret redacted_mark) (sort_key (\<lambda>s. - int (length s)) known) text)"

section \<open>Path globs\<close>

definition not_slash :: rx where
  "not_slash = Cls (\<lambda>c. c \<noteq> CHR ''/'')"

text \<open>\<open>globToRegExp\<close>; every other character is a literal.\<close>

fun glob_rx :: "string \<Rightarrow> rx" where
  "glob_rx [] = Eps"
| "glob_rx (c # g) =
     (if c = CHR ''*'' then
        (case g of
           d # h \<Rightarrow>
             if d = CHR ''*'' then
               (case h of
                  e # k \<Rightarrow> if e = CHR ''/'' then Seq (opt (Seq (Star dot) (chr CHR ''/''))) (glob_rx k)
                           else Seq (Star dot) (glob_rx h)
                | [] \<Rightarrow> Seq (Star dot) (glob_rx h))
             else Seq (Star not_slash) (glob_rx g)
         | [] \<Rightarrow> Seq (Star not_slash) (glob_rx g))
      else if c = CHR ''?'' then Seq not_slash (glob_rx g)
      else Seq (chr c) (glob_rx g))"

definition matches_any_glob :: "string \<Rightarrow> string list \<Rightarrow> bool" where
  "matches_any_glob path globs = list_ex (\<lambda>g. full_match (glob_rx g) path) globs"

section \<open>Changes\<close>

text \<open>\<open>addedLines\<close> and \<open>deletedLines\<close> are absent for binary content.\<close>

record changed_file =
  cf_path :: string
  cf_status :: string
  cf_mode :: string
  cf_addedLines :: "int option"
  cf_deletedLines :: "int option"

record added_line =
  al_path :: string
  al_line :: int
  al_text :: string

record repository_changes =
  rg_repository :: string
  rg_files :: "changed_file list"
  rg_addedLines :: "added_line list"
  rg_patchSkipped :: bool

datatype violation_rule =
    Unchanged | TooManyFiles | TooManyLines | TooManyUnplannedFiles | BinaryFile | ForbiddenPath
  | GeneratedPath | Symlink | Submodule | SecretFound

fun show_rule :: "violation_rule \<Rightarrow> string" where
  "show_rule Unchanged = ''unchanged''"
| "show_rule TooManyFiles = ''too-many-files''"
| "show_rule TooManyLines = ''too-many-lines''"
| "show_rule TooManyUnplannedFiles = ''too-many-unplanned-files''"
| "show_rule BinaryFile = ''binary-file''"
| "show_rule ForbiddenPath = ''forbidden-path''"
| "show_rule GeneratedPath = ''generated-path''"
| "show_rule Symlink = ''symlink''"
| "show_rule Submodule = ''submodule''"
| "show_rule SecretFound = ''secret''"

record diff_violation =
  dv_repository :: string
  dv_rule :: violation_rule
  dv_path :: "string option"
  dv_detail :: string

record diff_evidence =
  de_repository :: string
  de_changedFiles :: nat
  de_addedLines :: int
  de_deletedLines :: int
  de_binaryFiles :: nat
  de_unplannedFiles :: "string list"
  de_paths :: "string list"

record diff_input =
  di_changes :: "repository_changes list"
  di_policy :: diff_policy
  di_required :: "string list"
  di_plannedPaths :: "(string \<times> string list) list"
  di_knownSecrets :: "string list"

text \<open>\<open>entry.replace(/\/+$/, '')\<close>.\<close>

definition strip_slashes :: "string \<Rightarrow> string" where
  "strip_slashes s = rev (dropWhile (\<lambda>c. c = CHR ''/'') (rev s))"

definition is_planned :: "string \<Rightarrow> string list \<Rightarrow> bool" where
  "is_planned path planned =
     list_ex (\<lambda>entry. path = strip_slashes entry \<or> starts_with path (strip_slashes entry @ ''/'')) planned"

definition lines_of :: "(changed_file \<Rightarrow> int option) \<Rightarrow> changed_file list \<Rightarrow> int" where
  "lines_of sel files = sum_list (map (\<lambda>f. or_else (sel f) 0) files)"

definition file_violations :: "diff_policy \<Rightarrow> string \<Rightarrow> changed_file \<Rightarrow> diff_violation list" where
  "file_violations policy repo f =
     (let add = (\<lambda>b rule detail. if b then [\<lparr>dv_repository = repo, dv_rule = rule, dv_path = Some (cf_path f),
                   dv_detail = detail\<rparr>] else []) in
      add (matches_any_glob (cf_path f) (dp_forbiddenPaths policy)) ForbiddenPath ''path is protected configuration''
      @ add (cf_status f \<noteq> ''D'' \<and> matches_any_glob (cf_path f) (dp_generatedPaths policy)) GeneratedPath
          ''generated or build output must not be committed''
      @ add (cf_mode f = ''120000'') Symlink ''symbolic links are not accepted''
      @ add (cf_mode f = ''160000'') Submodule ''submodule changes are not accepted''
      @ add (cf_status f \<noteq> ''D'' \<and> cf_addedLines f = None
             \<and> \<not> matches_any_glob (cf_path f) (dp_allowedBinaryPaths policy)) BinaryFile
          ''binary content is not accepted'')"

definition secret_violations :: "string list \<Rightarrow> string \<Rightarrow> added_line \<Rightarrow> diff_violation list" where
  "secret_violations known repo l =
     map (\<lambda>rule. \<lparr>dv_repository = repo, dv_rule = SecretFound, dv_path = Some (al_path l),
            dv_detail = ''line '' @ show_int (al_line l) @ '' matches '' @ rule\<rparr>)
       (detect_secrets (al_text l) known)"

definition unplanned_files :: "diff_input \<Rightarrow> repository_changes \<Rightarrow> string list" where
  "unplanned_files i r =
     filter (\<lambda>p. \<not> is_planned p (or_else (map_of (di_plannedPaths i) (rg_repository r)) [])) (map cf_path (rg_files r))"

definition evidence_of :: "diff_input \<Rightarrow> repository_changes \<Rightarrow> diff_evidence" where
  "evidence_of i r = \<lparr>de_repository = rg_repository r, de_changedFiles = length (rg_files r),
     de_addedLines = lines_of cf_addedLines (rg_files r), de_deletedLines = lines_of cf_deletedLines (rg_files r),
     de_binaryFiles = length (filter (\<lambda>f. cf_addedLines f = None) (rg_files r)),
     de_unplannedFiles = unplanned_files i r, de_paths = map cf_path (rg_files r)\<rparr>"

definition repository_violations :: "diff_input \<Rightarrow> repository_changes \<Rightarrow> diff_violation list" where
  "repository_violations i r =
     (let p = di_policy i; repo = rg_repository r; files = rg_files r; unplanned = unplanned_files i r;
          n = int (length files); total = lines_of cf_addedLines files + lines_of cf_deletedLines files;
          add = (\<lambda>b rule detail. if b then [\<lparr>dv_repository = repo, dv_rule = rule, dv_path = None,
                   dv_detail = detail\<rparr>] else []) in
      add (files = [] \<and> repo \<in> set (di_required i)) Unchanged ''the plan requires changes in this repository''
      @ add (dp_maxChangedFiles p < n) TooManyFiles
          (show_int n @ '' files changed; limit is '' @ show_int (dp_maxChangedFiles p))
      @ add (dp_maxChangedLines p < total) TooManyLines
          (show_int total @ '' lines changed; limit is '' @ show_int (dp_maxChangedLines p))
      @ add (dp_maxUnplannedFiles p < int (length unplanned)) TooManyUnplannedFiles
          (show_nat (length unplanned) @ '' files outside the accepted plan; limit is ''
           @ show_int (dp_maxUnplannedFiles p))
      @ concat (map (file_violations p repo) files)
      @ concat (map (secret_violations (di_knownSecrets i) repo) (rg_addedLines r)))"

definition evaluate_changes :: "diff_input \<Rightarrow> diff_violation list \<times> diff_evidence list" where
  "evaluate_changes i =
     ((if list_all (\<lambda>r. rg_files r = []) (di_changes i)
       then [\<lparr>dv_repository = ''*'', dv_rule = Unchanged, dv_path = None,
              dv_detail = ''the agent produced no changes''\<rparr>] else [])
      @ concat (map (repository_violations i) (di_changes i)),
      map (evidence_of i) (di_changes i))"

definition show_violation :: "diff_violation \<Rightarrow> string" where
  "show_violation v = dv_repository v @ (case dv_path v of None \<Rightarrow> '''' | Some p \<Rightarrow> '':'' @ p) @ '' ''
     @ show_rule (dv_rule v) @ '' ('' @ dv_detail v @ '')''"

definition describe_violations :: "diff_violation list \<Rightarrow> nat \<Rightarrow> string" where
  "describe_violations vs limit =
     join ''; '' (map show_violation (take limit vs)
       @ (if limit < length vs then [''and '' @ show_nat (length vs - limit) @ '' more''] else []))"

end
