(* ===== verification/WorkspaceChanges.thy ===== *)
theory WorkspaceChanges
  imports DiffPolicy
begin

text \<open>
  Reading Git's output (\<open>src/execution/workspace-changes.ts\<close>): the raw and numeric diffs, the added
  lines of a zero-context patch, and the commits of a range. What Git prints is a parameter.
\<close>

section \<open>Numbers and separators\<close>

definition read_digits :: "string \<Rightarrow> int" where
  "read_digits ds = foldl (\<lambda>n c. n * 10 + int (digit_value c)) 0 ds"

definition line_feed :: char where "line_feed = CHR 0x0A"
definition nul_char :: char where "nul_char = CHR 0x00"
definition tab_char :: char where "tab_char = CHR 0x09"

section \<open>\<open>git diff --raw -z\<close>\<close>

definition nth_or :: "string list \<Rightarrow> nat \<Rightarrow> string \<Rightarrow> string" where
  "nth_or xs n d = (if n < length xs then xs ! n else d)"

fun raw_entries :: "string list \<Rightarrow> (string \<times> string \<times> string) list" where
  "raw_entries (header # path # rest) =
     (if starts_with header '':'' then
        (let parts = split_on CHR '' '' (drop 1 header) in
         (path, take 1 (nth_or parts 4 ''?''), nth_or parts 1 ''000000'') # raw_entries rest)
      else [])"
| "raw_entries _ = []"

text \<open>Path, status and resulting mode.\<close>

definition parse_raw_diff :: "string \<Rightarrow> (string \<times> string \<times> string) list" where
  "parse_raw_diff output = raw_entries (split_on nul_char output)"

section \<open>\<open>git diff --numstat -z\<close>\<close>

definition count_field :: "string \<Rightarrow> int option option" where
  "count_field f =
     (if f = ''-'' then Some None
      else if f \<noteq> [] \<and> list_all is_digit f then Some (Some (read_digits f)) else None)"

definition numstat_record :: "string \<Rightarrow> (string \<times> int option \<times> int option) option" where
  "numstat_record r =
     (let a = takeWhile (\<lambda>c. c \<noteq> tab_char) r; r1 = drop (length a) r;
          b = takeWhile (\<lambda>c. c \<noteq> tab_char) (drop 1 r1); r2 = drop (length b) (drop 1 r1) in
      if r1 = [] \<or> r2 = [] then None
      else case (count_field a, count_field b) of
        (Some x, Some y) \<Rightarrow> Some (drop 1 r2, x, y)
      | _ \<Rightarrow> None)"

definition parse_numstat :: "string \<Rightarrow> (string \<times> int option \<times> int option) list" where
  "parse_numstat output =
     foldl (\<lambda>m r. case numstat_record r of None \<Rightarrow> m | Some (p, x, y) \<Rightarrow> map_set p (x, y) m) []
       (split_on nul_char output)"

section \<open>Added lines of a patch\<close>

record patch_state =
  pt_path :: "string option"
  pt_line :: int
  pt_inHeader :: bool
  pt_added :: "added_line list"

definition hunk_rx :: rx where
  "hunk_rx = seqs [chr CHR ''+'', plus_of (Cls is_digit), opt (Seq (chr CHR '','') (plus_of (Cls is_digit))), lit '' @@'']"

definition hunk_line :: "string \<Rightarrow> int" where
  "hunk_line text =
     (case find (\<lambda>i. ends hunk_rx text i \<noteq> []) [0..<Suc (length text)] of
        None \<Rightarrow> 0
      | Some i \<Rightarrow> read_digits (takeWhile is_digit (drop (Suc i) text)))"

definition target_path :: "string \<Rightarrow> string" where
  "target_path t =
     (let quote = [CHR 0x22];
          u = (if starts_with t (quote @ ''b/'') then drop 3 t else if starts_with t ''b/'' then drop 2 t else t) in
      if u \<noteq> [] \<and> last u = CHR 0x22 then butlast u else u)"

definition patch_step :: "patch_state \<Rightarrow> string \<Rightarrow> patch_state" where
  "patch_step s text =
     (if starts_with text ''diff --git '' then s\<lparr>pt_inHeader := True, pt_path := None\<rparr>
      else if pt_inHeader s \<and> starts_with text ''+++ '' then
        s\<lparr>pt_path := (let t = drop 4 text in if t = ''/dev/null'' then None else Some (target_path t))\<rparr>
      else if starts_with text ''@@'' then s\<lparr>pt_inHeader := False, pt_line := hunk_line text\<rparr>
      else if \<not> pt_inHeader s \<and> starts_with text ''+'' then
        (case pt_path s of
           None \<Rightarrow> s
         | Some p \<Rightarrow> s\<lparr>pt_added := pt_added s @ [\<lparr>al_path = p, al_line = pt_line s, al_text = drop 1 text\<rparr>],
                       pt_line := pt_line s + 1\<rparr>)
      else s)"

definition parse_added_lines :: "string \<Rightarrow> added_line list" where
  "parse_added_lines patch =
     pt_added (foldl patch_step \<lparr>pt_path = None, pt_line = 0, pt_inHeader = False, pt_added = []\<rparr>
       (split_on line_feed patch))"

section \<open>The changes of a worktree\<close>

text \<open>\<open>raw\<close>, \<open>numstat\<close> and \<open>patch\<close> are the outputs of the three Git commands.\<close>

definition collect_changes :: "string \<Rightarrow> string \<Rightarrow> string \<Rightarrow> string \<Rightarrow> int \<Rightarrow> repository_changes" where
  "collect_changes repo raw numstat patch maxLines =
     (let counts = parse_numstat numstat;
          files = map (\<lambda>(p, st, mode). \<lparr>cf_path = p, cf_status = st, cf_mode = mode,
                    cf_addedLines = Option.bind (map_of counts p) fst,
                    cf_deletedLines = Option.bind (map_of counts p) snd\<rparr>) (parse_raw_diff raw);
          total = lines_of cf_addedLines files + lines_of cf_deletedLines files in
      if files = [] \<or> maxLines < total
      then \<lparr>rg_repository = repo, rg_files = files, rg_addedLines = [], rg_patchSkipped = (files \<noteq> [])\<rparr>
      else \<lparr>rg_repository = repo, rg_files = files, rg_addedLines = parse_added_lines patch,
            rg_patchSkipped = False\<rparr>)"

section \<open>Commits of a range\<close>

record range_commit =
  rc_sha :: string
  rc_authorName :: string
  rc_authorEmail :: string
  rc_parents :: "string list"
  rc_taskTrailers :: "string list"

definition parse_commits :: "string \<Rightarrow> range_commit list" where
  "parse_commits output =
     map (\<lambda>r. let f = split_on nul_char r in
            \<lparr>rc_sha = nth_or f 0 [], rc_authorName = nth_or f 1 [], rc_authorEmail = nth_or f 2 [],
             rc_parents = filter (\<lambda>p. p \<noteq> []) (split_on CHR '' '' (nth_or f 3 [])),
             rc_taskTrailers = filter (\<lambda>t. t \<noteq> []) (map trim (split_on CHR '','' (nth_or f 4 [])))\<rparr>)
       (filter (\<lambda>r. r \<noteq> []) (map trim (split_on CHR 0x1E output)))"

section \<open>No added line escapes\<close>

text \<open>
  A zero-context patch as Git writes it: per file a header, then hunks with the old and the new range,
  an optional heading, the removed and the added lines.
\<close>

record hunk =
  hk_old :: "nat \<times> nat option"
  hk_start :: nat
  hk_count :: "nat option"
  hk_heading :: string
  hk_removed :: "string list"
  hk_added :: "string list"

record file_patch =
  fp_path :: string
  fp_hunks :: "hunk list"

definition range_text :: "nat \<Rightarrow> nat option \<Rightarrow> string" where
  "range_text n c = show_nat n @ (case c of None \<Rightarrow> [] | Some k \<Rightarrow> '','' @ show_nat k)"

definition hunk_header :: "hunk \<Rightarrow> string" where
  "hunk_header h = ''@@ -'' @ range_text (fst (hk_old h)) (snd (hk_old h)) @ '' +''
     @ range_text (hk_start h) (hk_count h) @ '' @@'' @ hk_heading h"

definition render_hunk :: "hunk \<Rightarrow> string list" where
  "render_hunk h = hunk_header h # map ((@) ''-'') (hk_removed h) @ map ((@) ''+'') (hk_added h)"

definition render_file :: "file_patch \<Rightarrow> string list" where
  "render_file f = [''diff --git a/'' @ fp_path f @ '' b/'' @ fp_path f, ''index 1..2 100644'', ''--- a/'' @ fp_path f,
     ''+++ b/'' @ fp_path f] @ concat (map render_hunk (fp_hunks f))"

definition numbered :: "string \<Rightarrow> int \<Rightarrow> string list \<Rightarrow> added_line list" where
  "numbered p n ts = map (\<lambda>(k, t). \<lparr>al_path = p, al_line = n + int k, al_text = t\<rparr>) (enumerate 0 ts)"

definition file_lines :: "file_patch \<Rightarrow> added_line list" where
  "file_lines f = concat (map (\<lambda>h. numbered (fp_path f) (int (hk_start h)) (hk_added h)) (fp_hunks f))"

lemma read_digits_snoc: "read_digits (ds @ [c]) = read_digits ds * 10 + int (digit_value c)"
  by (simp add: read_digits_def)

lemma digit_char_facts:
  assumes "n < 10"
  shows "is_digit (digit_char n)" and "digit_value (digit_char n) = n"
  using assms by (simp_all add: is_digit_def digit_char_def digit_value_def Let_def of_char_of)

lemma show_nat_digits: "show_nat n \<noteq> [] \<and> list_all is_digit (show_nat n) \<and> read_digits (show_nat n) = int n"
proof (induction n rule: show_nat.induct)
  case (1 n)
  show ?case
  proof (cases "n < 10")
    case True
    then show ?thesis by (subst (1 2 3) show_nat.simps) (simp add: digit_char_facts read_digits_def)
  next
    case False
    then have "show_nat n = show_nat (n div 10) @ [digit_char (n mod 10)]" by (subst show_nat.simps) simp
    moreover have "n mod 10 < 10" by simp
    ultimately show ?thesis using 1 False
      by (simp add: read_digits_snoc digit_char_facts) (metis div_mult_mod_eq of_nat_add of_nat_mult of_nat_numeral)
  qed
qed

lemma patch_added:
  assumes "pt_inHeader s = False" and "pt_path s = Some p"
  shows "foldl patch_step s (map ((@) ''+'') ts) = s\<lparr>pt_line := pt_line s + int (length ts),
     pt_added := pt_added s @ numbered p (pt_line s) ts\<rparr>"
  using assms
proof (induction ts rule: rev_induct)
  case (snoc t ts)
  then show ?case by (simp add: patch_step_def starts_with_def enumerate_append_eq numbered_def)
qed (simp add: numbered_def)

lemma patch_removed:
  assumes "pt_inHeader s = False"
  shows "foldl patch_step s (map ((@) ''-'') ts) = s"
  by (induction ts) (simp_all add: patch_step_def starts_with_def assms)

lemma denotes_lit [simp]: "denotes (lit w) s \<longleftrightarrow> s = w"
  by (induction w arbitrary: s) (auto simp: chr_def)

lemma star_digits: "list_all is_digit ds \<Longrightarrow> star_of (denotes (Cls is_digit)) ds"
proof (induction ds)
  case (Cons d ds)
  then have "star_of (denotes (Cls is_digit)) ([d] @ ds)" by (intro star_app) simp_all
  then show ?case by simp
qed (rule star_Nil)

lemma denotes_digits: "ds \<noteq> [] \<Longrightarrow> list_all is_digit ds \<Longrightarrow> denotes (plus_of (Cls is_digit)) ds"
  using star_digits [of "tl ds"] unfolding plus_of_def denotes.simps
  by (intro exI [of _ "[hd ds]"] exI [of _ "tl ds"]) (cases ds; simp)

lemma hunk_rx_range: "denotes hunk_rx (''+'' @ range_text n c @ '' @@'')"
proof -
  have digits: "denotes (plus_of (Cls is_digit)) (show_nat k)" for k
    using show_nat_digits [of k] by (auto intro: denotes_digits)
  have "denotes (opt (Seq (chr CHR '','') (plus_of (Cls is_digit)))) (case c of None \<Rightarrow> [] | Some k \<Rightarrow> '','' @ show_nat k)"
    by (cases c) (auto simp: opt_def chr_def digits)
  then have "\<exists>u v. range_text n c @ '' @@'' = u @ v \<and> denotes (plus_of (Cls is_digit)) u
      \<and> denotes (Seq (opt (Seq (chr CHR '','') (plus_of (Cls is_digit)))) (lit '' @@'')) v"
    unfolding range_text_def append_assoc denotes.simps denotes_lit using digits [of n] by blast
  then show ?thesis unfolding hunk_rx_def by (auto simp: chr_def)
qed

lemma takeWhile_digits:
  assumes "list_all is_digit ds" and "\<not> is_digit c"
  shows "takeWhile is_digit (ds @ c # rest) = ds"
  using assms by (induction ds) simp_all

lemma hunk_rx_boundary_free: "boundary_free hunk_rx"
  by (simp add: hunk_rx_def plus_of_def opt_def chr_def)

lemma hunk_rx_elsewhere: "i < length t \<Longrightarrow> t ! i \<noteq> CHR ''+'' \<Longrightarrow> ends hunk_rx t i = []"
  by (simp add: hunk_rx_def chr_def)

lemma plus_not_digit: "is_digit CHR ''+'' = False"
  by code_simp

lemma digits_no_plus: "CHR ''+'' \<notin> set (show_nat n)"
  using show_nat_digits [of n] plus_not_digit by (metis list.pred_set)

lemma hunk_header_line: "hunk_line (hunk_header h) = int (hk_start h)"
proof -
  define pre where "pre = ''@@ -'' @ range_text (fst (hk_old h)) (snd (hk_old h)) @ '' ''"
  define mid where "mid = ''+'' @ range_text (hk_start h) (hk_count h) @ '' @@''"
  let ?t = "hunk_header h" let ?k = "length pre"
  have t: "?t = pre @ mid @ hk_heading h" by (simp add: hunk_header_def pre_def mid_def)
  have "CHR ''+'' \<notin> set pre"
    by (auto simp: pre_def range_text_def digits_no_plus split: option.splits)
  then have "?t ! i \<noteq> CHR ''+''" if "i < ?k" for i
    using that nth_mem [of i pre] unfolding t by (metis nth_append)
  then have before: "ends hunk_rx ?t i = []" if "i < ?k" for i
    using that by (intro hunk_rx_elsewhere) (simp_all add: t)
  have "between_pos ?t ?k (?k + length mid) = mid" by (simp add: between_pos_def t)
  then have "matches (denotes hunk_rx) ?t ?k (?k + length mid)"
    using hunk_rx_range [of "hk_start h" "hk_count h"] by (simp add: matches_def t mid_def)
  then have here: "ends hunk_rx ?t ?k \<noteq> []"
    using ends_iff [OF hunk_rx_boundary_free, of ?k ?t] by (force simp: t)
  have "find (\<lambda>i. ends hunk_rx ?t i \<noteq> []) [0..<Suc (length ?t)] = Some ?k"
    unfolding find_Some_iff
    by (intro exI [of _ ?k] conjI allI impI) (use before here in \<open>simp_all add: t del: upt_Suc\<close>)
  moreover have "takeWhile is_digit (drop (Suc ?k) ?t) = show_nat (hk_start h)"
  proof -
    have "\<exists>c rest. \<not> is_digit c \<and> drop (Suc ?k) ?t = show_nat (hk_start h) @ c # rest"
      by (cases "hk_count h") (auto simp: t mid_def range_text_def is_digit_def)
    then show ?thesis using takeWhile_digits show_nat_digits by force
  qed
  ultimately show ?thesis using show_nat_digits by (simp add: hunk_line_def)
qed

lemma patch_hunk:
  assumes "pt_path s = Some p"
  shows "\<exists>n. foldl patch_step s (render_hunk h)
     = s\<lparr>pt_inHeader := False, pt_line := n, pt_added := pt_added s @ numbered p (int (hk_start h)) (hk_added h)\<rparr>"
proof -
  let ?s = "s\<lparr>pt_inHeader := False, pt_line := int (hk_start h)\<rparr>"
  have "patch_step s (hunk_header h) = ?s"
    using hunk_header_line [of h] by (simp add: patch_step_def hunk_header_def starts_with_def)
  then show ?thesis using assms
    by (intro exI [of _ "int (hk_start h) + int (length (hk_added h))"])
      (simp add: render_hunk_def patch_added [where p = p] patch_removed)
qed

lemma patch_hunks:
  assumes "pt_path s = Some p"
  shows "\<exists>b n. foldl patch_step s (concat (map render_hunk hs))
     = s\<lparr>pt_inHeader := b, pt_line := n,
         pt_added := pt_added s @ concat (map (\<lambda>h. numbered p (int (hk_start h)) (hk_added h)) hs)\<rparr>"
  using assms
proof (induction hs arbitrary: s)
  case Nil
  show ?case by (intro exI [of _ "pt_inHeader s"] exI [of _ "pt_line s"]) simp
next
  case (Cons h hs)
  obtain n where n: "foldl patch_step s (render_hunk h)
     = s\<lparr>pt_inHeader := False, pt_line := n, pt_added := pt_added s @ numbered p (int (hk_start h)) (hk_added h)\<rparr>"
    using patch_hunk [OF Cons.prems] by blast
  have "pt_path (foldl patch_step s (render_hunk h)) = Some p" using Cons.prems by (simp add: n)
  from Cons.IH [OF this] show ?case by (simp add: n)
qed

lemma patch_file:
  assumes "CHR 0x22 \<notin> set (fp_path f)"
  shows "\<exists>s'. foldl patch_step s (render_file f) = s' \<and> pt_added s' = pt_added s @ file_lines f"
proof -
  let ?p = "fp_path f"
  let ?s = "s\<lparr>pt_inHeader := True, pt_path := Some ?p\<rparr>"
  have path: "target_path (''b/'' @ ?p) = ?p"
  proof -
    have "?p = [] \<or> last ?p \<noteq> CHR 0x22" using assms by (metis last_in_set)
    then show ?thesis by (auto simp: target_path_def starts_with_def Let_def)
  qed
  have header: "foldl patch_step s [''diff --git a/'' @ ?p @ '' b/'' @ ?p, ''index 1..2 100644'', ''--- a/'' @ ?p,
     ''+++ b/'' @ ?p] = ?s"
    using path by (simp add: patch_step_def starts_with_def)
  have "pt_path ?s = Some ?p" by simp
  from patch_hunks [OF this, of "fp_hunks f"] obtain b n where
    "foldl patch_step ?s (concat (map render_hunk (fp_hunks f)))
      = ?s\<lparr>pt_inHeader := b, pt_line := n, pt_added := pt_added ?s @ file_lines f\<rparr>"
    unfolding file_lines_def by blast
  then show ?thesis unfolding render_file_def foldl_append header by simp
qed

definition plain_line :: "string \<Rightarrow> bool" where
  "plain_line t = (line_feed \<notin> set t)"

definition plain_patch :: "file_patch \<Rightarrow> bool" where
  "plain_patch f = (plain_line (fp_path f) \<and> CHR 0x22 \<notin> set (fp_path f)
     \<and> list_all (\<lambda>h. plain_line (hk_heading h) \<and> list_all plain_line (hk_removed h @ hk_added h)) (fp_hunks f))"

lemma show_nat_plain: "plain_line (show_nat n)"
proof -
  have "\<not> is_digit line_feed" by (simp add: is_digit_def line_feed_def)
  then show ?thesis using show_nat_digits [of n] unfolding plain_line_def by (metis list.pred_set)
qed

lemma render_file_plain: "plain_patch f \<Longrightarrow> \<forall>t \<in> set (render_file f). line_feed \<notin> set t"
  using show_nat_plain
  by (auto simp: render_file_def plain_patch_def render_hunk_def hunk_header_def range_text_def plain_line_def
      list_all_iff line_feed_def split: option.splits)

lemma patch_files:
  assumes "\<forall>f \<in> set fs. CHR 0x22 \<notin> set (fp_path f)"
  shows "pt_added (foldl patch_step s (concat (map render_file fs))) = pt_added s @ concat (map file_lines fs)"
  using assms
proof (induction fs arbitrary: s)
  case (Cons f fs)
  then show ?case using patch_file [of f s] by auto
qed simp

end
