(* ===== verification/ChangeGuarantees.thy ===== *)
theory ChangeGuarantees
  imports WorkspaceChanges
begin

text \<open>
  What the checks on an agent's changes promise: exactly which change sets are accepted, what a path
  glob protects, and that no added line of a patch escapes inspection.
\<close>

section \<open>Accepted change sets\<close>

text \<open>The rules one file must keep, and the rules one repository must keep.\<close>

definition file_accepted :: "diff_policy \<Rightarrow> changed_file \<Rightarrow> bool" where
  "file_accepted p f \<longleftrightarrow> \<not> matches_any_glob (cf_path f) (dp_forbiddenPaths p)
     \<and> cf_mode f \<noteq> ''120000'' \<and> cf_mode f \<noteq> ''160000''
     \<and> (cf_status f = ''D'' \<or> \<not> matches_any_glob (cf_path f) (dp_generatedPaths p)
          \<and> (cf_addedLines f \<noteq> None \<or> matches_any_glob (cf_path f) (dp_allowedBinaryPaths p)))"

definition repository_accepted :: "diff_input \<Rightarrow> repository_changes \<Rightarrow> bool" where
  "repository_accepted i r \<longleftrightarrow> \<not> (rg_files r = [] \<and> rg_repository r \<in> set (di_required i))
     \<and> int (length (rg_files r)) \<le> dp_maxChangedFiles (di_policy i)
     \<and> lines_of cf_addedLines (rg_files r) + lines_of cf_deletedLines (rg_files r) \<le> dp_maxChangedLines (di_policy i)
     \<and> int (length (unplanned_files i r)) \<le> dp_maxUnplannedFiles (di_policy i)
     \<and> list_all (file_accepted (di_policy i)) (rg_files r)
     \<and> list_all (\<lambda>l. detect_secrets (al_text l) (di_knownSecrets i) = []) (rg_addedLines r)"

lemma file_violations_none: "file_violations p repo f = [] \<longleftrightarrow> file_accepted p f"
  by (simp add: file_violations_def file_accepted_def Let_def)

lemma repository_violations_none: "repository_violations i r = [] \<longleftrightarrow> repository_accepted i r"
  by (simp add: repository_violations_def repository_accepted_def Let_def file_violations_none secret_violations_def
      list_all_iff not_less)

lemma evaluate_none: "fst (evaluate_changes i) = [] \<longleftrightarrow>
     list_ex (\<lambda>r. rg_files r \<noteq> []) (di_changes i) \<and> list_all (repository_accepted i) (di_changes i)"
  by (auto simp: evaluate_changes_def repository_violations_none list_all_iff list_ex_iff)


section \<open>Lines that were not read\<close>

text \<open>Collecting changes skips the patch only when the change is over the line limit it is given,
  and then the evaluation under a policy with that limit (or a lower one) reports too many lines; an
  accepted change set was read in full, and every one of its repositories without secrets.
\<close>

theorem unread_patch_is_refused:
  assumes "r = collect_changes repo raw numstat patch (dp_maxChangedLines (di_policy i))"
    and "r \<in> set (di_changes i)" and "fst (evaluate_changes i) = []"
  shows "\<not> rg_patchSkipped r \<and> (rg_files r \<noteq> [] \<longrightarrow> rg_addedLines r = parse_added_lines patch)
     \<and> list_all (\<lambda>l. detect_secrets (al_text l) (di_knownSecrets i) = []) (rg_addedLines r)"
proof -
  have ok: "repository_accepted i r" using assms(2,3) unfolding evaluate_none by (simp add: list_all_iff)
  then have "lines_of cf_addedLines (rg_files r) + lines_of cf_deletedLines (rg_files r) \<le> dp_maxChangedLines (di_policy i)"
    by (simp add: repository_accepted_def)
  moreover have "rg_patchSkipped r \<longrightarrow> dp_maxChangedLines (di_policy i)
      < lines_of cf_addedLines (rg_files r) + lines_of cf_deletedLines (rg_files r)"
    and "rg_files r \<noteq> [] \<longrightarrow> \<not> rg_patchSkipped r \<longrightarrow> rg_addedLines r = parse_added_lines patch"
    by (simp_all add: assms(1) collect_changes_def Let_def)
  ultimately show ?thesis using ok by (auto simp: repository_accepted_def)
qed

section \<open>What a glob matches\<close>

definition literal_text :: "string \<Rightarrow> bool" where
  "literal_text p \<longleftrightarrow> CHR ''*'' \<notin> set p \<and> CHR ''?'' \<notin> set p"

definition one_line :: "string \<Rightarrow> bool" where
  "one_line s \<longleftrightarrow> CHR 0x0A \<notin> set s \<and> CHR 0x0D \<notin> set s"

lemma full_match_denotes: "boundary_free r \<Longrightarrow> full_match r s \<longleftrightarrow> denotes r s"
  by (simp add: full_match_def ends_iff matches_def between_all)

lemma glob_boundary_free: "boundary_free (glob_rx g)"
  by (induction g rule: glob_rx.induct) (auto simp: opt_def not_slash_def dot_def chr_def split: list.splits)

lemma denotes_dots: "denotes (Star dot) s \<longleftrightarrow> one_line s"
proof
  assume "denotes (Star dot) s"
  then have "star_of (denotes dot) s" by simp
  then show "one_line s" by (induction rule: star_of.induct) (auto simp: one_line_def dot_def)
next
  have "one_line s \<Longrightarrow> star_of (denotes dot) s"
  proof (induction s)
    case (Cons c s)
    then have "star_of (denotes dot) ([c] @ s)" by (intro star_app) (auto simp: one_line_def dot_def)
    then show ?case by simp
  qed (rule star_Nil)
  then show "one_line s \<Longrightarrow> denotes (Star dot) s" by simp
qed

lemma denotes_literal:
  assumes "literal_text p"
  shows "denotes (glob_rx (p @ g)) s \<longleftrightarrow> (\<exists>rest. s = p @ rest \<and> denotes (glob_rx g) rest)"
  using assms
proof (induction p arbitrary: s)
  case (Cons c p)
  then have "glob_rx ((c # p) @ g) = Seq (chr c) (glob_rx (p @ g))" by (auto simp: literal_text_def)
  then show ?case using Cons by (auto simp: chr_def literal_text_def)
qed simp

lemma denotes_segments:
  "denotes (opt (Seq (Star dot) (chr CHR ''/''))) s \<longleftrightarrow> s = [] \<or> (\<exists>d. s = d @ ''/'' \<and> one_line d)"
  using denotes_dots by (auto simp: opt_def chr_def simp del: denotes.simps(5))

lemma denotes_literal_end: "literal_text p \<Longrightarrow> denotes (glob_rx p) s \<longleftrightarrow> s = p"
  using denotes_literal [of p "[]" s] by simp

text \<open>For texts without wildcards, a directory pattern \<open>d/**\<close> matches exactly the paths under the
  directory \<open>d\<close>, and a name pattern \<open>**/n\<close> exactly \<open>n\<close> at the root or under any directory,
  provided the part the wildcard stands for has no line terminator.
\<close>

theorem globs_protect:
  assumes "literal_text d"
  shows "(matches_any_glob path [d @ ''/**''] \<longleftrightarrow> (\<exists>rest. path = d @ ''/'' @ rest \<and> one_line rest))
    \<and> (matches_any_glob path [''**/'' @ d] \<longleftrightarrow> path = d \<or> (\<exists>dir. path = dir @ ''/'' @ d \<and> one_line dir))"
proof
  have "literal_text (d @ ''/'')" using assms by (simp add: literal_text_def)
  from denotes_literal [OF this, of "''**''" path] denotes_dots
  show "matches_any_glob path [d @ ''/**''] \<longleftrightarrow> (\<exists>rest. path = d @ ''/'' @ rest \<and> one_line rest)"
    by (simp add: matches_any_glob_def full_match_denotes glob_boundary_free)
  have "denotes (glob_rx (''**/'' @ d)) path
      \<longleftrightarrow> (\<exists>u v. path = u @ v \<and> denotes (opt (Seq (Star dot) (chr CHR ''/''))) u \<and> denotes (glob_rx d) v)" by simp
  then show "matches_any_glob path [''**/'' @ d] \<longleftrightarrow> path = d \<or> (\<exists>dir. path = dir @ ''/'' @ d \<and> one_line dir)"
    unfolding denotes_segments denotes_literal_end [OF assms]
    by (auto simp: matches_any_glob_def full_match_denotes glob_boundary_free simp del: glob_rx.simps)
qed

definition sample_policy :: diff_policy where
  "sample_policy = \<lparr>dp_maxChangedFiles = 50, dp_maxChangedLines = 2000, dp_maxUnplannedFiles = 10,
     dp_forbiddenPaths = [''.github/**'', ''**/AGENTS.md''], dp_generatedPaths = [''**/dist/**''],
     dp_allowedBinaryPaths = []\<rparr>"

theorem globs_protect_witness:
  "literal_text ''.github'' \<and> (\<exists>rest. ''.github/w.yml'' = ''.github'' @ ''/'' @ rest \<and> one_line rest)
   \<and> matches_any_glob ''.github/w.yml'' [''.github'' @ ''/**'']"
proof -
  have l: "literal_text ''.github''" by (simp add: literal_text_def)
  have r: "\<exists>rest. ''.github/w.yml'' = ''.github'' @ ''/'' @ rest \<and> one_line rest"
    by (intro exI [of _ "''w.yml''"]) (simp add: one_line_def)
  then have "matches_any_glob ''.github/w.yml'' [''.github'' @ ''/**'']" using globs_protect [OF l] by blast
  with l r show ?thesis by blast
qed

section \<open>Paths with line terminators\<close>

definition sample_input :: "string \<Rightarrow> diff_input" where
  "sample_input path = \<lparr>di_changes = [\<lparr>rg_repository = ''api'',
       rg_files = [\<lparr>cf_path = path, cf_status = ''A'', cf_mode = ''100644'', cf_addedLines = Some 1, cf_deletedLines = Some 0\<rparr>],
       rg_addedLines = [\<lparr>al_path = path, al_line = 1, al_text = ''on: push''\<rparr>], rg_patchSkipped = False\<rparr>],
     di_policy = sample_policy, di_required = [''api''], di_plannedPaths = [(''api'', [''src/a.ts''])], di_knownSecrets = []\<rparr>"

lemma quiet_line: "detect_secrets ''on: push'' [] = []"
  by (rule detect_secrets_stuck) (simp add: stuck_rules)

lemma sample_evaluation: "fst (evaluate_changes (sample_input path))
   = file_violations sample_policy ''api''
       \<lparr>cf_path = path, cf_status = ''A'', cf_mode = ''100644'', cf_addedLines = Some 1, cf_deletedLines = Some 0\<rparr>"
proof -
  have "int (length (unplanned_files i r)) \<le> int (length (rg_files r))" for i r
    unfolding unplanned_files_def using length_filter_le [of _ "map cf_path (rg_files r)"] by (simp only: length_map of_nat_le_iff)
  from this [of "sample_input path" "hd (di_changes (sample_input path))"] show ?thesis
    by (simp add: evaluate_changes_def repository_violations_def sample_input_def Let_def lines_of_def sample_policy_def
        secret_violations_def quiet_line)
qed


section \<open>No added line escapes\<close>

text \<open>Reading back a zero-context patch of any files and hunks yields exactly the added lines, each
  with its file and its line number in the new file, whatever the lines contain (also lines that look
  like headers), as long as no line holds a line feed and no path a quotation mark.
\<close>

theorem added_lines_round_trip:
  assumes "list_all plain_patch fs"
  shows "parse_added_lines (join [line_feed] (concat (map render_file fs))) = concat (map file_lines fs)"
proof (cases "fs = []")
  case True
  then show ?thesis by (simp add: parse_added_lines_def patch_step_def starts_with_def)
next
  case False
  have quotes: "\<forall>f \<in> set fs. CHR 0x22 \<notin> set (fp_path f)" using assms by (auto simp: list_all_iff plain_patch_def)
  have "concat (map render_file fs) \<noteq> []" using False by (cases fs) (simp_all add: render_file_def)
  moreover have "\<forall>t \<in> set (concat (map render_file fs)). line_feed \<notin> set t"
    using assms render_file_plain by (auto simp: list_all_iff)
  ultimately have "split_on line_feed (join [line_feed] (concat (map render_file fs))) = concat (map render_file fs)"
    by (intro split_on_join) auto
  then show ?thesis using patch_files [OF quotes] by (simp add: parse_added_lines_def)
qed

definition sample_patch :: file_patch where
  "sample_patch = \<lparr>fp_path = ''src/a.ts'', fp_hunks = [\<lparr>hk_old = (3, Some 1), hk_start = 3, hk_count = Some 2,
     hk_heading = '' function f()'', hk_removed = [''-- x''], hk_added = [''++ b/other'', ''diff --git a/x b/x'']\<rparr>]\<rparr>"

theorem added_lines_round_trip_witness:
  "list_all plain_patch [sample_patch] \<and>
   map al_text (parse_added_lines (join [line_feed] (concat (map render_file [sample_patch]))))
     = [''++ b/other'', ''diff --git a/x b/x'']"
proof -
  have p: "list_all plain_patch [sample_patch]" by code_simp
  have "map al_text (concat (map file_lines [sample_patch])) = [''++ b/other'', ''diff --git a/x b/x'']" by code_simp
  with p show ?thesis using added_lines_round_trip [OF p] by simp
qed

definition sample_changes :: repository_changes where
  "sample_changes = collect_changes ''api'' (concat ['':000000 100644 0 1 A'', [nul_char], ''src/a.ts'', [nul_char]])
       (concat [''1'', [tab_char], ''0'', [tab_char], ''src/a.ts'', [nul_char]])
       (join [line_feed] [''diff --git a/src/a.ts b/src/a.ts'', ''+++ b/src/a.ts'', ''@@ -0,0 +1 @@'', ''+on: push'']) 2000"

theorem unread_patch_is_refused_witness:
  "sample_changes \<in> set (di_changes (sample_input ''src/a.ts'')) \<and> fst (evaluate_changes (sample_input ''src/a.ts'')) = []
   \<and> \<not> rg_patchSkipped sample_changes"
proof -
  let ?i = "sample_input ''src/a.ts''"
  have "sample_changes = hd (di_changes ?i)" by code_simp
  then have m: "sample_changes \<in> set (di_changes ?i)" by (simp add: sample_input_def)
  have a: "fst (evaluate_changes ?i) = []" unfolding sample_evaluation by code_simp
  have "dp_maxChangedLines (di_policy ?i) = 2000" by code_simp
  then have r: "sample_changes = collect_changes ''api'' (concat ['':000000 100644 0 1 A'', [nul_char], ''src/a.ts'', [nul_char]])
       (concat [''1'', [tab_char], ''0'', [tab_char], ''src/a.ts'', [nul_char]])
       (join [line_feed] [''diff --git a/src/a.ts b/src/a.ts'', ''+++ b/src/a.ts'', ''@@ -0,0 +1 @@'', ''+on: push''])
       (dp_maxChangedLines (di_policy ?i))" by (simp only: sample_changes_def)
  from unread_patch_is_refused [OF r m a] m a show ?thesis by blast
qed

end
