(* ===== verification/AgentResults.thy ===== *)
theory AgentResults
  imports Planning
begin

text \<open>
  The results agents return (\<open>src/execution/agent-results.ts\<close>): their data and decoders, the checks a
  schema cannot express, and the structured-output schema. The schema version of a result is a literal
  of its schema and is written back when the result is encoded.
\<close>

section \<open>Bounded fields\<close>

definition dec_bounded :: "nat \<Rightarrow> json \<Rightarrow> string option" where
  "dec_bounded n j = (case dec_text j of None \<Rightarrow> None | Some s \<Rightarrow> if length s \<le> n then Some s else None)"

definition dec_at_most :: "nat \<Rightarrow> (json \<Rightarrow> 'a option) \<Rightarrow> json \<Rightarrow> 'a list option" where
  "dec_at_most n dec j = (case dec_list 0 dec j of None \<Rightarrow> None | Some xs \<Rightarrow> if length xs \<le> n then Some xs else None)"

definition dec_literal :: "string \<Rightarrow> json \<Rightarrow> string option" where
  "dec_literal s j = (if j = JStr s then Some s else None)"

definition dec_choice :: "('a \<Rightarrow> string) \<Rightarrow> 'a list \<Rightarrow> json \<Rightarrow> 'a option" where
  "dec_choice name values j = (case j of JStr s \<Rightarrow> find (\<lambda>v. name v = s) values | _ \<Rightarrow> None)"

definition result_text :: "json \<Rightarrow> string option" where
  "result_text = dec_bounded 4000"

definition repository_path :: "json \<Rightarrow> string option" where
  "repository_path = dec_bounded 500"

definition dec_repository :: "json \<Rightarrow> string option" where
  "dec_repository = dec_enum repository_names"

definition analysis_result_version :: string where
  "analysis_result_version = ''kelolakelas.agent.analysis/v1''"

definition implementation_result_version :: string where
  "implementation_result_version = ''kelolakelas.agent.implementation/v1''"

definition fix_result_version :: string where
  "fix_result_version = ''kelolakelas.agent.fix/v1''"

definition review_result_version :: string where
  "review_result_version = ''kelolakelas.agent.review/v1''"

section \<open>Analysis\<close>

datatype plan_decision = Proceed | NeedsClarification
datatype change_action = CreateFile | ModifyFile | DeleteFile

fun show_decision :: "plan_decision \<Rightarrow> string" where
  "show_decision Proceed = ''proceed''"
| "show_decision NeedsClarification = ''needs-clarification''"

fun show_change_action :: "change_action \<Rightarrow> string" where
  "show_change_action CreateFile = ''create''"
| "show_change_action ModifyFile = ''modify''"
| "show_change_action DeleteFile = ''delete''"

record planned_change =
  pc_path :: string
  pc_action :: change_action
  pc_rationale :: string

record repository_plan =
  pn_repository :: string
  pn_summary :: string
  pn_changes :: "planned_change list"

record criterion =
  ct_criterion :: string
  ct_approach :: string

record analysis_result =
  an_decision :: plan_decision
  an_summary :: string
  an_clarifications :: "string list"
  an_repositories :: "repository_plan list"
  an_acceptanceCriteria :: "criterion list"
  an_testPlan :: "string list"
  an_risks :: "string list"

definition dec_planned_change :: "json \<Rightarrow> planned_change option" where
  "dec_planned_change j =
     Option.bind (strict_object [''path'', ''action'', ''rationale''] j) (\<lambda>o'.
     Option.bind (field o' ''path'' repository_path) (\<lambda>a.
     Option.bind (field o' ''action'' (dec_choice show_change_action [CreateFile, ModifyFile, DeleteFile])) (\<lambda>b.
     Option.bind (field o' ''rationale'' result_text) (\<lambda>c.
       Some \<lparr>pc_path = a, pc_action = b, pc_rationale = c\<rparr>))))"

definition dec_repository_plan :: "json \<Rightarrow> repository_plan option" where
  "dec_repository_plan j =
     Option.bind (strict_object [''repository'', ''summary'', ''changes''] j) (\<lambda>o'.
     Option.bind (field o' ''repository'' dec_repository) (\<lambda>a.
     Option.bind (field o' ''summary'' result_text) (\<lambda>b.
     Option.bind (field o' ''changes'' (dec_at_most 200 dec_planned_change)) (\<lambda>c.
       Some \<lparr>pn_repository = a, pn_summary = b, pn_changes = c\<rparr>))))"

definition dec_criterion :: "json \<Rightarrow> criterion option" where
  "dec_criterion j =
     Option.bind (strict_object [''criterion'', ''approach''] j) (\<lambda>o'.
     Option.bind (field o' ''criterion'' result_text) (\<lambda>a.
     Option.bind (field o' ''approach'' result_text) (\<lambda>b.
       Some \<lparr>ct_criterion = a, ct_approach = b\<rparr>)))"

definition dec_analysis :: "json \<Rightarrow> analysis_result option" where
  "dec_analysis j =
     Option.bind (strict_object [''schemaVersion'', ''decision'', ''summary'', ''clarifications'', ''repositories'',
        ''acceptanceCriteria'', ''testPlan'', ''risks''] j) (\<lambda>o'.
     Option.bind (field o' ''schemaVersion'' (dec_literal analysis_result_version)) (\<lambda>_.
     Option.bind (field o' ''decision'' (dec_choice show_decision [Proceed, NeedsClarification])) (\<lambda>a.
     Option.bind (field o' ''summary'' result_text) (\<lambda>b.
     Option.bind (field o' ''clarifications'' (dec_at_most 20 result_text)) (\<lambda>c.
     Option.bind (field o' ''repositories'' (dec_at_most (length repository_names) dec_repository_plan)) (\<lambda>d.
     Option.bind (field o' ''acceptanceCriteria'' (dec_at_most 50 dec_criterion)) (\<lambda>e.
     Option.bind (field o' ''testPlan'' (dec_at_most 50 result_text)) (\<lambda>f.
     Option.bind (field o' ''risks'' (dec_at_most 20 result_text)) (\<lambda>g.
       Some \<lparr>an_decision = a, an_summary = b, an_clarifications = c, an_repositories = d,
             an_acceptanceCriteria = e, an_testPlan = f, an_risks = g\<rparr>)))))))))"

definition enc_planned_change :: "planned_change \<Rightarrow> json" where
  "enc_planned_change c = JObj [(''path'', JStr (pc_path c)), (''action'', JStr (show_change_action (pc_action c))),
     (''rationale'', JStr (pc_rationale c))]"

definition enc_repository_plan :: "repository_plan \<Rightarrow> json" where
  "enc_repository_plan p = JObj [(''repository'', JStr (pn_repository p)), (''summary'', JStr (pn_summary p)),
     (''changes'', JArr (map enc_planned_change (pn_changes p)))]"

definition enc_criterion :: "criterion \<Rightarrow> json" where
  "enc_criterion c = JObj [(''criterion'', JStr (ct_criterion c)), (''approach'', JStr (ct_approach c))]"

definition enc_analysis :: "analysis_result \<Rightarrow> json" where
  "enc_analysis a = JObj [(''schemaVersion'', JStr analysis_result_version),
     (''decision'', JStr (show_decision (an_decision a))), (''summary'', JStr (an_summary a)),
     (''clarifications'', enc_texts (an_clarifications a)),
     (''repositories'', JArr (map enc_repository_plan (an_repositories a))),
     (''acceptanceCriteria'', JArr (map enc_criterion (an_acceptanceCriteria a))),
     (''testPlan'', enc_texts (an_testPlan a)), (''risks'', enc_texts (an_risks a))]"

section \<open>Changes\<close>

datatype change_status = ChangeCompleted | ChangeBlocked

fun show_status :: "change_status \<Rightarrow> string" where
  "show_status ChangeCompleted = ''completed''"
| "show_status ChangeBlocked = ''blocked''"

record repository_summary =
  rs_repository :: string
  rs_summary :: string

record change_result =
  ch_status :: change_status
  ch_summary :: string
  ch_blockedReason :: "string option"
  ch_repositories :: "repository_summary list"
  ch_validation :: "string list"

definition dec_repository_summary :: "json \<Rightarrow> repository_summary option" where
  "dec_repository_summary j =
     Option.bind (strict_object [''repository'', ''summary''] j) (\<lambda>o'.
     Option.bind (field o' ''repository'' dec_repository) (\<lambda>a.
     Option.bind (field o' ''summary'' result_text) (\<lambda>b.
       Some \<lparr>rs_repository = a, rs_summary = b\<rparr>)))"

definition dec_change_result :: "string \<Rightarrow> json \<Rightarrow> change_result option" where
  "dec_change_result version j =
     Option.bind (strict_object [''schemaVersion'', ''status'', ''summary'', ''blockedReason'', ''repositories'',
        ''validation''] j) (\<lambda>o'.
     Option.bind (field o' ''schemaVersion'' (dec_literal version)) (\<lambda>_.
     Option.bind (field o' ''status'' (dec_choice show_status [ChangeCompleted, ChangeBlocked])) (\<lambda>a.
     Option.bind (field o' ''summary'' result_text) (\<lambda>b.
     Option.bind (field o' ''blockedReason'' (dec_nullable result_text)) (\<lambda>c.
     Option.bind (field o' ''repositories'' (dec_at_most (length repository_names) dec_repository_summary)) (\<lambda>d.
     Option.bind (field o' ''validation'' (dec_at_most 50 result_text)) (\<lambda>e.
       Some \<lparr>ch_status = a, ch_summary = b, ch_blockedReason = c, ch_repositories = d, ch_validation = e\<rparr>)))))))"

definition enc_nullable :: "string option \<Rightarrow> json" where
  "enc_nullable v = (case v of None \<Rightarrow> JNull | Some s \<Rightarrow> JStr s)"

definition enc_change_result :: "string \<Rightarrow> change_result \<Rightarrow> json" where
  "enc_change_result version c = JObj [(''schemaVersion'', JStr version), (''status'', JStr (show_status (ch_status c))),
     (''summary'', JStr (ch_summary c)), (''blockedReason'', enc_nullable (ch_blockedReason c)),
     (''repositories'', JArr (map (\<lambda>r. JObj [(''repository'', JStr (rs_repository r)), (''summary'', JStr (rs_summary r))])
        (ch_repositories c))), (''validation'', enc_texts (ch_validation c))]"

section \<open>Reviews\<close>

datatype verdict = Approve | RequestChanges | RejectChange
datatype severity = BlockerFinding | MajorFinding | MinorFinding

fun show_verdict :: "verdict \<Rightarrow> string" where
  "show_verdict Approve = ''approve''"
| "show_verdict RequestChanges = ''request-changes''"
| "show_verdict RejectChange = ''reject''"

fun show_severity :: "severity \<Rightarrow> string" where
  "show_severity BlockerFinding = ''blocker''"
| "show_severity MajorFinding = ''major''"
| "show_severity MinorFinding = ''minor''"

record review_finding =
  fd_repository :: string
  fd_path :: string
  fd_line :: "int option"
  fd_severity :: severity
  fd_description :: string

record review_result =
  rw_verdict :: verdict
  rw_summary :: string
  rw_findings :: "review_finding list"

definition dec_line :: "json \<Rightarrow> int option" where
  "dec_line j = (case j of JNum n \<Rightarrow> if 0 < n then Some n else None | _ \<Rightarrow> None)"

definition dec_finding :: "json \<Rightarrow> review_finding option" where
  "dec_finding j =
     Option.bind (strict_object [''repository'', ''path'', ''line'', ''severity'', ''description''] j) (\<lambda>o'.
     Option.bind (field o' ''repository'' dec_repository) (\<lambda>a.
     Option.bind (field o' ''path'' repository_path) (\<lambda>b.
     Option.bind (field o' ''line'' (dec_nullable dec_line)) (\<lambda>c.
     Option.bind (field o' ''severity'' (dec_choice show_severity [BlockerFinding, MajorFinding, MinorFinding])) (\<lambda>d.
     Option.bind (field o' ''description'' result_text) (\<lambda>e.
       Some \<lparr>fd_repository = a, fd_path = b, fd_line = c, fd_severity = d, fd_description = e\<rparr>))))))"

definition dec_review :: "json \<Rightarrow> review_result option" where
  "dec_review j =
     Option.bind (strict_object [''schemaVersion'', ''verdict'', ''summary'', ''findings''] j) (\<lambda>o'.
     Option.bind (field o' ''schemaVersion'' (dec_literal review_result_version)) (\<lambda>_.
     Option.bind (field o' ''verdict'' (dec_choice show_verdict [Approve, RequestChanges, RejectChange])) (\<lambda>a.
     Option.bind (field o' ''summary'' result_text) (\<lambda>b.
     Option.bind (field o' ''findings'' (dec_at_most 100 dec_finding)) (\<lambda>c.
       Some \<lparr>rw_verdict = a, rw_summary = b, rw_findings = c\<rparr>)))))"

definition enc_finding :: "review_finding \<Rightarrow> json" where
  "enc_finding f = JObj [(''repository'', JStr (fd_repository f)), (''path'', JStr (fd_path f)),
     (''line'', (case fd_line f of None \<Rightarrow> JNull | Some n \<Rightarrow> JNum n)),
     (''severity'', JStr (show_severity (fd_severity f))), (''description'', JStr (fd_description f))]"

definition enc_review :: "review_result \<Rightarrow> json" where
  "enc_review r = JObj [(''schemaVersion'', JStr review_result_version), (''verdict'', JStr (show_verdict (rw_verdict r))),
     (''summary'', JStr (rw_summary r)), (''findings'', JArr (map enc_finding (rw_findings r)))]"

section \<open>Safe paths\<close>

text \<open>
  Node's \<open>posix.normalize\<close> of a path without a leading slash: empty segments and \<open>.\<close> are dropped,
  \<open>..\<close> removes the segment before it unless that is a \<open>..\<close> itself.
\<close>

definition normalize_step :: "string list \<Rightarrow> string \<Rightarrow> string list" where
  "normalize_step res seg =
     (if seg = [] \<or> seg = ''.'' then res
      else if seg = ''..'' \<and> res \<noteq> [] \<and> last res \<noteq> ''..'' then butlast res
      else res @ [seg])"

definition normalize_relative :: "string \<Rightarrow> string" where
  "normalize_relative path =
     (let s = join ''/'' (foldl normalize_step [] (split_on CHR ''/'' path));
          trailing = (path \<noteq> [] \<and> last path = CHR ''/'') in
      if s = [] then (if trailing then ''./'' else ''.'') else if trailing then s @ ''/'' else s)"

definition without_trailing_slashes :: "string \<Rightarrow> string" where
  "without_trailing_slashes p = rev (dropWhile (\<lambda>c. c = CHR ''/'') (rev p))"

definition is_safe_repository_path :: "string \<Rightarrow> bool" where
  "is_safe_repository_path path =
     (let trimmed = without_trailing_slashes path in
      if trimmed = [] \<or> CHR 0x5C \<in> set trimmed \<or> CHR 0x00 \<in> set trimmed \<or> starts_with trimmed ''/'' then False
      else let normalized = normalize_relative trimmed in
        normalized = trimmed \<and> normalized \<noteq> ''.'' \<and> normalized \<noteq> ''..'' \<and> \<not> starts_with normalized ''../'')"

section \<open>Checks beyond the schema\<close>

text \<open>JavaScript's default sort compares code units.\<close>

definition same_members :: "string list \<Rightarrow> string list \<Rightarrow> bool" where
  "same_members xs ys = (join [CHR 0x00] (sort xs) = join [CHR 0x00] (sort ys))"

definition analysis_problems :: "analysis_result \<Rightarrow> string list \<Rightarrow> string list" where
  "analysis_problems r declared =
     (let planned = map pn_repository (an_repositories r) in
      (if \<not> distinct planned then [''plan lists a repository more than once''] else [])
      @ (if \<not> same_members planned declared
         then [''plan repositories ['' @ join '', '' planned @ ''] must equal contract repositories ['' @ join '', '' declared
               @ '']''] else [])
      @ (if an_decision r = Proceed \<and> list_ex (\<lambda>e. pn_changes e = []) (an_repositories r)
         then [''every planned repository must list at least one change''] else [])
      @ (if an_decision r = NeedsClarification \<and> an_clarifications r = []
         then [''needs-clarification requires at least one clarification''] else [])
      @ concat (map (\<lambda>e. map (\<lambda>c. ''unsafe path in '' @ pn_repository e @ '': '' @ quote (pc_path c))
             (filter (\<lambda>c. \<not> is_safe_repository_path (pc_path c)) (pn_changes e))) (an_repositories r)))"

definition review_problems :: "review_result \<Rightarrow> string list \<Rightarrow> string list" where
  "review_problems r declared = concat (map (\<lambda>f.
       (if fd_repository f \<in> set declared then [] else [''finding names undeclared repository '' @ fd_repository f])
       @ (if is_safe_repository_path (fd_path f) then [] else [''unsafe finding path '' @ quote (fd_path f)])) (rw_findings r))"

definition effective_verdict :: "review_result \<Rightarrow> verdict" where
  "effective_verdict r =
     (if rw_verdict r = Approve \<and> list_ex (\<lambda>f. fd_severity f \<noteq> MinorFinding) (rw_findings r)
      then RequestChanges else rw_verdict r)"

section \<open>Structured-output schemas\<close>

text \<open>The schema types the conversion distinguishes; any other type is an error.\<close>

datatype zod =
    ZObject "(string \<times> zod) list"
  | ZNullable zod
  | ZArray zod
  | ZEnum "string list"
  | ZLiteral string
  | ZString
  | ZNumber bool
  | ZBoolean
  | ZOther string

definition typed :: "string \<Rightarrow> json" where
  "typed t = JObj [(''type'', JStr t)]"

fun to_strict_json_schema :: "zod \<Rightarrow> (orch_error, json) result"
  and strict_properties :: "(string \<times> zod) list \<Rightarrow> (orch_error, json_object) result" where
  "to_strict_json_schema (ZObject shape) =
     and_then (strict_properties shape) (\<lambda>ps. Inr (JObj [(''type'', JStr ''object''), (''properties'', JObj ps),
       (''required'', enc_texts (map fst shape)), (''additionalProperties'', JBool False)]))"
| "to_strict_json_schema (ZNullable z) =
     and_then (to_strict_json_schema z) (\<lambda>s. Inr (JObj [(''anyOf'', JArr [s, typed ''null''])]))"
| "to_strict_json_schema (ZArray z) =
     and_then (to_strict_json_schema z) (\<lambda>s. Inr (JObj [(''type'', JStr ''array''), (''items'', s)]))"
| "to_strict_json_schema (ZEnum vs) = Inr (JObj [(''type'', JStr ''string''), (''enum'', enc_texts vs)])"
| "to_strict_json_schema (ZLiteral v) = Inr (JObj [(''type'', JStr ''string''), (''enum'', enc_texts [v])])"
| "to_strict_json_schema ZString = Inr (typed ''string'')"
| "to_strict_json_schema (ZNumber isInt) = Inr (typed (if isInt then ''integer'' else ''number''))"
| "to_strict_json_schema ZBoolean = Inr (typed ''boolean'')"
| "to_strict_json_schema (ZOther t) = Inl (PlainError (''Unsupported schema type for structured output: '' @ t))"
| "strict_properties [] = Inr []"
| "strict_properties ((k, z) # ps) =
     and_then (to_strict_json_schema z) (\<lambda>s. and_then (strict_properties ps) (\<lambda>r. Inr ((k, s) # r)))"

section \<open>Safe paths stay inside the repository\<close>

definition plain_segment :: "string \<Rightarrow> bool" where
  "plain_segment seg \<longleftrightarrow> seg \<noteq> [] \<and> seg \<noteq> ''.'' \<and> seg \<noteq> ''..''"

lemma join_split: "join [c] (split_on c s) = s"
proof (induction s)
  case (Cons x s)
  then show ?case by (cases "split_on c s" rule: list.exhaust; cases "tl (split_on c s)") auto
qed simp

lemma split_no_sep: "w \<in> set (split_on c s) \<Longrightarrow> c \<notin> set w"
  by (induction s arbitrary: w) (auto split: if_splits list.splits)

lemma normalize_plain: "list_all plain_segment segs \<Longrightarrow> foldl normalize_step res segs = res @ segs"
  by (induction segs arbitrary: res) (simp_all add: normalize_step_def plain_segment_def)

definition normal_form :: "string list \<Rightarrow> bool" where
  "normal_form res \<longleftrightarrow> (\<exists>n rest. res = replicate n ''..'' @ rest \<and> list_all plain_segment rest)"

lemma normal_step: "normal_form res \<Longrightarrow> normal_form (normalize_step res seg)"
proof -
  assume "normal_form res"
  then obtain n rest where r: "res = replicate n ''..'' @ rest" "list_all plain_segment rest"
    by (auto simp: normal_form_def)
  consider "plain_segment seg" | "seg = ''..''" "rest \<noteq> []" | "seg = ''..''" "rest = []" | "seg = [] \<or> seg = ''.''"
    by (auto simp: plain_segment_def)
  then show ?thesis
  proof cases
    case 1
    then have "normalize_step res seg = replicate n ''..'' @ (rest @ [seg])"
      by (simp add: normalize_step_def plain_segment_def r(1))
    moreover have "list_all plain_segment (rest @ [seg])" using 1 r(2) by simp
    ultimately show ?thesis unfolding normal_form_def by blast
  next
    case 2
    then obtain front l where rest: "rest = front @ [l]" by (metis rev_exhaust)
    then have "normalize_step res seg = replicate n ''..'' @ front"
      using 2(1) r(2) by (simp add: normalize_step_def r(1) plain_segment_def butlast_append)
    moreover have "list_all plain_segment front" using r(2) rest by simp
    ultimately show ?thesis unfolding normal_form_def by blast
  next
    case 3
    then have "normalize_step res seg = replicate (Suc n) ''..'' @ []"
      by (cases n) (simp_all add: normalize_step_def r(1) replicate_append_same)
    moreover have "list_all plain_segment []" by simp
    ultimately show ?thesis unfolding normal_form_def by blast
  next
    case 4
    then show ?thesis using \<open>normal_form res\<close> by (auto simp: normalize_step_def)
  qed
qed

lemma normal_foldl: "normal_form res \<Longrightarrow> normal_form (foldl normalize_step res segs)"
  by (induction segs arbitrary: res) (simp_all add: normal_step)

lemma normalize_members: "w \<in> set (foldl normalize_step res segs) \<Longrightarrow> w \<in> set res \<or> w \<in> set segs"
proof (induction segs arbitrary: res)
  case (Cons x segs)
  then have "w \<in> set (normalize_step res x) \<or> w \<in> set segs" by simp
  then show ?case by (auto simp: normalize_step_def dest: in_set_butlastD split: if_splits)
qed simp

lemma join_first: "join [c] (x # xs) = (if xs = [] then x else x @ c # join [c] xs)"
  by (cases xs) simp_all

lemma safe_path_segments:
  assumes "trimmed = without_trailing_slashes path"
  shows "is_safe_repository_path path \<longleftrightarrow>
     CHR 0x5C \<notin> set trimmed \<and> CHR 0x00 \<notin> set trimmed \<and> list_all plain_segment (split_on CHR ''/'' trimmed)"
    (is "_ \<longleftrightarrow> ?ok")
proof -
  let ?segs = "split_on CHR ''/'' trimmed" and ?res = "foldl normalize_step [] (split_on CHR ''/'' trimmed)"
  have last: "trimmed = [] \<or> last trimmed \<noteq> CHR ''/''"
    unfolding assms without_trailing_slashes_def
    using hd_dropWhile [of "\<lambda>c. c = CHR ''/''" "rev path"] by (metis hd_rev rev_rev_ident rev_is_Nil_conv)
  have head: "trimmed = [] \<or> starts_with trimmed ''/'' \<longrightarrow> [] \<in> set ?segs"
    by (cases trimmed) (auto simp: starts_with_def)
  show ?thesis
  proof
    assume safe: "is_safe_repository_path path"
    then have t: "trimmed \<noteq> []" "CHR 0x5C \<notin> set trimmed" "CHR 0x00 \<notin> set trimmed" "normalize_relative trimmed = trimmed"
      "trimmed \<noteq> ''.''" "trimmed \<noteq> ''..''" "\<not> starts_with trimmed ''../''"
      by (auto simp: is_safe_repository_path_def assms Let_def split: if_splits)
    then have join: "join ''/'' ?res = trimmed"
      using last by (auto simp: normalize_relative_def Let_def split: if_splits)
    then have ne: "?res \<noteq> []" using t(1) by auto
    have "\<forall>w \<in> set ?res. CHR ''/'' \<notin> set w"
      using normalize_members [of _ "[]" ?segs] split_no_sep by fastforce
    from split_on_join [OF ne this] have same: "?segs = ?res" by (simp add: join)
    have "normal_form []" by (auto simp: normal_form_def)
    then have "normal_form ?res" by (rule normal_foldl)
    then obtain n rest where n: "?res = replicate n ''..'' @ rest" "list_all plain_segment rest"
      by (auto simp: normal_form_def)
    have "n = 0"
    proof (rule ccontr)
      assume "n \<noteq> 0"
      then obtain xs where "?res = ''..'' # xs" using n(1) by (cases n) auto
      then have "trimmed = ''..'' \<or> starts_with trimmed ''../''"
        using join by (auto simp: join_first starts_with_def split: if_splits)
      then show False using t(6,7) by blast
    qed
    then show ?ok using same n t(2,3) by simp
  next
    assume ok: ?ok
    then have "?res = ?segs" using normalize_plain [of ?segs "[]"] by simp
    then have s: "join ''/'' ?res = trimmed" by (simp add: join_split)
    have e: "trimmed \<noteq> []" "\<not> starts_with trimmed ''/''"
    proof -
      have "[] \<notin> set ?segs" using ok by (auto simp: list_all_iff plain_segment_def)
      with head show "trimmed \<noteq> []" "\<not> starts_with trimmed ''/''" by blast+
    qed
    have "normalize_relative trimmed = trimmed" using s e(1) last by (simp add: normalize_relative_def Let_def)
    moreover have "trimmed \<noteq> ''.''"
    proof
      assume "trimmed = ''.''"
      then show False using ok by (simp add: plain_segment_def)
    qed
    moreover have "trimmed \<noteq> ''..''"
    proof
      assume "trimmed = ''..''"
      then show False using ok by (simp add: plain_segment_def)
    qed
    moreover have "\<not> starts_with trimmed ''../''"
    proof
      assume "starts_with trimmed ''../''"
      then obtain r where "trimmed = ''..'' @ CHR ''/'' # r"
        unfolding starts_with_def by (metis append.assoc append_Cons append_Nil append_take_drop_id)
      then show False using ok by (simp add: plain_segment_def)
    qed
    ultimately show "is_safe_repository_path path"
      using ok e by (simp add: is_safe_repository_path_def Let_def flip: assms)
  qed
qed

section \<open>Accepted plans\<close>

lemma nul_not_in_names: "s \<in> set repository_names \<Longrightarrow> CHR 0x00 \<notin> set s"
  by (auto simp: repository_names_def)

lemma same_members_iff:
  assumes "\<forall>x \<in> set xs \<union> set ys. CHR 0x00 \<notin> set x" and "xs \<noteq> []" "ys \<noteq> []"
  shows "same_members xs ys \<longleftrightarrow> mset xs = mset ys"
proof -
  have "same_members xs ys \<longleftrightarrow> sort xs = sort ys"
    using assms unfolding same_members_def by (intro join_inject) (auto simp flip: set_empty)
  also have "\<dots> \<longleftrightarrow> mset xs = mset ys" by (metis mset_sort sorted_list_of_multiset_mset)
  finally show ?thesis .
qed

section \<open>A stored plan reads back\<close>

lemma stable_bounded: "stable (dec_bounded n) JStr"
  using stable_text unfolding stable_def dec_bounded_def by (auto split: option.splits if_splits)

lemma stable_at_most:
  assumes "stable dec enc" shows "stable (dec_at_most n dec) (\<lambda>xs. JArr (map enc xs))"
  using stable_list [OF assms, of 0] unfolding stable_def dec_at_most_def by (auto split: option.splits if_splits)

lemma stable_choice:
  assumes "list_all (\<lambda>v. find (\<lambda>w. name w = name v) values = Some v) values"
  shows "stable (dec_choice name values) (\<lambda>v. JStr (name v))"
  unfolding stable_def
proof (intro allI impI)
  fix j v assume "dec_choice name values j = Some v"
  then have "v \<in> set values" by (auto simp: dec_choice_def find_Some_iff split: json.splits)
  then show "dec_choice name values (JStr (name v)) = Some v" using assms by (simp add: dec_choice_def list_all_iff)
qed

lemma stable_repository: "stable dec_repository JStr"
  unfolding dec_repository_def by (rule stable_enum)

lemmas stable_fields = stable_bounded [of 4000, folded result_text_def] stable_bounded [of 500, folded repository_path_def]
  stable_repository

lemma stable_planned_change: "stable dec_planned_change enc_planned_change"
  unfolding stable_def
proof (intro allI impI)
  fix j x assume "dec_planned_change j = Some x"
  then obtain o' where f: "field o' ''path'' repository_path = Some (pc_path x)"
    "field o' ''action'' (dec_choice show_change_action [CreateFile, ModifyFile, DeleteFile]) = Some (pc_action x)"
    "field o' ''rationale'' result_text = Some (pc_rationale x)"
    by (auto simp: dec_planned_change_def bind_eq_Some_conv)
  have a: "stable (dec_choice show_change_action [CreateFile, ModifyFile, DeleteFile]) (\<lambda>v. JStr (show_change_action v))"
    by (rule stable_choice) simp
  note v = f(1) [THEN field_stable [OF stable_fields(2)]] f(2) [THEN field_stable [OF a]]
    f(3) [THEN field_stable [OF stable_fields(1)]]
  show "dec_planned_change (enc_planned_change x) = Some x"
    by (simp add: dec_planned_change_def enc_planned_change_def strict_JObj field_here field_later v)
qed

lemma stable_repository_plan: "stable dec_repository_plan enc_repository_plan"
  unfolding stable_def
proof (intro allI impI)
  fix j x assume "dec_repository_plan j = Some x"
  then obtain o' where f: "field o' ''repository'' dec_repository = Some (pn_repository x)"
    "field o' ''summary'' result_text = Some (pn_summary x)"
    "field o' ''changes'' (dec_at_most 200 dec_planned_change) = Some (pn_changes x)"
    by (auto simp: dec_repository_plan_def bind_eq_Some_conv)
  note v = f(1) [THEN field_stable [OF stable_fields(3)]] f(2) [THEN field_stable [OF stable_fields(1)]]
    f(3) [THEN field_stable [OF stable_at_most [OF stable_planned_change]]]
  show "dec_repository_plan (enc_repository_plan x) = Some x"
    by (simp add: dec_repository_plan_def enc_repository_plan_def strict_JObj field_here field_later v)
qed

lemma stable_criterion: "stable dec_criterion enc_criterion"
  unfolding stable_def
proof (intro allI impI)
  fix j x assume "dec_criterion j = Some x"
  then obtain o' where f: "field o' ''criterion'' result_text = Some (ct_criterion x)"
    "field o' ''approach'' result_text = Some (ct_approach x)"
    by (auto simp: dec_criterion_def bind_eq_Some_conv)
  note v = f [THEN field_stable [OF stable_fields(1)]]
  show "dec_criterion (enc_criterion x) = Some x"
    by (simp add: dec_criterion_def enc_criterion_def strict_JObj field_here field_later v)
qed

lemma stable_analysis: "stable dec_analysis enc_analysis"
  unfolding stable_def
proof (intro allI impI)
  fix j x assume "dec_analysis j = Some x"
  then obtain o' where d: "field o' ''decision'' (dec_choice show_decision [Proceed, NeedsClarification]) = Some (an_decision x)"
    and t: "field o' ''summary'' result_text = Some (an_summary x)"
    and l: "field o' ''clarifications'' (dec_at_most 20 result_text) = Some (an_clarifications x)"
      "field o' ''testPlan'' (dec_at_most 50 result_text) = Some (an_testPlan x)"
      "field o' ''risks'' (dec_at_most 20 result_text) = Some (an_risks x)"
    and r: "field o' ''repositories'' (dec_at_most (length repository_names) dec_repository_plan) = Some (an_repositories x)"
    and c: "field o' ''acceptanceCriteria'' (dec_at_most 50 dec_criterion) = Some (an_acceptanceCriteria x)"
    by (auto simp: dec_analysis_def bind_eq_Some_conv)
  have s: "stable (dec_choice show_decision [Proceed, NeedsClarification]) (\<lambda>v. JStr (show_decision v))"
    by (rule stable_choice) simp
  note v = d [THEN field_stable [OF s]] t [THEN field_stable [OF stable_fields(1)]]
    l [THEN field_stable [OF stable_at_most [OF stable_fields(1)]], folded enc_texts_def]
    r [THEN field_stable [OF stable_at_most [OF stable_repository_plan]]]
    c [THEN field_stable [OF stable_at_most [OF stable_criterion]]]
  show "dec_analysis (enc_analysis x) = Some x"
    by (simp add: dec_analysis_def enc_analysis_def strict_JObj field_here field_later dec_literal_def v)
qed

end
