(* ===== verification/StageCode.thy ===== *)
theory StageCode
  imports Worker Ledger
begin

text \<open>
  Programs of a stage: how the awaited calls of a handler are put together
  (\<open>src/execution/stages/*.ts\<close>), and the rules its properties are proved with. A call is one access: it
  reads and changes the database and the handler's outside world at once; between two calls anything may
  happen. \<open>always\<close> bounds the results of a program whatever it sees, \<open>acts_keep\<close> says that each of its
  calls keeps a property of database and outside world, and \<open>wp\<close> reasons about the state in between
  under an assumption on the rest of the system.
\<close>

lemma code_induct [case_names Finished Access]:
  assumes "\<And>a. P (Finished a)" and "\<And>e k. (\<And>v w. P (k v w)) \<Longrightarrow> P (Access e k)"
  shows "P c"
proof (induction c)
  case (Access e k)
  then have "P (k v w)" for v w by (metis rangeI)
  then show ?case by (rule assms(2))
qed (rule assms(1))

section \<open>Sequences of calls\<close>

type_synonym ('x, 'a) prog = "('x, (orch_error, 'a) result) code"

primrec bind_code :: "('x, 'a) code \<Rightarrow> ('a \<Rightarrow> ('x, 'b) code) \<Rightarrow> ('x, 'b) code" where
  "bind_code (Finished a) f = f a"
| "bind_code (Access e k) f = Access e (\<lambda>v w. bind_code (k v w) f)"

definition return :: "'a \<Rightarrow> ('x, 'a) prog" where
  "return a = Finished (Inr a)"

definition throw :: "orch_error \<Rightarrow> ('x, 'a) prog" where
  "throw e = Finished (Inl e)"

text \<open>\<open>const a = await p; \<dots>\<close>: an error ends the stage.\<close>

definition bnd :: "('x, 'a) prog \<Rightarrow> ('a \<Rightarrow> ('x, 'b) prog) \<Rightarrow> ('x, 'b) prog" where
  "bnd p f = bind_code p (\<lambda>r. case r of Inl e \<Rightarrow> throw e | Inr a \<Rightarrow> f a)"

text \<open>\<open>try { a = await p } catch (error) { \<dots> }\<close>.\<close>

definition attempt_code :: "('x, 'a) prog \<Rightarrow> ((orch_error, 'a) result \<Rightarrow> ('x, 'b) prog) \<Rightarrow> ('x, 'b) prog" where
  "attempt_code p f = bind_code p f"

definition lift_result :: "(orch_error, 'a) result \<Rightarrow> ('x, 'a) prog" where
  "lift_result r = Finished r"

text \<open>One call; a database call fails as a whole, a call outside leaves the database alone.\<close>

definition call :: "(stage_view \<Rightarrow> database \<times> 'x \<Rightarrow> 'a \<times> (database \<times> 'x)) \<Rightarrow> ('x, 'a) code" where
  "call f = Access (\<lambda>v w. snd (f v w)) (\<lambda>v w. Finished (fst (f v w)))"

definition db_call :: "(time \<Rightarrow> database \<Rightarrow> (orch_error, 'a \<times> database) result) \<Rightarrow> ('x, 'a) prog" where
  "db_call g = call (\<lambda>v w. case g (sv_now v) (fst w) of
     Inl e \<Rightarrow> (Inl e, w) | Inr (a, d) \<Rightarrow> (Inr a, (d, snd w)))"

definition db_run :: "(time \<Rightarrow> database \<Rightarrow> (orch_error, database) result) \<Rightarrow> ('x, unit) prog" where
  "db_run g = db_call (\<lambda>t d. case g t d of Inl e \<Rightarrow> Inl e | Inr d' \<Rightarrow> Inr ((), d'))"

definition db_read :: "(database \<Rightarrow> 'a) \<Rightarrow> ('x, 'a) prog" where
  "db_read g = db_call (\<lambda>t d. Inr (g d, d))"

definition outside :: "(stage_view \<Rightarrow> 'x \<Rightarrow> 'a \<times> 'x) \<Rightarrow> ('x, 'a) code" where
  "outside g = call (\<lambda>v w. (fst (g v (snd w)), (fst w, snd (g v (snd w)))))"

text \<open>\<open>for (const x of xs) ys.push(await f(x))\<close>.\<close>

fun for_each :: "('b \<Rightarrow> ('x, 'a) prog) \<Rightarrow> 'b list \<Rightarrow> ('x, 'a list) prog" where
  "for_each f [] = return []"
| "for_each f (x # xs) = bnd (f x) (\<lambda>y. bnd (for_each f xs) (\<lambda>ys. return (y # ys)))"

text \<open>A loop that may return from the function: \<open>f\<close> gives the value to return, or the next state.\<close>

fun loop_code :: "('b \<Rightarrow> 's \<Rightarrow> ('x, 'r + 's) prog) \<Rightarrow> 'b list \<Rightarrow> 's \<Rightarrow> ('s \<Rightarrow> ('x, 'r) prog) \<Rightarrow> ('x, 'r) prog" where
  "loop_code f [] s k = k s"
| "loop_code f (x # xs) s k =
     bnd (f x s) (\<lambda>o'. case o' of Inl r \<Rightarrow> return r | Inr s' \<Rightarrow> loop_code f xs s' k)"

section \<open>What a program may return\<close>

primrec always :: "('a \<Rightarrow> bool) \<Rightarrow> ('x, 'a) code \<Rightarrow> bool" where
  "always P (Finished a) = P a"
| "always P (Access e k) = (\<forall>v w. always P (k v w))"

definition ok_is :: "('a \<Rightarrow> bool) \<Rightarrow> (orch_error, 'a) result \<Rightarrow> bool" where
  "ok_is P r = (case r of Inl e \<Rightarrow> True | Inr a \<Rightarrow> P a)"

lemma ok_is_simps [simp]: "ok_is P (Inl e)" "ok_is P (Inr a) = P a"
  by (simp_all add: ok_is_def)

lemma always_mono: "always P c \<Longrightarrow> (\<And>a. P a \<Longrightarrow> Q a) \<Longrightarrow> always Q c"
  by (induction c rule: code_induct) auto

lemma always_True: "always (\<lambda>_. True) c"
  by (induction c rule: code_induct) simp_all

lemma always_all: "(\<And>a. P a) \<Longrightarrow> always P c"
  by (rule always_mono [OF always_True]) simp

lemma always_ok_True: "always (ok_is (\<lambda>_. True)) c"
  by (rule always_mono [OF always_True]) (simp add: ok_is_def split: sum.split)

lemma always_bind_code: "always P (bind_code p f) \<longleftrightarrow> always (\<lambda>a. always P (f a)) p"
  by (induction p rule: code_induct) simp_all

lemma always_return [simp]: "always (ok_is P) (return a) = P a"
  by (simp add: return_def)

lemma always_throw [simp]: "always (ok_is P) (throw e)"
  by (simp add: throw_def)

lemma always_lift [simp]: "always (ok_is P) (lift_result r) = ok_is P r"
  by (simp add: lift_result_def)

lemma always_bnd:
  assumes "always (ok_is Q) p" and "\<And>a. Q a \<Longrightarrow> always (ok_is P) (f a)"
  shows "always (ok_is P) (bnd p f)"
  unfolding bnd_def always_bind_code
  by (rule always_mono [OF assms(1)]) (use assms(2) in \<open>auto split: sum.split\<close>)

lemma always_bnd_any: "(\<And>a. always (ok_is P) (f a)) \<Longrightarrow> always (ok_is P) (bnd p f)"
  by (rule always_bnd [OF always_ok_True])

lemma always_attempt: "(\<And>r. always (ok_is P) (f r)) \<Longrightarrow> always (ok_is P) (attempt_code p f)"
  unfolding attempt_code_def always_bind_code by (rule always_mono [OF always_True])

lemma always_loop:
  assumes "I s" and "\<And>x s. x \<in> set xs \<Longrightarrow> I s \<Longrightarrow> always (ok_is (\<lambda>o'. case o' of Inl r \<Rightarrow> P r | Inr s' \<Rightarrow> I s')) (f x s)"
    and "\<And>s. I s \<Longrightarrow> always (ok_is P) (k s)"
  shows "always (ok_is P) (loop_code f xs s k)"
  using assms(1,2)
proof (induction xs arbitrary: s)
  case (Cons x xs)
  show ?case unfolding loop_code.simps
  proof (rule always_bnd)
    show "always (ok_is (\<lambda>o'. case o' of Inl r \<Rightarrow> P r | Inr s' \<Rightarrow> I s')) (f x s)" using Cons.prems by simp
  next
    fix o' assume "case o' of Inl r \<Rightarrow> P r | Inr s' \<Rightarrow> I s'"
    then show "always (ok_is P) (case o' of Inl r \<Rightarrow> return r | Inr s' \<Rightarrow> loop_code f xs s' k)"
      using Cons.IH Cons.prems(2) by (cases o') simp_all
  qed
qed (simp add: assms(3))

section \<open>Weakest preconditions under interference\<close>

text \<open>\<open>R\<close> is what may happen to the state before each call.\<close>

primrec wp :: "(database \<times> 'x \<Rightarrow> database \<times> 'x \<Rightarrow> bool) \<Rightarrow> ('x, 'a) code \<Rightarrow> ('a \<Rightarrow> database \<times> 'x \<Rightarrow> bool)
    \<Rightarrow> database \<times> 'x \<Rightarrow> bool" where
  "wp R (Finished a) Q = Q a"
| "wp R (Access e k) Q = (\<lambda>w. \<forall>v w'. R w w' \<longrightarrow> wp R (k v w') Q (e v w'))"

definition on_ok :: "('a \<Rightarrow> database \<times> 'x \<Rightarrow> bool) \<Rightarrow> (orch_error, 'a) result \<Rightarrow> database \<times> 'x \<Rightarrow> bool" where
  "on_ok Q r w = (case r of Inl e \<Rightarrow> True | Inr a \<Rightarrow> Q a w)"

lemma on_ok_simps [simp]: "on_ok Q (Inl e) w" "on_ok Q (Inr a) w = Q a w"
  by (simp_all add: on_ok_def)

lemma wp_mono: "wp R c P w \<Longrightarrow> (\<And>a w. P a w \<Longrightarrow> Q a w) \<Longrightarrow> wp R c Q w"
  by (induction c arbitrary: w rule: code_induct) auto

lemma wp_bind_code: "wp R (bind_code p f) Q w \<longleftrightarrow> wp R p (\<lambda>a. wp R (f a) Q) w"
  by (induction p arbitrary: w rule: code_induct) simp_all

lemma wp_return [simp]: "wp R (return a) (on_ok Q) w = Q a w"
  by (simp add: return_def)

lemma wp_throw [simp]: "wp R (throw e) (on_ok Q) w"
  by (simp add: throw_def)

lemma wp_bnd: "wp R p (on_ok (\<lambda>a. wp R (f a) (on_ok Q))) w \<Longrightarrow> wp R (bnd p f) (on_ok Q) w"
  unfolding bnd_def wp_bind_code
  by (rule wp_mono, assumption) (auto simp: on_ok_def throw_def split: sum.splits)

lemma wp_db_call:
  assumes "\<And>(v :: stage_view) d x a d'. R w (d, x) \<Longrightarrow> g (sv_now v) d = Inr (a, d') \<Longrightarrow> Q a (d', x)"
  shows "wp R (db_call g) (on_ok Q) w"
proof -
  have "on_ok Q (fst (case g (sv_now v) (fst w') of Inl e \<Rightarrow> (Inl e, w') | Inr (a, d) \<Rightarrow> (Inr a, (d, snd w'))))
      (snd (case g (sv_now v) (fst w') of Inl e \<Rightarrow> (Inl e, w') | Inr (a, d) \<Rightarrow> (Inr a, (d, snd w'))))"
    if "R w w'" for v :: stage_view and w'
  proof (cases "g (sv_now v) (fst w')")
    case (Inr p)
    obtain a d' where "p = (a, d')" by (cases p)
    then show ?thesis using assms [of "fst w'" "snd w'" v a d'] that Inr by simp
  qed simp
  then show ?thesis by (fastforce simp: db_call_def call_def)
qed

lemma wp_db_run:
  assumes "\<And>(v :: stage_view) d x d'. R w (d, x) \<Longrightarrow> g (sv_now v) d = Inr d' \<Longrightarrow> Q () (d', x)"
  shows "wp R (db_run g) (on_ok Q) w"
  unfolding db_run_def by (rule wp_db_call) (use assms in \<open>auto split: sum.splits\<close>)

lemma wp_db_read:
  assumes "\<And>d x. R w (d, x) \<Longrightarrow> Q (g d) (d, x)"
  shows "wp R (db_read g) (on_ok Q) w"
  unfolding db_read_def by (rule wp_db_call) (use assms in auto)

lemma wp_always: "always P c \<Longrightarrow> wp R c (\<lambda>a _. P a) w"
  by (induction c arbitrary: w rule: code_induct) auto

lemma wp_conj: "wp R c P w \<Longrightarrow> wp R c Q w \<Longrightarrow> wp R c (\<lambda>a w. P a w \<and> Q a w) w"
  by (induction c arbitrary: w rule: code_induct) auto

section \<open>Invariants of the accesses\<close>

text \<open>A property of database and outside world that every call of a program keeps.\<close>

primrec acts_keep :: "(database \<times> 'x \<Rightarrow> bool) \<Rightarrow> ('x, 'a) code \<Rightarrow> bool" where
  "acts_keep J (Finished a) = True"
| "acts_keep J (Access e k) = (\<forall>v w. (J w \<longrightarrow> J (e v w)) \<and> acts_keep J (k v w))"

lemma acts_code_keeps: "acts_keep (\<lambda>w. I (fst w)) p \<Longrightarrow> code_keeps I p"
  by (induction p rule: code_induct) auto

lemma acts_bind: "acts_keep J p \<Longrightarrow> (\<And>a. acts_keep J (f a)) \<Longrightarrow> acts_keep J (bind_code p f)"
  by (induction p rule: code_induct) auto

lemma acts_return [simp]: "acts_keep J (return a)"
  by (simp add: return_def)

lemma acts_throw [simp]: "acts_keep J (throw e)"
  by (simp add: throw_def)

lemma acts_lift [simp]: "acts_keep J (lift_result r)"
  by (simp add: lift_result_def)

lemma acts_bnd: "acts_keep J p \<Longrightarrow> (\<And>a. acts_keep J (f a)) \<Longrightarrow> acts_keep J (bnd p f)"
  unfolding bnd_def by (rule acts_bind) (auto split: sum.split)

lemma acts_attempt: "acts_keep J p \<Longrightarrow> (\<And>r. acts_keep J (f r)) \<Longrightarrow> acts_keep J (attempt_code p f)"
  unfolding attempt_code_def by (rule acts_bind)

lemma acts_for_each: "(\<And>x. acts_keep J (f x)) \<Longrightarrow> acts_keep J (for_each f xs)"
  by (induction xs) (simp_all add: acts_bnd)

lemma acts_loop: "(\<And>x s. acts_keep J (f x s)) \<Longrightarrow> (\<And>s. acts_keep J (k s)) \<Longrightarrow> acts_keep J (loop_code f xs s k)"
  by (induction xs arbitrary: s) (auto intro!: acts_bnd split: sum.split)

lemma acts_db_call:
  assumes "\<And>t d x a d'. J (d, x) \<Longrightarrow> g t d = Inr (a, d') \<Longrightarrow> J (d', x)"
  shows "acts_keep J (db_call g)"
  using assms by (auto simp: db_call_def call_def split: sum.split prod.split)

lemma acts_db_run:
  assumes "\<And>t d x d'. J (d, x) \<Longrightarrow> g t d = Inr d' \<Longrightarrow> J (d', x)"
  shows "acts_keep J (db_run g)"
  unfolding db_run_def by (rule acts_db_call) (use assms in \<open>auto split: sum.splits\<close>)

lemma acts_db_read [simp]: "acts_keep J (db_read g)"
  unfolding db_read_def by (rule acts_db_call) auto

text \<open>Such a property holds where the program ends, when the rest of the system keeps it.\<close>

lemma wp_acts:
  assumes "acts_keep J c" and "\<And>w w'. R w w' \<Longrightarrow> J w \<Longrightarrow> J w'" and "J w"
  shows "wp R c (\<lambda>_. J) w"
  using assms(1,3)
proof (induction c arbitrary: w rule: code_induct)
  case (Access e k)
  show ?case unfolding wp.simps
  proof (intro allI impI)
    fix v w' assume "R w w'"
    then have "J w'" using assms(2) Access.prems(2) by blast
    then show "wp R (k v w') (\<lambda>_. J) (e v w')" using Access.IH [of v w'] Access.prems(1) by (cases w') simp
  qed
qed simp

section \<open>Running a stage\<close>

text \<open>How the worker runs a stage satisfies its preconditions.\<close>

theorem run_stage_wp:
  assumes "wp R c Q (rn_db s, rn_ext s)" and "run_stage o' env tid c s = (r, s')"
    and "\<And>s. R (rn_db s, rn_ext s) (rn_db (arrive o' env tid s), rn_ext (arrive o' env tid s))"
  shows "Q r (rn_db s', rn_ext s')"
  using assms(1,2)
proof (induction c arbitrary: s rule: code_induct)
  case (Access e k)
  define q where "q = arrive o' env tid s"
  define v where "v = \<lparr>sv_signal = Option.bind (rn_signal q) id, sv_now = rn_now q\<rparr>"
  let ?w = "(rn_db q, rn_ext q)"
  have "wp R (k v ?w) Q (e v ?w)" using Access.prems(1) assms(3) [of s] by (simp add: q_def)
  moreover have "run_stage o' env tid (k v ?w) (q\<lparr>rn_db := fst (e v ?w), rn_ext := snd (e v ?w)\<rparr>) = (r, s')"
    using Access.prems(2) by (simp add: q_def v_def Let_def)
  ultimately show ?case using Access.IH [of v ?w "q\<lparr>rn_db := fst (e v ?w), rn_ext := snd (e v ?w)\<rparr>"] by simp
qed simp

end
