(* ===== verification/AgentRun.thy ===== *)
theory AgentRun
  imports AgentResults WorkspaceChanges StageCode Routing
begin

text \<open>
  Running an agent (\<open>src/execution/agent-runner.ts\<close>): what a run is asked for and what it may return, and
  how a provider's failure message is read (\<open>src/execution/failure-classification.ts\<close>). The runners
  themselves start processes of model providers and are parameters.
\<close>

section \<open>Requests and results\<close>

datatype agent_access = ReadOnly | WorkspaceWrite

record agent_usage =
  us_inputTokens :: int
  us_cachedInputTokens :: int
  us_outputTokens :: int
  us_reasoningOutputTokens :: int

record run_request =
  rq_role :: agent_role
  rq_model :: model_selection
  rq_prompt :: string
  rq_taskDirectory :: string
  rq_access :: agent_access
  rq_timeoutMs :: int

datatype 'o run_kind =
    RunCompleted 'o
  | RunInvalidOutput string
  | RunUsageLimit string "time option"
  | RunRateLimit string "time option"
  | RunTimeout string
  | RunCancelled string
  | RunFailed string

record 'o run_result =
  rz_kind :: "'o run_kind"
  rz_usage :: "agent_usage option"
  rz_durationMs :: int

section \<open>Provider messages\<close>

fun contains_ci :: "string \<Rightarrow> string \<Rightarrow> bool" where
  "contains_ci text part = test (ignore_case (lit part)) text"

datatype failure_class = ClassUsageLimit | ClassRateLimit | ClassFailed

definition classify_runner_failure :: "string \<Rightarrow> failure_class" where
  "classify_runner_failure message =
     (if list_ex (contains_ci message) [''usage limit'', ''usage_limit'', ''insufficient_quota'', ''quota exceeded'',
           ''exceeded your current quota'', ''plan limit''] then ClassUsageLimit
      else if list_ex (contains_ci message) [''rate limit'', ''rate_limit'', ''too many requests'']
           \<or> test (seqs [Bnd, lit ''429'', Bnd]) message then ClassRateLimit
      else ClassFailed)"

text \<open>
  \<open>parseRetryAfter\<close>. An amount with its unit, after optional space; every part of the pattern behind
  the first words is optional, so the first occurrence of these words decides.
\<close>

definition drop_spaces :: "string \<Rightarrow> string" where
  "drop_spaces s = dropWhile is_space s"

definition lower :: "string \<Rightarrow> string" where
  "lower s = map to_lower s"

fun strip_unit :: "string list \<Rightarrow> string \<Rightarrow> string option" where
  "strip_unit [] s = None"
| "strip_unit (u # us) s = (if starts_with s u then Some (drop (length u) s) else strip_unit us s)"

definition amount :: "string list \<Rightarrow> string \<Rightarrow> (string \<times> string) option" where
  "amount units s =
     (let ds = takeWhile is_digit s in
      if ds = [] then None
      else map_option (\<lambda>rest. (ds, rest)) (strip_unit units (drop_spaces (drop (length ds) s))))"

definition decimal_amount :: "string list \<Rightarrow> string \<Rightarrow> (string \<times> string \<times> string) option" where
  "decimal_amount units s =
     (let ds = takeWhile is_digit s; r = drop (length ds) s;
          fs = (if starts_with r ''.'' then takeWhile is_digit (drop 1 r) else []);
          r' = (if fs = [] then r else drop (Suc (length fs)) r) in
      if ds = [] then None
      else map_option (\<lambda>rest. (ds, fs, rest)) (strip_unit units (drop_spaces r')))"

definition retry_seconds :: "string \<Rightarrow> int option" where
  "retry_seconds s =
     (let h = amount [''hours'', ''hour'', ''h''] s;
          s1 = drop_spaces (case h of None \<Rightarrow> s | Some (_, r) \<Rightarrow> r);
          m = amount [''minutes'', ''minute'', ''min'', ''m''] s1;
          s2 = drop_spaces (case m of None \<Rightarrow> s1 | Some (_, r) \<Rightarrow> r);
          d = decimal_amount [''seconds'', ''second'', ''sec'', ''s''] s2 in
      if h = None \<and> m = None \<and> d = None then None
      else Some ((case h of None \<Rightarrow> 0 | Some (ds, _) \<Rightarrow> read_digits ds) * 3600
        + (case m of None \<Rightarrow> 0 | Some (ds, _) \<Rightarrow> read_digits ds) * 60
        + (case d of None \<Rightarrow> 0
           | Some (ds, fs, _) \<Rightarrow> read_digits ds + (if list_ex (\<lambda>c. c \<noteq> CHR ''0'') fs then 1 else 0))))"

fun after_words :: "string \<Rightarrow> string option" where
  "after_words [] = None"
| "after_words (c # cs) =
     (if starts_with (c # cs) ''try again in''
         \<and> drop 12 (c # cs) \<noteq> drop_spaces (drop 12 (c # cs))
      then Some (drop_spaces (drop 12 (c # cs))) else after_words cs)"

definition parse_retry_after :: "string \<Rightarrow> time \<Rightarrow> time option" where
  "parse_retry_after message now =
     (case Option.bind (after_words (lower message)) retry_seconds of
        None \<Rightarrow> None
      | Some n \<Rightarrow> if 0 < n then Some (now + n * 1000) else None)"

end
