(* ===== verification/QualityGates.thy ===== *)
theory QualityGates
  imports AgentRun
begin

text \<open>
  The trusted commands of a repository (\<open>src/execution/quality-gates.ts\<close>), the environment they receive
  (\<open>src/execution/bounded-process.ts\<close>) and their confinement (\<open>src/execution/sandbox.ts\<close>). Starting a
  process and looking at the file system are the host's.
\<close>

section \<open>Environments\<close>

type_synonym environment = "(string \<times> string) list"

definition override :: "environment \<Rightarrow> environment \<Rightarrow> environment" where
  "override base extra = fold (\<lambda>(k, v). map_set k v) extra base"

definition allowlisted_environment :: "environment \<Rightarrow> string list \<Rightarrow> environment \<Rightarrow> environment" where
  "allowlisted_environment source names fixed =
     override (fold (\<lambda>n env. case map_of source n of None \<Rightarrow> env | Some v \<Rightarrow> map_set n v env) names []) fixed"

section \<open>Processes and the host\<close>

datatype process_outcome = Exited | TimedOut | Aborted | OutputLimit | SpawnError

fun show_outcome :: "process_outcome \<Rightarrow> string" where
  "show_outcome Exited = ''exited''"
| "show_outcome TimedOut = ''timeout''"
| "show_outcome Aborted = ''aborted''"
| "show_outcome OutputLimit = ''output-limit''"
| "show_outcome SpawnError = ''spawn-error''"

record process_request =
  pq_executable :: string
  pq_args :: "string list"
  pq_cwd :: string
  pq_env :: environment
  pq_timeoutMs :: int
  pq_tailBytes :: nat
  pq_maxOutputBytes :: nat

record process_result =
  pz_outcome :: process_outcome
  pz_exitCode :: "int option"
  pz_spawnError :: "string option"
  pz_stdoutTail :: string
  pz_stderrTail :: string
  pz_durationMs :: int

text \<open>\<open>ho_link\<close> is the target of a symbolic link.\<close>

record 'x host =
  ho_exists :: "'x \<Rightarrow> string \<Rightarrow> bool"
  ho_link :: "'x \<Rightarrow> string \<Rightarrow> string option"
  ho_process :: "process_request \<Rightarrow> stage_view \<Rightarrow> 'x \<Rightarrow> process_result \<times> 'x"

section \<open>The sandbox\<close>

record sandbox_request =
  sq_executable :: string
  sq_args :: "string list"
  sq_cwd :: string
  sq_writablePaths :: "string list"
  sq_readOnlyPaths :: "string list"
  sq_network :: bool

definition mirrored_root_entries :: "string list" where
  "mirrored_root_entries = [''/bin'', ''/sbin'', ''/lib'', ''/lib32'', ''/lib64'', ''/libx32'']"

definition sandbox_home :: string where
  "sandbox_home = ''/sandbox/home''"

text \<open>The options that mount something, in order, each with the path it covers.\<close>

datatype mount =
    MountLink string string
  | MountReadOnly string
  | MountReadOnlyTry string
  | MountWritable string
  | MountMask string

fun mount_args :: "mount \<Rightarrow> string list" where
  "mount_args (MountLink target p) = [''--symlink'', target, p]"
| "mount_args (MountReadOnly p) = [''--ro-bind'', p, p]"
| "mount_args (MountReadOnlyTry p) = [''--ro-bind-try'', p, p]"
| "mount_args (MountWritable p) = [''--bind'', p, p]"
| "mount_args (MountMask p) = [''--tmpfs'', p]"

definition sandbox_mounts :: "sandbox_config \<Rightarrow> (string \<Rightarrow> bool) \<Rightarrow> (string \<Rightarrow> string option) \<Rightarrow> sandbox_request \<Rightarrow> mount list" where
  "sandbox_mounts c exists' link r =
     concat (map (\<lambda>e. case link e of Some target \<Rightarrow> [MountLink target e]
        | None \<Rightarrow> if exists' e then [MountReadOnly e] else []) mirrored_root_entries)
     @ map MountReadOnlyTry (sb_readOnlyPaths c @ sq_readOnlyPaths r)
     @ map MountWritable (sb_writablePaths c @ sq_writablePaths r)
     @ map MountMask (filter exists' (sb_maskedPaths c))"

definition bubblewrap_args :: "sandbox_config \<Rightarrow> (string \<Rightarrow> bool) \<Rightarrow> (string \<Rightarrow> string option) \<Rightarrow> sandbox_request \<Rightarrow> string list" where
  "bubblewrap_args c exists' link r =
     [''--unshare-user'', ''--unshare-pid'', ''--unshare-ipc'', ''--unshare-uts'', ''--unshare-cgroup-try'']
     @ (if sq_network r then [] else [''--unshare-net''])
     @ [''--die-with-parent'', ''--new-session'', ''--proc'', ''/proc'', ''--dev'', ''/dev'', ''--tmpfs'', ''/tmp'',
        ''--dir'', sandbox_home]
     @ concat (map mount_args (sandbox_mounts c exists' link r))
     @ [''--chdir'', sq_cwd r, ''--setenv'', ''HOME'', sandbox_home, ''--setenv'', ''TMPDIR'', ''/tmp'', ''--'',
        sq_executable r] @ sq_args r"

text \<open>\<open>createSandbox(config).wrap(request)\<close>: executable, arguments and environment.\<close>

definition wrap :: "sandbox_config \<Rightarrow> (string \<Rightarrow> bool) \<Rightarrow> (string \<Rightarrow> string option) \<Rightarrow> sandbox_request
    \<Rightarrow> string \<times> string list \<times> environment" where
  "wrap c exists' link r =
     (if sb_kind c = SandboxBubblewrap
      then (sb_executable c, bubblewrap_args c exists' link r, [(''HOME'', sandbox_home), (''TMPDIR'', ''/tmp'')])
      else (sq_executable r, sq_args r, []))"

section \<open>Quality gates\<close>

datatype quality_phase = SetupPhase | CheckPhase

fun show_phase :: "quality_phase \<Rightarrow> string" where
  "show_phase SetupPhase = ''setup''"
| "show_phase CheckPhase = ''check''"

record command_result =
  cm_phase :: quality_phase
  cm_name :: string
  cm_command :: "string list"
  cm_passed :: bool
  cm_outcome :: process_outcome
  cm_exitCode :: "int option"
  cm_durationMs :: int
  cm_outputTail :: string

record quality_report =
  qr_repository :: string
  qr_passed :: bool
  qr_infrastructureError :: "string option"
  qr_aborted :: bool
  qr_results :: "command_result list"

definition base_command_environment :: "string list" where
  "base_command_environment = [''PATH'', ''HOME'', ''USER'', ''LOGNAME'', ''TMPDIR'', ''LANG'']"

definition tail_bytes :: nat where "tail_bytes = 8 * 1024"
definition max_output_bytes :: nat where "max_output_bytes = 64 * 1024 * 1024"

record gate_options =
  go_quality :: "string \<Rightarrow> quality_config"
  go_sourceEnvironment :: environment
  go_knownSecrets :: "string list"
  go_sandbox :: sandbox_config
  go_readOnlyPaths :: "string \<Rightarrow> string list"

definition has_setup :: "gate_options \<Rightarrow> string \<Rightarrow> bool" where
  "has_setup g repo = (ql_setup (go_quality g repo) \<noteq> [])"

definition planned_commands :: "gate_options \<Rightarrow> string \<Rightarrow> bool \<Rightarrow> (quality_phase \<times> quality_command) list" where
  "planned_commands g repo all =
     map (Pair SetupPhase) (ql_setup (go_quality g repo))
     @ (if all then map (Pair CheckPhase) (ql_checks (go_quality g repo)) else [])"

definition command_environment :: "gate_options \<Rightarrow> string \<Rightarrow> environment" where
  "command_environment g repo =
     allowlisted_environment (go_sourceEnvironment g) (base_command_environment @ ql_environment (go_quality g repo))
       [(''CI'', ''true''), (''NO_COLOR'', ''1'')]"

definition command_request :: "gate_options \<Rightarrow> ('x, 'm) host_scheme \<Rightarrow> 'x \<Rightarrow> string \<Rightarrow> string \<Rightarrow> quality_phase \<Rightarrow> quality_command
    \<Rightarrow> process_request" where
  "command_request g h x repo path phase c =
     (let (executable, args, env) = wrap (go_sandbox g) (ho_exists h x) (ho_link h x)
            \<lparr>sq_executable = nth_or (qc_command c) 0 [], sq_args = drop 1 (qc_command c), sq_cwd = path,
             sq_writablePaths = [path], sq_readOnlyPaths = go_readOnlyPaths g repo,
             sq_network = or_else (qc_network c) (phase = SetupPhase)\<rparr> in
      \<lparr>pq_executable = executable, pq_args = args, pq_cwd = path,
       pq_env = override (command_environment g repo) env,
       pq_timeoutMs = qc_timeoutSeconds c * 1000, pq_tailBytes = tail_bytes, pq_maxOutputBytes = max_output_bytes\<rparr>)"

definition output_tail :: "string list \<Rightarrow> process_result \<Rightarrow> string" where
  "output_tail known z =
     (let output = join [line_feed] (filter (\<lambda>s. s \<noteq> []) [trim (pz_stdoutTail z), trim (pz_stderrTail z)]) in
      redact_secrets known (if tail_bytes < length output then drop (length output - tail_bytes) output else output))"

definition result_of :: "gate_options \<Rightarrow> quality_phase \<Rightarrow> quality_command \<Rightarrow> process_result \<Rightarrow> command_result" where
  "result_of g phase c z = \<lparr>cm_phase = phase, cm_name = qc_name c, cm_command = qc_command c,
     cm_passed = (pz_outcome z = Exited \<and> pz_exitCode z = Some 0), cm_outcome = pz_outcome z,
     cm_exitCode = pz_exitCode z, cm_durationMs = pz_durationMs z, cm_outputTail = output_tail (go_knownSecrets g) z\<rparr>"

text \<open>What one finished command adds to the report; on the left the report is returned at once.\<close>

definition command_step :: "gate_options \<Rightarrow> quality_phase \<Rightarrow> quality_command \<Rightarrow> process_result \<Rightarrow> quality_report
    \<Rightarrow> quality_report + quality_report" where
  "command_step g phase c z s =
     (if pz_outcome z = Aborted then Inl (s\<lparr>qr_aborted := True, qr_passed := False\<rparr>)
      else let r = result_of g phase c z;
               s' = s\<lparr>qr_results := qr_results s @ [r], qr_passed := qr_passed s \<and> cm_passed r\<rparr> in
        if pz_outcome z = SpawnError
        then Inl (s'\<lparr>qr_infrastructureError := Some (show_phase phase @ '' command '' @ qc_name c
               @ '' could not start: '' @ or_else (pz_spawnError z) ''unknown error'')\<rparr>)
        else Inr s')"

definition empty_report :: "string \<Rightarrow> quality_report" where
  "empty_report repo = \<lparr>qr_repository = repo, qr_passed = True, qr_infrastructureError = None, qr_aborted = False,
     qr_results = []\<rparr>"

definition run_command :: "gate_options \<Rightarrow> ('x, 'm) host_scheme \<Rightarrow> string \<Rightarrow> string \<Rightarrow> quality_phase \<times> quality_command \<Rightarrow> quality_report
    \<Rightarrow> ('x, quality_report + quality_report) prog" where
  "run_command g h repo path pc s =
     (case pc of (phase, c) \<Rightarrow>
        if phase = CheckPhase \<and> list_ex (\<lambda>r. cm_phase r = SetupPhase \<and> \<not> cm_passed r) (qr_results s)
        then return (Inl s)
        else bind_code (outside (\<lambda>v x. ho_process h (command_request g h x repo path phase c) v x))
               (\<lambda>z. return (command_step g phase c z s)))"

definition run_quality :: "gate_options \<Rightarrow> ('x, 'm) host_scheme \<Rightarrow> string \<Rightarrow> string \<Rightarrow> bool \<Rightarrow> ('x, quality_report) prog" where
  "run_quality g h repo path all =
     loop_code (run_command g h repo path) (planned_commands g repo all) (empty_report repo) return"

section \<open>What a passed report says\<close>

text \<open>The commands of a list were all run, in order, and all succeeded.\<close>

definition all_passed :: "(quality_phase \<times> quality_command) list \<Rightarrow> quality_report \<Rightarrow> bool" where
  "all_passed cs s \<longleftrightarrow> map (\<lambda>r. (cm_phase r, cm_name r, cm_command r)) (qr_results s)
       = map (\<lambda>(p, c). (p, qc_name c, qc_command c)) cs
     \<and> list_all (\<lambda>r. cm_outcome r = Exited \<and> cm_exitCode r = Some 0) (qr_results s)
     \<and> \<not> qr_aborted s \<and> qr_infrastructureError s = None"

definition result_ok :: "command_result \<Rightarrow> bool" where
  "result_ok r \<longleftrightarrow> cm_passed r = (cm_outcome r = Exited \<and> cm_exitCode r = Some 0)"

definition progress :: "(quality_phase \<times> quality_command) list \<Rightarrow> quality_report \<Rightarrow> bool" where
  "progress cs s \<longleftrightarrow> qr_passed s = all_passed cs s \<and> qr_passed s = list_all cm_passed (qr_results s)
     \<and> list_all result_ok (qr_results s)"

definition rejected :: "quality_report \<Rightarrow> bool" where
  "rejected s \<longleftrightarrow> \<not> qr_passed s \<and> (\<forall>cs. \<not> all_passed cs s)"

lemma result_of_ok: "result_ok (result_of g phase c z)"
  by (simp add: result_ok_def result_of_def)

lemma failed_rejected: "progress cs s \<Longrightarrow> r \<in> set (qr_results s) \<Longrightarrow> \<not> cm_passed r \<Longrightarrow> rejected s"
  by (auto simp: progress_def rejected_def all_passed_def list_all_iff result_ok_def)

lemma command_step_progress:
  assumes "progress cs s"
  shows "case command_step g phase c z s of
      Inl r \<Rightarrow> rejected r | Inr s' \<Rightarrow> progress (cs @ [(phase, c)]) s'"
proof -
  have "qr_passed s \<and> cm_passed (result_of g phase c z)
      = all_passed (cs @ [(phase, c)]) (s\<lparr>qr_results := qr_results s @ [result_of g phase c z]\<rparr>)" if "qr_passed s"
    using that assms by (auto simp: progress_def all_passed_def result_of_def)
  moreover have "\<not> all_passed (cs @ [(phase, c)]) (s\<lparr>qr_results := qr_results s @ [result_of g phase c z]\<rparr>)" if "\<not> qr_passed s"
    using that assms by (auto simp: progress_def all_passed_def list_all_iff result_ok_def)
  moreover have "cm_outcome (result_of g phase c z) = pz_outcome z" by (simp add: result_of_def)
  ultimately show ?thesis
    using assms result_of_ok [of g phase c z]
    by (auto simp: command_step_def progress_def rejected_def all_passed_def Let_def)
qed

lemma run_command_progress:
  assumes "progress cs s"
  shows "always (ok_is (\<lambda>o'. case o' of Inl r \<Rightarrow> rejected r | Inr s' \<Rightarrow> progress (cs @ [pc]) s'))
     (run_command g h repo path pc s)"
proof -
  obtain phase c where pc: "pc = (phase, c)" by (cases pc)
  have "rejected s" if "list_ex (\<lambda>r. cm_phase r = SetupPhase \<and> \<not> cm_passed r) (qr_results s)"
    using that failed_rejected [OF assms] by (auto simp: list_ex_iff)
  moreover have "case command_step g phase c z s of Inl r \<Rightarrow> rejected r | Inr s' \<Rightarrow> progress (cs @ [pc]) s'" for z
    unfolding pc by (rule command_step_progress [OF assms])
  ultimately show ?thesis
    by (auto simp: run_command_def pc always_bind_code intro: always_all)
qed

lemma loop_progress:
  assumes "progress cs s"
  shows "always (ok_is (\<lambda>r. qr_passed r = all_passed (cs @ rest) r))
     (loop_code (run_command g h repo path) rest s return)"
  using assms
proof (induction rest arbitrary: cs s)
  case (Cons pc rest)
  show ?case unfolding loop_code.simps
  proof (rule always_bnd [OF run_command_progress [OF Cons.prems]])
    fix o' :: "quality_report + quality_report"
    assume "case o' of Inl r \<Rightarrow> rejected r | Inr s' \<Rightarrow> progress (cs @ [pc]) s'"
    then show "always (ok_is (\<lambda>r. qr_passed r = all_passed (cs @ pc # rest) r))
      (case o' of Inl r \<Rightarrow> return r | Inr s' \<Rightarrow> loop_code (run_command g h repo path) rest s' return)"
      using Cons.IH [of "cs @ [pc]"] by (cases o') (simp_all add: rejected_def)
  qed
qed (simp add: progress_def)

lemma quality_passed:
  "always (ok_is (\<lambda>r. qr_passed r = all_passed (planned_commands g repo all) r)) (run_quality g h repo path all)"
  unfolding run_quality_def
  using loop_progress [of "[]" "empty_report repo" "planned_commands g repo all"]
  by (simp add: progress_def empty_report_def all_passed_def)

end
