(* ===== verification/StageSupport.thy ===== *)
theory StageSupport
  imports QualityGates Prompts
begin

text \<open>
  What the execution stages share (\<open>src/execution/stages/stage-support.ts\<close>): their dependencies, the
  checkpoints they leave, the loading of the task's worktrees, attempts, and the reaction to runner
  results. Git worktrees, agents, documentation files, SHA-256, generated ids and \<open>localeCompare\<close> are
  fields of the dependencies.
\<close>

section \<open>Dependencies\<close>

record task_workspace =
  tw_taskId :: task_id
  tw_repository :: string
  tw_workspacePath :: string
  tw_branch :: string
  tw_baseCommit :: string

record prepare_input =
  pr_taskId :: task_id
  pr_repository :: string
  pr_branch :: string
  pr_persisted :: "string option \<times> string option \<times> string option"

type_synonym ('x, 'a) outside_call = "stage_view \<Rightarrow> 'x \<Rightarrow> (orch_error, 'a) result \<times> 'x"

record 'x services = "'x host" +
  sx_prepare :: "prepare_input \<Rightarrow> ('x, task_workspace) outside_call"
  sx_verify :: "task_workspace \<Rightarrow> ('x, string) outside_call"
  sx_restore :: "task_workspace \<Rightarrow> ('x, bool) outside_call"
  sx_commit :: "task_workspace \<Rightarrow> string \<Rightarrow> ('x, string) outside_call"
  sx_diffs :: "string \<Rightarrow> ('x, string \<times> string \<times> string) outside_call"
  sx_snapshot :: "string \<Rightarrow> ('x, string \<times> string) outside_call"
  sx_isAncestor :: "string \<Rightarrow> string \<Rightarrow> string \<Rightarrow> ('x, bool) outside_call"
  sx_stat :: "string \<Rightarrow> string \<Rightarrow> ('x, string) outside_call"
  sx_diff :: "string \<Rightarrow> string \<Rightarrow> ('x, string) outside_call"
  sx_documentation :: "string list \<Rightarrow> ('x, documentation_excerpt list) outside_call"
  sx_analyze :: "run_request \<Rightarrow> ('x, analysis_result run_result) outside_call"
  sx_change :: "string \<Rightarrow> run_request \<Rightarrow> ('x, change_result run_result) outside_call"
  sx_review :: "run_request \<Rightarrow> ('x, review_result run_result) outside_call"
  sx_sha256 :: "string \<Rightarrow> string"
  sx_newId :: "database \<Rightarrow> string"
  sx_localeLe :: "string \<Rightarrow> string \<Rightarrow> bool"
  sx_datetime :: "string \<Rightarrow> bool"
  sx_zodMessage :: "json \<Rightarrow> string"

record 'x deps =
  xd_config :: config
  xd_agents :: agents_config
  xd_gates :: gate_options
  xd_workspaceRoot :: string
  xd_workerId :: worker
  xd_knownSecrets :: "string list"
  xd_services :: "'x services"

definition outer :: "('x, 'a) outside_call \<Rightarrow> ('x, 'a) prog" where
  "outer g = outside g"

definition clock_now :: "('x, time) prog" where
  "clock_now = bind_code (outside (\<lambda>v x. (sv_now v, x))) return"

section \<open>Failure categories\<close>

datatype failure_category =
    CatUsageLimit | CatRateLimit | CatTimeout | CatCancelled | CatRunnerFailed | CatInvalidOutput | CatAgentBlocked
  | CatNeedsClarification | CatWorkspaceIntegrity | CatDiffRejected | CatQualityFailed | CatQualityInfrastructure
  | CatReviewChangesRequested | CatReviewRejected | CatProviderUnavailable | CatProviderRejected | CatDeliveryRejected
  | CatLinearUnavailable

fun show_category :: "failure_category \<Rightarrow> string" where
  "show_category CatUsageLimit = ''usage-limit''"
| "show_category CatRateLimit = ''rate-limit''"
| "show_category CatTimeout = ''timeout''"
| "show_category CatCancelled = ''cancelled''"
| "show_category CatRunnerFailed = ''runner-failed''"
| "show_category CatInvalidOutput = ''invalid-output''"
| "show_category CatAgentBlocked = ''agent-blocked''"
| "show_category CatNeedsClarification = ''needs-clarification''"
| "show_category CatWorkspaceIntegrity = ''workspace-integrity''"
| "show_category CatDiffRejected = ''diff-rejected''"
| "show_category CatQualityFailed = ''quality-failed''"
| "show_category CatQualityInfrastructure = ''quality-infrastructure''"
| "show_category CatReviewChangesRequested = ''review-changes-requested''"
| "show_category CatReviewRejected = ''review-rejected''"
| "show_category CatProviderUnavailable = ''provider-unavailable''"
| "show_category CatProviderRejected = ''provider-rejected''"
| "show_category CatDeliveryRejected = ''delivery-rejected''"
| "show_category CatLinearUnavailable = ''linear-unavailable''"

section \<open>Checkpoints\<close>

definition analysis_key :: string where "analysis_key = ''analysis-accepted''"
definition setup_key :: string where "setup_key = ''workspace-setup''"
definition implementation_key :: string where "implementation_key = ''implementation-committed''"
definition rejection_key :: string where "rejection_key = ''implementation-rejected''"
definition quality_key :: string where "quality_key = ''quality-passed''"
definition fix_request_key :: string where "fix_request_key = ''fix-request''"
definition fix_applied_key :: string where "fix_applied_key = ''fix-applied''"
definition review_key :: string where "review_key = ''review-approved''"

type_synonym heads = "(string \<times> string) list"

definition enc_heads :: "heads \<Rightarrow> json" where
  "enc_heads h = string_record h"

text \<open>\<open>z.object\<close> ignores unknown keys, \<open>z.record(z.string())\<close> takes any keys.\<close>

definition open_object :: "json \<Rightarrow> json_object option" where
  "open_object j = (case j of JObj kvs \<Rightarrow> Some kvs | _ \<Rightarrow> None)"

definition dec_string :: "json \<Rightarrow> string option" where
  "dec_string j = (case j of JStr s \<Rightarrow> Some s | _ \<Rightarrow> None)"

definition dec_int :: "json \<Rightarrow> int option" where
  "dec_int j = (case j of JNum n \<Rightarrow> Some n | _ \<Rightarrow> None)"

definition dec_heads :: "json \<Rightarrow> heads option" where
  "dec_heads j = Option.bind (open_object j)
     (\<lambda>kvs. all_some (map (\<lambda>(k, v). map_option (Pair k) (dec_string v)) kvs))"

definition dec_analysis_checkpoint :: "json \<Rightarrow> (string \<times> int \<times> analysis_result) option" where
  "dec_analysis_checkpoint j =
     Option.bind (open_object j) (\<lambda>o'.
     Option.bind (field o' ''contractDigest'' dec_string) (\<lambda>a.
     Option.bind (field o' ''attempt'' dec_int) (\<lambda>b.
     Option.bind (field o' ''plan'' dec_analysis) (\<lambda>c. Some (a, b, c)))))"

definition dec_setup :: "json \<Rightarrow> heads option" where
  "dec_setup j = Option.bind (open_object j) (\<lambda>o'. field o' ''heads'' dec_heads)"

definition dec_implementation :: "json \<Rightarrow> (int \<times> heads) option" where
  "dec_implementation j =
     Option.bind (open_object j) (\<lambda>o'.
     Option.bind (field o' ''implementationAttempt'' dec_int) (\<lambda>a.
     Option.bind (field o' ''commits'' dec_heads) (\<lambda>b. Some (a, b))))"

definition dec_rejection :: "json \<Rightarrow> (int \<times> string \<times> string) option" where
  "dec_rejection j =
     Option.bind (open_object j) (\<lambda>o'.
     Option.bind (field o' ''implementationAttempt'' dec_int) (\<lambda>a.
     Option.bind (field o' ''category'' dec_string) (\<lambda>b.
     Option.bind (field o' ''detail'' dec_string) (\<lambda>c. Some (a, b, c)))))"

definition dec_quality_passed :: "json \<Rightarrow> (heads \<times> int) option" where
  "dec_quality_passed j =
     Option.bind (open_object j) (\<lambda>o'.
     Option.bind (field o' ''heads'' dec_heads) (\<lambda>a.
     Option.bind (field o' ''attempt'' dec_int) (\<lambda>b. Some (a, b))))"

record fix_request =
  fq_id :: string
  fq_source :: string
  fq_heads :: heads
  fq_details :: json

text \<open>\<open>details\<close> is \<open>z.unknown()\<close>; every stored request has it.\<close>

definition dec_fix_request :: "json \<Rightarrow> fix_request option" where
  "dec_fix_request j =
     Option.bind (open_object j) (\<lambda>o'.
     Option.bind (field o' ''id'' dec_string) (\<lambda>a.
     Option.bind (field o' ''source'' (dec_enum [''quality'', ''review''])) (\<lambda>b.
     Option.bind (field o' ''heads'' dec_heads) (\<lambda>c.
     Option.bind (field o' ''details'' Some) (\<lambda>d.
       Some \<lparr>fq_id = a, fq_source = b, fq_heads = c, fq_details = d\<rparr>)))))"

definition dec_fix_applied :: "json \<Rightarrow> (string \<times> heads option \<times> string option) option" where
  "dec_fix_applied j =
     Option.bind (open_object j) (\<lambda>o'.
     Option.bind (field o' ''requestId'' dec_string) (\<lambda>a.
     Option.bind (field o' ''commits'' (dec_nullable dec_heads)) (\<lambda>b.
     Option.bind (field o' ''category'' (dec_nullable dec_string)) (\<lambda>c. Some (a, b, c)))))"

definition dec_review_approved :: "json \<Rightarrow> (heads \<times> int \<times> string) option" where
  "dec_review_approved j =
     Option.bind (open_object j) (\<lambda>o'.
     Option.bind (field o' ''heads'' dec_heads) (\<lambda>a.
     Option.bind (field o' ''attempt'' dec_int) (\<lambda>b.
     Option.bind (field o' ''summary'' dec_string) (\<lambda>c. Some (a, b, c)))))"

definition read_checkpoint :: "task_row \<Rightarrow> string \<Rightarrow> (json \<Rightarrow> 'a option) \<Rightarrow> ('x, 'a option) prog" where
  "read_checkpoint task key dec =
     bnd (db_read (get_checkpoint (t_id task) key)) (\<lambda>payload.
       case payload of
         None \<Rightarrow> return None
       | Some j \<Rightarrow> (case dec j of
             None \<Rightarrow> throw (WorkspaceBlockedError (''Checkpoint '' @ key @ '' is malformed; manual recovery required''))
           | Some a \<Rightarrow> return (Some a)))"

definition checkpoint :: "task_row \<Rightarrow> string \<Rightarrow> json \<Rightarrow> ('x, unit) prog" where
  "checkpoint task key payload = db_run (\<lambda>t. record_checkpoint t (t_id task) (t_state task) key payload)"

definition contract_digest :: "'x deps \<Rightarrow> task_row \<Rightarrow> string" where
  "contract_digest x task =
     sx_sha256 (xd_services x) (stable_json (sx_localeLe (xd_services x)) (t_contractSnapshot task))"

definition same_heads :: "'x deps \<Rightarrow> heads \<Rightarrow> heads \<Rightarrow> bool" where
  "same_heads x l r = (stable_json (sx_localeLe (xd_services x)) (enc_heads l)
     = stable_json (sx_localeLe (xd_services x)) (enc_heads r))"

section \<open>Worktrees of a task\<close>

record loaded_unit =
  lu_workspace :: task_workspace
  lu_head :: string

definition lu_repository :: "loaded_unit \<Rightarrow> string" where
  "lu_repository u = tw_repository (lu_workspace u)"

definition lu_path :: "loaded_unit \<Rightarrow> string" where
  "lu_path u = tw_workspacePath (lu_workspace u)"

record loaded_workspaces =
  lw_contract :: planning_issue
  lw_taskDirectory :: string
  lw_units :: "loaded_unit list"
  lw_heads :: heads
  lw_prompt :: "prompt_workspace list"

definition validate_planning_issue :: "'x deps \<Rightarrow> json \<Rightarrow> (orch_error, planning_issue) result" where
  "validate_planning_issue x j =
     (case dec_issue (sx_datetime (xd_services x)) j of
        None \<Rightarrow> Inl (ValidationError (sx_zodMessage (xd_services x) j))
      | Some i \<Rightarrow> Inr i)"

definition hex_char :: "char \<Rightarrow> bool" where
  "hex_char c = (is_digit c \<or> c \<in> set ''abcdef'')"

definition task_id_ok :: "string \<Rightarrow> bool" where
  "task_id_ok s = (let ws = split_on CHR ''-'' s in map length ws = [8, 4, 4, 4, 12] \<and> list_all (list_all hex_char) ws)"

definition task_directory :: "'x deps \<Rightarrow> task_id \<Rightarrow> (orch_error, string) result" where
  "task_directory x tid =
     (if task_id_ok tid then Inr (xd_workspaceRoot x @ ''/'' @ tid)
      else Inl (WorkspaceBlockedError (''Invalid task id for workspace path: '' @ tid)))"

definition load_unit :: "'x deps \<Rightarrow> task_row \<Rightarrow> work_unit_row \<Rightarrow> ('x, loaded_unit) prog" where
  "load_unit x task u =
     (case (wu_workspacePath u, wu_branch u, wu_baseCommit u) of
        (Some p, Some b, Some c) \<Rightarrow>
          (let w = \<lparr>tw_taskId = t_id task, tw_repository = wu_repository u, tw_workspacePath = p, tw_branch = b,
                    tw_baseCommit = c\<rparr> in
           bnd (outer (sx_verify (xd_services x) w)) (\<lambda>head. return \<lparr>lu_workspace = w, lu_head = head\<rparr>))
      | _ \<Rightarrow> throw (WorkspaceBlockedError (''Workspace for '' @ wu_repository u @ '' has not been prepared'')))"

definition prompt_of :: "loaded_unit \<Rightarrow> prompt_workspace" where
  "prompt_of u = \<lparr>pw_repository = lu_repository u, pw_directory = lu_repository u, pw_branch = tw_branch (lu_workspace u),
     pw_baseCommit = tw_baseCommit (lu_workspace u)\<rparr>"

definition load_task_workspaces :: "'x deps \<Rightarrow> task_row \<Rightarrow> ('x, loaded_workspaces) prog" where
  "load_task_workspaces x task =
     bnd (lift_result (validate_planning_issue x (t_contractSnapshot task))) (\<lambda>contract.
     bnd (db_read (get_work_units (t_id task))) (\<lambda>units.
     if join [nul_char] (map wu_repository units) \<noteq> join [nul_char] (sort (pi_repositories contract))
     then throw (WorkspaceBlockedError ''Work units do not match contract repositories'')
     else bnd (for_each (load_unit x task) units) (\<lambda>loaded.
       bnd (lift_result (task_directory x (t_id task))) (\<lambda>dir.
       return \<lparr>lw_contract = contract, lw_taskDirectory = dir, lw_units = loaded,
         lw_heads = override [] (map (\<lambda>u. (lu_repository u, lu_head u)) loaded), lw_prompt = map prompt_of loaded\<rparr>))))"

definition restore_all :: "'x deps \<Rightarrow> loaded_workspaces \<Rightarrow> ('x, bool) prog" where
  "restore_all x l =
     bnd (for_each (\<lambda>u. outer (sx_restore (xd_services x) (lu_workspace u))) (lw_units l)) (\<lambda>bs. return (list_ex id bs))"

definition workspace_snapshots :: "'x deps \<Rightarrow> loaded_workspaces \<Rightarrow> ('x, string) prog" where
  "workspace_snapshots x l =
     bnd (for_each (\<lambda>u. bnd (outer (sx_snapshot (xd_services x) (lu_path u))) (\<lambda>(head, status).
            return (lu_repository u, JObj [(''head'', JStr head), (''status'', JStr status)]))) (lw_units l)) (\<lambda>es.
     return (stable_json (sx_localeLe (xd_services x)) (JObj (fold (\<lambda>(k, v). map_set k v) es []))))"

section \<open>Outcomes\<close>

definition advance :: "task_state \<Rightarrow> string \<Rightarrow> advance_outcome" where
  "advance to reason = \<lparr>adv_to = to, adv_reason = Some reason, adv_incrementCounter = None, adv_lastError = None,
     adv_requiresManualIntervention = None\<rparr>"

definition manual_intervention :: "string \<Rightarrow> string \<Rightarrow> stage_outcome" where
  "manual_intervention message reason = Advance ((advance BLOCKED reason)
     \<lparr>adv_lastError := Some (Some message), adv_requiresManualIntervention := Some True\<rparr>)"

definition needs_operator :: "string \<Rightarrow> stage_outcome" where
  "needs_operator message = manual_intervention message ''Manual intervention required''"

definition pause_or_interruption ::
  "'x deps \<Rightarrow> 'o run_result \<Rightarrow> ('x, (failure_category \<times> stage_outcome) option) prog" where
  "pause_or_interruption x r =
     (case rz_kind r of
        RunUsageLimit message retry \<Rightarrow>
          return (Some (CatUsageLimit, PauseLimit USAGE_LIMIT retry (Some message)))
      | RunRateLimit message retry \<Rightarrow>
          bnd clock_now (\<lambda>now. return (Some (CatRateLimit, PauseLimit RATE_LIMIT
            (Some (or_else retry (now + rn_rateLimitRetryMinutes (ag_runner (xd_agents x)) * 60000))) (Some message))))
      | RunCancelled _ \<Rightarrow> return (Some (CatCancelled, Interrupted))
      | _ \<Rightarrow> return None)"

text \<open>The remaining failures of a run, with their category, name and message.\<close>

definition run_failure :: "'o run_kind \<Rightarrow> (failure_category \<times> string \<times> string) option" where
  "run_failure k =
     (case k of
        RunInvalidOutput m \<Rightarrow> Some (CatInvalidOutput, ''invalid-output'', m)
      | RunTimeout m \<Rightarrow> Some (CatTimeout, ''timeout'', m)
      | RunFailed m \<Rightarrow> Some (CatRunnerFailed, ''failed'', m)
      | _ \<Rightarrow> None)"

section \<open>Attempts\<close>

definition usage_record :: "agent_usage option \<Rightarrow> json option" where
  "usage_record u = map_option (\<lambda>u. JObj [(''inputTokens'', JNum (us_inputTokens u)),
     (''cachedInputTokens'', JNum (us_cachedInputTokens u)), (''outputTokens'', JNum (us_outputTokens u)),
     (''reasoningOutputTokens'', JNum (us_reasoningOutputTokens u))]) u"

definition begin_attempt :: "'x deps \<Rightarrow> task_row \<Rightarrow> json_object \<Rightarrow> ('x, int) prog" where
  "begin_attempt x task input = db_call (\<lambda>t d.
     start_attempt (sx_newId (xd_services x) d) t (t_id task) (t_state task) (xd_workerId x) (JObj input) d)"

definition end_attempt ::
  "task_row \<Rightarrow> int \<Rightarrow> failure_category option \<Rightarrow> json option \<Rightarrow> json option \<Rightarrow> agent_usage option \<Rightarrow> ('x, unit) prog" where
  "end_attempt task attempt category res evidence usage = db_run (\<lambda>t.
     complete_attempt t (t_id task) (t_state task) attempt
       \<lparr>ao_failureCategory = map_option show_category category, ao_result = res, ao_evidence = evidence,
        ao_usage = usage_record usage, ao_completedAt = None\<rparr>)"

text \<open>
  A run that stopped without consuming an attempt ends the stage; a cancelled writer is cleaned up after.
\<close>

definition unless_stopped ::
  "'x deps \<Rightarrow> task_row \<Rightarrow> int \<Rightarrow> 'o run_result \<Rightarrow> ('x, bool) prog \<Rightarrow> ('x, stage_outcome) prog \<Rightarrow> ('x, stage_outcome) prog" where
  "unless_stopped x task attempt r cleanup rest =
     bnd (pause_or_interruption x r) (\<lambda>stopped.
     case stopped of
       Some (category, outcome) \<Rightarrow>
         bnd (if category = CatCancelled then cleanup else return False) (\<lambda>_.
         bnd (end_attempt task attempt (Some category) None None (rz_usage r)) (\<lambda>_. return outcome))
     | None \<Rightarrow> rest)"

definition model_input :: "model_selection \<Rightarrow> json" where
  "model_input m = JObj [(''provider'', JStr (ms_provider m)), (''tier'', JStr (ms_tier m)), (''model'', JStr (ms_model m)),
     (''effort'', JStr (show_effort (ms_effort m)))]"

definition require_analysis :: "task_row \<Rightarrow> ('x, analysis_result) prog" where
  "require_analysis task = bnd (read_checkpoint task analysis_key dec_analysis_checkpoint) (\<lambda>a.
     case a of
       None \<Rightarrow> throw (WorkspaceBlockedError ''No accepted analysis exists for this task; manual recovery required'')
     | Some (digest, attempt, plan) \<Rightarrow> return plan)"

definition planned_paths :: "analysis_result \<Rightarrow> (string \<times> string list) list" where
  "planned_paths plan = fold (\<lambda>e. map_set (pn_repository e) (map pc_path (pn_changes e))) (an_repositories plan) []"

section \<open>Commit messages\<close>

text \<open>Unicode category C among the code points up to 255, without line feed and tab.\<close>

definition stripped_char :: "char \<Rightarrow> bool" where
  "stripped_char c = (let n = (of_char c :: nat) in
     (n < 32 \<or> 127 \<le> n \<and> n < 160 \<or> n = 173) \<and> c \<noteq> line_feed \<and> c \<noteq> tab_char)"

definition clean :: "string \<Rightarrow> nat \<Rightarrow> string" where
  "clean value limit = take limit (trim (filter (\<lambda>c. \<not> stripped_char c) value))"

fun collapse_spaces :: "string \<Rightarrow> string" where
  "collapse_spaces [] = []"
| "collapse_spaces (c # cs) =
     (if is_space c then (case cs of
          [] \<Rightarrow> '' ''
        | d # _ \<Rightarrow> if is_space d then collapse_spaces cs else CHR '' '' # collapse_spaces cs)
      else c # collapse_spaces cs)"

definition commit_message :: "string \<Rightarrow> string \<Rightarrow> (string \<times> string) list \<Rightarrow> string" where
  "commit_message subject body trailers =
     paragraphs (filter (\<lambda>p. p \<noteq> [])
       [clean (collapse_spaces subject) 120, clean body 2000,
        text_lines (map (\<lambda>(k, v). k @ '': '' @ clean v 200) trailers)])"

end
