(* ===== verification/PlanningStages.thy ===== *)
theory PlanningStages
  imports StageSupport
begin

text \<open>
  The stages before an agent may write: worktree preparation (\<open>src/workspaces/preparation-stage.ts\<close>),
  analysis (\<open>src/execution/stages/analysis-stage.ts\<close>) and setup
  (\<open>src/execution/stages/ready-stage.ts\<close>).
\<close>

section \<open>Preparation\<close>

definition prepared_key :: string where
  "prepared_key = ''workspaces-prepared''"

definition enc_prepared :: "task_workspace \<Rightarrow> json" where
  "enc_prepared w = JObj [(''repository'', JStr (tw_repository w)), (''workspacePath'', JStr (tw_workspacePath w)),
     (''branch'', JStr (tw_branch w)), (''baseCommit'', JStr (tw_baseCommit w))]"

definition identity_of :: "task_workspace \<Rightarrow> workspace_identity" where
  "identity_of w = \<lparr>wi_repository = tw_repository w, wi_workspacePath = tw_workspacePath w, wi_branch = tw_branch w,
     wi_baseCommit = tw_baseCommit w\<rparr>"

definition abort_signal :: "('x, abort_reason option) prog" where
  "abort_signal = bind_code (outside (\<lambda>v x. (sv_signal v, x))) return"

text \<open>A remote that cannot be reached pauses the task; any other error of the two calls is thrown.\<close>

definition prepare_unit ::
  "'x deps \<Rightarrow> int \<Rightarrow> task_row \<Rightarrow> string \<Rightarrow> work_unit_row \<Rightarrow> json list \<Rightarrow> ('x, stage_outcome + json list) prog" where
  "prepare_unit x remoteRetryMs task branch u prepared =
     bnd abort_signal (\<lambda>signal.
     if signal \<noteq> None then return (Inl Interrupted)
     else attempt_code
       (bnd (outer (sx_prepare (xd_services x) \<lparr>pr_taskId = t_id task, pr_repository = wu_repository u, pr_branch = branch,
            pr_persisted = (wu_workspacePath u, wu_branch u, wu_baseCommit u)\<rparr>)) (\<lambda>w.
        bnd (db_call (\<lambda>t. record_work_unit_workspace t (t_id task) (xd_workerId x) (identity_of w))) (\<lambda>_. return w)))
       (\<lambda>r. case r of
          Inr w \<Rightarrow> return (Inr (prepared @ [enc_prepared w]))
        | Inl e \<Rightarrow> (case e of
            RemoteUnavailableError m \<Rightarrow> bnd clock_now (\<lambda>now.
              return (Inl (PauseLimit REMOTE_UNAVAILABLE (Some (now + remoteRetryMs)) (Some (error_message e)))))
          | _ \<Rightarrow> throw e)))"

definition preparation_stage ::
  "'x deps \<Rightarrow> int \<Rightarrow> (task_row \<Rightarrow> ('x, stage_outcome) prog) option \<Rightarrow> task_row \<Rightarrow> ('x, stage_outcome) prog" where
  "preparation_stage x remoteRetryMs next_stage task =
     bnd (lift_result (validate_planning_issue x (t_contractSnapshot task))) (\<lambda>contract.
     case pi_source contract of
       None \<Rightarrow> throw (WorkspaceBlockedError ''Task contract has no hydrated Linear source'')
     | Some source \<Rightarrow>
     bnd (db_read (list_unfinished_blockers (t_id task))) (\<lambda>blockers.
     if blockers \<noteq> [] then throw (WorkspaceBlockedError (''Task depends on unmerged work: ''
         @ join '', '' (map (\<lambda>(_, identifier, st). identifier @ '' ('' @ show_state st @ '')'') blockers)))
     else bnd (db_read (get_work_units (t_id task))) (\<lambda>units.
     let declared = sort (pi_repositories contract); persisted = sort (map wu_repository units) in
     if join [nul_char] declared \<noteq> join [nul_char] persisted
     then throw (WorkspaceBlockedError (''Work units ['' @ join '', '' persisted @ ''] do not match contract repositories [''
         @ join '', '' declared @ '']''))
     else loop_code (prepare_unit x remoteRetryMs task (is_gitBranchName source)) units [] (\<lambda>prepared.
       bnd (checkpoint task prepared_key (JObj [(''repositories'', JArr prepared)])) (\<lambda>_.
       case next_stage of
         Some s \<Rightarrow> s task
       | None \<Rightarrow> return (Advance (advance BLOCKED ''Workspaces prepared; no analyzer stage is registered'')))))))"

section \<open>Analysis\<close>

definition documentation_input :: "documentation_excerpt list \<Rightarrow> json" where
  "documentation_input ds = JArr (map (\<lambda>d. JObj [(''path'', JStr (dx_path d)), (''sha256'', JStr (dx_sha256 d)),
     (''truncated'', JBool (dx_truncated d))]) ds)"

definition prompt_input :: "'x deps \<Rightarrow> string \<Rightarrow> json_object" where
  "prompt_input x prompt =
     (''promptTemplateVersion'', JStr prompt_template_version) # prompt_digest (sx_sha256 (xd_services x)) prompt"

definition timeouts :: "'x deps \<Rightarrow> runner_timeouts" where
  "timeouts x = rn_timeoutMinutes (ag_runner (xd_agents x))"

definition analysis_verdict ::
  "'x deps \<Rightarrow> task_row \<Rightarrow> int \<Rightarrow> loaded_workspaces \<Rightarrow> string \<Rightarrow> agent_usage option \<Rightarrow> analysis_result
     \<Rightarrow> ('x, stage_outcome) prog" where
  "analysis_verdict x task attempt loaded digest usage output =
     (let problems = analysis_problems output (pi_repositories (lw_contract loaded)) in
      if problems \<noteq> [] then
        bnd (end_attempt task attempt (Some CatInvalidOutput) None
              (Some (JObj [(''problems'', enc_texts problems)])) usage) (\<lambda>_.
        return (needs_operator (''Analysis plan rejected: '' @ join ''; '' problems)))
      else if an_decision output = NeedsClarification then
        bnd (end_attempt task attempt (Some CatNeedsClarification) (Some (enc_analysis output)) None usage) (\<lambda>_.
        return (manual_intervention (''Analysis needs clarification: '' @ join '' | '' (an_clarifications output))
          ''Contract needs clarification''))
      else
        bnd (checkpoint task analysis_key (JObj [(''contractDigest'', JStr digest), (''attempt'', JNum attempt),
              (''plan'', enc_analysis output)])) (\<lambda>_.
        bnd (end_attempt task attempt None (Some (enc_analysis output)) None usage) (\<lambda>_.
        return (Advance (advance READY ''Analysis plan accepted'')))))"

text \<open>
  What the stage does with the result of the run; a read-only agent must not have changed anything. A
  run that is neither completed, stopped nor failed does not exist (the last case).
\<close>

definition after_read_only_run ::
  "'x deps \<Rightarrow> task_row \<Rightarrow> int \<Rightarrow> loaded_workspaces \<Rightarrow> string \<Rightarrow> string \<Rightarrow> string \<Rightarrow> 'o run_result
     \<Rightarrow> ('o \<Rightarrow> ('x, stage_outcome) prog) \<Rightarrow> ('x, stage_outcome) prog" where
  "after_read_only_run x task attempt loaded before role_name' title r accept =
     bnd (workspace_snapshots x loaded) (\<lambda>now.
     if now \<noteq> before then
       bnd (end_attempt task attempt (Some CatWorkspaceIntegrity) None None (rz_usage r)) (\<lambda>_.
       return (needs_operator (''The read-only '' @ role_name' @ '' changed a workspace; inspect the worktrees before retrying'')))
     else unless_stopped x task attempt r (return False) (case rz_kind r of
         RunCompleted out \<Rightarrow> accept out
       | k \<Rightarrow> (case run_failure k of
           Some (category, kind, message) \<Rightarrow>
             bnd (end_attempt task attempt (Some category) None (Some (JObj [(''message'', JStr message)])) (rz_usage r)) (\<lambda>_.
             return (needs_operator (title @ '' '' @ kind @ '': '' @ message)))
         | None \<Rightarrow> return (needs_operator title))))"

definition analysis_stage :: "'x deps \<Rightarrow> task_row \<Rightarrow> ('x, stage_outcome) prog" where
  "analysis_stage x task =
     bnd (load_task_workspaces x task) (\<lambda>loaded.
     let digest = contract_digest x task in
     bnd (read_checkpoint task analysis_key dec_analysis_checkpoint) (\<lambda>accepted.
     if map_option fst accepted = Some digest then return (Advance (advance READY ''Accepted analysis reused''))
     else bnd (outer (sx_documentation (xd_services x) (pi_repositories (lw_contract loaded)))) (\<lambda>documentation.
     let prompt = build_analysis_prompt (lw_contract loaded) (lw_prompt loaded) documentation in
     bnd (lift_result (role_model (xd_config x) Analyzer (mc_analyzer (c_models (xd_config x))))) (\<lambda>model.
     bnd (begin_attempt x task (prompt_input x prompt @ [(''model'', model_input model), (''heads'', enc_heads (lw_heads loaded)),
            (''contractDigest'', JStr digest), (''documentation'', documentation_input documentation)])) (\<lambda>attempt.
     bnd (workspace_snapshots x loaded) (\<lambda>before.
     bnd (outer (sx_analyze (xd_services x) \<lparr>rq_role = Analyzer, rq_model = model, rq_prompt = prompt,
            rq_taskDirectory = lw_taskDirectory loaded, rq_access = ReadOnly,
            rq_timeoutMs = tm_analysis (timeouts x) * 60000\<rparr>)) (\<lambda>r.
     after_read_only_run x task attempt loaded before ''analyzer'' ''Analysis'' r
       (analysis_verdict x task attempt loaded digest (rz_usage r)))))))))"

section \<open>Setup\<close>

definition enc_option :: "('a \<Rightarrow> json) \<Rightarrow> 'a option \<Rightarrow> json" where
  "enc_option enc v = (case v of None \<Rightarrow> JNull | Some a \<Rightarrow> enc a)"

definition enc_command_result :: "command_result \<Rightarrow> json" where
  "enc_command_result r = JObj [(''phase'', JStr (show_phase (cm_phase r))), (''name'', JStr (cm_name r)),
     (''command'', enc_texts (cm_command r)), (''passed'', JBool (cm_passed r)), (''outcome'', JStr (show_outcome (cm_outcome r))),
     (''exitCode'', enc_option JNum (cm_exitCode r)), (''durationMs'', JNum (cm_durationMs r)),
     (''outputTail'', JStr (cm_outputTail r))]"

definition enc_report :: "quality_report \<Rightarrow> json" where
  "enc_report r = JObj [(''repository'', JStr (qr_repository r)), (''passed'', JBool (qr_passed r)),
     (''infrastructureError'', enc_nullable (qr_infrastructureError r)), (''aborted'', JBool (qr_aborted r)),
     (''results'', JArr (map enc_command_result (qr_results r)))]"

definition show_exit :: "int option \<Rightarrow> string" where
  "show_exit e = (case e of None \<Rightarrow> ''none'' | Some n \<Rightarrow> show_int n)"

definition setup_failure :: "quality_report \<Rightarrow> string" where
  "setup_failure r =
     (case qr_infrastructureError r of
        Some e \<Rightarrow> e
      | None \<Rightarrow> (case find (\<lambda>c. \<not> cm_passed c) (qr_results r) of
            Some c \<Rightarrow> cm_name c @ '' '' @ show_outcome (cm_outcome c) @ '' (exit '' @ show_exit (cm_exitCode c) @ '')''
          | None \<Rightarrow> ''command  (exit none)''))"

definition setup_unit :: "'x deps \<Rightarrow> task_row \<Rightarrow> int \<Rightarrow> loaded_unit \<Rightarrow> quality_report list
    \<Rightarrow> ('x, stage_outcome + quality_report list) prog" where
  "setup_unit x task attempt u reports =
     bnd (run_quality (xd_gates x) (xd_services x) (lu_repository u) (lu_path u) False) (\<lambda>r.
     let rs = reports @ [r]; evidence = Some (JObj [(''reports'', JArr (map enc_report rs))]) in
     if qr_aborted r then
       bnd (end_attempt task attempt (Some CatCancelled) None evidence None) (\<lambda>_. return (Inl Interrupted))
     else if \<not> qr_passed r then
       bnd (end_attempt task attempt (Some (if qr_infrastructureError r = None then CatQualityFailed else CatQualityInfrastructure))
              None evidence None) (\<lambda>_.
       return (Inl (needs_operator (''Setup failed in '' @ lu_repository u @ '' before implementation: '' @ setup_failure r))))
     else return (Inr rs))"

definition ready_stage :: "'x deps \<Rightarrow> task_row \<Rightarrow> ('x, stage_outcome) prog" where
  "ready_stage x task =
     bnd (load_task_workspaces x task) (\<lambda>loaded.
     bnd (read_checkpoint task setup_key dec_setup) (\<lambda>done'.
     let needed = filter (\<lambda>u. has_setup (xd_gates x) (lu_repository u)) (lw_units loaded) in
     if needed = [] \<or> (case done' of None \<Rightarrow> False | Some h \<Rightarrow> same_heads x h (lw_heads loaded))
     then return (Advance (advance IMPLEMENTING ''Workspaces ready for implementation''))
     else bnd (begin_attempt x task [(''phase'', JStr ''setup''), (''heads'', enc_heads (lw_heads loaded))]) (\<lambda>attempt.
     loop_code (setup_unit x task attempt) needed [] (\<lambda>reports.
     bnd (restore_all x loaded) (\<lambda>discarded.
     bnd (checkpoint task setup_key (JObj [(''heads'', enc_heads (lw_heads loaded))])) (\<lambda>_.
     bnd (end_attempt task attempt None None (Some (JObj [(''reports'', JArr (map enc_report reports)),
            (''discardedSetupArtifacts'', JBool discarded)])) None) (\<lambda>_.
     return (Advance (advance IMPLEMENTING ''Workspace setup completed'')))))))))"

end
