(* ===== verification/ChangeStages.thy ===== *)
theory ChangeStages
  imports PlanningStages
begin

text \<open>
  The stages whose agent writes: applying its changes (\<open>src/execution/stages/change-application.ts\<close>),
  implementation (\<open>implementation-stage.ts\<close>) and fixing (\<open>fixing-stage.ts\<close>).
\<close>

section \<open>Applying changes\<close>

datatype change_application =
    ChangesCommitted heads "diff_evidence list"
  | ChangesRejected string "diff_violation list" "diff_evidence list"
  | IntegrityBroken string

definition verify_agent_left_git_state :: "'x deps \<Rightarrow> loaded_workspaces \<Rightarrow> ('x, string option) prog" where
  "verify_agent_left_git_state x loaded =
     loop_code (\<lambda>u _. attempt_code (outer (sx_verify (xd_services x) (lu_workspace u))) (\<lambda>r. case r of
          Inr head \<Rightarrow>
            if head \<noteq> lu_head u
            then return (Inl (Some (''HEAD of '' @ lu_repository u @ '' moved from '' @ lu_head u @ '' to '' @ head
                   @ '' during the agent run'')))
            else return (Inr ())
        | Inl e \<Rightarrow> (case e of WorkspaceBlockedError m \<Rightarrow> return (Inl (Some m)) | _ \<Rightarrow> throw e)))
       (lw_units loaded) () (\<lambda>_. return None)"

definition collect_unit :: "'x deps \<Rightarrow> loaded_unit \<Rightarrow> ('x, repository_changes) prog" where
  "collect_unit x u =
     bnd (outer (sx_diffs (xd_services x) (lu_path u))) (\<lambda>(raw, numstat, patch).
     return (collect_changes (lu_repository u) raw numstat patch
       (dp_maxChangedLines (ag_diffPolicy (xd_agents x)))))"

definition commit_unit :: "'x deps \<Rightarrow> repository_changes list \<Rightarrow> (string \<Rightarrow> string) \<Rightarrow> loaded_unit \<Rightarrow> heads \<Rightarrow> ('x, heads) prog" where
  "commit_unit x changes message u commits =
     (if map_option rg_files (find (\<lambda>c. rg_repository c = lu_repository u) changes) = Some [] then return commits
      else bnd (outer (sx_commit (xd_services x) (lu_workspace u) (message (lu_repository u)))) (\<lambda>c.
        return (map_set (lu_repository u) c commits)))"

definition inspect_and_commit ::
  "'x deps \<Rightarrow> loaded_workspaces \<Rightarrow> string list \<Rightarrow> (string \<times> string list) list \<Rightarrow> (string \<Rightarrow> string)
     \<Rightarrow> ('x, change_application) prog" where
  "inspect_and_commit x loaded required planned message =
     bnd (verify_agent_left_git_state x loaded) (\<lambda>integrity.
     case integrity of
       Some detail \<Rightarrow> return (IntegrityBroken detail)
     | None \<Rightarrow>
     bnd (for_each (collect_unit x) (lw_units loaded)) (\<lambda>changes.
     let (violations, evidence) = evaluate_changes \<lparr>di_changes = changes, di_policy = ag_diffPolicy (xd_agents x),
            di_required = required, di_plannedPaths = planned, di_knownSecrets = xd_knownSecrets x\<rparr> in
     if violations \<noteq> [] then
       bnd (restore_all x loaded) (\<lambda>_. return (ChangesRejected (describe_violations violations 20) violations evidence))
     else loop_code (\<lambda>u commits. bnd (commit_unit x changes message u commits) (\<lambda>c. return (Inr c)))
            (lw_units loaded) (lw_heads loaded) (\<lambda>commits. return (ChangesCommitted commits evidence))))"

definition enc_violation :: "diff_violation \<Rightarrow> json" where
  "enc_violation v = JObj [(''repository'', JStr (dv_repository v)), (''rule'', JStr (show_rule (dv_rule v))),
     (''path'', enc_nullable (dv_path v)), (''detail'', JStr (dv_detail v))]"

definition enc_evidence :: "diff_evidence \<Rightarrow> json" where
  "enc_evidence e = JObj [(''repository'', JStr (de_repository e)), (''changedFiles'', JNum (int (de_changedFiles e))),
     (''addedLines'', JNum (de_addedLines e)), (''deletedLines'', JNum (de_deletedLines e)),
     (''binaryFiles'', JNum (int (de_binaryFiles e))), (''unplannedFiles'', enc_texts (de_unplannedFiles e)),
     (''paths'', enc_texts (de_paths e))]"

definition rejection_evidence :: "diff_violation list \<Rightarrow> diff_evidence list \<Rightarrow> json_object" where
  "rejection_evidence vs es = [(''violations'', JArr (map enc_violation vs)), (''diff'', JArr (map enc_evidence es))]"

definition commit_evidence :: "heads \<Rightarrow> diff_evidence list \<Rightarrow> json" where
  "commit_evidence commits es = JObj [(''commits'', enc_heads commits), (''diff'', JArr (map enc_evidence es))]"

definition task_identifier :: "task_row \<Rightarrow> loaded_workspaces \<Rightarrow> string" where
  "task_identifier task loaded =
     (case pi_source (lw_contract loaded) of None \<Rightarrow> t_linearIdentifier task | Some s \<Rightarrow> is_linearIdentifier s)"

definition repository_summary_of :: "change_result \<Rightarrow> string \<Rightarrow> string" where
  "repository_summary_of out repo =
     (case find (\<lambda>r. rs_repository r = repo) (ch_repositories out) of Some r \<Rightarrow> rs_summary r | None \<Rightarrow> ch_summary out)"

section \<open>Implementation\<close>

definition max_attempts :: "'x deps \<Rightarrow> int" where
  "max_attempts x = lm_maxImplementationAttempts (c_limits (xd_config x))"

definition reject_implementation ::
  "'x deps \<Rightarrow> task_row \<Rightarrow> loaded_workspaces \<Rightarrow> int \<Rightarrow> int \<Rightarrow> failure_category \<Rightarrow> string \<Rightarrow> agent_usage option \<Rightarrow> json_object
     \<Rightarrow> ('x, stage_outcome) prog" where
  "reject_implementation x task loaded scope attempt category detail usage evidence =
     bnd (restore_all x loaded) (\<lambda>_.
     bnd (checkpoint task rejection_key (JObj [(''implementationAttempt'', JNum attempt),
            (''category'', JStr (show_category category)), (''detail'', JStr detail)])) (\<lambda>_.
     bnd (end_attempt task scope (Some category) None (Some (JObj ((''detail'', JStr detail) # evidence))) usage) (\<lambda>_.
     if max_attempts x \<le> attempt
     then return (Advance ((advance FAILED ''Implementation attempts exhausted'')
            \<lparr>adv_incrementCounter := Some ImplementationAttempts,
             adv_lastError := Some (Some (''Implementation attempt '' @ show_int attempt @ '' of '' @ show_int (max_attempts x)
               @ '' rejected ('' @ show_category category @ ''): '' @ detail))\<rparr>))
     else return (Advance ((advance READY (''Implementation attempt '' @ show_int attempt @ '' rejected (''
            @ show_category category @ ''); retrying'')) \<lparr>adv_incrementCounter := Some ImplementationAttempts\<rparr>)))))"

text \<open>A committed implementation is used again when every worktree still descends from it.\<close>

definition reuse_implementation :: "'x deps \<Rightarrow> task_row \<Rightarrow> loaded_workspaces \<Rightarrow> int \<Rightarrow> heads \<Rightarrow> ('x, stage_outcome) prog" where
  "reuse_implementation x task loaded n commits =
     loop_code (\<lambda>u _.
         let lost = needs_operator (''Committed implementation for '' @ lu_repository u @ '' is no longer in the branch history'') in
         case map_of commits (lu_repository u) of
           None \<Rightarrow> return (Inl lost)
         | Some c \<Rightarrow> bnd (outer (sx_isAncestor (xd_services x) (lu_path u) c (lu_head u))) (\<lambda>b.
             return (if b then Inr () else Inl lost)))
       (lw_units loaded) () (\<lambda>_.
       return (Advance ((advance TESTING ''Committed implementation reused'')
         \<lparr>adv_incrementCounter := (if t_implementationAttempts task < n then Some ImplementationAttempts else None)\<rparr>)))"

definition apply_implementation ::
  "'x deps \<Rightarrow> task_row \<Rightarrow> loaded_workspaces \<Rightarrow> analysis_result \<Rightarrow> int \<Rightarrow> int \<Rightarrow> agent_usage option \<Rightarrow> change_result
     \<Rightarrow> ('x, stage_outcome) prog" where
  "apply_implementation x task loaded plan scope attempt usage out =
     bnd (inspect_and_commit x loaded (pi_repositories (lw_contract loaded)) (planned_paths plan)
       (\<lambda>repo. commit_message (task_identifier task loaded @ '': '' @ pi_title (lw_contract loaded)) (repository_summary_of out repo)
          [(''Orchestrator-Task'', t_id task), (''Orchestrator-Stage'', ''implementation/'' @ show_int attempt)])) (\<lambda>application.
     case application of
       IntegrityBroken detail \<Rightarrow>
         bnd (end_attempt task scope (Some CatWorkspaceIntegrity) None (Some (JObj [(''detail'', JStr detail)])) usage) (\<lambda>_.
         return (needs_operator (''Workspace integrity check failed after implementation: '' @ detail)))
     | ChangesRejected detail vs es \<Rightarrow>
         reject_implementation x task loaded scope attempt CatDiffRejected detail usage (rejection_evidence vs es)
     | ChangesCommitted commits es \<Rightarrow>
         bnd (checkpoint task implementation_key (JObj [(''implementationAttempt'', JNum attempt),
                (''commits'', enc_heads commits)])) (\<lambda>_.
         bnd (end_attempt task scope None (Some (enc_change_result implementation_result_version out))
                (Some (commit_evidence commits es)) usage) (\<lambda>_.
         return (Advance ((advance TESTING (''Implementation attempt '' @ show_int attempt @ '' committed''))
           \<lparr>adv_incrementCounter := Some ImplementationAttempts\<rparr>)))))"

definition after_implementer ::
  "'x deps \<Rightarrow> task_row \<Rightarrow> loaded_workspaces \<Rightarrow> analysis_result \<Rightarrow> int \<Rightarrow> int \<Rightarrow> change_result run_result
     \<Rightarrow> ('x, stage_outcome) prog" where
  "after_implementer x task loaded plan scope attempt r =
     unless_stopped x task scope r (restore_all x loaded) (case rz_kind r of
         RunCompleted out \<Rightarrow>
           if ch_status out = ChangeBlocked then
             bnd (restore_all x loaded) (\<lambda>_.
             bnd (end_attempt task scope (Some CatAgentBlocked) (Some (enc_change_result implementation_result_version out)) None
                    (rz_usage r)) (\<lambda>_.
             return (manual_intervention (''Implementer stopped: '' @ or_else (ch_blockedReason out) (ch_summary out))
               ''Implementer needs a decision'')))
           else apply_implementation x task loaded plan scope attempt (rz_usage r) out
       | k \<Rightarrow> (case run_failure k of
           Some (category, _, message) \<Rightarrow>
             reject_implementation x task loaded scope attempt category message (rz_usage r) []
         | None \<Rightarrow> return Interrupted))"

definition implement ::
  "'x deps \<Rightarrow> task_row \<Rightarrow> loaded_workspaces \<Rightarrow> analysis_result \<Rightarrow> int \<Rightarrow> model_selection \<Rightarrow> ('x, stage_outcome) prog" where
  "implement x task loaded plan attempt model =
     bnd (restore_all x loaded) (\<lambda>_.
     bnd (db_call (\<lambda>t. record_model_selection t (t_id task) (xd_workerId x) (ms_tier model) (ms_model model)
            (show_effort (ms_effort model)))) (\<lambda>_.
     bnd (read_checkpoint task rejection_key dec_rejection) (\<lambda>rejection.
     bnd (outer (sx_documentation (xd_services x) (pi_repositories (lw_contract loaded)))) (\<lambda>documentation.
     let previous = (case rejection of
           None \<Rightarrow> None
         | Some (n, category, detail) \<Rightarrow> if n < attempt then Some (category @ '': '' @ detail) else None);
         prompt = build_implementation_prompt (lw_contract loaded) (lw_prompt loaded) documentation plan attempt previous in
     bnd (begin_attempt x task (prompt_input x prompt @ [(''model'', model_input model), (''implementationAttempt'', JNum attempt),
            (''heads'', enc_heads (lw_heads loaded)), (''documentation'', documentation_input documentation)])) (\<lambda>scope.
     bnd (outer (sx_change (xd_services x) implementation_result_version \<lparr>rq_role = Implementer, rq_model = model,
            rq_prompt = prompt, rq_taskDirectory = lw_taskDirectory loaded, rq_access = WorkspaceWrite,
            rq_timeoutMs = tm_implementation (timeouts x) * 60000\<rparr>)) (\<lambda>r.
     after_implementer x task loaded plan scope attempt r))))))"

definition implementation_model :: "'x deps \<Rightarrow> complexity \<Rightarrow> int \<Rightarrow> (orch_error, model_selection option) result" where
  "implementation_model x complexity attempt =
     (if attempt \<le> max_attempts x then escalation_step (xd_config x) complexity attempt else Inr None)"

definition implementation_stage :: "'x deps \<Rightarrow> task_row \<Rightarrow> ('x, stage_outcome) prog" where
  "implementation_stage x task =
     bnd (load_task_workspaces x task) (\<lambda>loaded.
     bnd (require_analysis task) (\<lambda>plan.
     bnd (read_checkpoint task implementation_key dec_implementation) (\<lambda>committed.
     case committed of
       Some (n, commits) \<Rightarrow> reuse_implementation x task loaded n commits
     | None \<Rightarrow> (case find (\<lambda>u. lu_head u \<noteq> tw_baseCommit (lu_workspace u)) (lw_units loaded) of
         Some u \<Rightarrow> return (needs_operator (lu_repository u @ '' has commits that no accepted implementation recorded''))
       | None \<Rightarrow>
         let attempt = t_implementationAttempts task + 1; complexity = pi_complexity (lw_contract loaded) in
         bnd (lift_result (implementation_model x complexity attempt)) (\<lambda>model.
         case model of
           None \<Rightarrow> return (Advance ((advance FAILED ''Implementation attempts exhausted'')
             \<lparr>adv_lastError := Some (Some (''No implementation route remains for '' @ show_complexity complexity
                @ '' complexity at attempt '' @ show_int attempt))\<rparr>))
         | Some m \<Rightarrow> implement x task loaded plan attempt m)))))"

section \<open>Fixing\<close>

definition effort_named :: "string \<Rightarrow> effort option" where
  "effort_named s = find (\<lambda>e. show_effort e = s) [EffortLow, EffortMedium, EffortHigh, EffortMax]"

text \<open>The route of the latest implementation attempt; its tier is looked up in the configuration again.\<close>

definition fix_model :: "'x deps \<Rightarrow> complexity \<Rightarrow> task_row \<Rightarrow> (orch_error, model_selection option) result" where
  "fix_model x complexity task =
     (let recorded = (case (t_selectedModelTier task, Option.bind (t_reasoningEffort task) effort_named) of
          (Some tier, Some e) \<Rightarrow> if tier_of (xd_config x) tier = None then None else Some (mk_route tier e)
        | _ \<Rightarrow> None) in
      case recorded of
        Some r \<Rightarrow> and_then (resolve_route (xd_config x) r) (\<lambda>m. Inr (Some m))
      | None \<Rightarrow> escalation_step (xd_config x) complexity (max 1 (t_implementationAttempts task)))"

definition enc_fix_applied :: "string \<Rightarrow> heads option \<Rightarrow> failure_category option \<Rightarrow> json" where
  "enc_fix_applied i commits category = JObj [(''requestId'', JStr i), (''commits'', enc_option enc_heads commits),
     (''category'', enc_nullable (map_option show_category category))]"

definition apply_fix ::
  "'x deps \<Rightarrow> task_row \<Rightarrow> loaded_workspaces \<Rightarrow> analysis_result \<Rightarrow> fix_request \<Rightarrow> int \<Rightarrow> agent_usage option \<Rightarrow> change_result
     \<Rightarrow> ('x, stage_outcome) prog" where
  "apply_fix x task loaded plan request scope usage out =
     bnd (inspect_and_commit x loaded [] (planned_paths plan)
       (\<lambda>repo. commit_message (task_identifier task loaded @ '': address ''
            @ (if fq_source request = ''quality'' then ''quality gate failures'' else ''review findings''))
          (repository_summary_of out repo)
          [(''Orchestrator-Task'', t_id task), (''Orchestrator-Stage'', ''fix/'' @ fq_id request)])) (\<lambda>application.
     case application of
       IntegrityBroken detail \<Rightarrow>
         bnd (end_attempt task scope (Some CatWorkspaceIntegrity) None (Some (JObj [(''detail'', JStr detail)])) usage) (\<lambda>_.
         return (needs_operator (''Workspace integrity check failed after fix: '' @ detail)))
     | ChangesRejected detail vs es \<Rightarrow>
         bnd (checkpoint task fix_applied_key (enc_fix_applied (fq_id request) None (Some CatDiffRejected))) (\<lambda>_.
         bnd (end_attempt task scope (Some CatDiffRejected) None
                (Some (JObj ((''detail'', JStr detail) # rejection_evidence vs es))) usage) (\<lambda>_.
         return (Advance (advance TESTING (''Fix '' @ fq_id request @ '' rejected: '' @ detail)))))
     | ChangesCommitted commits es \<Rightarrow>
         bnd (checkpoint task fix_applied_key (enc_fix_applied (fq_id request) (Some commits) None)) (\<lambda>_.
         bnd (end_attempt task scope None (Some (enc_change_result fix_result_version out))
                (Some (commit_evidence commits es)) usage) (\<lambda>_.
         return (Advance (advance TESTING (''Fix '' @ fq_id request @ '' committed''))))))"

definition after_fixer ::
  "'x deps \<Rightarrow> task_row \<Rightarrow> loaded_workspaces \<Rightarrow> analysis_result \<Rightarrow> fix_request \<Rightarrow> int \<Rightarrow> change_result run_result
     \<Rightarrow> ('x, stage_outcome) prog" where
  "after_fixer x task loaded plan request scope r =
     unless_stopped x task scope r (restore_all x loaded) (case rz_kind r of
         RunCompleted out \<Rightarrow>
           if ch_status out = ChangeBlocked then
             bnd (restore_all x loaded) (\<lambda>_.
             bnd (end_attempt task scope (Some CatAgentBlocked) (Some (enc_change_result fix_result_version out)) None
                    (rz_usage r)) (\<lambda>_.
             return (manual_intervention (''Fixer stopped: '' @ or_else (ch_blockedReason out) (ch_summary out))
               ''Fixer needs a decision'')))
           else apply_fix x task loaded plan request scope (rz_usage r) out
       | k \<Rightarrow> (case run_failure k of
           Some (category, _, message) \<Rightarrow>
             bnd (restore_all x loaded) (\<lambda>_.
             bnd (checkpoint task fix_applied_key (enc_fix_applied (fq_id request) None (Some category))) (\<lambda>_.
             bnd (end_attempt task scope (Some category) None (Some (JObj [(''detail'', JStr message)])) (rz_usage r)) (\<lambda>_.
             return (Advance (advance TESTING (''Fix '' @ fq_id request @ '' not applied ('' @ show_category category @ '')''))))))
         | None \<Rightarrow> return Interrupted))"

definition fix_changes ::
  "'x deps \<Rightarrow> task_row \<Rightarrow> loaded_workspaces \<Rightarrow> analysis_result \<Rightarrow> fix_request \<Rightarrow> model_selection \<Rightarrow> ('x, stage_outcome) prog" where
  "fix_changes x task loaded plan request model =
     bnd (restore_all x loaded) (\<lambda>_.
     let prompt = build_fix_prompt (lw_contract loaded) (lw_prompt loaded) plan (fq_source request) (fq_details request) in
     bnd (begin_attempt x task (prompt_input x prompt @ [(''model'', model_input model), (''fixRequest'', JStr (fq_id request)),
            (''heads'', enc_heads (lw_heads loaded))])) (\<lambda>scope.
     bnd (outer (sx_change (xd_services x) fix_result_version \<lparr>rq_role = Fixer, rq_model = model, rq_prompt = prompt,
            rq_taskDirectory = lw_taskDirectory loaded, rq_access = WorkspaceWrite,
            rq_timeoutMs = tm_fix (timeouts x) * 60000\<rparr>)) (\<lambda>r.
     after_fixer x task loaded plan request scope r)))"

definition fixing_stage :: "'x deps \<Rightarrow> task_row \<Rightarrow> ('x, stage_outcome) prog" where
  "fixing_stage x task =
     bnd (load_task_workspaces x task) (\<lambda>loaded.
     bnd (read_checkpoint task fix_request_key dec_fix_request) (\<lambda>request.
     case request of
       None \<Rightarrow> return (needs_operator ''No fix request exists for this task'')
     | Some q \<Rightarrow>
     bnd (read_checkpoint task fix_applied_key dec_fix_applied) (\<lambda>applied.
     if map_option fst applied = Some (fq_id q)
     then return (Advance (advance TESTING (''Fix '' @ fq_id q @ '' already applied'')))
     else if \<not> same_heads x (fq_heads q) (lw_heads loaded)
     then return (needs_operator (''Branches moved since fix '' @ fq_id q @ '' was requested''))
     else bnd (require_analysis task) (\<lambda>plan.
       bnd (lift_result (fix_model x (pi_complexity (lw_contract loaded)) task)) (\<lambda>model.
       case model of
         None \<Rightarrow> return (needs_operator ''No model route is available for a fix'')
       | Some m \<Rightarrow> fix_changes x task loaded plan q m)))))"

end
