(* ===== verification/VerificationStages.thy ===== *)
theory VerificationStages
  imports ChangeStages
begin

text \<open>
  The stages that judge committed changes: quality gates (\<open>src/execution/stages/testing-stage.ts\<close>) and
  review (\<open>review-stage.ts\<close>).
\<close>

section \<open>Testing\<close>

definition enc_failure :: "string \<Rightarrow> command_result \<Rightarrow> json" where
  "enc_failure repo r = JObj [(''repository'', JStr repo), (''phase'', JStr (show_phase (cm_phase r))), (''name'', JStr (cm_name r)),
     (''command'', enc_texts (cm_command r)), (''outcome'', JStr (show_outcome (cm_outcome r))),
     (''exitCode'', enc_option JNum (cm_exitCode r)), (''outputTail'', JStr (cm_outputTail r))]"

definition gate_failures :: "quality_report list \<Rightarrow> (string \<times> command_result) list" where
  "gate_failures reports = concat (map (\<lambda>r. map (Pair (qr_repository r)) (filter (\<lambda>c. \<not> cm_passed c) (qr_results r))) reports)"

definition show_failure :: "string \<times> command_result \<Rightarrow> string" where
  "show_failure f = (case f of (repo, c) \<Rightarrow> repo @ '':'' @ cm_name c @ '' ''
     @ (if cm_outcome c = Exited then ''failed'' else show_outcome (cm_outcome c))
     @ '' (exit '' @ show_exit (cm_exitCode c) @ '')'')"

definition test_unit :: "'x deps \<Rightarrow> task_row \<Rightarrow> loaded_workspaces \<Rightarrow> int \<Rightarrow> loaded_unit \<Rightarrow> quality_report list
    \<Rightarrow> ('x, stage_outcome + quality_report list) prog" where
  "test_unit x task loaded attempt u reports =
     bnd (run_quality (xd_gates x) (xd_services x) (lu_repository u) (lu_path u) True) (\<lambda>r.
     let rs = reports @ [r]; evidence = Some (JObj [(''reports'', JArr (map enc_report rs))]) in
     if qr_aborted r then
       bnd (restore_all x loaded) (\<lambda>_.
       bnd (end_attempt task attempt (Some CatCancelled) None evidence None) (\<lambda>_. return (Inl Interrupted)))
     else case qr_infrastructureError r of
       Some e \<Rightarrow>
         bnd (restore_all x loaded) (\<lambda>_.
         bnd (end_attempt task attempt (Some CatQualityInfrastructure) None evidence None) (\<lambda>_.
         return (Inl (needs_operator (''Quality gate could not run in '' @ lu_repository u @ '': '' @ e)))))
     | None \<Rightarrow> return (Inr rs))"

definition judge_reports :: "'x deps \<Rightarrow> task_row \<Rightarrow> loaded_workspaces \<Rightarrow> int \<Rightarrow> quality_report list \<Rightarrow> ('x, stage_outcome) prog" where
  "judge_reports x task loaded attempt reports =
     bnd (restore_all x loaded) (\<lambda>discarded.
     let evidence = Some (JObj [(''reports'', JArr (map enc_report reports)), (''discardedArtifacts'', JBool discarded)]);
         failures = gate_failures reports; summary = join '', '' (map show_failure failures);
         maxFixes = lm_maxQualityFixAttempts (c_limits (xd_config x)) in
     if list_all qr_passed reports then
       bnd (checkpoint task quality_key (JObj [(''heads'', enc_heads (lw_heads loaded)), (''attempt'', JNum attempt)])) (\<lambda>_.
       bnd (end_attempt task attempt None None evidence None) (\<lambda>_.
       return (Advance (advance REVIEWING ''Quality gates passed''))))
     else bnd (end_attempt task attempt (Some CatQualityFailed) None evidence None) (\<lambda>_.
       if maxFixes \<le> t_qualityFixAttempts task
       then return (Advance ((advance FAILED ''Quality fix attempts exhausted'')
              \<lparr>adv_lastError := Some (Some (''Quality gates still failing after '' @ show_int maxFixes @ '' fix attempts: ''
                 @ summary))\<rparr>))
       else bnd (checkpoint task fix_request_key (JObj [(''id'', JStr (''quality-'' @ show_int attempt)),
              (''source'', JStr ''quality''), (''heads'', enc_heads (lw_heads loaded)),
              (''details'', JArr (map (\<lambda>(repo, c). enc_failure repo c) failures))])) (\<lambda>_.
         return (Advance ((advance FIXING (''Quality gates failed: '' @ summary))
           \<lparr>adv_incrementCounter := Some QualityFixAttempts\<rparr>)))))"

definition testing_stage :: "'x deps \<Rightarrow> task_row \<Rightarrow> ('x, stage_outcome) prog" where
  "testing_stage x task =
     bnd (load_task_workspaces x task) (\<lambda>loaded.
     bnd (read_checkpoint task quality_key dec_quality_passed) (\<lambda>passed.
     if (case passed of None \<Rightarrow> False | Some (h, _) \<Rightarrow> same_heads x h (lw_heads loaded))
     then return (Advance (advance REVIEWING ''Quality gates already passed for these commits''))
     else bnd (restore_all x loaded) (\<lambda>_.
       bnd (begin_attempt x task [(''heads'', enc_heads (lw_heads loaded))]) (\<lambda>attempt.
       loop_code (test_unit x task loaded attempt) (lw_units loaded) [] (judge_reports x task loaded attempt)))))"

section \<open>Review\<close>

definition accepted_outcome :: "bool \<Rightarrow> stage_outcome" where
  "accepted_outcome deliver =
     (if deliver then Advance (advance PR_CREATED ''Review accepted; delivering pull requests'')
      else Advance (advance BLOCKED ''Reviewed local branch ready; delivery is not enabled''))"

text \<open>\<open>diffFromBase\<close>: a diff Git cannot deliver counts as truncated.\<close>

definition diff_from_base :: "'x deps \<Rightarrow> loaded_unit \<Rightarrow> int \<Rightarrow> ('x, review_diff) prog" where
  "diff_from_base x u maxBytes =
     bnd (outer (sx_stat (xd_services x) (lu_path u) (tw_baseCommit (lu_workspace u)))) (\<lambda>stat.
     attempt_code (outer (sx_diff (xd_services x) (lu_path u) (tw_baseCommit (lu_workspace u)))) (\<lambda>r.
       return (case r of
          Inl e \<Rightarrow> \<lparr>rd_repository = lu_repository u, rd_stat = stat, rd_diff = [], rd_truncated = True\<rparr>
        | Inr diff \<Rightarrow> if maxBytes < int (length diff)
            then \<lparr>rd_repository = lu_repository u, rd_stat = stat, rd_diff = take (nat maxBytes) diff, rd_truncated = True\<rparr>
            else \<lparr>rd_repository = lu_repository u, rd_stat = stat, rd_diff = diff, rd_truncated = False\<rparr>)))"

definition verdict_evidence :: "review_result \<Rightarrow> json" where
  "verdict_evidence out = JObj [(''declaredVerdict'', JStr (show_verdict (rw_verdict out))),
     (''verdict'', JStr (show_verdict (effective_verdict out)))]"

definition review_verdict ::
  "'x deps \<Rightarrow> bool \<Rightarrow> task_row \<Rightarrow> int \<Rightarrow> loaded_workspaces \<Rightarrow> agent_usage option \<Rightarrow> review_result \<Rightarrow> ('x, stage_outcome) prog" where
  "review_verdict x deliver task attempt loaded usage out =
     (let problems = review_problems out (pi_repositories (lw_contract loaded)); res = Some (enc_review out);
          evidence = Some (verdict_evidence out); maxCycles = lm_maxReviewCycles (c_limits (xd_config x)) in
      if problems \<noteq> [] then
        bnd (end_attempt task attempt (Some CatInvalidOutput) None (Some (JObj [(''problems'', enc_texts problems)])) usage) (\<lambda>_.
        return (needs_operator (''Review result rejected: '' @ join ''; '' problems)))
      else case effective_verdict out of
        Approve \<Rightarrow>
          bnd (checkpoint task review_key (JObj [(''heads'', enc_heads (lw_heads loaded)), (''attempt'', JNum attempt),
                 (''summary'', JStr (rw_summary out))])) (\<lambda>_.
          bnd (end_attempt task attempt None res evidence usage) (\<lambda>_. return (accepted_outcome deliver)))
      | RejectChange \<Rightarrow>
          bnd (end_attempt task attempt (Some CatReviewRejected) res evidence usage) (\<lambda>_.
          return (manual_intervention (''Reviewer rejected the change: '' @ rw_summary out) ''Review rejected''))
      | RequestChanges \<Rightarrow>
          bnd (end_attempt task attempt (Some CatReviewChangesRequested) res evidence usage) (\<lambda>_.
          if maxCycles \<le> t_reviewAttempts task
          then return (Advance ((advance FAILED ''Review cycles exhausted'')
                 \<lparr>adv_lastError := Some (Some (''Reviewer still requests changes after '' @ show_int maxCycles
                    @ '' review cycles: '' @ rw_summary out))\<rparr>))
          else bnd (checkpoint task fix_request_key (JObj [(''id'', JStr (''review-'' @ show_int attempt)),
                 (''source'', JStr ''review''), (''heads'', enc_heads (lw_heads loaded)),
                 (''details'', JObj [(''summary'', JStr (rw_summary out)),
                    (''findings'', JArr (map enc_finding (rw_findings out)))])])) (\<lambda>_.
            return (Advance ((advance FIXING (''Reviewer requested changes: '' @ take 300 (rw_summary out)))
              \<lparr>adv_incrementCounter := Some ReviewAttempts\<rparr>)))))"

definition review_stage :: "'x deps \<Rightarrow> bool \<Rightarrow> task_row \<Rightarrow> ('x, stage_outcome) prog" where
  "review_stage x deliver task =
     bnd (load_task_workspaces x task) (\<lambda>loaded.
     bnd (read_checkpoint task review_key dec_review_approved) (\<lambda>approved.
     if (case approved of None \<Rightarrow> False | Some (h, _) \<Rightarrow> same_heads x h (lw_heads loaded)) then return (accepted_outcome deliver)
     else bnd (read_checkpoint task quality_key dec_quality_passed) (\<lambda>passed.
     if \<not> (case passed of None \<Rightarrow> False | Some (h, _) \<Rightarrow> same_heads x h (lw_heads loaded))
     then return (needs_operator ''Review requires passing quality gates for the current commits'')
     else bnd (require_analysis task) (\<lambda>plan.
     bnd (for_each (\<lambda>u. diff_from_base x u (ag_maxReviewDiffBytes (xd_agents x))) (lw_units loaded)) (\<lambda>diffs.
     let prompt = build_review_prompt (lw_contract loaded) (lw_prompt loaded) plan diffs in
     bnd (lift_result (role_model (xd_config x) Reviewer (mc_reviewer (c_models (xd_config x))))) (\<lambda>model.
     bnd (begin_attempt x task (prompt_input x prompt @ [(''model'', model_input model), (''heads'', enc_heads (lw_heads loaded)),
            (''diffs'', JArr (map (\<lambda>d. JObj [(''repository'', JStr (rd_repository d)), (''truncated'', JBool (rd_truncated d))])
               diffs))])) (\<lambda>attempt.
     bnd (workspace_snapshots x loaded) (\<lambda>before.
     bnd (outer (sx_review (xd_services x) \<lparr>rq_role = Reviewer, rq_model = model, rq_prompt = prompt,
            rq_taskDirectory = lw_taskDirectory loaded, rq_access = ReadOnly,
            rq_timeoutMs = tm_review (timeouts x) * 60000\<rparr>)) (\<lambda>r.
     after_read_only_run x task attempt loaded before ''reviewer'' ''Review'' r
       (review_verdict x deliver task attempt loaded (rz_usage r)))))))))))"

section \<open>The handlers\<close>

text \<open>
  \<open>createExecutionHandlers\<close> without delivery (\<open>src/execution/stages/index.ts\<close>); \<open>more\<close> are the
  delivery handlers, registered when delivery is enabled.
\<close>

definition create_execution_handlers ::
  "'x deps \<Rightarrow> int \<Rightarrow> (task_state \<times> (task_row \<Rightarrow> 'x stage_code)) list option
     \<Rightarrow> (task_state \<times> (task_row \<Rightarrow> 'x stage_code)) list" where
  "create_execution_handlers x remoteRetryMs delivery =
     [(ANALYZING, preparation_stage x remoteRetryMs (Some (analysis_stage x))),
      (READY, ready_stage x), (IMPLEMENTING, implementation_stage x), (TESTING, testing_stage x),
      (FIXING, fixing_stage x), (REVIEWING, review_stage x (delivery \<noteq> None))]
     @ or_else delivery []"

end
