(* ===== verification/StageContracts.thy ===== *)
theory StageContracts
  imports VerificationStages
begin

text \<open>
  What each stage may ask for. Every handler is a program whose accesses see arbitrary states; \<open>such\<close>
  bounds its outcome, and \<open>stage_contract\<close> is that bound for each state of the machine.
\<close>

section \<open>Outcomes\<close>

definition such :: "bool \<Rightarrow> (advance_outcome \<Rightarrow> bool) \<Rightarrow> stage_outcome \<Rightarrow> bool" where
  "such pause P o' = (case o' of
     Advance a \<Rightarrow> P a
   | PauseLimit p _ _ \<Rightarrow> pause \<and> p \<noteq> OPERATING_HOURS_ENDED
   | Wait _ _ _ \<Rightarrow> False
   | Interrupted \<Rightarrow> True)"

lemma such_simps [simp]:
  "such b P (Advance a) = P a" "such b P (PauseLimit p t m) = (b \<and> p \<noteq> OPERATING_HOURS_ENDED)"
  "such b P Interrupted" "\<not> such b P (Wait u m' e)"
  by (simp_all add: such_def)

lemma advance_simps [simp]:
  "adv_to (advance to r) = to" "adv_incrementCounter (advance to r) = None" "adv_reason (advance to r) = Some r"
  "adv_requiresManualIntervention (advance to r) = None" "adv_lastError (advance to r) = None"
  by (simp_all add: advance_def)

definition plain_block :: "advance_outcome \<Rightarrow> bool" where
  "plain_block a \<longleftrightarrow> adv_to a = BLOCKED \<and> adv_incrementCounter a = None"

lemma plain_advance [simp]: "plain_block (advance BLOCKED r)"
  by (simp add: plain_block_def)

lemma such_manual [simp]: "(\<And>a. plain_block a \<Longrightarrow> P a) \<Longrightarrow> such b P (manual_intervention m r)"
  by (simp add: manual_intervention_def plain_block_def)

lemma such_needs_operator [simp]: "(\<And>a. plain_block a \<Longrightarrow> P a) \<Longrightarrow> such b P (needs_operator m)"
  by (simp add: needs_operator_def)

section \<open>Rules for the pieces\<close>

lemma pause_such:
  "always (ok_is (\<lambda>s. case s of None \<Rightarrow> True | Some (c, o') \<Rightarrow> such True P o')) (pause_or_interruption x r)"
  unfolding pause_or_interruption_def by (auto intro!: always_bnd_any split: run_kind.split)

lemma unless_stopped_such:
  assumes "always (ok_is (such True P)) rest"
  shows "always (ok_is (such True P)) (unless_stopped x task attempt r cleanup rest)"
  unfolding unless_stopped_def
  by (rule always_bnd [OF pause_such [where P = P]]) (use assms in \<open>auto intro!: always_bnd_any split: option.split\<close>)

lemma read_only_such:
  assumes "\<And>a. plain_block a \<Longrightarrow> P a" and "\<And>out. always (ok_is (such True P)) (accept out)"
  shows "always (ok_is (such True P)) (after_read_only_run x task attempt loaded before n title r accept)"
  unfolding after_read_only_run_def
  using assms by (auto intro!: always_bnd_any unless_stopped_such split: option.split run_kind.split)

section \<open>The contracts\<close>

definition impl_tries :: "'x deps \<Rightarrow> task_row \<Rightarrow> advance_outcome \<Rightarrow> bool" where
  "impl_tries x task a = (adv_incrementCounter a = Some ImplementationAttempts
     \<and> t_implementationAttempts task < max_attempts x)"

definition stage_contract :: "'x deps \<Rightarrow> bool \<Rightarrow> task_row \<Rightarrow> task_state \<Rightarrow> advance_outcome \<Rightarrow> bool" where
  "stage_contract x deliver task st a =
     (let to = adv_to a; inc = adv_incrementCounter a in
      plain_block a
      \<or> (case st of
           ANALYZING \<Rightarrow> to = READY \<and> inc = None
         | READY \<Rightarrow> to = IMPLEMENTING \<and> inc = None
         | IMPLEMENTING \<Rightarrow>
             to = TESTING \<and> (impl_tries x task a \<or> adv_reason a = Some ''Committed implementation reused''
                \<and> inc \<in> {None, Some ImplementationAttempts})
             \<or> to = READY \<and> impl_tries x task a \<and> t_implementationAttempts task + 1 < max_attempts x
             \<or> to = FAILED \<and> (inc = None \<or> impl_tries x task a)
         | TESTING \<Rightarrow> to = REVIEWING \<and> inc = None
             \<or> to = FIXING \<and> inc = Some QualityFixAttempts
                \<and> t_qualityFixAttempts task < lm_maxQualityFixAttempts (c_limits (xd_config x))
             \<or> to = FAILED \<and> inc = None \<and> lm_maxQualityFixAttempts (c_limits (xd_config x)) \<le> t_qualityFixAttempts task
         | FIXING \<Rightarrow> to = TESTING \<and> inc = None
         | REVIEWING \<Rightarrow> to = PR_CREATED \<and> inc = None \<and> deliver
             \<or> to = FIXING \<and> inc = Some ReviewAttempts \<and> t_reviewAttempts task < lm_maxReviewCycles (c_limits (xd_config x))
             \<or> to = FAILED \<and> inc = None \<and> lm_maxReviewCycles (c_limits (xd_config x)) \<le> t_reviewAttempts task
         | _ \<Rightarrow> False))"

lemma contract_block [simp]: "plain_block a \<Longrightarrow> stage_contract x deliver task st a"
  by (simp add: stage_contract_def)

lemmas contract_simps = stage_contract_def Let_def impl_tries_def

lemma ready_contract:
  "always (ok_is (such False (stage_contract x deliver task READY))) (ready_stage x task)"
  unfolding ready_stage_def
  by (auto simp: contract_simps setup_unit_def Let_def
      intro!: always_bnd_any always_loop [where I = "\<lambda>_. True"] split: if_splits)

lemma analysis_contract:
  "always (ok_is (such True (stage_contract x deliver task ANALYZING))) (analysis_stage x task)"
  unfolding analysis_stage_def
  by (auto simp: contract_simps analysis_verdict_def Let_def intro!: always_bnd_any read_only_such)

lemma preparation_contract:
  "always (ok_is (such True (stage_contract x deliver task ANALYZING)))
     (preparation_stage x remoteRetryMs (Some (analysis_stage x)) task)"
proof -
  have unit: "always (ok_is (\<lambda>o'. case o' of Inl r \<Rightarrow> such True (stage_contract x deliver task ANALYZING) r | Inr s \<Rightarrow> True))
      (prepare_unit x remoteRetryMs task b u ps)" for b u ps
    unfolding prepare_unit_def by (auto intro!: always_bnd_any always_attempt split: sum.split orch_error.split)
  show ?thesis unfolding preparation_stage_def
    by (auto simp: Let_def analysis_contract
        intro!: always_bnd_any always_loop [where I = "\<lambda>_. True"] unit split: option.split)
qed

lemma implementation_model_bound:
  "implementation_model x complexity attempt = Inr (Some m) \<Longrightarrow> attempt \<le> max_attempts x"
  by (simp add: implementation_model_def split: if_splits)

lemma reject_contract:
  assumes "t_implementationAttempts task < max_attempts x"
  shows "always (ok_is (such b (stage_contract x deliver task IMPLEMENTING)))
     (reject_implementation x task loaded scope (t_implementationAttempts task + 1) category detail usage evidence)"
  unfolding reject_implementation_def using assms by (auto simp: contract_simps intro!: always_bnd_any)

lemma apply_implementation_contract:
  assumes "t_implementationAttempts task < max_attempts x"
  shows "always (ok_is (such b (stage_contract x deliver task IMPLEMENTING)))
     (apply_implementation x task loaded plan scope (t_implementationAttempts task + 1) usage out)"
  unfolding apply_implementation_def using assms
  by (auto simp: contract_simps intro!: always_bnd_any reject_contract split: change_application.split)

lemma implement_contract:
  assumes "t_implementationAttempts task < max_attempts x"
  shows "always (ok_is (such True (stage_contract x deliver task IMPLEMENTING)))
     (implement x task loaded plan (t_implementationAttempts task + 1) model)"
  unfolding implement_def after_implementer_def Let_def using assms
  by (auto intro!: always_bnd_any unless_stopped_such apply_implementation_contract reject_contract
      split: run_kind.split option.split)

lemma reuse_contract:
  "always (ok_is (such b (stage_contract x deliver task IMPLEMENTING))) (reuse_implementation x task loaded n commits)"
  unfolding reuse_implementation_def Let_def
  by (auto simp: contract_simps intro!: always_loop [where I = "\<lambda>_. True"] always_bnd_any split: option.split)

lemma implementation_contract:
  "always (ok_is (such True (stage_contract x deliver task IMPLEMENTING))) (implementation_stage x task)"
proof -
  have m: "always (ok_is (such True (stage_contract x deliver task IMPLEMENTING)))
      (bnd (lift_result (implementation_model x c (t_implementationAttempts task + 1))) (\<lambda>model. case model of
           None \<Rightarrow> return (Advance ((advance FAILED ''Implementation attempts exhausted'') \<lparr>adv_lastError := e\<rparr>))
         | Some m \<Rightarrow> implement x task loaded plan (t_implementationAttempts task + 1) m))" for c e loaded plan
  proof (rule always_bnd [where Q = "\<lambda>m. m \<noteq> None \<longrightarrow> t_implementationAttempts task < max_attempts x"])
    show "always (ok_is (\<lambda>m. m \<noteq> None \<longrightarrow> t_implementationAttempts task < max_attempts x))
        (lift_result (implementation_model x c (t_implementationAttempts task + 1)))"
      using implementation_model_bound [of x c "t_implementationAttempts task + 1"]
      by (auto simp: ok_is_def split: sum.split)
  qed (auto simp: contract_simps intro!: implement_contract split: option.split)
  show ?thesis unfolding implementation_stage_def Let_def
    by (auto intro!: always_bnd_any reuse_contract m split: option.split)
qed

lemma fixing_contract:
  "always (ok_is (such True (stage_contract x deliver task FIXING))) (fixing_stage x task)"
  unfolding fixing_stage_def fix_changes_def after_fixer_def apply_fix_def Let_def
  by (auto simp: contract_simps intro!: always_bnd_any unless_stopped_such
      split: option.split run_kind.split change_application.split)

lemma testing_contract:
  "always (ok_is (such False (stage_contract x deliver task TESTING))) (testing_stage x task)"
  unfolding testing_stage_def judge_reports_def test_unit_def Let_def
  by (auto simp: contract_simps intro!: always_bnd_any always_loop [where I = "\<lambda>_. True"] split: option.split)

lemma review_contract:
  "always (ok_is (such True (stage_contract x deliver task REVIEWING))) (review_stage x deliver task)"
  unfolding review_stage_def review_verdict_def accepted_outcome_def Let_def
  by (auto simp: contract_simps intro!: always_bnd_any read_only_such split: verdict.split)

text \<open>All handlers together.\<close>

lemma handlers_contract:
  assumes "(st, h) \<in> set (create_execution_handlers x remoteRetryMs delivery)" and "(st, h) \<notin> set (or_else delivery [])"
  shows "always (ok_is (such (st \<in> {ANALYZING, IMPLEMENTING, FIXING, REVIEWING})
     (stage_contract x (delivery \<noteq> None) task st))) (h task)"
  using assms unfolding create_execution_handlers_def
  by (auto simp: preparation_contract ready_contract implementation_contract testing_contract fixing_contract
      review_contract)

lemma contract_legal: "stage_contract x deliver task st a \<Longrightarrow> st \<in> {ANALYZING, READY, IMPLEMENTING, TESTING, FIXING, REVIEWING}
    \<Longrightarrow> can_transition st (adv_to a)"
  by (auto simp: contract_simps plain_block_def can_transition_iff)

end
