(* ===== verification/StageEffects.thy ===== *)
theory StageEffects
  imports StageContracts Lifecycle
begin

text \<open>
  What the stages do to the database: every access is one operation of the repository or none, so
  whatever the operations keep, every stage and every run of a worker with these stages keeps; and which
  checkpoints a stage leaves, in the presence of other processes.
\<close>

section \<open>Calls outside\<close>

definition calls_keep :: "(database \<times> 'x \<Rightarrow> bool) \<Rightarrow> ('x, 'a) outside_call \<Rightarrow> bool" where
  "calls_keep J g \<longleftrightarrow> (\<forall>v d x. J (d, x) \<longrightarrow> J (d, snd (g v x)))"

lemma acts_outer: "calls_keep J g \<Longrightarrow> acts_keep J (outer g)"
  by (auto simp: outer_def outside_def call_def calls_keep_def)

lemma acts_clock [simp]: "acts_keep J clock_now"
  unfolding clock_now_def by (rule acts_bind) (auto simp: outside_def call_def)

lemma acts_signal [simp]: "acts_keep J abort_signal"
  unfolding abort_signal_def by (rule acts_bind) (auto simp: outside_def call_def)

lemma acts_read_checkpoint [simp]: "acts_keep J (read_checkpoint task key dec)"
  unfolding read_checkpoint_def by (intro acts_bnd) (simp_all split: option.split)

lemma any_call: "calls_keep (\<lambda>w. I (fst w)) g"
  by (simp add: calls_keep_def)

section \<open>Stages act through the repository\<close>

text \<open>
  What starting and ending an attempt keeps, and every call outside, the pieces of the stages keep; what
  every step of the repository keeps as well, the stages keep.
\<close>

locale attempt_calls =
  fixes J :: "database \<times> 'x \<Rightarrow> bool" and x :: "'x deps"
  assumes started: "J (d, y) \<Longrightarrow> start_attempt uid t i st w p d = Inr (n, d') \<Longrightarrow> J (d', y)"
    and completed: "J (d, y) \<Longrightarrow> complete_attempt t i st n v d = Inr d' \<Longrightarrow> J (d', y)"
    and processes: "J (d, y) \<Longrightarrow> J (d, snd (ho_process (xd_services x) q z y))"
    and git_calls: "calls_keep J (sx_prepare (xd_services x) job)" "calls_keep J (sx_verify (xd_services x) ws)"
      "calls_keep J (sx_restore (xd_services x) ws)" "calls_keep J (sx_commit (xd_services x) ws message)"
      "calls_keep J (sx_diffs (xd_services x) cwd)" "calls_keep J (sx_snapshot (xd_services x) cwd)"
      "calls_keep J (sx_isAncestor (xd_services x) cwd a b)" "calls_keep J (sx_stat (xd_services x) cwd a)"
      "calls_keep J (sx_diff (xd_services x) cwd a)"
    and agent_calls: "calls_keep J (sx_documentation (xd_services x) rs)" "calls_keep J (sx_analyze (xd_services x) rq)"
      "calls_keep J (sx_change (xd_services x) cwd rq)" "calls_keep J (sx_review (xd_services x) rq)"
begin

lemma begin_attempt_acts: "acts_keep J (begin_attempt x task input)"
  unfolding begin_attempt_def by (rule acts_db_call) (rule started)

lemma end_attempt_acts: "acts_keep J (end_attempt task n c r e u)"
  unfolding end_attempt_def by (rule acts_db_run) (rule completed)

lemmas outers = git_calls [THEN acts_outer] agent_calls [THEN acts_outer]

lemma quality_acts: "acts_keep J (run_quality g (xd_services x) repo path all)"
  unfolding run_quality_def
  by (rule acts_loop) (auto simp: run_command_def outside_def call_def processes intro!: acts_bind split: prod.split)

lemmas pieces = begin_attempt_acts end_attempt_acts outers acts_clock acts_signal acts_read_checkpoint
  acts_db_read quality_acts acts_lift acts_return acts_throw

lemma load_acts: "acts_keep J (load_task_workspaces x task)"
  unfolding load_task_workspaces_def load_unit_def
  by (auto simp: Let_def intro!: acts_bnd acts_for_each pieces split: option.split)

lemma restore_acts: "acts_keep J (restore_all x l)"
  unfolding restore_all_def by (intro acts_bnd acts_for_each pieces)

lemma snapshots_act: "acts_keep J (workspace_snapshots x l)"
  unfolding workspace_snapshots_def by (auto intro!: acts_bnd acts_for_each pieces split: prod.split)

lemma require_analysis_acts: "acts_keep J (require_analysis task)"
  unfolding require_analysis_def by (auto intro!: acts_bnd pieces split: option.split)

lemma pause_acts: "acts_keep J (pause_or_interruption x r)"
  unfolding pause_or_interruption_def by (auto intro!: acts_bnd pieces split: run_kind.split)

lemma unless_stopped_acts:
  "acts_keep J cleanup \<Longrightarrow> acts_keep J rest \<Longrightarrow> acts_keep J (unless_stopped x task n r cleanup rest)"
  unfolding unless_stopped_def by (auto intro!: acts_bnd pieces pause_acts split: option.split)

lemma diff_acts: "acts_keep J (diff_from_base x u n)"
  unfolding diff_from_base_def by (intro acts_bnd acts_attempt pieces)

lemmas larger = pieces load_acts restore_acts snapshots_act require_analysis_acts pause_acts unless_stopped_acts diff_acts

lemma read_only_acts: "(\<And>out. acts_keep J (accept out)) \<Longrightarrow> acts_keep J (after_read_only_run x task n l b nm t r accept)"
  unfolding after_read_only_run_def by (auto intro!: acts_bnd larger split: option.split run_kind.split)

end

locale stage_calls = attempt_calls J x for J :: "database \<times> 'x \<Rightarrow> bool" and x :: "'x deps" +
  assumes step: "J (d, y) \<Longrightarrow> repository_step d d' \<Longrightarrow> J (d', y)"
begin

lemma checkpoint_acts: "acts_keep J (checkpoint task key payload)"
  unfolding checkpoint_def by (rule acts_db_run) (blast intro: step bookkept checkpoint_recorded)

lemma record_workspace_acts: "acts_keep J (db_call (\<lambda>t. record_work_unit_workspace t i w v))"
  by (rule acts_db_call) (blast intro: step bookkept workspace_recorded)

lemma record_model_acts: "acts_keep J (db_call (\<lambda>t. record_model_selection t i w a b c))"
  by (rule acts_db_call) (blast intro: step model_recorded)

lemmas all_pieces = larger checkpoint_acts record_workspace_acts record_model_acts

lemma analysis_acts: "acts_keep J (analysis_stage x task)"
  unfolding analysis_stage_def analysis_verdict_def
  by (auto simp: Let_def intro!: acts_bnd all_pieces read_only_acts)

lemma preparation_acts:
  assumes "\<And>s. next_stage = Some s \<Longrightarrow> acts_keep J (s task)"
  shows "acts_keep J (preparation_stage x ms next_stage task)"
  unfolding preparation_stage_def prepare_unit_def using assms
  by (auto simp: Let_def intro!: acts_bnd acts_loop acts_attempt all_pieces split: option.split sum.split orch_error.split)

lemma ready_acts: "acts_keep J (ready_stage x task)"
  unfolding ready_stage_def setup_unit_def by (auto simp: Let_def intro!: acts_bnd acts_loop all_pieces)

lemma inspect_acts: "acts_keep J (inspect_and_commit x l req planned message)"
  unfolding inspect_and_commit_def verify_agent_left_git_state_def collect_unit_def commit_unit_def
  by (auto simp: Let_def intro!: acts_bnd acts_loop acts_attempt acts_for_each all_pieces
      split: option.split prod.split sum.split orch_error.split)

lemma reject_acts: "acts_keep J (reject_implementation x task l sc n c detail u ev)"
  unfolding reject_implementation_def by (auto intro!: acts_bnd all_pieces)

lemma implement_acts: "acts_keep J (implement x task l plan n m)"
  unfolding implement_def after_implementer_def apply_implementation_def
  by (auto simp: Let_def intro!: acts_bnd all_pieces inspect_acts reject_acts
      split: option.split run_kind.split change_application.split)

lemma implementation_acts: "acts_keep J (implementation_stage x task)"
  unfolding implementation_stage_def reuse_implementation_def
  by (auto simp: Let_def intro!: acts_bnd acts_loop all_pieces implement_acts split: option.split)

lemma fixing_acts: "acts_keep J (fixing_stage x task)"
  unfolding fixing_stage_def fix_changes_def after_fixer_def apply_fix_def
  by (auto simp: Let_def intro!: acts_bnd all_pieces inspect_acts split: option.split run_kind.split change_application.split)

lemma testing_acts: "acts_keep J (testing_stage x task)"
  unfolding testing_stage_def test_unit_def judge_reports_def
  by (auto simp: Let_def intro!: acts_bnd acts_loop all_pieces split: option.split)

lemma review_acts: "acts_keep J (review_stage x deliver task)"
  unfolding review_stage_def review_verdict_def
  by (auto simp: Let_def intro!: acts_bnd acts_for_each all_pieces read_only_acts split: option.split verdict.split)

lemma execution_handlers_act:
  assumes "\<And>st h task. (st, h) \<in> set (or_else delivery []) \<Longrightarrow> acts_keep J (h task)"
    and "(st, h) \<in> set (create_execution_handlers x ms delivery)"
  shows "acts_keep J (h task)"
  using assms unfolding create_execution_handlers_def
  by (auto intro!: preparation_acts analysis_acts ready_acts implementation_acts testing_acts fixing_acts review_acts)

end

text \<open>The databases that operations lead to.\<close>

definition reaches :: "database \<Rightarrow> database \<Rightarrow> bool" where
  "reaches d0 d = repository_step\<^sup>*\<^sup>* d0 d"

lemma reaches_step: "reaches d0 d \<Longrightarrow> repository_step d d' \<Longrightarrow> reaches d0 d'"
  by (simp add: reaches_def)

interpretation reach_steps: stage_calls "\<lambda>w. reaches d0 (fst w)" x for d0 x
  by unfold_locales (auto simp: any_call intro: reaches_step bookkept attempt_started attempt_completed)

lemma stage_handlers_keep:
  "(st, h) \<in> set (create_execution_handlers x ms None) \<Longrightarrow> code_keeps (reaches d0) (h task)"
  by (rule acts_code_keeps, rule reach_steps.execution_handlers_act [where delivery = None]) simp_all

interpretation reach_kept: kept_by_worker "reaches d0" tid for d0 tid
  by unfold_locales (blast intro: reaches_step transitioned released deferred renewed)+

section \<open>What a stage leaves in its checkpoints\<close>

definition checkpoints_are :: "task_id \<Rightarrow> (string \<Rightarrow> json option) \<Rightarrow> database \<Rightarrow> bool" where
  "checkpoints_are tid g d \<longleftrightarrow> (\<forall>k. get_checkpoint tid k d = g k)"

text \<open>Other processes leave the checkpoints of a task alone while its worker runs.\<close>

definition others_leave :: "task_id \<Rightarrow> database \<times> 'x \<Rightarrow> database \<times> 'x \<Rightarrow> bool" where
  "others_leave tid w w' \<longleftrightarrow> (\<forall>k. get_checkpoint tid k (fst w') = get_checkpoint tid k (fst w))"

lemma others_leaveD: "others_leave tid w w' \<Longrightarrow> checkpoints_are tid g (fst w) \<Longrightarrow> checkpoints_are tid g (fst w')"
  by (simp add: others_leave_def checkpoints_are_def)

lemma get_checkpoint_frame: "db_checkpoints d' = db_checkpoints d \<Longrightarrow> get_checkpoint i k d' = get_checkpoint i k d"
  by (simp add: get_checkpoint_def)

lemma start_attempt_checkpoints: "start_attempt uid t i st w p d = Inr (n, d') \<Longrightarrow> db_checkpoints d' = db_checkpoints d"
  unfolding start_attempt_def by (auto split: if_splits option.splits)

lemma complete_attempt_checkpoints: "complete_attempt t i st n v d = Inr d' \<Longrightarrow> db_checkpoints d' = db_checkpoints d"
  unfolding complete_attempt_def by (auto split: if_splits)

interpretation kept_checkpoints: attempt_calls "\<lambda>w. checkpoints_are tid g (fst w)" x for tid g x
  by unfold_locales (rule any_call | simp add: checkpoints_are_def get_checkpoint_frame [OF start_attempt_checkpoints]
      get_checkpoint_frame [OF complete_attempt_checkpoints])+

lemma wp_keep:
  assumes "acts_keep (\<lambda>w. checkpoints_are tid g (fst w)) p" and "checkpoints_are tid g (fst w)"
    and "\<And>a w. checkpoints_are tid g (fst w) \<Longrightarrow> wp (others_leave tid) (f a) (on_ok Q) w"
  shows "wp (others_leave tid) (bnd p f) (on_ok Q) w"
proof (rule wp_bnd, rule wp_mono)
  show "wp (others_leave tid) p (\<lambda>_ w. checkpoints_are tid g (fst w)) w"
    by (rule wp_acts [OF assms(1) _ assms(2)]) (rule others_leaveD)
qed (use assms(3) in \<open>auto simp: on_ok_def split: sum.split\<close>)

lemma wp_read:
  assumes "checkpoints_are (t_id task) g (fst w)"
    and "\<And>w. checkpoints_are (t_id task) g (fst w) \<Longrightarrow> wp (others_leave (t_id task)) (f (Option.bind (g key) dec)) (on_ok Q) w"
  shows "wp (others_leave (t_id task)) (bnd (read_checkpoint task key dec) f) (on_ok Q) w"
  unfolding read_checkpoint_def
proof (rule wp_bnd, rule wp_bnd, rule wp_db_read)
  fix d x assume "others_leave (t_id task) w (d, x)"
  then have c: "checkpoints_are (t_id task) g d" using others_leaveD [OF _ assms(1)] by fastforce
  then have g: "get_checkpoint (t_id task) key d = g key" by (simp add: checkpoints_are_def)
  show "wp (others_leave (t_id task)) (case get_checkpoint (t_id task) key d of None \<Rightarrow> return None
      | Some j \<Rightarrow> (case dec j of
           None \<Rightarrow> throw (WorkspaceBlockedError (''Checkpoint '' @ key @ '' is malformed; manual recovery required''))
         | Some a \<Rightarrow> return (Some a))) (on_ok (\<lambda>a. wp (others_leave (t_id task)) (f a) (on_ok Q))) (d, x)"
    using assms(2) [of "(d, x)"] c unfolding g by (auto split: option.split)
qed

lemma wp_checkpoint:
  assumes "checkpoints_are (t_id task) g (fst w)"
    and "\<And>w. checkpoints_are (t_id task) (g(key := Some payload)) (fst w) \<Longrightarrow> wp (others_leave (t_id task)) (f ()) (on_ok Q) w"
  shows "wp (others_leave (t_id task)) (bnd (checkpoint task key payload) f) (on_ok Q) w"
  unfolding checkpoint_def
proof (rule wp_bnd, rule wp_db_run)
  fix v d x d' assume "others_leave (t_id task) w (d, x)"
    and r: "record_checkpoint (sv_now v) (t_id task) (t_state task) key payload d = Inr d'"
  then have "checkpoints_are (t_id task) g d" using others_leaveD [OF _ assms(1)] by fastforce
  then have "checkpoints_are (t_id task) (g(key := Some payload)) d'"
    using get_after_record_checkpoint [OF r] by (simp add: checkpoints_are_def)
  then show "wp (others_leave (t_id task)) (f ()) (on_ok Q) (d', x)" using assms(2) [of "(d', x)"] by simp
qed

section \<open>An approval covers tested commits\<close>

lemma dec_enc_heads [simp]: "dec_heads (enc_heads h) = Some h"
proof -
  have "all_some (map (\<lambda>(k, v). map_option (Pair k) (dec_string v)) (map (\<lambda>e. (fst e, JStr (snd e))) h)) = Some h"
    by (induction h) (auto simp: dec_string_def)
  then show ?thesis by (simp add: dec_heads_def enc_heads_def string_record_def open_object_def)
qed

definition delivers :: "stage_outcome \<Rightarrow> bool" where
  "delivers o' = (case o' of Advance a \<Rightarrow> adv_to a = PR_CREATED | _ \<Rightarrow> False)"

text \<open>
  The approval on record names commits that passed the quality gates, or it was there before with the
  checkpoints \<open>g\<close>.
\<close>

definition approved_tested :: "'x deps \<Rightarrow> task_id \<Rightarrow> (string \<Rightarrow> json option) \<Rightarrow> database \<Rightarrow> bool" where
  "approved_tested x tid g d \<longleftrightarrow> (\<exists>h n summary. Option.bind (get_checkpoint tid review_key d) dec_review_approved = Some (h, n, summary)
     \<and> (get_checkpoint tid review_key d = g review_key
        \<or> (\<exists>h' n'. Option.bind (get_checkpoint tid quality_key d) dec_quality_passed = Some (h', n') \<and> same_heads x h' h)))"

lemma delivers_simps [simp]:
  "\<not> delivers Interrupted" "\<not> delivers (PauseLimit p t m)" "\<not> delivers (manual_intervention m' r)"
  "\<not> delivers (needs_operator m')" "delivers (Advance a) = (adv_to a = PR_CREATED)"
  by (simp_all add: delivers_def manual_intervention_def needs_operator_def)

definition only_tested :: "'x deps \<Rightarrow> task_id \<Rightarrow> (string \<Rightarrow> json option) \<Rightarrow> stage_outcome \<Rightarrow> database \<times> 'x \<Rightarrow> bool" where
  "only_tested x tid g o' w \<longleftrightarrow> (delivers o' \<longrightarrow> approved_tested x tid g (fst w))"

lemma wp_no_delivery:
  assumes "always (ok_is (\<lambda>o'. \<not> delivers o')) p"
  shows "wp R p (on_ok (only_tested x tid g)) w"
  by (rule wp_mono [OF wp_always [OF assms]]) (auto simp: only_tested_def on_ok_def ok_is_def split: sum.split)

lemma unless_stopped_wp:
  assumes "checkpoints_are (t_id task) g (fst w)" and "acts_keep (\<lambda>w. checkpoints_are (t_id task) g (fst w)) cleanup"
    and "\<And>w. checkpoints_are (t_id task) g (fst w) \<Longrightarrow> wp (others_leave (t_id task)) rest (on_ok (only_tested x tid h)) w"
  shows "wp (others_leave (t_id task)) (unless_stopped x' task n r cleanup rest) (on_ok (only_tested x tid h)) w"
proof -
  have p: "always (ok_is (\<lambda>s. case s of None \<Rightarrow> True | Some (c, o') \<Rightarrow> \<not> delivers o')) (pause_or_interruption x' r)"
    unfolding pause_or_interruption_def by (auto intro!: always_bnd_any split: run_kind.split)
  show ?thesis unfolding unless_stopped_def
  proof (rule wp_bnd, rule wp_mono [OF wp_conj [OF wp_always [OF p] wp_acts [OF kept_checkpoints.pause_acts _ assms(1)]]])
    fix a :: "orch_error + (failure_category \<times> stage_outcome) option" and w :: "database \<times> 'a"
    assume a: "ok_is (\<lambda>s. case s of None \<Rightarrow> True | Some (c, o') \<Rightarrow> \<not> delivers o') a \<and> checkpoints_are (t_id task) g (fst w)"
    show "on_ok (\<lambda>stopped. wp (others_leave (t_id task)) (case stopped of
         Some (category, outcome) \<Rightarrow>
           bnd (if category = CatCancelled then cleanup else return False) (\<lambda>_.
           bnd (end_attempt task n (Some category) None None (rz_usage r)) (\<lambda>_. return outcome))
       | None \<Rightarrow> rest) (on_ok (only_tested x tid h))) a w"
      using a assms(3) by (auto simp: on_ok_def intro!: wp_no_delivery always_bnd_any split: sum.split option.split)
  qed (rule others_leaveD)
qed

lemma read_only_wp:
  assumes "checkpoints_are (t_id task) g (fst w)"
    and "\<And>out w. checkpoints_are (t_id task) g (fst w) \<Longrightarrow> wp (others_leave (t_id task)) (accept out) (on_ok (only_tested x tid h)) w"
  shows "wp (others_leave (t_id task)) (after_read_only_run x' task n l b nm t r accept) (on_ok (only_tested x tid h)) w"
  unfolding after_read_only_run_def
proof (rule wp_keep [OF kept_checkpoints.snapshots_act assms(1)])
  let ?rest = "case rz_kind r of
         RunCompleted out \<Rightarrow> accept out
       | k \<Rightarrow> (case run_failure k of
           Some (category, kind, message) \<Rightarrow>
             bnd (end_attempt task n (Some category) None (Some (JObj [(''message'', JStr message)])) (rz_usage r)) (\<lambda>_.
             return (needs_operator (t @ '' '' @ kind @ '': '' @ message)))
         | None \<Rightarrow> return (needs_operator t))"
  have rest: "wp (others_leave (t_id task)) ?rest (on_ok (only_tested x tid h)) w" if "checkpoints_are (t_id task) g (fst w)" for w
  proof (cases "\<exists>out. rz_kind r = RunCompleted out")
    case True
    then show ?thesis using assms(2) [OF that] by auto
  next
    case False
    then show ?thesis
      by (intro wp_no_delivery) (auto intro!: always_bnd_any split: run_kind.split option.split)
  qed
  fix now and w :: "database \<times> 'a" assume w: "checkpoints_are (t_id task) g (fst w)"
  show "wp (others_leave (t_id task)) (if now \<noteq> b then
       bnd (end_attempt task n (Some CatWorkspaceIntegrity) None None (rz_usage r)) (\<lambda>_.
       return (needs_operator (''The read-only '' @ nm @ '' changed a workspace; inspect the worktrees before retrying'')))
     else unless_stopped x' task n r (return False) ?rest) (on_ok (only_tested x tid h)) w"
  proof (cases "now = b")
    case True
    then show ?thesis using unless_stopped_wp [OF w acts_return rest] by simp
  next
    case False
    have "wp (others_leave (t_id task)) (bnd (end_attempt task n (Some CatWorkspaceIntegrity) None None (rz_usage r)) (\<lambda>_.
       return (needs_operator (''The read-only '' @ nm @ '' changed a workspace; inspect the worktrees before retrying''))))
       (on_ok (only_tested x tid h)) w"
      by (intro wp_no_delivery always_bnd_any) simp
    then show ?thesis using False by simp
  qed
qed

lemma review_verdict_wp:
  assumes "checkpoints_are (t_id task) g (fst w)"
    and "Option.bind (g quality_key) dec_quality_passed = Some (h, n)" "same_heads x h (lw_heads loaded)"
  shows "wp (others_leave (t_id task)) (review_verdict x deliver task attempt loaded usage out)
     (on_ok (only_tested x (t_id task) g)) w"
proof -
  let ?j = "JObj [(''heads'', enc_heads (lw_heads loaded)), (''attempt'', JNum attempt), (''summary'', JStr (rw_summary out))]"
  have dec: "dec_review_approved ?j = Some (lw_heads loaded, attempt, rw_summary out)"
    by (simp add: dec_review_approved_def open_object_def field_def dec_int_def dec_string_def)
  have approved: "only_tested x (t_id task) g o' w'"
    if "checkpoints_are (t_id task) (g(review_key := Some ?j)) (fst w')" for o' and w' :: "database \<times> 'a"
  proof -
    have "quality_key \<noteq> review_key" by (simp add: quality_key_def review_key_def)
    with that have "get_checkpoint (t_id task) review_key (fst w') = Some ?j"
      and "get_checkpoint (t_id task) quality_key (fst w') = g quality_key" by (simp_all add: checkpoints_are_def)
    with dec assms(2,3) show ?thesis by (auto simp: only_tested_def approved_tested_def)
  qed
  show ?thesis
  proof (cases "review_problems out (pi_repositories (lw_contract loaded)) = [] \<and> effective_verdict out = Approve")
    case True
    have "wp (others_leave (t_id task)) (bnd (checkpoint task review_key ?j) (\<lambda>_.
        bnd (end_attempt task attempt None (Some (enc_review out)) (Some (verdict_evidence out)) usage) (\<lambda>_.
        return (accepted_outcome deliver)))) (on_ok (only_tested x (t_id task) g)) w"
      by (rule wp_checkpoint [OF assms(1)], rule wp_keep [OF kept_checkpoints.end_attempt_acts])
        (assumption, simp only: wp_return, erule approved)
    then show ?thesis using True by (simp add: review_verdict_def Let_def)
  next
    case False
    then show ?thesis unfolding review_verdict_def Let_def
      by (intro wp_no_delivery) (auto intro!: always_bnd_any split: verdict.split)
  qed
qed

lemma review_stage_wp:
  assumes "checkpoints_are (t_id task) g (fst w)"
  shows "wp (others_leave (t_id task)) (review_stage x deliver task) (on_ok (only_tested x (t_id task) g)) w"
proof -
  have known: "only_tested x (t_id task) g o' w'"
    if "checkpoints_are (t_id task) g (fst w')" "Option.bind (g review_key) dec_review_approved = Some (h, n)"
    for o' and w' :: "database \<times> 'a" and h n
    using that by (cases n) (auto simp: only_tested_def approved_tested_def checkpoints_are_def)
  show ?thesis unfolding review_stage_def
  proof (rule wp_keep [OF kept_checkpoints.load_acts assms], rule wp_read, assumption)
    fix loaded :: loaded_workspaces and w :: "database \<times> 'a" assume c: "checkpoints_are (t_id task) g (fst w)"
    let ?passed = "Option.bind (g quality_key) dec_quality_passed"
    let ?same = "\<lambda>c. case c of None \<Rightarrow> False | Some (h, _) \<Rightarrow> same_heads x h (lw_heads loaded)"
    let ?review = "bnd (require_analysis task) (\<lambda>plan.
       bnd (for_each (\<lambda>u. diff_from_base x u (ag_maxReviewDiffBytes (xd_agents x))) (lw_units loaded)) (\<lambda>diffs.
       let prompt = build_review_prompt (lw_contract loaded) (lw_prompt loaded) plan diffs in
       bnd (lift_result (role_model (xd_config x) Reviewer (mc_reviewer (c_models (xd_config x))))) (\<lambda>model.
       bnd (begin_attempt x task (prompt_input x prompt @ [(''model'', model_input model), (''heads'', enc_heads (lw_heads loaded)),
              (''diffs'', JArr (map (\<lambda>d. JObj [(''repository'', JStr (rd_repository d)), (''truncated'', JBool (rd_truncated d))])
                 diffs))])) (\<lambda>attempt.
       bnd (workspace_snapshots x loaded) (\<lambda>before.
       bnd (outer (sx_review (xd_services x) \<lparr>rq_role = Reviewer, rq_model = model, rq_prompt = prompt,
              rq_taskDirectory = lw_taskDirectory loaded, rq_access = ReadOnly,
              rq_timeoutMs = tm_review (timeouts x) * 60000\<rparr>)) (\<lambda>r.
       after_read_only_run x task attempt loaded before ''reviewer'' ''Review'' r
         (review_verdict x deliver task attempt loaded (rz_usage r))))))))"
    have review: "wp (others_leave (t_id task)) ?review (on_ok (only_tested x (t_id task) g)) w"
      if same: "?same ?passed" and w: "checkpoints_are (t_id task) g (fst w)" for w
    proof -
      obtain h n where q: "?passed = Some (h, n)" "same_heads x h (lw_heads loaded)"
        using same by (auto split: option.splits)
      note verdict = review_verdict_wp [where g = g and task = task, OF _ q]
      show ?thesis unfolding Let_def
        by (intro wp_keep [where g = g] kept_checkpoints.larger acts_for_each w read_only_wp verdict) assumption+
    qed
    show "wp (others_leave (t_id task)) (if ?same (Option.bind (g review_key) dec_review_approved) then return (accepted_outcome deliver)
       else bnd (read_checkpoint task quality_key dec_quality_passed) (\<lambda>passed.
         if \<not> ?same passed then return (needs_operator ''Review requires passing quality gates for the current commits'')
         else ?review)) (on_ok (only_tested x (t_id task) g)) w"
    proof (cases "?same (Option.bind (g review_key) dec_review_approved)")
      case True
      then show ?thesis using known [OF c] by (auto split: option.splits)
    next
      case False
      have "wp (others_leave (t_id task)) (bnd (read_checkpoint task quality_key dec_quality_passed) (\<lambda>passed.
         if \<not> ?same passed then return (needs_operator ''Review requires passing quality gates for the current commits'')
         else ?review)) (on_ok (only_tested x (t_id task) g)) w"
      proof (rule wp_read [OF c])
        fix w :: "database \<times> 'a" assume w: "checkpoints_are (t_id task) g (fst w)"
        show "wp (others_leave (t_id task)) (if \<not> ?same ?passed
            then return (needs_operator ''Review requires passing quality gates for the current commits'')
            else ?review) (on_ok (only_tested x (t_id task) g)) w"
          using review [OF _ w] by (cases "?same ?passed") (simp_all add: only_tested_def)
      qed
      then show ?thesis using False by simp
    qed
  qed
qed

end
