(* ===== verification/StageSamples.thy ===== *)
theory StageSamples
  imports StageEffects IntakeGuarantees RunGuarantees
begin

text \<open>
  A concrete set of dependencies, a task and a database at which the properties of the stages are
  applied. They model no code.
\<close>

definition staged_id :: task_id where
  "staged_id = ''0123abcd-0000-0000-0000-000000000000''"

definition staged_task :: "task_state \<Rightarrow> task_row" where
  "staged_task st = (sample_task st (Some ''w''))\<lparr>t_id := staged_id, t_contractSnapshot := enc_issue (sample_issue ''a'' [] [])\<rparr>"

definition staged_unit :: work_unit_row where
  "staged_unit = (new_work_unit ''u1'' staged_id 0 (''web'', None))
     \<lparr>wu_workspacePath := Some ''/w/web'', wu_branch := Some ''b'', wu_baseCommit := Some ''c0''\<rparr>"

definition saved :: "task_state \<Rightarrow> string \<Rightarrow> json \<Rightarrow> checkpoint_row" where
  "saved st key payload = \<lparr>cp_taskId = staged_id, cp_stage = st, cp_checkpointKey = key, cp_payload = payload, cp_completedAt = 0\<rparr>"

definition path_to :: "task_state \<Rightarrow> task_state list" where
  "path_to st = takeWhile (\<lambda>s. s \<noteq> st) [QUEUED, ANALYZING, READY, IMPLEMENTING, TESTING, REVIEWING] @ [st]"

definition staged_store :: "task_state \<Rightarrow> checkpoint_row list \<Rightarrow> database" where
  "staged_store st cs = empty_database\<lparr>db_tasks := [staged_task st], db_workUnits := [staged_unit], db_checkpoints := cs,
     db_transitions := map (\<lambda>r. r\<lparr>st_taskId := staged_id\<rparr>) (sample_history (path_to st))\<rparr>"

definition finished_with :: "int \<Rightarrow> process_result" where
  "finished_with code = \<lparr>pz_outcome = Exited, pz_exitCode = Some code, pz_spawnError = None, pz_stdoutTail = [], pz_stderrTail = [],
     pz_durationMs = 1\<rparr>"

definition staged_services :: "int \<Rightarrow> unit services" where
  "staged_services code = \<lparr>ho_exists = (\<lambda>_ _. False), ho_link = (\<lambda>_ _. None), ho_process = (\<lambda>_ _ x. (finished_with code, x)),
     sx_prepare = (\<lambda>i _ x. (Inl (RemoteUnavailableError ''down''), x)), sx_verify = (\<lambda>w _ x. (Inr ''c1'', x)),
     sx_restore = (\<lambda>w _ x. (Inr False, x)), sx_commit = (\<lambda>w m _ x. (Inr ''c2'', x)),
     sx_diffs = (\<lambda>p _ x. (Inr ([], [], []), x)), sx_snapshot = (\<lambda>p _ x. (Inr (''c1'', []), x)),
     sx_isAncestor = (\<lambda>p a b _ x. (Inr True, x)), sx_stat = (\<lambda>p c _ x. (Inr [], x)), sx_diff = (\<lambda>p c _ x. (Inr [], x)),
     sx_documentation = (\<lambda>rs _ x. (Inr [], x)),
     sx_analyze = (\<lambda>q _ x. (Inr \<lparr>rz_kind = RunUsageLimit ''limit'' None, rz_usage = None, rz_durationMs = 1\<rparr>, x)),
     sx_change = (\<lambda>v q _ x. (Inr \<lparr>rz_kind = RunUsageLimit ''limit'' None, rz_usage = None, rz_durationMs = 1\<rparr>, x)),
     sx_review = (\<lambda>q _ x. (Inr \<lparr>rz_kind = RunUsageLimit ''limit'' None, rz_usage = None, rz_durationMs = 1\<rparr>, x)),
     sx_sha256 = (\<lambda>s. take 8 s), sx_newId = (\<lambda>d. ''a1''), sx_localeLe = (\<le>), sx_datetime = (\<lambda>_. True), sx_zodMessage = (\<lambda>_. [])\<rparr>"

definition staged_quality :: quality_config where
  "staged_quality = \<lparr>ql_setup = [], ql_checks = [\<lparr>qc_name = ''test'', qc_command = [''make'', ''test''], qc_timeoutSeconds = 900,
     qc_network = None\<rparr>], ql_environment = [], ql_documentation = []\<rparr>"

definition staged_deps :: "int \<Rightarrow> unit deps" where
  "staged_deps code = \<lparr>xd_config = sample_config,
     xd_agents = (case c_agents sample_config of Some a \<Rightarrow> a),
     xd_gates = \<lparr>go_quality = (\<lambda>_. staged_quality), go_sourceEnvironment = [(''PATH'', ''/bin'')], go_knownSecrets = [],
       go_sandbox = c_sandbox sample_config, go_readOnlyPaths = (\<lambda>_. [])\<rparr>,
     xd_workspaceRoot = ''/w'', xd_workerId = ''w'', xd_knownSecrets = [], xd_services = staged_services code\<rparr>"

definition staged_worker :: "int \<Rightarrow> unit worker_options" where
  "staged_worker code = sample_worker\<lparr>wo_handlers := create_execution_handlers (staged_deps code) 1000 None\<rparr>"

section \<open>Running a program where nothing else happens\<close>

definition idle :: "nat \<Rightarrow> interference" where
  "idle n = \<lparr>if_db = (\<lambda>d. d), if_now = 0, if_beat = False, if_refresh = False, if_stopping = False\<rparr>"

lemma idle_keeps: "others_keep I idle"
  by (simp add: others_keep_def idle_def)

definition tick_to :: "nat \<Rightarrow> database \<Rightarrow> unit run_state" where
  "tick_to n d = (fresh_run d)\<lparr>rn_at := n\<rparr>"

lemma arrive_idle [simp]: "arrive o' idle tid (tick_to n d) = tick_to (Suc n) d"
  by (simp add: arrive_def idle_def tick_to_def fresh_run_def Let_def)

lemma tick_to_simps [simp]: "rn_db (tick_to n d) = d" "rn_ext (tick_to n d) = ()" "rn_now (tick_to n d) = 0"
  "rn_signal (tick_to n d) = None" "(tick_to n d)\<lparr>rn_db := d', rn_ext := u\<rparr> = tick_to n d'"
  by (simp_all add: tick_to_def fresh_run_def)

lemma run_bind_code:
  "run_stage o' env tid (bind_code p f) s = (case run_stage o' env tid p s of (a, s') \<Rightarrow> run_stage o' env tid (f a) s')"
  by (induction p arbitrary: s rule: code_induct) (simp_all add: Let_def)

named_theorems runs

lemma run_return [runs]: "run_stage o' env tid (return a) s = (Inr a, s)"
  by (simp add: return_def)

lemma run_throw [runs]: "run_stage o' env tid (throw e) s = (Inl e, s)"
  by (simp add: throw_def)

lemma run_lift [runs]: "run_stage o' env tid (lift_result r) s = (r, s)"
  by (simp add: lift_result_def)

lemma run_bnd [runs]:
  "run_stage o' env tid (bnd p f) s = (case run_stage o' env tid p s of
     (Inl e, s') \<Rightarrow> (Inl e, s') | (Inr a, s') \<Rightarrow> run_stage o' env tid (f a) s')"
  by (simp add: bnd_def run_bind_code run_throw split: prod.split sum.split)

lemma run_call: "run_stage o' idle tid (call f) (tick_to n d) = (let r = f \<lparr>sv_signal = None, sv_now = 0\<rparr> (d, ()) in
    (fst r, tick_to (Suc n) (fst (snd r))))"
  by (simp add: call_def Let_def)

lemma run_db_call [runs]: "run_stage o' idle tid (db_call g) (tick_to n d) = (case g 0 d of
     Inl e \<Rightarrow> (Inl e, tick_to (Suc n) d) | Inr (a, d') \<Rightarrow> (Inr a, tick_to (Suc n) d'))"
  by (simp add: db_call_def run_call Let_def split: sum.split prod.split)

lemma run_db_run [runs]: "run_stage o' idle tid (db_run g) (tick_to n d) = (case g 0 d of
     Inl e \<Rightarrow> (Inl e, tick_to (Suc n) d) | Inr d' \<Rightarrow> (Inr (), tick_to (Suc n) d'))"
  by (simp add: db_run_def run_db_call split: sum.split)

lemma run_db_read [runs]: "run_stage o' idle tid (db_read g) (tick_to n d) = (Inr (g d), tick_to (Suc n) d)"
  by (simp add: db_read_def run_db_call)

lemma run_outside [runs]: "run_stage o' idle tid (outside g) (tick_to n d) = (fst (g \<lparr>sv_signal = None, sv_now = 0\<rparr> ()), tick_to (Suc n) d)"
  by (simp add: outside_def run_call Let_def)

lemma run_outer [runs]: "run_stage o' idle tid (outer g) (tick_to n d) = (fst (g \<lparr>sv_signal = None, sv_now = 0\<rparr> ()), tick_to (Suc n) d)"
  by (simp add: outer_def run_outside)

lemma run_read_checkpoint [runs]:
  "run_stage o' idle tid (read_checkpoint task key dec) (tick_to n d) =
     (case get_checkpoint (t_id task) key d of
        None \<Rightarrow> (Inr None, tick_to (Suc n) d)
      | Some j \<Rightarrow> (case dec j of
            None \<Rightarrow> (Inl (WorkspaceBlockedError (''Checkpoint '' @ key @ '' is malformed; manual recovery required'')), tick_to (Suc n) d)
          | Some a \<Rightarrow> (Inr (Some a), tick_to (Suc n) d)))"
  by (simp add: read_checkpoint_def runs split: option.split)

section \<open>Loading the worktree of the task\<close>

definition staged_loaded :: loaded_workspaces where
  "staged_loaded = (let w = \<lparr>tw_taskId = staged_id, tw_repository = ''web'', tw_workspacePath = ''/w/web'', tw_branch = ''b'',
       tw_baseCommit = ''c0''\<rparr>; u = \<lparr>lu_workspace = w, lu_head = ''c1''\<rparr> in
     \<lparr>lw_contract = sample_issue ''a'' [] [], lw_taskDirectory = ''/w/'' @ staged_id, lw_units = [u],
      lw_heads = [(''web'', ''c1'')], lw_prompt = [prompt_of u]\<rparr>)"

lemma staged_row: "t_id (staged_task st) = staged_id" "t_contractSnapshot (staged_task st) = enc_issue (sample_issue ''a'' [] [])"
  by (simp_all add: staged_task_def)

lemma staged_contract: "validate_planning_issue (staged_deps code) (enc_issue (sample_issue ''a'' [] [])) = Inr (sample_issue ''a'' [] [])"
proof -
  have "dec_issue (\<lambda>_. True) (enc_issue (sample_issue ''a'' [] [])) = Some (sample_issue ''a'' [] [])" by code_simp
  then show ?thesis by (simp add: validate_planning_issue_def staged_deps_def staged_services_def)
qed

lemma staged_units: "get_work_units staged_id (staged_store st cs) = [staged_unit]"
  by (simp add: get_work_units_def staged_store_def staged_unit_def new_work_unit_def)

lemma staged_directory: "task_directory (staged_deps code) staged_id = Inr (''/w/'' @ staged_id)"
proof -
  have "task_id_ok staged_id" by code_simp
  then show ?thesis by (simp add: task_directory_def staged_deps_def)
qed

lemma staged_load [runs]: "run_stage o' idle tid (load_task_workspaces (staged_deps code) (staged_task st)) (tick_to n (staged_store st' cs))
    = (Inr staged_loaded, tick_to (Suc (Suc n)) (staged_store st' cs))"
proof -
  have names: "wu_repository staged_unit = ''web''" "wu_workspacePath staged_unit = Some ''/w/web''" "wu_branch staged_unit = Some ''b''"
    "wu_baseCommit staged_unit = Some ''c0''" by (simp_all add: staged_unit_def new_work_unit_def)
  have verify: "sx_verify (xd_services (staged_deps code)) w = (\<lambda>_ x. (Inr ''c1'', x))" for w
    by (simp add: staged_deps_def staged_services_def)
  have repos: "pi_repositories (sample_issue ''a'' [] []) = [''web'']" by (simp add: sample_issue_def)
  show ?thesis
    by (simp add: load_task_workspaces_def runs staged_row staged_contract staged_units staged_directory repos names
        load_unit_def verify Let_def override_def staged_loaded_def lu_repository_def)
qed

lemma ready_moves_on: "run_stage o' idle staged_id (ready_stage (staged_deps 0) (staged_task READY)) (tick_to n (staged_store READY []))
    = (Inr (Advance (advance IMPLEMENTING ''Workspaces ready for implementation'')), tick_to (Suc (Suc (Suc n))) (staged_store READY []))"
proof -
  have "get_checkpoint staged_id setup_key (staged_store READY []) = None"
    by (simp add: get_checkpoint_def staged_store_def)
  moreover have "has_setup (xd_gates (staged_deps 0)) r = False" for r
    by (simp add: has_setup_def staged_deps_def staged_quality_def)
  ultimately show ?thesis by (simp add: ready_stage_def runs staged_row Let_def)
qed

text \<open>An approved branch, and a branch whose gate fails.\<close>

definition approval :: json where
  "approval = JObj [(''heads'', enc_heads [(''web'', ''c1'')]), (''attempt'', JNum 1), (''summary'', JStr ''fine'')]"

lemma approved_moves_on:
  "run_stage o' idle staged_id (review_stage (staged_deps 0) True (staged_task REVIEWING))
       (tick_to n (staged_store REVIEWING [saved REVIEWING review_key approval]))
     = (Inr (Advance (advance PR_CREATED ''Review accepted; delivering pull requests'')),
        tick_to (Suc (Suc (Suc n))) (staged_store REVIEWING [saved REVIEWING review_key approval]))"
proof -
  have "get_checkpoint staged_id review_key (staged_store REVIEWING [saved REVIEWING review_key approval]) = Some approval"
    by (simp add: get_checkpoint_def staged_store_def saved_def checkpoint_of_def)
  moreover have "dec_review_approved approval = Some ([(''web'', ''c1'')], 1, ''fine'')"
    by (simp add: approval_def dec_review_approved_def open_object_def field_def dec_int_def dec_string_def)
  moreover have "lw_heads staged_loaded = [(''web'', ''c1'')]" by (simp add: staged_loaded_def Let_def)
  ultimately show ?thesis by (simp add: review_stage_def runs staged_row same_heads_def accepted_outcome_def)
qed

lemma staged_attempt:
  obtains d where "start_attempt uid clk staged_id st ''w'' j (staged_store st cs) = Inr (1, d)" "db_tasks d = [staged_task st]"
    "list_ex (attempt_numbered staged_id st 1) (db_attempts d)" "db_checkpoints d = cs"
proof -
  have "leased_by staged_id ''w'' (staged_store st cs)"
    by (simp add: leased_by_def holds_lease_def staged_store_def staged_task_def sample_task_def)
  moreover have "latest_attempt staged_id st (staged_store st cs) = None"
    by (simp add: latest_attempt_def attempts_in_def staged_store_def empty_database_def first_least_None)
  ultimately have e: "\<exists>a. start_attempt uid clk staged_id st ''w'' j (staged_store st cs) = Inr (1, (staged_store st cs)\<lparr>db_attempts := [a]\<rparr>)
      \<and> attempt_numbered staged_id st 1 a"
    by (simp add: start_attempt_def staged_store_def empty_database_def attempt_numbered_def attempt_in_def)
  then obtain a where "start_attempt uid clk staged_id st ''w'' j (staged_store st cs) = Inr (1, (staged_store st cs)\<lparr>db_attempts := [a]\<rparr>)"
    and "attempt_numbered staged_id st 1 a" by blast
  then show thesis by (intro that [of "(staged_store st cs)\<lparr>db_attempts := [a]\<rparr>"]) (simp_all add: staged_store_def)
qed

lemma staged_restore [runs]: "run_stage o' idle tid (restore_all (staged_deps code) staged_loaded) (tick_to n d) = (Inr False, tick_to (Suc n) d)"
  by (simp add: restore_all_def staged_loaded_def Let_def runs staged_deps_def staged_services_def)

lemma staged_gates: "\<exists>q. run_stage o' idle tid (run_quality (xd_gates (staged_deps 1)) (xd_services (staged_deps 1)) r p True) (tick_to n d)
    = (Inr q, tick_to (Suc n) d) \<and> \<not> qr_passed q \<and> \<not> qr_aborted q \<and> qr_infrastructureError q = None"
  by (simp add: run_quality_def planned_commands_def staged_deps_def staged_quality_def runs run_command_def empty_report_def run_bind_code
      staged_services_def command_step_def finished_with_def result_of_def Let_def)

lemma failed_gates_request_fix:
  "\<exists>a s'. run_stage o' idle staged_id (testing_stage (staged_deps 1) (staged_task TESTING)) (tick_to n (staged_store TESTING []))
     = (Inr (Advance a), s') \<and> adv_to a = FIXING \<and> adv_incrementCounter a = Some QualityFixAttempts"
proof -
  let ?d = "staged_store TESTING []" and ?task = "staged_task TESTING"
  have c: "get_checkpoint staged_id quality_key ?d = None" by (simp add: get_checkpoint_def staged_store_def)
  have st: "t_state ?task = TESTING" "t_qualityFixAttempts ?task = 0" "xd_workerId (staged_deps 1) = ''w''"
    "lm_maxQualityFixAttempts (c_limits (xd_config (staged_deps 1))) = 3"
    by (simp_all add: staged_task_def sample_task_def staged_deps_def sample_config_def)
  obtain u where u: "lw_units staged_loaded = [u]" by (simp add: staged_loaded_def Let_def)
  obtain uid j where i: "begin_attempt (staged_deps 1) ?task [(''heads'', enc_heads (lw_heads staged_loaded))]
     = db_call (\<lambda>t. start_attempt uid t staged_id TESTING ''w'' j)"
    by (simp add: begin_attempt_def staged_row st staged_deps_def staged_services_def)
  obtain d where d: "start_attempt uid 0 staged_id TESTING ''w'' j ?d = Inr (1, d)" "db_tasks d = [?task]"
    "list_ex (attempt_numbered staged_id TESTING 1) (db_attempts d)" "db_checkpoints d = []" by (rule staged_attempt)
  obtain q where q: "run_stage o' idle staged_id (run_quality (xd_gates (staged_deps 1)) (xd_services (staged_deps 1)) (lu_repository u)
      (lu_path u) True) (tick_to (Suc (Suc (Suc (Suc (Suc n))))) d) = (Inr q, tick_to (Suc (Suc (Suc (Suc (Suc (Suc n)))))) d)"
    "\<not> qr_passed q" "\<not> qr_aborted q" "qr_infrastructureError q = None" using staged_gates by blast
  have judge: "\<exists>a s'. run_stage o' idle staged_id (judge_reports (staged_deps 1) ?task staged_loaded 1 [q]) (tick_to k d) = (Inr (Advance a), s')
      \<and> adv_to a = FIXING \<and> adv_incrementCounter a = Some QualityFixAttempts" for k
    by (simp add: judge_reports_def runs Let_def q st end_attempt_def complete_attempt_def d staged_row checkpoint_def record_checkpoint_def)
  show ?thesis
    using judge [of "Suc (Suc (Suc (Suc (Suc (Suc n)))))"]
    by (simp add: testing_stage_def runs staged_row c i d u test_unit_def q Let_def)
qed

end
