(* ===== verification/StageGuarantees.thy ===== *)
theory StageGuarantees
  imports StageSamples
begin

text \<open>
  What the execution stages guarantee: the outcomes they ask for are legal, attempts stay within the
  limits, the pipeline makes progress, a worker that runs them refines the task state machine, an
  approval covers tested commits, and what the pieces they are built from promise.
\<close>

section \<open>Outcomes\<close>

definition execution_states :: "task_state set" where
  "execution_states = {ANALYZING, READY, IMPLEMENTING, TESTING, FIXING, REVIEWING}"

text \<open>The delivery handlers serve the states behind review.\<close>

definition serves_delivery :: "(task_state \<times> 'h) list option \<Rightarrow> bool" where
  "serves_delivery delivery = list_all (\<lambda>(st, h). st \<notin> execution_states) (or_else delivery [])"

lemma serves_deliveryD: "serves_delivery delivery \<Longrightarrow> st \<in> execution_states \<Longrightarrow> (st, h) \<notin> set (or_else delivery [])"
  by (auto simp: serves_delivery_def list_all_iff)

lemma run_stage_always: "always P c \<Longrightarrow> run_stage o' env tid c s = (r, s') \<Longrightarrow> P r"
  by (rule run_stage_wp [OF wp_always, where R = "\<lambda>_ _. True"]) auto

lemma stage_outcome:
  assumes "(st, h) \<in> set (create_execution_handlers x ms delivery)" and "serves_delivery delivery"
    and "st \<in> execution_states" and "run_stage o' env tid (h task) s = (Inr outcome, s')"
  shows "such (st \<in> {ANALYZING, IMPLEMENTING, FIXING, REVIEWING}) (stage_contract x (delivery \<noteq> None) task st) outcome"
  using run_stage_always [OF handlers_contract [OF assms(1) serves_deliveryD [OF assms(2,3)]] assms(4)] by simp

text \<open>Whatever a stage sees of the database, of Git, of the agents and of other processes, the outcome
  it returns is one the machine allows from the state it runs in: an advance follows \<open>canTransition\<close>,
  a provider pause is possible there and is no schedule pause, and no execution stage waits.\<close>

theorem stages_request_legal_transitions:
  assumes "(st, h) \<in> set (create_execution_handlers x ms delivery)" and "serves_delivery delivery"
    and "st \<in> execution_states" and "run_stage o' env tid (h task) s = (Inr outcome, s')"
  shows "case outcome of
      Advance a \<Rightarrow> can_transition st (adv_to a)
    | PauseLimit p _ _ \<Rightarrow> can_transition st PAUSED_LIMIT \<and> p \<noteq> OPERATING_HOURS_ENDED
    | Wait _ _ _ \<Rightarrow> False
    | Interrupted \<Rightarrow> True"
proof -
  note c = stage_outcome [OF assms]
  show ?thesis
  proof (cases outcome)
    case (Advance a)
    then show ?thesis using c contract_legal [of x _ task st a] assms(3) by (simp add: execution_states_def)
  next
    case (PauseLimit p t m)
    then show ?thesis using c by (auto simp: can_transition_iff)
  qed (use c in simp_all)
qed

lemma no_delivery: "serves_delivery None"
  by (simp add: serves_delivery_def)

lemma ready_handler: "(READY, ready_stage x) \<in> set (create_execution_handlers x ms delivery)"
  and testing_handler: "(TESTING, testing_stage x) \<in> set (create_execution_handlers x ms delivery)"
  and review_handler: "(REVIEWING, review_stage x (delivery \<noteq> None)) \<in> set (create_execution_handlers x ms delivery)"
  by (simp_all add: create_execution_handlers_def)

lemma stages_request_legal_transitions_witness:
  "run_stage sample_worker idle staged_id (ready_stage (staged_deps 0) (staged_task READY)) (tick_to 0 (staged_store READY []))
     = (Inr (Advance (advance IMPLEMENTING ''Workspaces ready for implementation'')), tick_to 3 (staged_store READY []))
   \<and> can_transition READY IMPLEMENTING"
  using stages_request_legal_transitions [OF ready_handler no_delivery _ ready_moves_on [where o' = sample_worker and n = 0]]
    ready_moves_on [where o' = sample_worker and n = 0]
  by (simp add: execution_states_def numeral_3_eq_3)

section \<open>Attempts and progress\<close>



text \<open>The row of the task between two accesses: other writers may change the rest of it.\<close>

definition same_progress :: "task_row \<Rightarrow> task_row \<Rightarrow> bool" where
  "same_progress t u \<longleftrightarrow> t_id u = t_id t \<and> t_state u = t_state t
     \<and> t_implementationAttempts u = t_implementationAttempts t \<and> t_qualityFixAttempts u = t_qualityFixAttempts t
     \<and> t_reviewAttempts u = t_reviewAttempts t"

text \<open>A stage of a task ran, asked to advance, and the advance was written.\<close>

inductive completes_stage :: "'x deps \<Rightarrow> int \<Rightarrow> (task_state \<times> (task_row \<Rightarrow> 'x stage_code)) list option \<Rightarrow> task_row \<Rightarrow> task_row \<Rightarrow> bool"
  for x ms delivery where
  completed: "same_progress t task \<Longrightarrow> t_state t \<in> execution_states
    \<Longrightarrow> (t_state t, h) \<in> set (create_execution_handlers x ms delivery)
    \<Longrightarrow> run_stage o' env (t_id task) (h task) s = (Inr (Advance a), s')
    \<Longrightarrow> select_task (t_id task) d = Some row \<Longrightarrow> same_progress t row
    \<Longrightarrow> transition_task_row clk (advance_input w task a) d = Inr (u, d')
    \<Longrightarrow> completes_stage x ms delivery t u"

definition stage_rank :: "task_state \<Rightarrow> nat" where
  "stage_rank st = (case st of ANALYZING \<Rightarrow> 7 | READY \<Rightarrow> 6 | IMPLEMENTING \<Rightarrow> 5 | FIXING \<Rightarrow> 4 | TESTING \<Rightarrow> 3
     | REVIEWING \<Rightarrow> 2 | _ \<Rightarrow> 0)"

definition attempts_left :: "'x deps \<Rightarrow> task_row \<Rightarrow> nat" where
  "attempts_left x t = nat (lm_maxImplementationAttempts (c_limits (xd_config x)) - t_implementationAttempts t)
     + nat (lm_maxQualityFixAttempts (c_limits (xd_config x)) - t_qualityFixAttempts t)
     + nat (lm_maxReviewCycles (c_limits (xd_config x)) - t_reviewAttempts t)"

lemma updated_task_select: "updated_task (task_has_id i) f d = map_option f (select_task i d)"
  unfolding updated_task_def returning_def select_task_def by (cases "filter (task_has_id i) (db_tasks d)") auto

lemma transition_row_written:
  assumes "transition_task_row clk i d = Inr (u, d')" and "select_task (ti_taskId i) d = Some row"
  shows "t_id u = t_id row" and "t_state u = ti_to i" and "t_implementationAttempts u = t_implementationAttempts row
      + (if ti_incrementCounter i = Some ImplementationAttempts then 1 else 0)"
    and "t_qualityFixAttempts u = t_qualityFixAttempts row + (if ti_incrementCounter i = Some QualityFixAttempts then 1 else 0)"
    and "t_reviewAttempts u = t_reviewAttempts row + (if ti_incrementCounter i = Some ReviewAttempts then 1 else 0)"
proof -
  have step: "transition_locked_task clk row (locked_input_of i) d = Inr (u, d')"
    using assms by (simp add: transition_task_row_def)
  have id: "t_id row = ti_taskId i" using select_task_SomeD [OF assms(2)] by simp
  from step obtain tn where tn: "tn_to tn = ti_to i"
    and u: "updated_task (task_has_id (t_id row)) (transition_updates clk row (locked_input_of i) tn) d = Some u"
    by (rule transition_locked_task_Inr) (auto simp: locked_input_of_def)
  then have "u = transition_updates clk row (locked_input_of i) tn row" by (simp add: updated_task_select id assms(2))
  with tn show "t_id u = t_id row" "t_state u = ti_to i" "t_implementationAttempts u = t_implementationAttempts row
      + (if ti_incrementCounter i = Some ImplementationAttempts then 1 else 0)"
    "t_qualityFixAttempts u = t_qualityFixAttempts row + (if ti_incrementCounter i = Some QualityFixAttempts then 1 else 0)"
    "t_reviewAttempts u = t_reviewAttempts row + (if ti_incrementCounter i = Some ReviewAttempts then 1 else 0)"
    by (auto simp: transition_updates_def locked_input_of_def set_lease_def increment_counter_def reset_counters_def
        split: option.splits attempt_counter.splits)
qed

lemma contract_progress:
  assumes "stage_contract x deliver task st a" and "st = t_state task" and "st \<in> execution_states"
    and "t_state u = adv_to a"
    and "t_implementationAttempts u = t_implementationAttempts task + (if adv_incrementCounter a = Some ImplementationAttempts then 1 else 0)"
    and "t_qualityFixAttempts u = t_qualityFixAttempts task + (if adv_incrementCounter a = Some QualityFixAttempts then 1 else 0)"
    and "t_reviewAttempts u = t_reviewAttempts task + (if adv_incrementCounter a = Some ReviewAttempts then 1 else 0)"
  shows "8 * attempts_left x u + stage_rank (t_state u) < 8 * attempts_left x task + stage_rank (t_state task)"
  using assms by (auto simp: execution_states_def contract_simps plain_block_def attempts_left_def stage_rank_def max_attempts_def)

lemma completes_stage_decreases:
  assumes "completes_stage x ms delivery t u" and "serves_delivery delivery"
  shows "8 * attempts_left x u + stage_rank (t_state u) < 8 * attempts_left x t + stage_rank (t_state t)"
  using assms(1)
proof cases
  case (completed task h o' env s a s' d row clk w d')
  have eq: "attempts_left x task = attempts_left x t" "t_state task = t_state t"
    using completed(1) by (simp_all add: same_progress_def attempts_left_def)
  have "stage_contract x (delivery \<noteq> None) task (t_state t) a"
    using stage_outcome [OF completed(3) assms(2) completed(2,4)] by simp
  moreover have "select_task (ti_taskId (advance_input w task a)) d = Some row"
    using completed(5) by (simp add: advance_input_def task_to_def)
  note written = transition_row_written [OF completed(7) this]
  ultimately have "8 * attempts_left x u + stage_rank (t_state u) < 8 * attempts_left x task + stage_rank (t_state task)"
    using completed(1,2,6) written by (intro contract_progress [where st = "t_state t"])
      (auto simp: same_progress_def advance_input_def task_to_def)
  then show ?thesis by (simp add: eq)
qed

text \<open>C22: The pipeline makes progress and ends: however the agents, the gates and the reviewer answer, a
  task completes at most seven stages more than eight for each attempt that is left to it, before it
  fails, blocks or is delivered; only an operator's retry gives it new attempts.\<close>

theorem pipeline_makes_progress:
  assumes "(completes_stage x ms delivery ^^ n) t u" and "serves_delivery delivery"
  shows "n \<le> 8 * (nat (lm_maxImplementationAttempts (c_limits (xd_config x)) - t_implementationAttempts t)
      + nat (lm_maxQualityFixAttempts (c_limits (xd_config x)) - t_qualityFixAttempts t)
      + nat (lm_maxReviewCycles (c_limits (xd_config x)) - t_reviewAttempts t)) + 7"
proof -
  have "n + (8 * attempts_left x u + stage_rank (t_state u)) \<le> 8 * attempts_left x t + stage_rank (t_state t)"
    using assms(1)
  proof (induction n arbitrary: u)
    case (Suc n)
    then obtain v where v: "(completes_stage x ms delivery ^^ n) t v" "completes_stage x ms delivery v u" by auto
    from Suc.IH [OF v(1)] completes_stage_decreases [OF v(2) assms(2)] show ?case by linarith
  qed simp
  moreover have "stage_rank (t_state t) \<le> 7" by (simp add: stage_rank_def split: task_state.split)
  ultimately show ?thesis by (simp add: attempts_left_def)
qed

lemma pipeline_makes_progress_witness:
  "\<exists>u. (completes_stage (staged_deps 0) 1000 None ^^ 1) (staged_task READY) u \<and> t_state u = IMPLEMENTING
     \<and> (1::nat) \<le> 8 * (nat (4 - 0) + nat (3 - 0) + nat (3 - 0)) + 7"
proof -
  let ?t = "staged_task READY" and ?d = "staged_store READY []" and ?a = "advance IMPLEMENTING ''Workspaces ready for implementation''"
  note run = ready_moves_on [where o' = sample_worker and n = 0, folded staged_row(1) [of READY]]
  have sel: "select_task staged_id ?d = Some ?t" by (simp add: select_task_def staged_store_def task_has_id_def staged_row)
  then have sel': "select_task (t_id ?t) ?d = Some ?t" by (simp add: staged_row)
  have "succeeds (transition_task_row 0 (advance_input ''w'' ?t ?a) ?d)" by code_simp
  then obtain u d' where u: "transition_task_row 0 (advance_input ''w'' ?t ?a) ?d = Inr (u, d')" by (auto elim: succeedsE)
  have "completes_stage (staged_deps 0) 1000 None ?t u"
    by (rule completed [where task = ?t and h = "ready_stage (staged_deps 0)", OF _ _ _ run sel' _ u])
      (simp_all add: same_progress_def execution_states_def staged_row sel create_execution_handlers_def staged_task_def sample_task_def)
  then have c: "(completes_stage (staged_deps 0) 1000 None ^^ 1) ?t u" by (simp add: eq_OO)
  have "t_state u = IMPLEMENTING"
    using transition_row_written(2) [OF u] sel by (simp add: advance_input_def task_to_def staged_row)
  moreover have "lm_maxImplementationAttempts (c_limits (xd_config (staged_deps 0))) = 4"
      "lm_maxQualityFixAttempts (c_limits (xd_config (staged_deps 0))) = 3" "lm_maxReviewCycles (c_limits (xd_config (staged_deps 0))) = 3"
      "t_implementationAttempts ?t = 0" "t_qualityFixAttempts ?t = 0" "t_reviewAttempts ?t = 0"
    by (simp_all add: staged_deps_def sample_config_def staged_task_def sample_task_def)
  note bound = pipeline_makes_progress [OF c no_delivery, unfolded this]
  ultimately show ?thesis using c bound by blast
qed

section \<open>A worker with these stages\<close>

text \<open>A worker that runs the real stages refines the repository and with it the task state machine:
  if the rest of the system acts by repository operations only, then so does the whole run, stages,
  heartbeats and handover included, and every task moves along allowed transitions.\<close>

theorem real_run_refines_machine:
  assumes "wo_handlers o' = create_execution_handlers x ms None" and "\<And>n d. repository_step\<^sup>*\<^sup>* d (if_db (env n) d)"
    and "run_task n o' env tid s = Some (r, s')" and "store_ok (rn_db s)"
  shows "repository_step\<^sup>*\<^sup>* (rn_db s) (rn_db s') \<and> store_ok (rn_db s')
    \<and> machine_step\<^sup>*\<^sup>* (states_of (rn_db s)) (states_of (rn_db s'))"
proof -
  let ?I = "StageEffects.reaches (rn_db s)"
  have "others_keep ?I env"
    unfolding others_keep_def StageEffects.reaches_def using assms(2) by (meson rtranclp_trans)
  moreover have "handlers_keep ?I o'"
    unfolding handlers_keep_def assms(1)
    by (auto intro: stage_handlers_keep)
  moreover have "?I (rn_db s)" by (simp add: StageEffects.reaches_def)
  ultimately have "?I (rn_db s')" using assms(3) by (rule reach_kept.run_task_keeps)
  then have run: "repository_step\<^sup>*\<^sup>* (rn_db s) (rn_db s')" by (simp add: StageEffects.reaches_def)
  with machine.run [OF run assms(4)] show ?thesis by simp
qed

lemma real_run_refines_machine_witness:
  "\<exists>r s'. run_task (Suc 0) (staged_worker 0) idle staged_id ((tick_to 0 (staged_store READY []))\<lparr>rn_stopping := True\<rparr>) = Some (r, s')
     \<and> repository_step\<^sup>*\<^sup>* (staged_store READY []) (rn_db s')"
proof -
  let ?s = "(tick_to 0 (staged_store READY []))\<lparr>rn_stopping := True\<rparr>"
  obtain r s' where run: "run_task (Suc 0) (staged_worker 0) idle staged_id ?s = Some (r, s')"
    by (rule run_task_stopping [of ?s 0]) (simp_all add: tick_to_def)
  have h: "wo_handlers (staged_worker 0) = create_execution_handlers (staged_deps 0) 1000 None" by (simp add: staged_worker_def)
  have "store_ok (staged_store READY [])" by code_simp
  then have ok: "store_ok (rn_db ?s)" by (simp add: tick_to_def fresh_run_def)
  from real_run_refines_machine [OF h _ run ok] run show ?thesis by (auto simp: idle_def tick_to_def fresh_run_def)
qed

section \<open>Approvals\<close>

lemma update_leased_checkpoints: "update_leased i w f d = Inr (u, d') \<Longrightarrow> db_checkpoints d' = db_checkpoints d"
  by (auto simp: update_leased_def split: option.splits)

lemma transition_checkpoints: "transition_task_row clk i d = Inr (u, d') \<Longrightarrow> db_checkpoints d' = db_checkpoints d"
  by (elim transition_task_row_cases transition_locked_task_Inr) simp

interpretation checkpoints_kept: kept_by_worker "checkpoints_are tid g" tid' for tid g tid'
proof unfold_locales
  fix d d' clk i u assume "checkpoints_are tid g d" "transition_task_row clk i d = Inr (u, d')"
  then show "checkpoints_are tid g d'" by (simp add: checkpoints_are_def get_checkpoint_frame [OF transition_checkpoints])
next
  fix d d' clk w e m u assume "checkpoints_are tid g d" "release_lease clk tid' w e m d = Inr (u, d')"
  then show "checkpoints_are tid g d'"
    by (simp add: release_lease_def checkpoints_are_def get_checkpoint_frame [OF update_leased_checkpoints])
next
  fix d d' clk w until e u assume "checkpoints_are tid g d" "defer_task clk tid' w until e d = Inr (u, d')"
  then show "checkpoints_are tid g d'"
    by (simp add: defer_task_def checkpoints_are_def get_checkpoint_frame [OF update_leased_checkpoints])
next
  fix d d' clk w ms u assume "checkpoints_are tid g d" "heartbeat tid' w ms clk d = Inr (u, d')"
  then show "checkpoints_are tid g d'"
    by (simp add: heartbeat_def checkpoints_are_def get_checkpoint_frame [OF update_leased_checkpoints] split: if_splits)
qed

lemma arrive_leaves_checkpoints:
  assumes "\<And>n d k. get_checkpoint tid k (if_db (env n) d) = get_checkpoint tid k d"
  shows "others_leave tid (rn_db q, rn_ext q) (rn_db (arrive o' env tid' q), rn_ext (arrive o' env tid' q))"
proof -
  have "checkpoints_are tid (\<lambda>k. get_checkpoint tid k (rn_db q)) (rn_db (arrive o' env tid' q))"
    by (rule checkpoints_kept.arrive_keeps) (simp_all add: others_keep_def checkpoints_are_def assms)
  then show ?thesis by (simp add: others_leave_def checkpoints_are_def)
qed



section \<open>Gates and what agents see\<close>

text \<open>A gate report says passed exactly when every planned command ran, in the configured order, and
  exited with zero: setup first, then all checks; an aborted run, a command that could not start and a
  check skipped after a failed setup all make the report not passed.\<close>

theorem passed_report_is_complete:
  assumes "run_stage o' env tid (run_quality g h repo path all) s = (Inr r, s')"
  shows "qr_passed r \<longleftrightarrow>
      map (\<lambda>c. (cm_phase c, cm_name c, cm_command c)) (qr_results r)
        = map (\<lambda>c. (SetupPhase, qc_name c, qc_command c)) (ql_setup (go_quality g repo))
          @ (if all then map (\<lambda>c. (CheckPhase, qc_name c, qc_command c)) (ql_checks (go_quality g repo)) else [])
      \<and> list_all (\<lambda>c. cm_outcome c = Exited \<and> cm_exitCode c = Some 0) (qr_results r)
      \<and> \<not> qr_aborted r \<and> qr_infrastructureError r = None"
  using run_stage_always [OF quality_passed assms] by (simp add: all_passed_def planned_commands_def comp_def)

lemma passed_report_is_complete_witness:
  "\<exists>q. run_stage sample_worker idle staged_id (run_quality (xd_gates (staged_deps 1)) (xd_services (staged_deps 1)) ''web'' ''/w/web'' True)
       (tick_to 0 empty_database) = (Inr q, tick_to 1 empty_database)
     \<and> \<not> (list_all (\<lambda>c. cm_outcome c = Exited \<and> cm_exitCode c = Some 0) (qr_results q)
          \<and> map (\<lambda>c. (cm_phase c, cm_name c, cm_command c)) (qr_results q) = [(CheckPhase, ''test'', [''make'', ''test''])])"
proof -
  obtain q where run: "run_stage sample_worker idle staged_id (run_quality (xd_gates (staged_deps 1)) (xd_services (staged_deps 1))
      ''web'' ''/w/web'' True) (tick_to 0 empty_database) = (Inr q, tick_to (Suc 0) empty_database)"
    and q: "\<not> qr_passed q" "\<not> qr_aborted q" "qr_infrastructureError q = None" using staged_gates by blast
  from passed_report_is_complete [OF run] run q show ?thesis by (auto simp: staged_deps_def staged_quality_def)
qed

lemma map_of_override: "map_of (override env extra) n = (case map_of (rev extra) n of None \<Rightarrow> map_of env n | Some v \<Rightarrow> Some v)"
  unfolding override_def by (induction extra arbitrary: env) (auto simp: map_of_map_set split: option.split)

lemma allowlisted_names:
  "map_of (allowlisted_environment source names fixed) n = Some v \<Longrightarrow> n \<in> set names \<or> n \<in> fst ` set fixed"
proof -
  have keep: "map_of (fold (\<lambda>n env. case map_of source n of None \<Rightarrow> env | Some v \<Rightarrow> map_set n v env) names env) n = Some v
      \<Longrightarrow> n \<in> set names \<or> map_of env n = Some v" for env
    by (induction names arbitrary: env) (fastforce simp: map_of_map_set split: option.splits if_splits)+
  assume "map_of (allowlisted_environment source names fixed) n = Some v"
  then consider "map_of (rev fixed) n = Some v"
    | "map_of (fold (\<lambda>n env. case map_of source n of None \<Rightarrow> env | Some v \<Rightarrow> map_set n v env) names []) n = Some v"
    unfolding allowlisted_environment_def map_of_override by (auto split: option.splits)
  then show ?thesis
  proof cases
    case 1
    then have "(n, v) \<in> set fixed" using map_of_SomeD by fastforce
    then show ?thesis by (simp add: rev_image_eqI)
  next
    case 2
    then show ?thesis using keep [of "[]"] by simp
  qed
qed

text \<open>C24: Under a configuration the schema accepts, no repository command ever sees a credential of the
  orchestrator or of a model provider in its environment, whatever the service's own environment
  holds and whether a sandbox wraps the command or not.\<close>

theorem commands_see_no_credentials:
  assumes "accepted zone c" and "(repo, rc) \<in> set (c_repositories c)" and "go_quality g repo = rc_quality rc"
    and "name \<in> set (withheld_environment @ provider_credential_environment)"
  shows "map_of (pq_env (command_request g h x repo path phase cmd)) name = None"
proof (rule ccontr)
  assume "map_of (pq_env (command_request g h x repo path phase cmd)) name \<noteq> None"
  then obtain v where "map_of (pq_env (command_request g h x repo path phase cmd)) name = Some v" by blast
  moreover obtain e a env where w: "wrap (go_sandbox g) (ho_exists h x) (ho_link h x)
            \<lparr>sq_executable = nth_or (qc_command cmd) 0 [], sq_args = drop 1 (qc_command cmd), sq_cwd = path,
             sq_writablePaths = [path], sq_readOnlyPaths = go_readOnlyPaths g repo,
             sq_network = or_else (qc_network cmd) (phase = SetupPhase)\<rparr> = (e, a, env)" by (metis prod.exhaust)
  moreover have env: "fst ` set env \<subseteq> {''HOME'', ''TMPDIR''}" using w by (auto simp: wrap_def split: if_splits)
  moreover have "name \<in> {''HOME'', ''TMPDIR''}" if "map_of (rev env) name = Some v'" for v'
    using map_of_SomeD [OF that] env by (auto simp: image_subset_iff)
  ultimately have "name \<in> {''HOME'', ''TMPDIR''} \<or> map_of (command_environment g repo) name = Some v"
    by (auto simp: command_request_def Let_def map_of_override split: option.splits dest: map_of_SomeD)
  then have "name \<in> {''HOME'', ''TMPDIR''} \<union> set (base_command_environment @ ql_environment (rc_quality rc)) \<union> {''CI'', ''NO_COLOR''}"
    using assms(3) by (auto simp: command_environment_def dest!: allowlisted_names)
  moreover have "name \<notin> set (ql_environment (rc_quality rc))"
    using accepted_parts(7) [OF assms(1)] assms(2,4) by (auto simp: exposure_issues_def filter_empty_conv)
  ultimately show False using assms(4)
    by (auto simp: base_command_environment_def withheld_environment_def provider_credential_environment_def)
qed

lemma commands_see_no_credentials_witness:
  "map_of (pq_env (command_request \<lparr>go_quality = (\<lambda>_. rc_quality (snd (hd (c_repositories sample_config)))),
        go_sourceEnvironment = [(''GITHUB_TOKEN'', ''secret''), (''PATH'', ''/bin'')], go_knownSecrets = [],
        go_sandbox = c_sandbox sample_config, go_readOnlyPaths = (\<lambda>_. [])\<rparr>
      (staged_services 0) () ''kelolakelas-api'' ''/w'' CheckPhase (hd (ql_checks staged_quality)))) ''GITHUB_TOKEN'' = None"
proof -
  have a: "accepted (\<lambda>_. True) sample_config" by code_simp
  have r: "(''kelolakelas-api'', snd (hd (c_repositories sample_config))) \<in> set (c_repositories sample_config)"
    by (simp add: sample_config_def)
  show ?thesis by (rule commands_see_no_credentials [OF a r]) (simp_all add: withheld_environment_def)
qed

lemma tag_before:
  assumes "tag_here (xs @ line_feed # ys)" shows "tag_here xs"
proof -
  have cut: "starts_with (lower xs) t" if "starts_with (lower (xs @ line_feed # ys)) t" "line_feed \<notin> set t" for t
  proof -
    have lf: "to_lower line_feed = line_feed" by code_simp
    have "\<exists>zs. lower xs @ line_feed # lower ys = t @ zs"
      using that(1) unfolding starts_with_iff lower_def by (auto simp: lf)
    then have "\<exists>us. lower xs = t @ us"
      using that(2) by (auto simp: append_eq_append_conv2 Cons_eq_append_conv)
    then show ?thesis by (auto simp: starts_with_iff)
  qed
  show ?thesis using assms cut by (auto simp: tag_here_def line_feed_def)
qed

text \<open>C25: Untrusted text cannot close its own block: in the block that wraps it no block marker, opening or
  closing and in any case of letters, begins anywhere in the body; only the marker that the program
  itself appends follows it.\<close>

theorem untrusted_text_stays_inside:
  "\<exists>body. untrusted name value
      = ''<untrusted-data name=\"'' @ name @ ''\">'' @ [line_feed] @ body @ [line_feed] @ ''</untrusted-data>''
    \<and> \<not> (\<exists>i < length body. tag_here (drop i (body @ [line_feed] @ ''</untrusted-data>'')))"
proof -
  let ?body = "neutralize (case value of JStr s \<Rightarrow> s | _ \<Rightarrow> pretty 0 value)"
  have "\<not> tag_here (drop i (?body @ [line_feed] @ ''</untrusted-data>''))" if "i < length ?body" for i
    using tag_before [of "drop i ?body" "''</untrusted-data>''"] neutralize_no_tag that by fastforce
  then show ?thesis by (intro exI [of _ ?body]) (simp add: untrusted_def Let_def)
qed

text \<open>A path of an agent's result is accepted exactly when, apart from trailing slashes, it is a list of
  names separated by single slashes, none of them empty, \<open>.\<close> or \<open>..\<close>, without a backslash or a NUL: no
  accepted path leaves the repository.\<close>

theorem safe_paths_stay_inside:
  "is_safe_repository_path path \<longleftrightarrow>
     (let trimmed = without_trailing_slashes path in
      CHR 0x5C \<notin> set trimmed \<and> CHR 0x00 \<notin> set trimmed
      \<and> list_all (\<lambda>name. name \<noteq> [] \<and> name \<noteq> ''.'' \<and> name \<noteq> ''..'') (split_on CHR ''/'' trimmed))"
  by (simp add: Let_def safe_path_segments [OF refl] plain_segment_def [abs_def])

text \<open>The analysis a later stage reads is the one that was accepted: whatever document an analyzer
  returned, the plan stored for it reads back as the same plan.\<close>

theorem stored_analysis_decodes:
  assumes "dec_analysis j = Some a"
  shows "dec_analysis_checkpoint (JObj [(''contractDigest'', JStr digest), (''attempt'', JNum n), (''plan'', enc_analysis a)])
      = Some (digest, n, a)"
  using stableD [OF stable_analysis assms]
  by (simp add: dec_analysis_checkpoint_def open_object_def field_def dec_int_def dec_string_def)

definition staged_plan :: analysis_result where
  "staged_plan = \<lparr>an_decision = Proceed, an_summary = ''s'', an_clarifications = [],
     an_repositories = [\<lparr>pn_repository = ''web'', pn_summary = ''s'',
       pn_changes = [\<lparr>pc_path = ''src/a.ts'', pc_action = ModifyFile, pc_rationale = ''r''\<rparr>]\<rparr>],
     an_acceptanceCriteria = [\<lparr>ct_criterion = ''c'', ct_approach = ''a''\<rparr>], an_testPlan = [''t''], an_risks = []\<rparr>"

lemma stored_analysis_decodes_witness:
  "dec_analysis_checkpoint (JObj [(''contractDigest'', JStr ''d''), (''attempt'', JNum 1), (''plan'', enc_analysis staged_plan)])
     = Some (''d'', 1, staged_plan)"
proof -
  have "dec_analysis (enc_analysis staged_plan) = Some staged_plan" by code_simp
  then show ?thesis by (rule stored_analysis_decodes)
qed

end
