(* ===== verification/RequiredChecks.thy ===== *)
theory RequiredChecks
  imports WorkspaceChanges
begin

text \<open>
  What GitHub reports (the interfaces of \<open>src/providers/github.ts\<close>) and how delivery judges it
  (\<open>src/delivery/required-checks.ts\<close>): required checks and review decisions.
\<close>

section \<open>Reports\<close>

record github_repository =
  gr_fullName :: string
  gr_archived :: bool
  gr_canPush :: "bool option"

datatype check_source = BranchProtection | Ruleset

fun show_source :: "check_source \<Rightarrow> string" where
  "show_source BranchProtection = ''branch-protection''"
| "show_source Ruleset = ''ruleset''"

record required_check =
  qk_context :: string
  qk_appId :: "int option"
  qk_source :: check_source

record branch_policy =
  bp_protected :: bool
  bp_requiredChecks :: "required_check list"
  bp_requiredApprovingReviews :: "int option"

record pull_request =
  pu_number :: int
  pu_url :: string
  pu_open :: bool
  pu_merged :: bool
  pu_mergeCommitSha :: "string option"
  pu_headSha :: string
  pu_headRef :: string
  pu_headRepository :: "string option"
  pu_baseRef :: string
  pu_draft :: bool
  pu_mergeableState :: "string option"
  pu_body :: string

datatype check_kind = CheckRun | CommitStatus

record check_report =
  ck_name :: string
  ck_kind :: check_kind
  ck_status :: string
  ck_conclusion :: "string option"
  ck_appId :: "int option"
  ck_updatedAt :: "string option"

record review_report =
  rv_reviewer :: "string option"
  rv_state :: string
  rv_commitId :: "string option"
  rv_submittedAt :: "string option"

datatype commit_comparison = AheadOf | BehindOf | IdenticalTo | DivergedFrom

fun show_comparison :: "commit_comparison \<Rightarrow> string" where
  "show_comparison AheadOf = ''ahead''"
| "show_comparison BehindOf = ''behind''"
| "show_comparison IdenticalTo = ''identical''"
| "show_comparison DivergedFrom = ''diverged''"

record pull_request_input =
  pi_prTitle :: string
  pi_prHead :: string
  pi_prBase :: string
  pi_prBody :: string
  pi_prDraft :: bool

section \<open>Required checks\<close>

datatype check_state = CheckSuccess | CheckPending | CheckMissing | CheckFailed

fun show_check_state :: "check_state \<Rightarrow> string" where
  "show_check_state CheckSuccess = ''success''"
| "show_check_state CheckPending = ''pending''"
| "show_check_state CheckMissing = ''missing''"
| "show_check_state CheckFailed = ''failed''"

record check_observation =
  co_context :: string
  co_appId :: "int option"
  co_source :: check_source
  co_state :: check_state
  co_conclusions :: "string option list"

datatype checks_outcome = ChecksPassed | ChecksPending | ChecksFailed | NoPolicy

fun show_checks_outcome :: "checks_outcome \<Rightarrow> string" where
  "show_checks_outcome ChecksPassed = ''passed''"
| "show_checks_outcome ChecksPending = ''pending''"
| "show_checks_outcome ChecksFailed = ''failed''"
| "show_checks_outcome NoPolicy = ''no-policy''"

record checks_evaluation =
  ev_outcome :: checks_outcome
  ev_checks :: "check_observation list"

definition state_of :: "check_report \<Rightarrow> check_state" where
  "state_of c =
     (if ck_kind c = CommitStatus then
        (if ck_status c = ''pending'' then CheckPending
         else if ck_conclusion c = Some ''success'' then CheckSuccess else CheckFailed)
      else if ck_status c \<noteq> ''completed'' then CheckPending
      else if ck_conclusion c = Some ''success'' then CheckSuccess else CheckFailed)"

definition check_key :: "required_check \<Rightarrow> string" where
  "check_key c = qk_context c @ [nul_char] @ (case qk_appId c of None \<Rightarrow> [] | Some n \<Rightarrow> show_int n)"

definition matches_check :: "required_check \<Rightarrow> check_report \<Rightarrow> bool" where
  "matches_check q c \<longleftrightarrow> ck_name c = qk_context q \<and> (qk_appId q = None \<or> ck_appId c = qk_appId q)"

definition observe_check :: "check_report list \<Rightarrow> required_check \<Rightarrow> check_observation" where
  "observe_check reported q =
     (let found = filter (matches_check q) reported; states = map state_of found in
      \<lparr>co_context = qk_context q, co_appId = qk_appId q, co_source = qk_source q,
       co_state = (if found = [] then CheckMissing
         else if CheckFailed \<in> set states then CheckFailed
         else if CheckPending \<in> set states then CheckPending else CheckSuccess),
       co_conclusions = map ck_conclusion found\<rparr>)"

text \<open>The map \<open>required\<close>: a later check with the same context and app replaces the earlier one.\<close>

definition put_check :: "required_check \<Rightarrow> (string \<times> required_check) list \<Rightarrow> (string \<times> required_check) list" where
  "put_check c = map_set (check_key c) c"

definition required_map :: "branch_policy \<Rightarrow> (string \<times> required_check) list" where
  "required_map p = fold put_check (bp_requiredChecks p) []"

definition evaluate_required_checks :: "branch_policy \<Rightarrow> check_report list \<Rightarrow> checks_evaluation" where
  "evaluate_required_checks p reported =
     (if required_map p = [] then \<lparr>ev_outcome = NoPolicy, ev_checks = []\<rparr>
      else let checks = map (observe_check reported) (map snd (required_map p)) in
        \<lparr>ev_outcome = (if list_ex (\<lambda>c. co_state c = CheckFailed) checks then ChecksFailed
           else if list_all (\<lambda>c. co_state c = CheckSuccess) checks then ChecksPassed else ChecksPending),
         ev_checks = checks\<rparr>)"

section \<open>Reviews\<close>

record review_summary =
  rs_approvedBy :: "string list"
  rs_changesRequestedBy :: "string list"
  rs_approvalsOnHead :: nat
  rs_requiredApprovingReviews :: "int option"

definition review_step :: "review_report \<Rightarrow> (string \<times> review_report) list \<Rightarrow> (string \<times> review_report) list" where
  "review_step r latest =
     (case rv_reviewer r of
        None \<Rightarrow> latest
      | Some who \<Rightarrow>
          if rv_state r = ''COMMENTED'' \<or> rv_state r = ''PENDING'' then latest
          else if rv_state r = ''DISMISSED'' then map_remove who latest
          else map_set who r latest)"

text \<open>The sort by \<open>localeCompare\<close> (a parameter, less or equal) is stable.\<close>

definition latest_reviews :: "(string \<Rightarrow> string \<Rightarrow> bool) \<Rightarrow> review_report list \<Rightarrow> (string \<times> review_report) list" where
  "latest_reviews le reviews =
     fold review_step (sort_by (\<lambda>l r. le (or_else (rv_submittedAt l) []) (or_else (rv_submittedAt r) [])) reviews) []"

definition reviewers_with :: "string \<Rightarrow> (string \<times> review_report) list \<Rightarrow> string list" where
  "reviewers_with st ds = sort (map fst (filter (\<lambda>(_, r). rv_state r = st) ds))"

definition summarize_reviews :: "(string \<Rightarrow> string \<Rightarrow> bool) \<Rightarrow> review_report list \<Rightarrow> string \<Rightarrow> int option \<Rightarrow> review_summary" where
  "summarize_reviews le reviews headSha required =
     (let decisions = latest_reviews le reviews in
      \<lparr>rs_approvedBy = reviewers_with ''APPROVED'' decisions,
       rs_changesRequestedBy = reviewers_with ''CHANGES_REQUESTED'' decisions,
       rs_approvalsOnHead = length (filter (\<lambda>(_, r). rv_state r = ''APPROVED'' \<and> rv_commitId r = Some headSha) decisions),
       rs_requiredApprovingReviews = required\<rparr>)"

section \<open>What an evaluation says\<close>

lemma show_nat_inject: "show_nat j = show_nat k \<longleftrightarrow> j = k"
  using show_nat_digits [of j] show_nat_digits [of k] by (metis of_nat_eq_iff)

lemma show_nat_no_sign: "show_nat k \<noteq> CHR ''-'' # t"
proof
  assume "show_nat k = CHR ''-'' # t"
  with show_nat_digits [of k] have "is_digit CHR ''-''" by simp
  then show False by code_simp
qed

lemma show_int_inject: "show_int m = show_int n \<longleftrightarrow> m = n"
  by (cases "m < 0"; cases "n < 0"; cases "m = n")
    (auto simp: show_int_def show_nat_inject show_nat_no_sign show_nat_no_sign [symmetric])

lemma nul_not_in_int: "nul_char \<notin> set (show_int n)"
proof -
  have "\<not> is_digit nul_char" by code_simp
  then have "nul_char \<notin> set (show_nat k)" for k using show_nat_digits [of k] by (auto simp: list_all_iff)
  moreover have "nul_char \<noteq> CHR ''-''" by code_simp
  ultimately show ?thesis by (auto simp: show_int_def)
qed

lemma check_key_inject: "check_key c = check_key c' \<longleftrightarrow> qk_context c = qk_context c' \<and> qk_appId c = qk_appId c'"
proof
  assume e: "check_key c = check_key c'"
  have free: "nul_char \<notin> set (case a of None \<Rightarrow> [] | Some n \<Rightarrow> show_int n)" for a
    by (simp add: nul_not_in_int split: option.split)
  have some: "show_int n \<noteq> []" for n using show_nat_digits by (simp add: show_int_def)
  from last_separator [OF e [unfolded check_key_def append_Cons append_Nil] free free]
  show "qk_context c = qk_context c' \<and> qk_appId c = qk_appId c'"
    using some by (cases "qk_appId c"; cases "qk_appId c'") (auto simp: show_int_inject dest: sym [of "[]"])
qed (simp add: check_key_def)

lemma map_set_from: "e \<in> set (map_set k q m) \<Longrightarrow> snd e = q \<or> e \<in> set m"
  by (induction m) (auto split: if_splits)

lemma put_checks_from: "e \<in> set (fold put_check qs m) \<Longrightarrow> snd e \<in> set qs \<or> e \<in> set m"
proof (induction qs arbitrary: m)
  case (Cons q qs)
  then show ?case using map_set_from [of e "check_key q" q m] by (auto simp: put_check_def [of q])
qed simp

lemma put_checks_keep:
  "map_of m k = Some q' \<Longrightarrow> check_key q' = k \<Longrightarrow> \<exists>q''. map_of (fold put_check qs m) k = Some q'' \<and> check_key q'' = k"
proof (induction qs arbitrary: m q')
  case (Cons q qs)
  show ?case using Cons.prems Cons.IH [of "put_check q m" "if k = check_key q then q else q'"]
    by (simp add: put_check_def map_of_map_set split: if_splits)
qed simp

lemma put_checks_here:
  "q \<in> set qs \<Longrightarrow> \<exists>q'. map_of (fold put_check qs m) (check_key q) = Some q' \<and> check_key q' = check_key q"
proof (induction qs arbitrary: m)
  case (Cons p qs)
  have "map_of (put_check p m) (check_key p) = Some p" by (simp add: put_check_def map_of_map_set)
  then show ?case using Cons put_checks_keep [of "put_check p m" "check_key p" p qs] by auto
qed simp

lemma required_map_from: "q \<in> set (map snd (required_map p)) \<Longrightarrow> q \<in> set (bp_requiredChecks p)"
  using put_checks_from [of _ "bp_requiredChecks p" "[]"] by (auto simp: required_map_def)

lemma required_map_has:
  assumes "q \<in> set (bp_requiredChecks p)"
  shows "\<exists>q' \<in> set (map snd (required_map p)). check_key q' = check_key q"
  using put_checks_here [OF assms, of "[]"] by (force simp: required_map_def dest: map_of_SomeD)

lemma observe_same: "check_key q = check_key q' \<Longrightarrow> co_state (observe_check rs q) = co_state (observe_check rs q')"
  by (simp add: check_key_inject observe_check_def Let_def matches_check_def [abs_def])

lemma observed_success: "co_state (observe_check rs q) = CheckSuccess \<longleftrightarrow>
    (\<exists>c \<in> set rs. matches_check q c) \<and> (\<forall>c \<in> set rs. matches_check q c \<longrightarrow> state_of c = CheckSuccess)"
proof -
  have s: "state_of c = CheckSuccess \<or> state_of c = CheckPending \<or> state_of c = CheckFailed" for c
    by (simp add: state_of_def)
  have no: "state_of c = CheckSuccess \<longleftrightarrow> state_of c \<noteq> CheckFailed \<and> state_of c \<noteq> CheckPending" for c
    using s [of c] by auto
  have "co_state (observe_check rs q) = CheckSuccess
      \<longleftrightarrow> filter (matches_check q) rs \<noteq> [] \<and> CheckFailed \<notin> state_of ` set (filter (matches_check q) rs)
        \<and> CheckPending \<notin> state_of ` set (filter (matches_check q) rs)"
    by (simp add: observe_check_def Let_def)
  also have "\<dots> \<longleftrightarrow> (\<exists>c \<in> set rs. matches_check q c) \<and> (\<forall>c \<in> set rs. matches_check q c \<longrightarrow> state_of c = CheckSuccess)"
    unfolding no by (auto simp: filter_empty_conv image_iff)
  finally show ?thesis .
qed

lemma required_map_empty: "required_map p = [] \<longleftrightarrow> bp_requiredChecks p = []"
proof (cases "bp_requiredChecks p")
  case (Cons q qs)
  then have "map snd (required_map p) \<noteq> []" using required_map_has [of q p] by auto
  with Cons show ?thesis by simp
qed (simp add: required_map_def)

lemma evaluation_passed:
  "ev_outcome (evaluate_required_checks p rs) = ChecksPassed \<longleftrightarrow>
     bp_requiredChecks p \<noteq> []
     \<and> (\<forall>q \<in> set (bp_requiredChecks p). (\<exists>c \<in> set rs. matches_check q c)
          \<and> (\<forall>c \<in> set rs. matches_check q c \<longrightarrow> state_of c = CheckSuccess))"
proof -
  note e = required_map_empty [of p]
  let ?ok = "\<lambda>q. co_state (observe_check rs q) = CheckSuccess"
  have all: "(\<forall>q \<in> set (map snd (required_map p)). ?ok q) \<longleftrightarrow> (\<forall>q \<in> set (bp_requiredChecks p). ?ok q)"
    (is "?l \<longleftrightarrow> ?r")
  proof
    assume l: ?l
    show ?r
    proof
      fix q assume "q \<in> set (bp_requiredChecks p)"
      then obtain q' where "q' \<in> set (map snd (required_map p))" and "check_key q' = check_key q"
        using required_map_has by blast
      with l show "?ok q" using observe_same [of q' q rs] by auto
    qed
  next
    assume ?r
    then show ?l using required_map_from by blast
  qed
  show ?thesis
  proof (cases "bp_requiredChecks p = []")
    case True
    then show ?thesis by (simp add: evaluate_required_checks_def e)
  next
    case False
    have "ev_outcome (evaluate_required_checks p rs) = ChecksPassed
        \<longleftrightarrow> (\<forall>q \<in> set (map snd (required_map p)). ?ok q)"
      using False by (auto simp: evaluate_required_checks_def Let_def e list_ex_iff list_all_iff)
    also have "\<dots> \<longleftrightarrow> (\<forall>q \<in> set (bp_requiredChecks p). ?ok q)" by (rule all)
    finally show ?thesis using False by (simp add: observed_success)
  qed
qed

section \<open>What a summary says\<close>

definition decisive :: "string \<Rightarrow> review_report \<Rightarrow> bool" where
  "decisive who r \<longleftrightarrow> rv_reviewer r = Some who \<and> rv_state r \<noteq> ''COMMENTED'' \<and> rv_state r \<noteq> ''PENDING''"

lemma map_of_review_step: "map_of (review_step r m) who =
    (if decisive who r then (if rv_state r = ''DISMISSED'' then None else Some r) else map_of m who)"
  by (cases "rv_reviewer r"; cases "rv_state r = ''DISMISSED''"; cases "rv_state r = ''COMMENTED''"; cases "rv_state r = ''PENDING''")
    (simp_all add: review_step_def decisive_def map_of_map_set)

lemma fold_review_steps:
  "map_of (fold review_step rs []) who =
     (if filter (decisive who) rs = [] \<or> rv_state (last (filter (decisive who) rs)) = ''DISMISSED'' then None
      else Some (last (filter (decisive who) rs)))"
proof (induction rs rule: rev_induct)
  case (snoc r rs)
  then show ?case by (cases "decisive who r") (simp_all add: map_of_review_step)
qed simp

lemma fold_reviews_distinct: "distinct (map fst m) \<Longrightarrow> distinct (map fst (fold review_step rs m))"
proof (induction rs arbitrary: m)
  case (Cons r rs)
  have "distinct (map fst (review_step r m))"
    using Cons.prems by (auto simp: review_step_def distinct_map_set distinct_map_remove split: option.split)
  then show ?case using Cons.IH by simp
qed simp

lemma reviewers_with_iff:
  "who \<in> set (reviewers_with st (fold review_step rs [])) \<longleftrightarrow>
     (\<exists>r. map_of (fold review_step rs []) who = Some r \<and> rv_state r = st)"
  using map_of_eq_Some_iff [OF fold_reviews_distinct [of "[]" rs]] by (force simp: reviewers_with_def)

end
