(* ===== verification/Registry.thy ===== *)
theory Registry
  imports StageSupport RequiredChecks
begin

text \<open>
  The trusted mapping from repository names to local clones
  (\<open>src/workspaces/repository-registry.ts\<close>). Canonical paths and directory tests are arguments.
\<close>

record registered_repository =
  ry_name :: string
  ry_path :: string
  ry_github :: string
  ry_remote :: string
  ry_baseBranch :: string

record registry =
  ry_root :: string
  ry_entries :: "(string \<times> registered_repository) list"

text \<open>\<open>isInside\<close> on canonical absolute paths: the names of the parent are a proper beginning of the child's.\<close>

definition path_names :: "string \<Rightarrow> string list" where
  "path_names p = filter (\<lambda>n. n \<noteq> []) (split_on CHR ''/'' p)"

definition is_inside :: "string \<Rightarrow> string \<Rightarrow> bool" where
  "is_inside parent child =
     (let p = path_names parent; c = path_names child in length p < length c \<and> take (length p) c = p)"

definition overlap :: "string \<Rightarrow> string \<Rightarrow> bool" where
  "overlap a b = (a = b \<or> is_inside a b \<or> is_inside b a)"

definition register :: "(string \<Rightarrow> string option) \<Rightarrow> (string \<Rightarrow> bool) \<Rightarrow> string \<Rightarrow> string \<times> repository_config
    \<Rightarrow> (string \<times> registered_repository) list \<Rightarrow> (orch_error, (string \<times> registered_repository) list) result" where
  "register realpath isDirectory wsroot e done =
     (let name = fst e; entry = snd e in
      case realpath (rc_path entry) of
        None \<Rightarrow> Inl (PlainError (''Repository '' @ name @ '' path does not exist: '' @ rc_path entry))
      | Some path \<Rightarrow>
          if \<not> isDirectory path
          then Inl (PlainError (''Repository '' @ name @ '' path is not a directory: '' @ rc_path entry))
          else if overlap path wsroot
          then Inl (PlainError (''Repository '' @ name @ '' path must not overlap the workspace root''))
          else (case find (\<lambda>other. overlap (ry_path other) path) (map snd done) of
              Some other \<Rightarrow> Inl (PlainError (''Repository '' @ name @ '' path overlaps repository '' @ ry_name other))
            | None \<Rightarrow> Inr (map_set name \<lparr>ry_name = name, ry_path = path, ry_github = lower (rc_github entry),
                ry_remote = rc_remote entry, ry_baseBranch = rc_baseBranch entry\<rparr> done)))"

definition load_registry :: "(string \<Rightarrow> string option) \<Rightarrow> (string \<Rightarrow> bool) \<Rightarrow> config \<Rightarrow> (orch_error, registry) result" where
  "load_registry realpath isDirectory c =
     (case c_workspace c of
        None \<Rightarrow> Inl (PlainError ''workspace configuration is required'')
      | Some w \<Rightarrow> (case realpath (wk_root w) of
            None \<Rightarrow> Inl (PlainError (''ENOENT: '' @ wk_root w))
          | Some wsroot \<Rightarrow> and_then (fold_result (register realpath isDirectory wsroot) (c_repositories c) [])
              (\<lambda>rs. Inr \<lparr>ry_root = wsroot, ry_entries = rs\<rparr>)))"

definition registry_names :: "registry \<Rightarrow> string list" where
  "registry_names r = map fst (ry_entries r)"

definition registry_get :: "registry \<Rightarrow> string \<Rightarrow> (orch_error, registered_repository) result" where
  "registry_get r name =
     (case map_of (ry_entries r) name of
        None \<Rightarrow> Inl (WorkspaceBlockedError (''Repository '' @ name @ '' is not in the repository registry''))
      | Some e \<Rightarrow> Inr e)"

definition registry_task_directory :: "registry \<Rightarrow> task_id \<Rightarrow> (orch_error, string) result" where
  "registry_task_directory r tid =
     (if task_id_ok tid then Inr (ry_root r @ ''/'' @ tid)
      else Inl (WorkspaceBlockedError (''Invalid task id for workspace path: '' @ tid)))"

definition worktree_path :: "registry \<Rightarrow> task_id \<Rightarrow> string \<Rightarrow> (orch_error, string) result" where
  "worktree_path r tid name =
     (if \<not> task_id_ok tid then Inl (WorkspaceBlockedError (''Invalid task id for workspace path: '' @ tid))
      else and_then (registry_get r name) (\<lambda>_.
        let path = ry_root r @ ''/'' @ tid @ ''/'' @ name in
        if is_inside (ry_root r) path then Inr path
        else Inl (WorkspaceBlockedError ''Workspace path escapes the workspace root'')))"

section \<open>No two registered clones overlap\<close>

lemma overlap_sym: "overlap a b = overlap b a"
  by (auto simp: overlap_def)

definition registry_ok :: "string \<Rightarrow> (string \<times> registered_repository) list \<Rightarrow> bool" where
  "registry_ok wsroot rs \<longleftrightarrow> distinct (map fst rs) \<and> (\<forall>(n, e) \<in> set rs. ry_name e = n \<and> \<not> overlap (ry_path e) wsroot)
     \<and> (\<forall>(n, e) \<in> set rs. \<forall>(n', e') \<in> set rs. n \<noteq> n' \<longrightarrow> \<not> overlap (ry_path e) (ry_path e'))"

lemma map_set_new: "k \<notin> fst ` set m \<Longrightarrow> map_set k v m = m @ [(k, v)]"
  by (induction m) auto

lemma register_ok:
  assumes "register realpath isDirectory wsroot (n, entry) rs = Inr rs'" and "registry_ok wsroot rs" and "n \<notin> fst ` set rs"
  shows "registry_ok wsroot rs' \<and> fst ` set rs' = insert n (fst ` set rs)"
proof -
  from assms(1) obtain path where path: "\<not> overlap path wsroot" "find (\<lambda>other. overlap (ry_path other) path) (map snd rs) = None"
    and rs': "rs' = rs @ [(n, \<lparr>ry_name = n, ry_path = path, ry_github = lower (rc_github entry),
       ry_remote = rc_remote entry, ry_baseBranch = rc_baseBranch entry\<rparr>)]"
    by (auto simp: register_def Let_def map_set_new [OF assms(3)] split: option.splits if_splits)
  have free: "\<not> overlap (ry_path e) path" if "(m, e) \<in> set rs" for m e
    using path(2) that by (force simp: find_None_iff)
  have free': "\<not> overlap path (ry_path e)" if "(m, e) \<in> set rs" for m e
    using free [OF that] by (simp add: overlap_sym)
  show ?thesis using assms(2,3) path(1) free free' unfolding registry_ok_def rs' by (fastforce simp: image_iff)
qed

lemma registers_ok:
  assumes "fold_result (register realpath isDirectory wsroot) es rs = Inr rs'" and "registry_ok wsroot rs"
    and "distinct (map fst es)" and "fst ` set es \<inter> fst ` set rs = {}"
  shows "registry_ok wsroot rs'"
  using assms
proof (induction es arbitrary: rs)
  case (Cons e es)
  obtain n entry where e: "e = (n, entry)" by (cases e)
  from Cons.prems(1) obtain mid where mid: "register realpath isDirectory wsroot (n, entry) rs = Inr mid"
      "fold_result (register realpath isDirectory wsroot) es mid = Inr rs'"
    by (auto simp: e result_simps)
  have "registry_ok wsroot mid" and "fst ` set mid = insert n (fst ` set rs)"
    using register_ok [OF mid(1)] Cons.prems by (auto simp: e)
  then show ?case using Cons.IH [OF mid(2)] Cons.prems by (auto simp: e)
qed simp

lemma load_registry_ok:
  assumes "load_registry realpath isDirectory c = Inr r" and "distinct (map fst (c_repositories c))"
  shows "registry_ok (ry_root r) (ry_entries r)"
  using assms registers_ok [of realpath isDirectory _ "c_repositories c" "[]"]
  by (auto simp: load_registry_def result_simps registry_ok_def [of _ "[]"] split: option.splits)

text \<open>Worktree paths lie under the root, and tell tasks and repositories apart.\<close>

lemma worktree_path_inside: "worktree_path r tid name = Inr p \<Longrightarrow> is_inside (ry_root r) p"
  by (auto simp: worktree_path_def result_simps Let_def split: if_splits)

lemma task_id_no_slash: "task_id_ok tid \<Longrightarrow> CHR ''/'' \<notin> set tid"
proof -
  have mem: "c \<in> set (join ''-'' ws) \<Longrightarrow> c = CHR ''-'' \<or> (\<exists>w \<in> set ws. c \<in> set w)" for c ws
    by (induction "''-''" ws rule: join.induct) auto
  assume "task_id_ok tid"
  moreover have "\<not> hex_char CHR ''/''" by code_simp
  ultimately show ?thesis using mem [of "CHR ''/''" "split_on CHR ''-'' tid"] join_split [of "CHR ''-''" tid]
    by (auto simp: task_id_ok_def Let_def list_all_iff)
qed

lemma worktree_path_inject:
  assumes "worktree_path r tid name = Inr p" and "worktree_path r tid' name' = Inr p"
  shows "tid = tid' \<and> name = name'"
proof -
  have "tid @ ''/'' @ name = tid' @ ''/'' @ name'" and "task_id_ok tid" and "task_id_ok tid'"
    using assms by (auto simp: worktree_path_def result_simps Let_def split: if_splits)
  then show ?thesis
    using first_separator [OF task_id_no_slash [of tid] task_id_no_slash [of tid'], of name name'] by simp
qed

end
