(* ===== verification/DeliverySupport.thy ===== *)
theory DeliverySupport
  imports Registry RequiredChecks
begin

text \<open>
  What the delivery stages share (\<open>src/delivery/delivery-support.ts\<close>): their dependencies, the mapping
  of errors to outcomes, side effects under a durable intent record, text shown on GitHub and Linear.
  The GitHub and Linear clients and the remote operations of the workspace manager are fields of the
  dependencies.
\<close>

section \<open>Dependencies\<close>

datatype remote_branch = BranchAbsent | AtCommit string | ContainsCommit string | BranchDiverged string

record attachment_link =
  al_url :: string
  al_title :: string
  al_subtitle :: string

record 'x delivery_services =
  gh_repository :: "string \<Rightarrow> ('x, github_repository) outside_call"
  gh_policy :: "string \<Rightarrow> string \<Rightarrow> ('x, branch_policy) outside_call"
  gh_find :: "string \<Rightarrow> string \<Rightarrow> ('x, pull_request list) outside_call"
  gh_create :: "string \<Rightarrow> pull_request_input \<Rightarrow> ('x, pull_request) outside_call"
  gh_get :: "string \<Rightarrow> int \<Rightarrow> ('x, pull_request) outside_call"
  gh_checks :: "string \<Rightarrow> string \<Rightarrow> ('x, check_report list) outside_call"
  gh_reviews :: "string \<Rightarrow> int \<Rightarrow> ('x, review_report list) outside_call"
  gh_compare :: "string \<Rightarrow> string \<Rightarrow> string \<Rightarrow> ('x, commit_comparison) outside_call"
  lin_comments :: "string \<Rightarrow> ('x, (string \<times> string) list) outside_call"
  lin_comment :: "string \<Rightarrow> string \<Rightarrow> ('x, string) outside_call"
  lin_attach :: "string \<Rightarrow> attachment_link \<Rightarrow> ('x, string) outside_call"
  ws_push :: "task_workspace \<Rightarrow> string \<Rightarrow> ('x, remote_branch) outside_call"
  ws_inspect :: "task_workspace \<Rightarrow> string \<Rightarrow> ('x, remote_branch) outside_call"
  ws_log :: "string \<Rightarrow> string \<Rightarrow> string \<Rightarrow> ('x, string) outside_call"
  ws_range :: "string \<Rightarrow> string \<Rightarrow> string \<Rightarrow> ('x, string \<times> string \<times> string) outside_call"
  js_iso :: "time \<Rightarrow> string"
  js_time :: "string \<Rightarrow> time option"

record 'x delivery_deps =
  dd_exec :: "'x deps"
  dd_delivery :: delivery_config
  dd_author :: "string \<times> string"
  dd_registry :: registry
  dd_services :: "'x delivery_services"

section \<open>Errors\<close>

definition manual_delivery :: "string \<Rightarrow> string \<Rightarrow> stage_outcome" where
  "manual_delivery message reason = manual_intervention message reason"

definition delivery_needs_operator :: "string \<Rightarrow> stage_outcome" where
  "delivery_needs_operator message = manual_delivery message ''Delivery requires manual intervention''"

definition retry_at :: "'x delivery_deps \<Rightarrow> time \<Rightarrow> time option \<Rightarrow> time" where
  "retry_at dd now hint =
     (let fallback = now + dl_retryIntervalSeconds (dd_delivery dd) * 1000 in
      case hint of None \<Rightarrow> fallback | Some h \<Rightarrow> if now < h then h else fallback)"

text \<open>Left: the error is thrown again. The clock is read at \<open>now\<close>.\<close>

definition classify_delivery_error ::
  "'x delivery_deps \<Rightarrow> time \<Rightarrow> orch_error \<Rightarrow> (orch_error, stage_outcome \<times> failure_category) result" where
  "classify_delivery_error dd now e =
     (let message = redact_secrets (xd_knownSecrets (dd_exec dd)) (error_message e);
          wait = (\<lambda>hint reason. Wait (retry_at dd now hint) reason (Some (Some message))) in
      case e of
        GitHubRequestError _ kind _ retryAfter \<Rightarrow>
          (case kind of
             Transient \<Rightarrow> Inr (wait retryAfter ''GitHub unavailable'', CatProviderUnavailable)
           | RateLimited \<Rightarrow> Inr (wait retryAfter ''GitHub rate limit'', CatRateLimit)
           | _ \<Rightarrow> Inr (manual_delivery message ''GitHub rejected a delivery request'', CatProviderRejected))
      | RemoteUnavailableError _ \<Rightarrow> Inr (wait None ''Git remote unavailable'', CatProviderUnavailable)
      | LinearSyncError _ _ \<Rightarrow> Inr (wait None ''Linear unavailable'', CatLinearUnavailable)
      | WorkspaceBlockedError _ \<Rightarrow> Inr (delivery_needs_operator message, CatWorkspaceIntegrity)
      | _ \<Rightarrow> Inl e)"

section \<open>Side effects under an intent record\<close>

definition digest :: "'x deps \<Rightarrow> json \<Rightarrow> string" where
  "digest x j = take 16 (sx_sha256 (xd_services x) (stable_json (sx_localeLe (xd_services x)) j))"

datatype previous_effect = PreviousPending | PreviousNew

definition idempotent_operation ::
  "'x delivery_deps \<Rightarrow> task_row \<Rightarrow> string \<Rightarrow> string \<Rightarrow> json_object \<Rightarrow> (previous_effect \<Rightarrow> ('x, json) prog)
     \<Rightarrow> ('x, json \<times> bool) prog" where
  "idempotent_operation dd task type key request effect =
     bnd (db_call (\<lambda>t d. begin_external_operation (sx_newId (xd_services (dd_exec dd)) d) t
       \<lparr>or_taskId = t_id task, or_operationType = type, or_idempotencyKey = key, or_request = JObj request\<rparr> d))
     (\<lambda>(before, created).
     if xo_taskId before \<noteq> t_id task
     then throw (WorkspaceBlockedError (''External operation '' @ key @ '' belongs to another task''))
     else if xo_status before = ''SUCCEEDED'' then return (or_else (xo_response before) (JObj []), True)
     else bnd (effect (if created then PreviousNew else PreviousPending)) (\<lambda>response.
       bnd (db_run (\<lambda>t. complete_external_operation t (xo_id before) (t_id task) (xd_workerId (dd_exec dd)) response)) (\<lambda>_.
       return (response, False))))"

section \<open>Text shown elsewhere\<close>

text \<open>
  The two characters above 255 that the code writes, U+200B and U+2026, stand as codes of the range
  that the text is stripped of first, so that they count as one character and are never in the input.
\<close>

definition zero_width :: char where "zero_width = CHR 0x80"
definition dots :: char where "dots = CHR 0x85"

definition mention_char :: "char \<Rightarrow> bool" where
  "mention_char c = (is_lower c \<or> is_upper c \<or> is_digit c \<or> c = CHR ''_'' \<or> c = CHR ''-'')"

text \<open>\<open>replace(/m(?=P)/g, 'm\u200b')\<close>.\<close>

fun break_before :: "char \<Rightarrow> (char \<Rightarrow> bool) \<Rightarrow> string \<Rightarrow> string" where
  "break_before m P [] = []"
| "break_before m P (c # cs) =
     (if c = m \<and> (case cs of [] \<Rightarrow> False | d # _ \<Rightarrow> P d) then c # zero_width # break_before m P cs
      else c # break_before m P cs)"

definition untrusted_text :: "string list \<Rightarrow> string \<Rightarrow> nat \<Rightarrow> string" where
  "untrusted_text secrets value limit =
     (let cleaned = trim (break_before CHR ''#'' is_digit (break_before CHR ''@'' mention_char
            (filter (\<lambda>c. \<not> stripped_char c) (redact_secrets secrets value)))) in
      if limit < length cleaned then take limit cleaned @ [dots] else cleaned)"

definition short_sha :: "string \<Rightarrow> string" where
  "short_sha sha = take 12 sha"

definition code_text :: "string \<Rightarrow> string" where
  "code_text s = ''`'' @ s @ ''`''"

section \<open>Linear\<close>

definition as_linear_error :: "string \<Rightarrow> ('x, 'a) prog \<Rightarrow> ('x, 'a) prog" where
  "as_linear_error operation p = attempt_code p (\<lambda>r. case r of
     Inl e \<Rightarrow> throw (LinearSyncError operation (error_message e)) | Inr a \<Rightarrow> return a)"

definition operation_key :: "task_row \<Rightarrow> string list \<Rightarrow> string" where
  "operation_key task parts = join '':'' (''kelolakelas-orchestrator'' # t_id task # parts)"

definition post_comment :: "'x delivery_services \<Rightarrow> string \<Rightarrow> string \<Rightarrow> ('x, json) prog" where
  "post_comment sv issue body = bnd (outer (lin_comment sv issue body)) (\<lambda>i.
     return (JObj [(''commentId'', JStr i), (''reconciled'', JBool False)]))"

definition sync_linear_comment :: "'x delivery_deps \<Rightarrow> task_row \<Rightarrow> string \<Rightarrow> json \<Rightarrow> string \<Rightarrow> ('x, unit) prog" where
  "sync_linear_comment dd task event identity text =
     (if \<not> dl_linearComments (dd_delivery dd) then return ()
      else let issue = t_linearIssueId task;
               key = operation_key task [event, digest (dd_exec dd) identity];
               body = paragraphs [text, ''<sub>Orchestrator event '' @ code_text key
                 @ ''. The orchestrator never merges and never changes this issue's status.</sub>''] in
        bnd (idempotent_operation dd task ''LINEAR_COMMENT'' key [(''event'', JStr event), (''issueId'', JStr issue)] (\<lambda>previous.
          as_linear_error ''comment'' (case previous of
              PreviousPending \<Rightarrow> bnd (outer (lin_comments (dd_services dd) issue)) (\<lambda>cs.
                (case find (\<lambda>(_, b). includes_text b key) cs of
                   Some (i, _) \<Rightarrow> return (JObj [(''commentId'', JStr i), (''reconciled'', JBool True)])
                 | None \<Rightarrow> post_comment (dd_services dd) issue body))
            | PreviousNew \<Rightarrow> post_comment (dd_services dd) issue body))) (\<lambda>_. return ()))"

definition sync_linear_link :: "'x delivery_deps \<Rightarrow> task_row \<Rightarrow> string \<Rightarrow> string \<Rightarrow> int \<Rightarrow> string \<Rightarrow> ('x, unit) prog" where
  "sync_linear_link dd task repo github number url =
     bnd (idempotent_operation dd task ''LINEAR_ATTACHMENT'' (operation_key task [''linear-attachment'', repo, show_int number])
       [(''url'', JStr url)] (\<lambda>_. as_linear_error ''attachment''
         (bnd (outer (lin_attach (dd_services dd) (t_linearIssueId task)
            \<lparr>al_url = url, al_title = ''Pull request #'' @ show_int number @ '' '' @ [CHR 0xB7] @ '' '' @ github,
             al_subtitle = t_linearIdentifier task @ '' '' @ [CHR 0xB7] @ '' '' @ repo @ '' '' @ [CHR 0xB7]
               @ '' KelolaKelas AI orchestrator''\<rparr>)) (\<lambda>i. return (JObj [(''attachmentId'', JStr i)]))))) (\<lambda>_. return ())"

definition notify_linear :: "'x delivery_deps \<Rightarrow> task_row \<Rightarrow> string \<Rightarrow> json \<Rightarrow> string \<Rightarrow> ('x, unit) prog" where
  "notify_linear dd task event identity text =
     attempt_code (sync_linear_comment dd task event identity text) (\<lambda>_. return ())"

section \<open>No mention, no issue reference\<close>

definition unbroken :: "char \<Rightarrow> (char \<Rightarrow> bool) \<Rightarrow> string \<Rightarrow> bool" where
  "unbroken m P s \<longleftrightarrow> (\<exists>u d v. s = u @ m # d # v \<and> P d)"

lemma unbroken_Cons: "unbroken m P (c # cs) \<longleftrightarrow> c = m \<and> (\<exists>d v. cs = d # v \<and> P d) \<or> unbroken m P cs"
  unfolding unbroken_def by (auto simp: Cons_eq_append_conv) (metis append_Cons)

lemma unbroken_Nil [simp]: "\<not> unbroken m P []"
  by (simp add: unbroken_def)

lemma hd_break: "break_before m P (c # cs) = c # tl (break_before m P (c # cs))"
  by simp

lemma break_before_breaks: "\<not> P zero_width \<Longrightarrow> m \<noteq> zero_width \<Longrightarrow> \<not> unbroken m P (break_before m P s)"
proof (induction s)
  case (Cons c cs)
  then show ?case by (cases cs) (auto simp: unbroken_Cons)
qed simp

lemma break_before_keeps:
  assumes "\<not> unbroken m P s" and "k \<noteq> m" and "\<not> P zero_width" and "m \<noteq> zero_width"
  shows "\<not> unbroken m P (break_before k Q s)"
  using assms(1)
proof (induction s)
  case (Cons c cs)
  then show ?case using assms(2-4) by (cases cs) (auto simp: unbroken_Cons)
qed simp

lemma unbroken_part: "unbroken m P s \<Longrightarrow> unbroken m P (u @ s @ v)"
  unfolding unbroken_def by (metis append.assoc append_Cons)

lemma trim_part: "\<exists>u v. s = u @ trim s @ v"
proof -
  have d: "\<exists>u. t = u @ dropWhile P t" for t :: string and P by (metis takeWhile_dropWhile_id)
  obtain u where u: "s = u @ dropWhile is_space s" using d by blast
  obtain w where "rev (dropWhile is_space s) = w @ dropWhile is_space (rev (dropWhile is_space s))" using d by blast
  then have "dropWhile is_space s = trim s @ rev w" by (metis rev_append rev_rev_ident trim_def)
  with u show ?thesis by metis
qed

lemma unbroken_snoc: "unbroken m P (s @ [c]) \<Longrightarrow> \<not> P c \<Longrightarrow> unbroken m P s"
proof (induction s)
  case (Cons a s)
  then show ?case by (cases s) (auto simp: unbroken_Cons)
qed (auto simp: unbroken_Cons)

lemma untrusted_text_unbroken:
  assumes m: "m = CHR ''@'' \<and> P = mention_char \<or> m = CHR ''#'' \<and> P = is_digit"
  shows "\<not> unbroken m P (untrusted_text secrets value limit)"
proof -
  have z: "\<not> mention_char zero_width" "\<not> is_digit zero_width" "\<not> mention_char dots" "\<not> is_digit dots"
      "CHR ''@'' \<noteq> zero_width" "CHR ''#'' \<noteq> zero_width" by code_simp+
  define kept where "kept = filter (\<lambda>c. \<not> stripped_char c) (redact_secrets secrets value)"
  define broken where "broken = break_before CHR ''#'' is_digit (break_before CHR ''@'' mention_char kept)"
  have "\<not> unbroken m P broken"
    using m z break_before_breaks break_before_keeps unfolding broken_def by auto
  then have "\<not> unbroken m P (trim broken)" using trim_part [of broken] unbroken_part by metis
  moreover have "\<not> unbroken m P (take limit (trim broken) @ [dots])"
  proof
    assume "unbroken m P (take limit (trim broken) @ [dots])"
    then have "unbroken m P (take limit (trim broken))" using unbroken_snoc m z by blast
    then have "unbroken m P ([] @ take limit (trim broken) @ drop limit (trim broken))" by (rule unbroken_part)
    with calculation show False by simp
  qed
  ultimately show ?thesis by (simp add: untrusted_text_def Let_def flip: kept_def broken_def)
qed

end
