(* ===== verification/PullRequestStage.thy ===== *)
theory PullRequestStage
  imports ChangeStages DeliverySupport
begin

text \<open>
  The state \<open>PR_CREATED\<close> (\<open>src/delivery/pull-request-stage.ts\<close>): before anything leaves the host the
  reviewed and gated commits, their authorship and the whole change are verified again; then the branch
  is pushed and one pull request per repository is created or found.
\<close>

section \<open>Texts\<close>

definition pull_request_title :: "task_row \<Rightarrow> loaded_workspaces \<Rightarrow> string list \<Rightarrow> string" where
  "pull_request_title task loaded secrets =
     untrusted_text secrets (collapse_spaces (task_identifier task loaded @ '': '' @ pi_title (lw_contract loaded))) 240"

definition quote_lines :: "string \<Rightarrow> string" where
  "quote_lines s = text_lines (map (\<lambda>l. ''> '' @ l) (split_on line_feed s))"

definition verification_section :: "string \<Rightarrow> string \<Rightarrow> string list \<Rightarrow> string list \<Rightarrow> string" where
  "verification_section base commit checks siblings = text_lines
     ([''## Orchestrator verification'', '''',
       ''- Base commit '' @ code_text (short_sha base) @ '', reviewed head '' @ code_text (short_sha commit) @ ''.'',
       ''- Repository quality checks passed on the reviewed head: ''
         @ (let cs = join '', '' (map code_text checks) in if cs = [] then ''none configured'' else cs) @ ''.'',
       ''- Every commit was written by the orchestrator after its diff policy and ownership checks.'']
      @ (if siblings = [] then [] else
         [''- The same issue also changes: '' @ join '', '' (map code_text siblings)
            @ ''. The issue is complete only when every pull request is merged.''])
      @ [''- Merging requires human review and the repository's required checks. The orchestrator never merges.''])"

definition pull_request_body ::
  "task_row \<Rightarrow> loaded_workspaces \<Rightarrow> loaded_unit \<Rightarrow> string list \<Rightarrow> string \<Rightarrow> string list \<Rightarrow> string list \<Rightarrow> string" where
  "pull_request_body task loaded u checks summary siblings secrets =
     (let text = untrusted_text secrets; contract = lw_contract loaded in
      take 60000 (paragraphs
       [''Implements Linear issue **'' @ task_identifier task loaded @ ''** in '' @ code_text (lu_repository u) @ ''.'',
        paragraphs [''## Goal'', quote_lines (text (ib_goal (pi_body contract)) 2000)],
        paragraphs [''## Acceptance criteria'',
          text_lines (map (\<lambda>c. ''- '' @ text c 500) (ib_acceptanceCriteria (pi_body contract)))],
        paragraphs [''## Automated review'', quote_lines (text summary 2000)],
        verification_section (tw_baseCommit (lu_workspace u)) (lu_head u) checks siblings,
        ''<!-- kelolakelas-ai-orchestrator task='' @ t_id task @ '' repository='' @ lu_repository u @ '' -->'']))"

section \<open>Preconditions\<close>

text \<open>A failed precondition is an error whose message may be shown.\<close>

definition reject_if :: "bool \<Rightarrow> string \<Rightarrow> ('x, unit) prog" where
  "reject_if b message = (if b then throw (DeliveryRejectedError message) else return ())"

definition verify_repository_access :: "'x delivery_deps \<Rightarrow> registered_repository \<Rightarrow> ('x, unit) prog" where
  "verify_repository_access dd r =
     bnd (outer (gh_repository (dd_services dd) (ry_github r))) (\<lambda>m.
     bnd (reject_if (gr_fullName m \<noteq> ry_github r)
       (''GitHub reports '' @ gr_fullName m @ '' for registered repository '' @ ry_github r)) (\<lambda>_.
     bnd (reject_if (gr_archived m) (''GitHub repository '' @ ry_github r @ '' is archived'')) (\<lambda>_.
     reject_if (gr_canPush m = Some False)
       (''GitHub reports no push permission on '' @ ry_github r @ '' for the orchestrator token''))))"

definition commit_objection :: "string \<times> string \<Rightarrow> task_id \<Rightarrow> string \<Rightarrow> range_commit \<Rightarrow> string option" where
  "commit_objection author tid repo c =
     (let about = ''Commit '' @ short_sha (rc_sha c) @ '' in '' @ repo in
      if rc_authorEmail c \<noteq> snd author \<or> rc_authorName c \<noteq> fst author
      then Some (about @ '' was not authored by the orchestrator'')
      else if length (rc_parents c) \<noteq> 1 then Some (about @ '' is a merge commit'')
      else if rc_taskTrailers c \<noteq> [tid] then Some (about @ '' does not carry this task's trailer'')
      else None)"

definition cumulative :: "violation_rule \<Rightarrow> bool" where
  "cumulative r = (r \<in> {ForbiddenPath, GeneratedPath, Symlink, Submodule, BinaryFile, SecretFound})"

definition cumulative_violations :: "'x deps \<Rightarrow> repository_changes \<Rightarrow> diff_violation list" where
  "cumulative_violations x changes =
     filter (\<lambda>v. cumulative (dv_rule v)) (fst (evaluate_changes \<lparr>di_changes = [changes], di_policy = ag_diffPolicy (xd_agents x),
       di_required = [], di_plannedPaths = [], di_knownSecrets = xd_knownSecrets x\<rparr>))"

definition verify_branch_content :: "'x delivery_deps \<Rightarrow> task_row \<Rightarrow> loaded_unit \<Rightarrow> ('x, unit) prog" where
  "verify_branch_content dd task u =
     (let x = dd_exec dd; repo = lu_repository u; base = tw_baseCommit (lu_workspace u);
          limit = dp_maxChangedLines (ag_diffPolicy (xd_agents x)) in
      bnd (reject_if (lu_head u = base) (repo @ '' has no commits to deliver'')) (\<lambda>_.
      bnd (outer (ws_log (dd_services dd) (lu_path u) base (lu_head u))) (\<lambda>output.
      bnd (case find (\<lambda>c. commit_objection (dd_author dd) (t_id task) repo c \<noteq> None) (parse_commits output) of
             Some c \<Rightarrow> throw (DeliveryRejectedError (the (commit_objection (dd_author dd) (t_id task) repo c)))
           | None \<Rightarrow> return ()) (\<lambda>_.
      bnd (outer (ws_range (dd_services dd) (lu_path u) base (lu_head u))) (\<lambda>(raw, numstat, patch).
      let changes = collect_changes repo raw numstat patch limit; violations = cumulative_violations x changes in
      bnd (reject_if (rg_patchSkipped changes)
        (''The change in '' @ repo @ '' exceeds '' @ show_int limit @ '' lines and cannot be re-inspected'')) (\<lambda>_.
      reject_if (violations \<noteq> [])
        (''Branch content in '' @ repo @ '' violates the diff policy: '' @ describe_violations violations 20)))))))"

section \<open>The push\<close>

fun enc_remote :: "remote_branch \<Rightarrow> json" where
  "enc_remote BranchAbsent = JObj [(''state'', JStr ''absent''), (''remoteHead'', JNull)]"
| "enc_remote (AtCommit h) = JObj [(''state'', JStr ''at-commit''), (''remoteHead'', JStr h)]"
| "enc_remote (ContainsCommit h) = JObj [(''state'', JStr ''contains-commit''), (''remoteHead'', JStr h)]"
| "enc_remote (BranchDiverged h) = JObj [(''state'', JStr ''diverged''), (''remoteHead'', JStr h)]"

definition push_branch :: "'x delivery_deps \<Rightarrow> task_row \<Rightarrow> loaded_unit \<Rightarrow> ('x, unit) prog" where
  "push_branch dd task u =
     (let w = lu_workspace u; repo = lu_repository u in
      bnd (idempotent_operation dd task ''GIT_PUSH'' (operation_key task [''git-push'', repo, lu_head u])
            [(''repository'', JStr repo), (''branch'', JStr (tw_branch w)), (''commit'', JStr (lu_head u))]
            (\<lambda>_. bnd (outer (ws_push (dd_services dd) w (lu_head u))) (\<lambda>s. return (enc_remote s)))) (\<lambda>_.
      bnd (outer (ws_inspect (dd_services dd) w (lu_head u))) (\<lambda>s. case s of
          BranchAbsent \<Rightarrow> throw (DeliveryRejectedError (''Remote branch '' @ tw_branch w @ '' of '' @ repo
            @ '' was deleted after it was pushed''))
        | BranchDiverged _ \<Rightarrow> throw (DeliveryRejectedError (''Remote branch '' @ tw_branch w @ '' of '' @ repo
            @ '' no longer contains the reviewed commit; it was force-pushed or replaced''))
        | _ \<Rightarrow> return ())))"

section \<open>The pull request\<close>

definition pull_request_objection ::
  "loaded_unit \<Rightarrow> registered_repository \<Rightarrow> pull_request \<Rightarrow> int option \<Rightarrow> string option" where
  "pull_request_objection u r p recorded =
     (let about = ''Pull request #'' @ show_int (pu_number p); repo = lu_repository u;
          branch = tw_branch (lu_workspace u) in
      if recorded \<notin> {None, Some (pu_number p)}
      then Some (about @ '' for '' @ repo @ '' replaced recorded pull request #'' @ show_int (the recorded))
      else if pu_headRepository p \<noteq> Some (ry_github r) \<or> pu_headRef p \<noteq> branch
      then Some (about @ '' does not come from '' @ ry_github r @ '':'' @ branch)
      else if pu_baseRef p \<noteq> ry_baseBranch r
      then Some (about @ '' for '' @ repo @ '' targets '' @ pu_baseRef p @ '', not '' @ ry_baseBranch r)
      else None)"

definition verify_pull_request ::
  "loaded_unit \<Rightarrow> registered_repository \<Rightarrow> pull_request \<Rightarrow> int option \<Rightarrow> ('x, unit) prog" where
  "verify_pull_request u r p recorded = (case pull_request_objection u r p recorded of
     Some m \<Rightarrow> throw (DeliveryRejectedError m) | None \<Rightarrow> return ())"

definition still_contains :: "commit_comparison \<Rightarrow> bool" where
  "still_contains c = (c = AheadOf \<or> c = IdenticalTo)"

definition reconcile_pull_request ::
  "'x delivery_deps \<Rightarrow> loaded_unit \<Rightarrow> registered_repository \<Rightarrow> int option \<Rightarrow> ('x, pull_request option) prog" where
  "reconcile_pull_request dd u r recorded =
     (let branch = tw_branch (lu_workspace u); repo = lu_repository u in
      bnd (outer (gh_find (dd_services dd) (ry_github r) branch)) (\<lambda>ps.
      let open' = filter pu_open ps; merged = filter pu_merged ps in
      bnd (reject_if (1 < length open') (''Branch '' @ branch @ '' of '' @ repo @ '' has '' @ show_nat (length open')
        @ '' open pull requests'')) (\<lambda>_.
      case (open', merged) of
        ([], []) \<Rightarrow>
          (case ps of
             p # _ \<Rightarrow> throw (DeliveryRejectedError (''Pull request #'' @ show_int (pu_number p) @ '' for '' @ repo
               @ '' was closed without merging; reopen it or cancel the task''))
           | [] \<Rightarrow> (case recorded of
               Some n \<Rightarrow> throw (DeliveryRejectedError (''Recorded pull request #'' @ show_int n @ '' for '' @ repo
                 @ '' is no longer found for branch '' @ branch))
             | None \<Rightarrow> return None))
      | ([], _ # _ # _) \<Rightarrow> throw (DeliveryRejectedError (''Branch '' @ branch @ '' of '' @ repo
          @ '' has several merged pull requests''))
      | _ \<Rightarrow> let p = hd (open' @ merged) in
          bnd (verify_pull_request u r p recorded) (\<lambda>_.
          if pu_headSha p = lu_head u then return (Some p)
          else bnd (outer (gh_compare (dd_services dd) (ry_github r) (lu_head u) (pu_headSha p))) (\<lambda>relation.
            bnd (reject_if (\<not> still_contains relation) (''Pull request #'' @ show_int (pu_number p) @ '' for '' @ repo
              @ '' no longer contains the reviewed commit '' @ short_sha (lu_head u))) (\<lambda>_.
            return (Some p)))))))"

text \<open>\<open>String(value)\<close> of a stored response field.\<close>

fun string_of :: "json option \<Rightarrow> string" where
  "string_of None = ''undefined''"
| "string_of (Some (JNum n)) = show_int n"
| "string_of (Some (JStr s)) = s"
| "string_of (Some (JBool b)) = (if b then ''true'' else ''false'')"
| "string_of (Some JNull) = ''null''"
| "string_of (Some _) = ''[object Object]''"

definition response_field :: "json \<Rightarrow> string \<Rightarrow> json option" where
  "response_field j k = Option.bind (open_object j) (\<lambda>o'. map_of o' k)"

definition pull_request_operation ::
  "'x delivery_deps \<Rightarrow> task_row \<Rightarrow> loaded_unit \<Rightarrow> registered_repository \<Rightarrow> ('x, json) prog \<Rightarrow> ('x, json \<times> bool) prog" where
  "pull_request_operation dd task u r effect =
     idempotent_operation dd task ''GITHUB_PULL_REQUEST'' (operation_key task [''github-pull-request'', lu_repository u])
       [(''repository'', JStr (ry_github r)), (''head'', JStr (tw_branch (lu_workspace u))),
        (''base'', JStr (ry_baseBranch r))] (\<lambda>_. effect)"

definition pull_request_response :: "pull_request \<Rightarrow> bool \<Rightarrow> json" where
  "pull_request_response p reconciled = JObj [(''number'', JNum (pu_number p)), (''url'', JStr (pu_url p)),
     (''reconciled'', JBool reconciled)]"

definition create_pull_request ::
  "'x delivery_deps \<Rightarrow> task_row \<Rightarrow> loaded_workspaces \<Rightarrow> loaded_unit \<Rightarrow> registered_repository \<Rightarrow> string \<Rightarrow> ('x, json) prog" where
  "create_pull_request dd task loaded u r summary =
     (let x = dd_exec dd; secrets = xd_knownSecrets x;
          checks = (case map_of (c_repositories (xd_config x)) (ry_name r) of
              None \<Rightarrow> [] | Some c \<Rightarrow> map qc_name (ql_checks (rc_quality c)));
          siblings = filter (\<lambda>n. n \<noteq> lu_repository u) (map lu_repository (lw_units loaded)) in
      bnd (outer (gh_create (dd_services dd) (ry_github r)
        \<lparr>pi_prTitle = pull_request_title task loaded secrets, pi_prHead = tw_branch (lu_workspace u),
         pi_prBase = ry_baseBranch r, pi_prBody = pull_request_body task loaded u checks summary siblings secrets,
         pi_prDraft = dl_draftPullRequests (dd_delivery dd)\<rparr>)) (\<lambda>p.
      return (pull_request_response p False)))"

text \<open>A second open pull request is refused by GitHub; the refusal is retried later.\<close>

definition refusal_is_transient :: "('x, 'a) prog \<Rightarrow> ('x, 'a) prog" where
  "refusal_is_transient p = attempt_code p (\<lambda>r. case r of
     Inl e \<Rightarrow> (case e of
         GitHubRequestError m k (Some status) retry \<Rightarrow>
           if status = 422 \<and> contains_ci m ''already exists'' then throw (GitHubRequestError m Transient (Some status) None)
           else throw e
       | _ \<Rightarrow> throw e)
   | Inr a \<Rightarrow> return a)"

definition ensure_pull_request ::
  "'x delivery_deps \<Rightarrow> task_row \<Rightarrow> loaded_workspaces \<Rightarrow> loaded_unit \<Rightarrow> registered_repository \<Rightarrow> string
     \<Rightarrow> ('x, pull_request) prog" where
  "ensure_pull_request dd task loaded u r summary =
     bnd (db_read (get_work_units (t_id task))) (\<lambda>units.
     let recorded = Option.bind (find (\<lambda>w. wu_repository w = lu_repository u) units) wu_pullRequestNumber in
     bnd (reconcile_pull_request dd u r recorded) (\<lambda>found.
     case found of
       Some p \<Rightarrow> bnd (pull_request_operation dd task u r (return (pull_request_response p True))) (\<lambda>_. return p)
     | None \<Rightarrow>
       bnd (refusal_is_transient (pull_request_operation dd task u r (create_pull_request dd task loaded u r summary)))
         (\<lambda>(response, repeated).
       bnd (reject_if repeated (''Pull request #'' @ string_of (response_field response ''number'') @ '' recorded for ''
         @ lu_repository u @ '' is no longer found for branch '' @ tw_branch (lu_workspace u))) (\<lambda>_.
       bnd (outer (gh_get (dd_services dd) (ry_github r)
         (or_else (Option.bind (response_field response ''number'') dec_int) 0))) (\<lambda>p.
       bnd (verify_pull_request u r p recorded) (\<lambda>_. return p))))))"

section \<open>The stage\<close>

record delivered_pull_request =
  dp_repository :: string
  dp_github :: string
  dp_number :: int
  dp_url :: string
  dp_head :: string

definition record_delivery :: "'x delivery_deps \<Rightarrow> task_row \<Rightarrow> string \<Rightarrow> delivery_update \<Rightarrow> ('x, work_unit_row) prog" where
  "record_delivery dd task repo v = db_call (\<lambda>t. record_work_unit_delivery t (t_id task) (xd_workerId (dd_exec dd)) repo v)"

text \<open>From the push on.\<close>

definition publish_unit ::
  "'x delivery_deps \<Rightarrow> task_row \<Rightarrow> loaded_workspaces \<Rightarrow> string \<Rightarrow> loaded_unit \<Rightarrow> registered_repository
     \<Rightarrow> ('x, delivered_pull_request) prog" where
  "publish_unit dd task loaded summary u r =
     (let repo = lu_repository u in
      bnd (push_branch dd task u) (\<lambda>_.
      bnd (record_delivery dd task repo (no_update\<lparr>du_pushedCommit := Some (lu_head u), du_state := Some PR_CREATED,
             du_outcome := Some ''Reviewed branch pushed''\<rparr>)) (\<lambda>_.
      bnd (ensure_pull_request dd task loaded u r summary) (\<lambda>p.
      bnd (record_delivery dd task repo (no_update\<lparr>du_state := Some PR_CREATED,
             du_outcome := Some (''Pull request #'' @ show_int (pu_number p) @ '' open''),
             du_pullRequest := Some (pu_number p, pu_url p)\<rparr>)) (\<lambda>_.
      bnd (sync_linear_link dd task repo (ry_github r) (pu_number p) (pu_url p)) (\<lambda>_.
      return \<lparr>dp_repository = repo, dp_github = ry_github r, dp_number = pu_number p, dp_url = pu_url p,
              dp_head = lu_head u\<rparr>))))))"

definition deliver_unit ::
  "'x delivery_deps \<Rightarrow> task_row \<Rightarrow> loaded_workspaces \<Rightarrow> string \<Rightarrow> loaded_unit \<Rightarrow> ('x, delivered_pull_request) prog" where
  "deliver_unit dd task loaded summary u =
     bnd (lift_result (registry_get (dd_registry dd) (lu_repository u))) (\<lambda>r.
     bnd (verify_repository_access dd r) (\<lambda>_.
     bnd (verify_branch_content dd task u) (\<lambda>_.
     publish_unit dd task loaded summary u r)))"

definition deliver_step ::
  "'x delivery_deps \<Rightarrow> task_row \<Rightarrow> loaded_workspaces \<Rightarrow> string \<Rightarrow> loaded_unit \<Rightarrow> delivered_pull_request list
     \<Rightarrow> ('x, stage_outcome + delivered_pull_request list) prog" where
  "deliver_step dd task loaded summary u done =
     bnd abort_signal (\<lambda>signal.
     if signal \<noteq> None then return (Inl Interrupted)
     else bnd (deliver_unit dd task loaded summary u) (\<lambda>p. return (Inr (done @ [p]))))"

definition opened_comment :: "delivered_pull_request list \<Rightarrow> string" where
  "opened_comment ps = text_lines
     ([''**Pull requests opened** by the KelolaKelas AI orchestrator.'', '''']
      @ map (\<lambda>p. ''- '' @ code_text (dp_repository p) @ '': ['' @ dp_github p @ ''#'' @ show_int (dp_number p) @ '']('' @ dp_url p
          @ '') at '' @ code_text (short_sha (dp_head p))) ps
      @ ['''', ''Required checks and human review are pending.''])"

definition enc_delivered :: "delivered_pull_request \<Rightarrow> json" where
  "enc_delivered p = JObj [(''repository'', JStr (dp_repository p)), (''github'', JStr (dp_github p)),
     (''number'', JNum (dp_number p)), (''url'', JStr (dp_url p)), (''head'', JStr (dp_head p))]"

definition finish_delivery ::
  "'x delivery_deps \<Rightarrow> task_row \<Rightarrow> loaded_workspaces \<Rightarrow> int \<Rightarrow> delivered_pull_request list \<Rightarrow> ('x, stage_outcome) prog" where
  "finish_delivery dd task loaded scope ps =
     bnd (sync_linear_comment dd task ''pull-requests-opened'' (enc_heads (lw_heads loaded)) (opened_comment ps)) (\<lambda>_.
     bnd (end_attempt task scope None None (Some (JObj [(''pullRequests'', JArr (map enc_delivered ps))])) None) (\<lambda>_.
     return (Advance ((advance WAITING_CI (''Pull requests open: ''
       @ join '', '' (map (\<lambda>p. dp_repository p @ ''#'' @ show_int (dp_number p)) ps))) \<lparr>adv_lastError := Some None\<rparr>))))"

definition end_if_started :: "task_row \<Rightarrow> int option \<Rightarrow> failure_category \<Rightarrow> json \<Rightarrow> ('x, unit) prog" where
  "end_if_started task scope category detail = (case scope of
     None \<Rightarrow> return ()
   | Some n \<Rightarrow> end_attempt task n (Some category) None (Some (JObj [(''detail'', detail)])) None)"

definition delivery_blocked_comment :: "string list \<Rightarrow> string \<Rightarrow> string" where
  "delivery_blocked_comment secrets message =
     paragraphs [''**Delivery blocked**; manual intervention required.'', untrusted_text secrets message 1000]"

definition on_delivery_error :: "'x delivery_deps \<Rightarrow> task_row \<Rightarrow> int option \<Rightarrow> orch_error \<Rightarrow> ('x, stage_outcome) prog" where
  "on_delivery_error dd task scope e =
     (case e of
        DeliveryRejectedError m \<Rightarrow>
          bnd (end_if_started task scope CatDeliveryRejected (JStr m)) (\<lambda>_.
          bnd (notify_linear dd task ''delivery-blocked'' (JStr m)
                 (delivery_blocked_comment (xd_knownSecrets (dd_exec dd)) m)) (\<lambda>_.
          return (delivery_needs_operator m)))
      | _ \<Rightarrow>
          bnd clock_now (\<lambda>now.
          bnd (lift_result (classify_delivery_error dd now e)) (\<lambda>(outcome, category).
          bnd (case outcome of
                 Wait _ _ _ \<Rightarrow> return ()
               | Advance a \<Rightarrow> end_if_started task scope category (enc_nullable (Option.bind (adv_lastError a) id))
               | _ \<Rightarrow> end_if_started task scope category JNull) (\<lambda>_.
          return outcome))))"

definition catching :: "('x, 'a) prog \<Rightarrow> (orch_error \<Rightarrow> ('x, 'b) prog) \<Rightarrow> ('a \<Rightarrow> ('x, 'b) prog) \<Rightarrow> ('x, 'b) prog" where
  "catching p h k = attempt_code p (\<lambda>r. case r of Inl e \<Rightarrow> h e | Inr a \<Rightarrow> k a)"

text \<open>Up to the attempt: nothing is delivered without a review and passed gates for the current commits.\<close>

definition delivery_preconditions ::
  "'x delivery_deps \<Rightarrow> task_row \<Rightarrow> ('x, stage_outcome + loaded_workspaces \<times> string \<times> int) prog" where
  "delivery_preconditions dd task =
     (let x = dd_exec dd in
      bnd (load_task_workspaces x task) (\<lambda>loaded.
      bnd (read_checkpoint task review_key dec_review_approved) (\<lambda>approved.
      bnd (read_checkpoint task quality_key dec_quality_passed) (\<lambda>passed.
      case (approved, passed) of
        (Some (reviewed, _, summary), Some (gated, _)) \<Rightarrow>
          if same_heads x reviewed (lw_heads loaded) \<and> same_heads x gated (lw_heads loaded)
          then bnd (begin_attempt x task [(''heads'', enc_heads (lw_heads loaded))]) (\<lambda>scope.
                 return (Inr (loaded, summary, scope)))
          else return (Inl (delivery_needs_operator
            ''Delivery requires an approved review and passing quality gates for the current commits''))
      | _ \<Rightarrow> return (Inl (delivery_needs_operator
            ''Delivery requires an approved review and passing quality gates for the current commits''))))))"

definition pull_request_stage :: "'x delivery_deps \<Rightarrow> task_row \<Rightarrow> ('x, stage_outcome) prog" where
  "pull_request_stage dd task =
     catching (delivery_preconditions dd task) (on_delivery_error dd task None) (\<lambda>o'. case o' of
       Inl outcome \<Rightarrow> return outcome
     | Inr (loaded, summary, scope) \<Rightarrow>
         catching (loop_code (deliver_step dd task loaded summary) (lw_units loaded) [] (finish_delivery dd task loaded scope))
           (on_delivery_error dd task (Some scope)) return)"

end
