(* ===== verification/ObservationStage.thy ===== *)
theory ObservationStage
  imports PullRequestStage
begin

text \<open>
  The states \<open>WAITING_CI\<close> and \<open>READY_FOR_HUMAN_REVIEW\<close> (\<open>src/delivery/observation-stage.ts\<close>): every pull
  request is observed on GitHub and judged; the task is complete only when all of them are merged.
\<close>

section \<open>One observation\<close>

datatype unit_delivery =
    UnitBlocked string
  | UnitChecksPending string
  | UnitChecksPassed string
  | UnitMergeUnverified string
  | UnitMerged string string

fun delivery_status :: "unit_delivery \<Rightarrow> string" where
  "delivery_status (UnitBlocked _) = ''blocked''"
| "delivery_status (UnitChecksPending _) = ''checks-pending''"
| "delivery_status (UnitChecksPassed _) = ''checks-passed''"
| "delivery_status (UnitMergeUnverified _) = ''merge-unverified''"
| "delivery_status (UnitMerged _ _) = ''merged''"

fun delivery_reason :: "unit_delivery \<Rightarrow> string" where
  "delivery_reason (UnitBlocked r) = r"
| "delivery_reason (UnitChecksPending r) = r"
| "delivery_reason (UnitChecksPassed r) = r"
| "delivery_reason (UnitMergeUnverified r) = r"
| "delivery_reason (UnitMerged r _) = r"

fun unit_state :: "unit_delivery \<Rightarrow> task_state" where
  "unit_state (UnitBlocked _) = BLOCKED"
| "unit_state (UnitChecksPending _) = WAITING_CI"
| "unit_state (UnitChecksPassed _) = READY_FOR_HUMAN_REVIEW"
| "unit_state (UnitMergeUnverified _) = READY_FOR_HUMAN_REVIEW"
| "unit_state (UnitMerged _ _) = COMPLETED"

fun merge_commit_of :: "unit_delivery \<Rightarrow> string option" where
  "merge_commit_of (UnitMerged _ c) = Some c"
| "merge_commit_of _ = None"

record observed_unit =
  ou_unit :: work_unit_row
  ou_repository :: registered_repository
  ou_delivery :: unit_delivery
  ou_url :: string
  ou_checks :: "checks_evaluation option"
  ou_reviews :: "review_summary option"
  ou_observation :: json_object

definition observed ::
  "work_unit_row \<Rightarrow> registered_repository \<Rightarrow> string \<Rightarrow> json_object \<Rightarrow> unit_delivery \<Rightarrow> observed_unit" where
  "observed unit r url observation delivery =
     \<lparr>ou_unit = unit, ou_repository = r, ou_delivery = delivery, ou_url = url, ou_checks = None, ou_reviews = None,
      ou_observation = observation\<rparr>"

definition observed_blocked :: "work_unit_row \<Rightarrow> registered_repository \<Rightarrow> json_object \<Rightarrow> string \<Rightarrow> observed_unit" where
  "observed_blocked unit r observation reason =
     observed unit r (or_else (wu_pullRequestUrl unit) []) observation (UnitBlocked reason)"

definition enc_pull_request :: "pull_request \<Rightarrow> json" where
  "enc_pull_request p = JObj [(''number'', JNum (pu_number p)), (''state'', JStr (if pu_open p then ''open'' else ''closed'')),
     (''merged'', JBool (pu_merged p)), (''draft'', JBool (pu_draft p)), (''headSha'', JStr (pu_headSha p)),
     (''baseRef'', JStr (pu_baseRef p)), (''mergeableState'', enc_nullable (pu_mergeableState p)),
     (''mergeCommitSha'', enc_nullable (pu_mergeCommitSha p))]"

definition enc_check :: "check_observation \<Rightarrow> json" where
  "enc_check c = JObj [(''context'', JStr (co_context c)), (''appId'', enc_option JNum (co_appId c)),
     (''source'', JStr (show_source (co_source c))), (''state'', JStr (show_check_state (co_state c))),
     (''conclusions'', JArr (map enc_nullable (co_conclusions c)))]"

definition enc_evaluation :: "checks_evaluation \<Rightarrow> json" where
  "enc_evaluation e = JObj [(''outcome'', JStr (show_checks_outcome (ev_outcome e))), (''checks'', JArr (map enc_check (ev_checks e)))]"

definition enc_reviews :: "review_summary \<Rightarrow> json" where
  "enc_reviews s = JObj [(''approvedBy'', enc_texts (rs_approvedBy s)), (''changesRequestedBy'', enc_texts (rs_changesRequestedBy s)),
     (''approvalsOnHead'', JNum (int (rs_approvalsOnHead s))),
     (''requiredApprovingReviews'', enc_option JNum (rs_requiredApprovingReviews s))]"

text \<open>When the current head was first seen: kept from the previous observation of the same head.\<close>

definition head_first_observed :: "json option \<Rightarrow> string \<Rightarrow> string \<Rightarrow> string" where
  "head_first_observed previous head now =
     (let o' = or_else (Option.bind previous open_object) [];
          seen = Option.bind (Option.bind (map_of o' ''pullRequest'') (\<lambda>p. response_field p ''headSha'')) dec_string in
      case Option.bind (map_of o' ''headFirstObservedAt'') dec_string of
        Some first \<Rightarrow> if seen = Some head then first else now
      | None \<Rightarrow> now)"

definition timed_out :: "'x delivery_deps \<Rightarrow> string \<Rightarrow> time \<Rightarrow> bool" where
  "timed_out dd first now = (case js_time (dd_services dd) first of
     None \<Rightarrow> False
   | Some t \<Rightarrow> dl_requiredChecksTimeoutMinutes (dd_delivery dd) * 60000 < now - t)"

definition failed_text :: "check_observation list \<Rightarrow> string" where
  "failed_text cs = join '', '' (map (\<lambda>c. co_context c @ '' ('' @ join '', '' (map (\<lambda>v. or_else v []) (co_conclusions c)) @ '')'')
     (filter (\<lambda>c. co_state c = CheckFailed) cs))"

definition waiting_text :: "check_observation list \<Rightarrow> string" where
  "waiting_text cs = join '', '' (map (\<lambda>c. co_context c @ '' '' @ show_check_state (co_state c))
     (filter (\<lambda>c. co_state c \<noteq> CheckSuccess) cs))"

definition approvals_text :: "review_summary \<Rightarrow> string" where
  "approvals_text s = show_nat (length (rs_approvedBy s))
     @ (case rs_requiredApprovingReviews s of None \<Rightarrow> '''' | Some n \<Rightarrow> ''/'' @ show_int n) @ '' approval(s)''"

definition judge_checks ::
  "'x delivery_deps \<Rightarrow> registered_repository \<Rightarrow> pull_request \<Rightarrow> bool \<Rightarrow> checks_evaluation \<Rightarrow> review_summary \<Rightarrow> unit_delivery" where
  "judge_checks dd r p late checks reviews =
     (case ev_outcome checks of
        NoPolicy \<Rightarrow> UnitBlocked (ry_baseBranch r @ '' of '' @ ry_github r
          @ '' requires no status checks; the merge gate is misconfigured'')
      | ChecksFailed \<Rightarrow> UnitBlocked (''Required check failed on '' @ short_sha (pu_headSha p) @ '': '' @ failed_text (ev_checks checks))
      | ChecksPending \<Rightarrow>
          if late then UnitBlocked (''Required checks did not succeed within ''
            @ show_int (dl_requiredChecksTimeoutMinutes (dd_delivery dd)) @ '' minutes: '' @ waiting_text (ev_checks checks))
          else UnitChecksPending (''Required checks pending: '' @ waiting_text (ev_checks checks))
      | ChecksPassed \<Rightarrow> UnitChecksPassed (''Required checks passed on '' @ short_sha (pu_headSha p) @ ''; ''
          @ approvals_text reviews @ ''; awaiting merge''))"

definition observe_merged ::
  "'x delivery_deps \<Rightarrow> work_unit_row \<Rightarrow> registered_repository \<Rightarrow> pull_request \<Rightarrow> json_object \<Rightarrow> bool \<Rightarrow> ('x, observed_unit) prog" where
  "observe_merged dd unit r p observation late =
     (case pu_mergeCommitSha p of
        None \<Rightarrow> return (observed unit r (pu_url p) observation (UnitMergeUnverified
          (''Pull request #'' @ show_int (pu_number p) @ '' merged; merge commit not reported yet'')))
      | Some c \<Rightarrow>
        bnd (outer (gh_compare (dd_services dd) (ry_github r) c (ry_baseBranch r))) (\<lambda>relation.
        let seen = observation @ [(''mergeCommitReachable'', JBool (still_contains relation))] in
        return (if still_contains relation
          then observed unit r (pu_url p) seen (UnitMerged (''Merged as '' @ short_sha c) c)
          else if late then observed_blocked unit r seen (''Merge commit '' @ short_sha c @ '' is not reachable from ''
            @ ry_baseBranch r @ '' ('' @ show_comparison relation @ '')'')
          else observed unit r (pu_url p) seen (UnitMergeUnverified (''Merge commit '' @ short_sha c
            @ '' not yet reachable from '' @ ry_baseBranch r)))))"

definition observe_open ::
  "'x delivery_deps \<Rightarrow> work_unit_row \<Rightarrow> registered_repository \<Rightarrow> pull_request \<Rightarrow> json_object \<Rightarrow> bool \<Rightarrow> ('x, observed_unit) prog" where
  "observe_open dd unit r p observation late =
     (if pu_mergeableState p = Some ''dirty''
      then return (observed_blocked unit r observation (''Pull request #'' @ show_int (pu_number p) @ '' conflicts with ''
        @ ry_baseBranch r))
      else bnd (outer (gh_policy (dd_services dd) (ry_github r) (ry_baseBranch r))) (\<lambda>policy.
        bnd (outer (gh_checks (dd_services dd) (ry_github r) (pu_headSha p))) (\<lambda>reports.
        bnd (outer (gh_reviews (dd_services dd) (ry_github r) (pu_number p))) (\<lambda>rs.
        let checks = evaluate_required_checks policy reports;
            reviews = summarize_reviews (sx_localeLe (xd_services (dd_exec dd))) rs (pu_headSha p)
              (bp_requiredApprovingReviews policy) in
        return (observed unit r (pu_url p)
            (observation @ [(''requiredChecks'', enc_evaluation checks), (''reviews'', enc_reviews reviews)])
            (judge_checks dd r p late checks reviews) \<lparr>ou_checks := Some checks, ou_reviews := Some reviews\<rparr>)))))"

text \<open>The head of an open or merged pull request must still be, or contain, the pushed commit.\<close>

definition head_kept :: "'x delivery_deps \<Rightarrow> registered_repository \<Rightarrow> string \<Rightarrow> string \<Rightarrow> ('x, bool) prog" where
  "head_kept dd r pushed head =
     (if head = pushed then return True
      else bnd (outer (gh_compare (dd_services dd) (ry_github r) pushed head)) (\<lambda>relation. return (still_contains relation)))"

definition observe_pull_request ::
  "'x delivery_deps \<Rightarrow> work_unit_row \<Rightarrow> registered_repository \<Rightarrow> string \<Rightarrow> string \<Rightarrow> pull_request \<Rightarrow> time \<Rightarrow> ('x, observed_unit) prog" where
  "observe_pull_request dd unit r branch pushed p now =
     (let iso = js_iso (dd_services dd) now; about = ''Pull request #'' @ show_int (pu_number p);
          first = head_first_observed (wu_deliveryObservation unit) (pu_headSha p) iso;
          observation = [(''observedAt'', JStr iso), (''headFirstObservedAt'', JStr first), (''pullRequest'', enc_pull_request p)];
          late = timed_out dd first now in
      if pu_headRepository p \<noteq> Some (ry_github r) \<or> pu_headRef p \<noteq> branch
      then return (observed_blocked unit r observation (about @ '' no longer comes from '' @ ry_github r @ '':'' @ branch))
      else if pu_baseRef p \<noteq> ry_baseBranch r
      then return (observed_blocked unit r observation (about @ '' was retargeted to '' @ pu_baseRef p))
      else bnd (head_kept dd r pushed (pu_headSha p)) (\<lambda>kept.
        if \<not> kept then return (observed_blocked unit r observation (about @ '' no longer contains the reviewed commit ''
               @ short_sha pushed @ ''; it was force-pushed''))
        else if \<not> pu_open p \<and> \<not> pu_merged p
        then return (observed_blocked unit r observation (about @ '' was closed without merging''))
        else if pu_merged p then observe_merged dd unit r p observation late
        else observe_open dd unit r p observation late))"

definition observe_unit :: "'x delivery_deps \<Rightarrow> work_unit_row \<Rightarrow> ('x, observed_unit) prog" where
  "observe_unit dd unit =
     bnd (lift_result (registry_get (dd_registry dd) (wu_repository unit))) (\<lambda>r.
     case (wu_pushedCommit unit, wu_pullRequestNumber unit, wu_branch unit) of
       (Some pushed, Some number, Some branch) \<Rightarrow>
         bnd (outer (gh_get (dd_services dd) (ry_github r) number)) (\<lambda>p.
         bnd clock_now (\<lambda>now. observe_pull_request dd unit r branch pushed p now))
     | _ \<Rightarrow> return (observed_blocked unit r [] ''No delivered pull request is recorded for this repository''))"

section \<open>The decision\<close>

definition unit_repository :: "observed_unit \<Rightarrow> string" where
  "unit_repository u = wu_repository (ou_unit u)"

definition enc_observed :: "observed_unit \<Rightarrow> json" where
  "enc_observed u = JObj (fold (\<lambda>(k, v). map_set k v) (ou_observation u)
     [(''repository'', JStr (unit_repository u)), (''status'', JStr (delivery_status (ou_delivery u))),
      (''reason'', JStr (delivery_reason (ou_delivery u)))])"

definition record_outcome ::
  "'x delivery_deps \<Rightarrow> task_row \<Rightarrow> observed_unit list \<Rightarrow> failure_category option \<Rightarrow> ('x, unit) prog" where
  "record_outcome dd task us category =
     bnd (begin_attempt (dd_exec dd) task [(''pullRequests'', JArr (map (\<lambda>u. JObj [(''repository'', JStr (unit_repository u)),
            (''number'', enc_option JNum (wu_pullRequestNumber (ou_unit u)))]) us))]) (\<lambda>scope.
     end_attempt task scope category None (Some (JObj [(''units'', JArr (map enc_observed us))])) None)"

definition advance_delivery ::
  "'x delivery_deps \<Rightarrow> task_row \<Rightarrow> observed_unit list \<Rightarrow> task_state \<Rightarrow> string \<Rightarrow> ('x, stage_outcome) prog" where
  "advance_delivery dd task us to reason =
     bnd (record_outcome dd task us None) (\<lambda>_.
     return (Advance ((advance to (take 1000 reason)) \<lparr>adv_lastError := Some None\<rparr>)))"

definition poll_again :: "'x delivery_deps \<Rightarrow> string \<Rightarrow> ('x, stage_outcome) prog" where
  "poll_again dd reason = bnd clock_now (\<lambda>now.
     return (Wait (now + dl_pollIntervalSeconds (dd_delivery dd) * 1000) reason (Some None)))"

definition link_lines :: "observed_unit list \<Rightarrow> (observed_unit \<Rightarrow> string) \<Rightarrow> string" where
  "link_lines us detail = text_lines (map (\<lambda>u. ''- '' @ code_text (unit_repository u) @ '': ['' @ ry_github (ou_repository u) @ ''#''
     @ (case wu_pullRequestNumber (ou_unit u) of None \<Rightarrow> ''null'' | Some n \<Rightarrow> show_int n) @ '']('' @ ou_url u @ ''): '' @ detail u) us)"

definition unit_report :: "observed_unit \<Rightarrow> string" where
  "unit_report u = unit_repository u @ '': '' @ delivery_reason (ou_delivery u)"

definition delivery_report :: "observed_unit list \<Rightarrow> string" where
  "delivery_report us = join ''; '' (map unit_report us)"

definition is_blocked :: "observed_unit \<Rightarrow> bool" where
  "is_blocked u = (case ou_delivery u of UnitBlocked _ \<Rightarrow> True | _ \<Rightarrow> False)"

definition is_merged :: "observed_unit \<Rightarrow> bool" where
  "is_merged u = (merge_commit_of (ou_delivery u) \<noteq> None)"

definition is_ready :: "observed_unit \<Rightarrow> bool" where
  "is_ready u = (case ou_delivery u of UnitChecksPassed _ \<Rightarrow> True | UnitMergeUnverified _ \<Rightarrow> True | UnitMerged _ _ \<Rightarrow> True | _ \<Rightarrow> False)"

definition observed_head :: "observed_unit \<Rightarrow> json" where
  "observed_head u = or_else (Option.bind (map_of (ou_observation u) ''pullRequest'') (\<lambda>p. response_field p ''headSha'')) JNull"

definition passed_text :: "observed_unit \<Rightarrow> string" where
  "passed_text u = (case ou_delivery u of
     UnitChecksPassed _ \<Rightarrow>
       (case ou_checks u of None \<Rightarrow> '''' | Some e \<Rightarrow> join '', '' (map (\<lambda>c. code_text (co_context c)) (ev_checks e)))
       @ '' passed; '' @ (case ou_reviews u of None \<Rightarrow> ''0'' | Some s \<Rightarrow> show_nat (length (rs_approvedBy s))) @ '' approval(s)''
   | _ \<Rightarrow> ''merged'')"

definition completed_comment :: "observed_unit list \<Rightarrow> string" where
  "completed_comment us = text_lines
     [''**Every pull request is merged** and verified reachable from its base branch.'', '''',
      link_lines us (\<lambda>u. ''merge commit '' @ code_text (short_sha (or_else (merge_commit_of (ou_delivery u)) []))), '''',
      ''The orchestrator task is complete. Check the acceptance criteria before moving this issue to Done.'']"

definition ready_comment :: "observed_unit list \<Rightarrow> string" where
  "ready_comment us = text_lines
     [''**Required checks passed**; the pull requests are ready for human review and merge.'', '''', link_lines us passed_text]"

definition decide_delivery :: "'x delivery_deps \<Rightarrow> task_row \<Rightarrow> observed_unit list \<Rightarrow> ('x, stage_outcome) prog" where
  "decide_delivery dd task us =
     (if list_ex is_blocked us then
        let message = delivery_report (filter is_blocked us); secrets = xd_knownSecrets (dd_exec dd) in
        bnd (record_outcome dd task us (Some CatDeliveryRejected)) (\<lambda>_.
        bnd (notify_linear dd task ''delivery-blocked'' (JStr message)
          (paragraphs [''**Delivery blocked**; manual intervention required.'',
             link_lines us (\<lambda>u. untrusted_text secrets (delivery_reason (ou_delivery u)) 500)])) (\<lambda>_.
        return (manual_delivery message ''Pull request delivery blocked'')))
      else if list_all is_merged us then
        if t_state task = WAITING_CI
        then advance_delivery dd task us READY_FOR_HUMAN_REVIEW ''Every pull request is merged''
        else bnd (sync_linear_comment dd task ''delivery-completed''
            (JArr (map (\<lambda>u. JStr (or_else (merge_commit_of (ou_delivery u)) [])) us)) (completed_comment us)) (\<lambda>_.
          advance_delivery dd task us COMPLETED ''Every pull request is merged and reachable from its base branch'')
      else if list_all is_ready us then
        if t_state task = READY_FOR_HUMAN_REVIEW then poll_again dd (''Awaiting human review and merge: '' @ delivery_report us)
        else bnd (sync_linear_comment dd task ''ready-for-human-review''
            (JObj (fold (\<lambda>u. map_set (unit_repository u) (observed_head u)) us [])) (ready_comment us)) (\<lambda>_.
          advance_delivery dd task us READY_FOR_HUMAN_REVIEW (''Required checks passed: '' @ delivery_report us))
      else if t_state task = READY_FOR_HUMAN_REVIEW
      then advance_delivery dd task us WAITING_CI (''Required checks are running again: '' @ delivery_report us)
      else poll_again dd (''Waiting for required checks: '' @ delivery_report us))"

section \<open>The stage\<close>

definition observe_step ::
  "'x delivery_deps \<Rightarrow> task_row \<Rightarrow> work_unit_row \<Rightarrow> observed_unit list \<Rightarrow> ('x, stage_outcome + observed_unit list) prog" where
  "observe_step dd task unit done =
     bnd abort_signal (\<lambda>signal.
     if signal \<noteq> None then return (Inl Interrupted)
     else bnd (observe_unit dd unit) (\<lambda>u.
       bnd (record_delivery dd task (wu_repository unit) (no_update\<lparr>du_state := Some (unit_state (ou_delivery u)),
              du_outcome := Some (delivery_reason (ou_delivery u)), du_mergeCommit := Some (merge_commit_of (ou_delivery u)),
              du_observation := Some (JObj (ou_observation u))\<rparr>)) (\<lambda>_.
       return (Inr (done @ [u])))))"

definition observe_delivery :: "'x delivery_deps \<Rightarrow> task_row \<Rightarrow> ('x, stage_outcome) prog" where
  "observe_delivery dd task =
     bnd (lift_result (validate_planning_issue (dd_exec dd) (t_contractSnapshot task))) (\<lambda>contract.
     bnd (db_read (get_work_units (t_id task))) (\<lambda>units.
     if join [nul_char] (map wu_repository units) \<noteq> join [nul_char] (sort (pi_repositories contract))
     then return (delivery_needs_operator ''Work units do not match contract repositories'')
     else loop_code (observe_step dd task) units [] (decide_delivery dd task)))"

definition observation_stage :: "'x delivery_deps \<Rightarrow> task_row \<Rightarrow> ('x, stage_outcome) prog" where
  "observation_stage dd task =
     catching (observe_delivery dd task) (\<lambda>e.
       bnd clock_now (\<lambda>now. bnd (lift_result (classify_delivery_error dd now e)) (\<lambda>(outcome, _). return outcome))) return"

text \<open>The delivery part of the handler table (\<open>src/execution/stages/index.ts\<close>).\<close>

definition delivery_handlers :: "'x delivery_deps \<Rightarrow> (task_state \<times> (task_row \<Rightarrow> ('x, stage_outcome) prog)) list" where
  "delivery_handlers dd = [(PR_CREATED, pull_request_stage dd), (WAITING_CI, observation_stage dd),
     (READY_FOR_HUMAN_REVIEW, observation_stage dd)]"

end
