(* ===== verification/DeliveryContracts.thy ===== *)
theory DeliveryContracts
  imports ObservationStage StageEffects
begin

text \<open>
  What the delivery stages may ask for, that they act on the database through the repository only, and
  the complete handler table.
\<close>

section \<open>Outcomes\<close>

definition delivery_may :: "task_state \<Rightarrow> stage_outcome \<Rightarrow> bool" where
  "delivery_may st o' = (case o' of
     Advance a \<Rightarrow> plain_block a \<or> adv_incrementCounter a = None
       \<and> (st = PR_CREATED \<and> adv_to a = WAITING_CI
          \<or> st = WAITING_CI \<and> adv_to a = READY_FOR_HUMAN_REVIEW
          \<or> st = READY_FOR_HUMAN_REVIEW \<and> adv_to a \<in> {WAITING_CI, COMPLETED})
   | PauseLimit _ _ _ \<Rightarrow> False
   | _ \<Rightarrow> True)"

lemma delivery_may_simps [simp]:
  "delivery_may st Interrupted" "delivery_may st (Wait u m e)" "\<not> delivery_may st (PauseLimit p t rs)"
  "delivery_may st (manual_delivery m r)" "delivery_may st (delivery_needs_operator m)"
  by (simp_all add: delivery_may_def delivery_needs_operator_def manual_delivery_def manual_intervention_def plain_block_def)

lemma classified_may: "classify_delivery_error dd now e = Inr (o', c) \<Longrightarrow> delivery_may st o'"
  by (auto simp: classify_delivery_error_def Let_def split: orch_error.splits github_error_kind.splits)

lemma on_error_may: "always (ok_is (delivery_may st)) (on_delivery_error dd task scope e)"
proof -
  have "always (ok_is (delivery_may st)) (bnd clock_now (\<lambda>now.
          bnd (lift_result (classify_delivery_error dd now e)) (\<lambda>(outcome, category).
          bnd (case outcome of
                 Wait _ _ _ \<Rightarrow> return ()
               | Advance a \<Rightarrow> end_if_started task scope category (enc_nullable (Option.bind (adv_lastError a) id))
               | _ \<Rightarrow> end_if_started task scope category JNull) (\<lambda>_.
          return outcome))))"
    by (rule always_bnd_any, rule always_bnd [where Q = "\<lambda>(o', c). delivery_may st o'"])
      (auto simp: ok_is_def classified_may intro!: always_bnd_any split: sum.split)
  then show ?thesis unfolding on_delivery_error_def by (cases e) (auto intro!: always_bnd_any)
qed

lemma catching_may:
  assumes "\<And>e. always (ok_is P) (h e)" and "\<And>a. always (ok_is P) (k a)"
  shows "always (ok_is P) (catching p h k)"
  unfolding catching_def by (rule always_attempt) (use assms in \<open>auto split: sum.split\<close>)

lemma catching_return_may:
  assumes "\<And>e. always (ok_is P) (h e)" and "always (ok_is P) p"
  shows "always (ok_is P) (catching p h return)"
  unfolding catching_def attempt_code_def always_bind_code
  by (rule always_mono [OF assms(2)]) (use assms(1) in \<open>auto split: sum.split\<close>)

lemma preconditions_may:
  "always (ok_is (\<lambda>o'. case o' of Inl outcome \<Rightarrow> delivery_may st outcome | Inr _ \<Rightarrow> True)) (delivery_preconditions dd task)"
  unfolding delivery_preconditions_def
  by (auto simp: Let_def intro!: always_bnd_any split: option.split prod.split)

lemma deliver_step_may:
  "always (ok_is (\<lambda>o'. case o' of Inl r \<Rightarrow> delivery_may st r | Inr s \<Rightarrow> True)) (deliver_step dd task loaded summary u ps)"
  unfolding deliver_step_def by (auto intro!: always_bnd_any)

lemma finish_delivery_may: "always (ok_is (delivery_may PR_CREATED)) (finish_delivery dd task loaded scope ps)"
  unfolding finish_delivery_def by (auto simp: delivery_may_def intro!: always_bnd_any)

lemma pull_request_may: "always (ok_is (delivery_may PR_CREATED)) (pull_request_stage dd task)"
  unfolding pull_request_stage_def catching_def [of "delivery_preconditions dd task"] attempt_code_def always_bind_code
  by (rule always_mono [OF preconditions_may [where st = PR_CREATED]])
    (auto intro!: on_error_may catching_return_may always_loop [where I = "\<lambda>_. True"] deliver_step_may finish_delivery_may
      split: sum.split prod.split)

lemma decide_may:
  assumes "t_state task \<in> {WAITING_CI, READY_FOR_HUMAN_REVIEW}"
  shows "always (ok_is (delivery_may (t_state task))) (decide_delivery dd task us)"
  unfolding decide_delivery_def advance_delivery_def poll_again_def
  using assms by (auto simp: Let_def delivery_may_def [of _ "Advance a" for a] intro!: always_bnd_any)

lemma observe_step_may:
  "always (ok_is (\<lambda>o'. case o' of Inl r \<Rightarrow> delivery_may st r | Inr s \<Rightarrow> True)) (observe_step dd task unit us)"
  unfolding observe_step_def by (auto intro!: always_bnd_any)

lemma observation_may:
  assumes "t_state task \<in> {WAITING_CI, READY_FOR_HUMAN_REVIEW}"
  shows "always (ok_is (delivery_may (t_state task))) (observation_stage dd task)"
proof -
  have "always (ok_is (delivery_may (t_state task))) (observe_delivery dd task)"
    unfolding observe_delivery_def
    by (auto intro!: always_bnd_any always_loop [where I = "\<lambda>_. True"] observe_step_may decide_may assms)
  moreover have "always (ok_is (delivery_may (t_state task))) (bnd clock_now (\<lambda>now.
      bnd (lift_result (classify_delivery_error dd now e)) (\<lambda>(outcome, _). return outcome)))" for e
    by (rule always_bnd_any, rule always_bnd [where Q = "\<lambda>(o', c). delivery_may (t_state task) o'"])
      (auto simp: ok_is_def classified_may split: sum.split)
  ultimately show ?thesis unfolding observation_stage_def by (intro catching_return_may)
qed

section \<open>The calls of delivery\<close>

text \<open>What the ledger operations and the services of delivery keep, the delivery stages keep.\<close>

locale delivery_calls =
  fixes J :: "database \<times> 'x \<Rightarrow> bool" and dd :: "'x delivery_deps"
  assumes ledger: "J (d, x) \<Longrightarrow> ledger_step d d' \<Longrightarrow> J (d', x)"
    and verifies: "calls_keep J (sx_verify (xd_services (dd_exec dd)) w)"
    and asks: "calls_keep J (gh_repository (dd_services dd) r)" "calls_keep J (gh_policy (dd_services dd) r b)"
      "calls_keep J (gh_find (dd_services dd) r b)" "calls_keep J (gh_get (dd_services dd) r n)"
      "calls_keep J (gh_checks (dd_services dd) r b)" "calls_keep J (gh_reviews (dd_services dd) r n)"
      "calls_keep J (gh_compare (dd_services dd) r a b)" "calls_keep J (lin_comments (dd_services dd) r)"
      "calls_keep J (ws_inspect (dd_services dd) w r)" "calls_keep J (ws_log (dd_services dd) r a b)"
      "calls_keep J (ws_range (dd_services dd) r a b)"
    and tells: "calls_keep J (lin_comment (dd_services dd) r b)" "calls_keep J (lin_attach (dd_services dd) r l)"
begin

lemmas outers = acts_outer [OF verifies] asks [THEN acts_outer] tells [THEN acts_outer]

lemma begin_acts: "acts_keep J (begin_attempt x task input)"
  unfolding begin_attempt_def by (rule acts_db_call) (blast intro: ledger attempt_started)

lemma end_acts: "acts_keep J (end_attempt task n c r e u)"
  unfolding end_attempt_def by (rule acts_db_run) (blast intro: ledger attempt_completed)

lemma record_delivery_acts: "acts_keep J (record_delivery dd task repo v)"
  unfolding record_delivery_def by (rule acts_db_call) (blast intro: ledger delivery_recorded)

lemma operation_acts:
  assumes "\<And>p. acts_keep J (effect p)"
  shows "acts_keep J (idempotent_operation dd task type key request effect)"
proof -
  have "acts_keep J (db_call (\<lambda>t d. begin_external_operation (sx_newId (xd_services (dd_exec dd)) d) t r d))" for r
    by (rule acts_db_call) (auto intro: ledger operation_begun)
  moreover have "acts_keep J (db_run (\<lambda>t. complete_external_operation t i (t_id task) w j))" for i w j
    by (rule acts_db_run) (blast intro: ledger operation_completed)
  ultimately show ?thesis unfolding idempotent_operation_def
    by (auto intro!: acts_bnd assms split: prod.split)
qed

lemma load_acts: "acts_keep J (load_task_workspaces (dd_exec dd) task)"
  unfolding load_task_workspaces_def load_unit_def
  by (auto simp: Let_def intro!: acts_bnd acts_for_each outers split: option.split)

lemma as_linear_acts: "acts_keep J p \<Longrightarrow> acts_keep J (as_linear_error n p)"
  unfolding as_linear_error_def by (auto intro!: acts_attempt split: sum.split)

lemma post_acts: "acts_keep J (post_comment (dd_services dd) i b)"
  unfolding post_comment_def by (intro acts_bnd acts_return outers)

lemma comment_acts: "acts_keep J (sync_linear_comment dd task event identity t)"
  unfolding sync_linear_comment_def
  by (auto simp: Let_def intro!: acts_bnd operation_acts as_linear_acts post_acts outers
      split: previous_effect.split option.split prod.split)

lemma link_acts: "acts_keep J (sync_linear_link dd task repo gh n url)"
  unfolding sync_linear_link_def by (auto intro!: acts_bnd operation_acts as_linear_acts outers)

lemma notify_acts: "acts_keep J (notify_linear dd task event identity t)"
  unfolding notify_linear_def by (intro acts_attempt comment_acts acts_return)

lemma reject_if_acts: "acts_keep J (reject_if b m)"
  by (simp add: reject_if_def)

lemmas small = begin_acts end_acts record_delivery_acts comment_acts link_acts notify_acts reject_if_acts outers

lemma access_acts: "acts_keep J (verify_repository_access dd r)"
  unfolding verify_repository_access_def by (intro acts_bnd small)

lemma content_acts: "acts_keep J (verify_branch_content dd task u)"
  unfolding verify_branch_content_def
  by (auto simp: Let_def intro!: acts_bnd small split: list.split option.split prod.split)

lemma verify_acts: "acts_keep J (verify_pull_request u r p n)"
  unfolding verify_pull_request_def by (auto split: option.split)

lemma reconcile_acts: "acts_keep J (reconcile_pull_request dd u r n)"
  unfolding reconcile_pull_request_def
  by (auto simp: Let_def intro!: acts_bnd small verify_acts split: list.split option.split)

lemma refusal_acts: "acts_keep J p \<Longrightarrow> acts_keep J (refusal_is_transient p)"
  unfolding refusal_is_transient_def by (auto intro!: acts_attempt split: sum.split orch_error.split option.split)

lemma catching_acts:
  "acts_keep J p \<Longrightarrow> (\<And>e. acts_keep J (h e)) \<Longrightarrow> (\<And>a. acts_keep J (k a)) \<Longrightarrow> acts_keep J (catching p h k)"
  unfolding catching_def by (auto intro!: acts_attempt split: sum.split)

lemma end_if_acts: "acts_keep J (end_if_started task scope c j)"
  unfolding end_if_started_def by (auto intro!: small split: option.split)

lemma on_error_acts: "acts_keep J (on_delivery_error dd task scope e)"
  unfolding on_delivery_error_def
  by (auto intro!: acts_bnd small end_if_acts split: orch_error.split stage_outcome.split prod.split)

lemma preconditions_act: "acts_keep J (delivery_preconditions dd task)"
  unfolding delivery_preconditions_def
  by (auto simp: Let_def intro!: acts_bnd small load_acts split: option.split prod.split)

lemma finish_acts: "acts_keep J (finish_delivery dd task l n ps)"
  unfolding finish_delivery_def by (intro acts_bnd acts_return small)

lemma observe_unit_acts: "acts_keep J (observe_unit dd u)"
  unfolding observe_unit_def observe_pull_request_def observe_merged_def observe_open_def head_kept_def
  by (auto simp: Let_def intro!: acts_bnd small split: option.split)

lemma record_outcome_acts: "acts_keep J (record_outcome dd task us c)"
  unfolding record_outcome_def by (intro acts_bnd small)

lemma decide_acts: "acts_keep J (decide_delivery dd task us)"
  unfolding decide_delivery_def advance_delivery_def poll_again_def
  by (auto simp: Let_def intro!: acts_bnd small record_outcome_acts)

lemma observe_step_acts: "acts_keep J (observe_step dd task u us)"
  unfolding observe_step_def by (auto intro!: acts_bnd small observe_unit_acts)

lemma observation_acts: "acts_keep J (observation_stage dd task)"
  unfolding observation_stage_def observe_delivery_def
  by (auto intro!: acts_bnd catching_acts acts_loop observe_step_acts decide_acts split: prod.split)

text \<open>Delivery proper, where pushing and creating pull requests keep the property as well.\<close>

lemma push_acts:
  "calls_keep J (ws_push (dd_services dd) (lu_workspace u) (lu_head u)) \<Longrightarrow> acts_keep J (push_branch dd task u)"
  unfolding push_branch_def
  by (auto simp: Let_def intro!: acts_bnd small operation_acts acts_outer split: remote_branch.split)

lemma create_acts:
  "(\<And>r i. calls_keep J (gh_create (dd_services dd) r i)) \<Longrightarrow> acts_keep J (create_pull_request dd task l u r s)"
  unfolding create_pull_request_def by (auto simp: Let_def intro!: acts_bnd small acts_outer)

lemma ensure_acts:
  "(\<And>r i. calls_keep J (gh_create (dd_services dd) r i)) \<Longrightarrow> acts_keep J (ensure_pull_request dd task l u r s)"
  unfolding ensure_pull_request_def pull_request_operation_def
  by (auto simp: Let_def intro!: acts_bnd small operation_acts reconcile_acts refusal_acts create_acts verify_acts
      split: option.split)

lemma publish_acts:
  assumes "calls_keep J (ws_push (dd_services dd) (lu_workspace u) (lu_head u))"
    and "\<And>r i. calls_keep J (gh_create (dd_services dd) r i)"
  shows "acts_keep J (publish_unit dd task l s u r)"
  unfolding publish_unit_def
  by (auto simp: Let_def intro!: acts_bnd small push_acts ensure_acts assms)

lemma deliver_step_acts:
  assumes "\<And>w r. calls_keep J (ws_push (dd_services dd) w r)" and "\<And>r i. calls_keep J (gh_create (dd_services dd) r i)"
  shows "acts_keep J (deliver_step dd task l s u ps)"
  unfolding deliver_step_def deliver_unit_def
  by (auto intro!: acts_bnd small access_acts content_acts publish_acts assms)

lemma pull_request_acts:
  assumes "\<And>w r. calls_keep J (ws_push (dd_services dd) w r)" and "\<And>r i. calls_keep J (gh_create (dd_services dd) r i)"
  shows "acts_keep J (pull_request_stage dd task)"
  unfolding pull_request_stage_def
  by (auto intro!: catching_acts preconditions_act on_error_acts acts_loop deliver_step_acts finish_acts assms
      split: sum.split prod.split)

end

section \<open>All handlers\<close>

text \<open>What the repository steps and all calls outside keep, the complete handler table keeps.\<close>

lemma all_handlers_act:
  assumes "stage_calls J x"
    and "\<And>dd. delivery = Some dd \<Longrightarrow> delivery_calls J dd \<and> (\<forall>w r. calls_keep J (ws_push (dd_services dd) w r))
      \<and> (\<forall>r i. calls_keep J (gh_create (dd_services dd) r i))"
    and "(st, h) \<in> set (create_execution_handlers x ms (map_option delivery_handlers delivery))"
  shows "acts_keep J (h task)"
proof (rule stage_calls.execution_handlers_act [OF assms(1) _ assms(3)])
  fix st' h' task' assume "(st', h') \<in> set (or_else (map_option delivery_handlers delivery) [])"
  then obtain dd where dd: "delivery = Some dd" and h: "(st', h') \<in> set (delivery_handlers dd)" by (cases delivery) auto
  note calls = assms(2) [OF dd]
  then show "acts_keep J (h' task')"
    using h delivery_calls.pull_request_acts [of J dd] delivery_calls.observation_acts [of J dd]
    by (auto simp: delivery_handlers_def)
qed

interpretation delivered: delivery_calls "\<lambda>w. reaches d0 (fst w)" dd for d0 dd
  by unfold_locales (auto simp: any_call intro: reaches_step bookkept)

lemma all_handlers_keep:
  "(st, h) \<in> set (create_execution_handlers x ms (map_option delivery_handlers delivery)) \<Longrightarrow> code_keeps (reaches d0) (h task)"
  by (rule acts_code_keeps, rule all_handlers_act [OF reach_steps.stage_calls_axioms])
    (simp_all add: delivered.delivery_calls_axioms any_call)

end
