(* ===== verification/DeliveryEvidence.thy ===== *)
theory DeliveryEvidence
  imports DeliveryContracts
begin

text \<open>
  What a run of a delivery stage was told and what it sent: the services are watched by a log beside the
  outside world, which lets properties speak of the answers that a decision rests on. The log is an
  instrument of the specification; it models no code.
\<close>

section \<open>Watched services\<close>

datatype delivery_event =
    ToldPullRequest string int pull_request
  | ToldRelation string string string commit_comparison
  | ToldCommits string string string string
  | ToldChanges string string string "string \<times> string \<times> string"
  | SentBranch task_workspace string
  | SentPullRequest string pull_request_input

type_synonym 'x watched = "'x \<times> delivery_event list"

definition noted :: "('a \<Rightarrow> delivery_event list) \<Rightarrow> ('x, 'a) outside_call \<Rightarrow> ('x watched, 'a) outside_call" where
  "noted f g v w = (fst (g v (fst w)), (snd (g v (fst w)),
     snd w @ (case fst (g v (fst w)) of Inl e \<Rightarrow> [] | Inr a \<Rightarrow> f a)))"

definition sent :: "delivery_event \<Rightarrow> ('x, 'a) outside_call \<Rightarrow> ('x watched, 'a) outside_call" where
  "sent ev g v w = (fst (g v (fst w)), (snd (g v (fst w)), snd w @ [ev]))"

definition quietly :: "('x, 'a) outside_call \<Rightarrow> ('x watched, 'a) outside_call" where
  "quietly g = noted (\<lambda>_. []) g"

definition lift_services :: "'x services \<Rightarrow> 'x watched services" where
  "lift_services s = \<lparr>ho_exists = (\<lambda>w. ho_exists s (fst w)), ho_link = (\<lambda>w. ho_link s (fst w)),
     ho_process = (\<lambda>q v w. (fst (ho_process s q v (fst w)), (snd (ho_process s q v (fst w)), snd w))),
     sx_prepare = (\<lambda>i. quietly (sx_prepare s i)), sx_verify = (\<lambda>w. quietly (sx_verify s w)),
     sx_restore = (\<lambda>w. quietly (sx_restore s w)), sx_commit = (\<lambda>w m. quietly (sx_commit s w m)),
     sx_diffs = (\<lambda>p. quietly (sx_diffs s p)), sx_snapshot = (\<lambda>p. quietly (sx_snapshot s p)),
     sx_isAncestor = (\<lambda>p a b. quietly (sx_isAncestor s p a b)), sx_stat = (\<lambda>p c. quietly (sx_stat s p c)),
     sx_diff = (\<lambda>p c. quietly (sx_diff s p c)), sx_documentation = (\<lambda>r. quietly (sx_documentation s r)),
     sx_analyze = (\<lambda>q. quietly (sx_analyze s q)), sx_change = (\<lambda>t q. quietly (sx_change s t q)),
     sx_review = (\<lambda>q. quietly (sx_review s q)),
     sx_sha256 = sx_sha256 s, sx_newId = sx_newId s, sx_localeLe = sx_localeLe s, sx_datetime = sx_datetime s,
     sx_zodMessage = sx_zodMessage s\<rparr>"

definition lift_deps :: "'x deps \<Rightarrow> 'x watched deps" where
  "lift_deps x = \<lparr>xd_config = xd_config x, xd_agents = xd_agents x, xd_gates = xd_gates x,
     xd_workspaceRoot = xd_workspaceRoot x, xd_workerId = xd_workerId x, xd_knownSecrets = xd_knownSecrets x,
     xd_services = lift_services (xd_services x)\<rparr>"

definition watched :: "'x delivery_services \<Rightarrow> 'x watched delivery_services" where
  "watched s = \<lparr>gh_repository = (\<lambda>r. quietly (gh_repository s r)), gh_policy = (\<lambda>r b. quietly (gh_policy s r b)),
     gh_find = (\<lambda>r b. quietly (gh_find s r b)),
     gh_create = (\<lambda>r i. sent (SentPullRequest r i) (gh_create s r i)),
     gh_get = (\<lambda>r n. noted (\<lambda>p. [ToldPullRequest r n p]) (gh_get s r n)),
     gh_checks = (\<lambda>r c. quietly (gh_checks s r c)), gh_reviews = (\<lambda>r n. quietly (gh_reviews s r n)),
     gh_compare = (\<lambda>r a b. noted (\<lambda>c. [ToldRelation r a b c]) (gh_compare s r a b)),
     lin_comments = (\<lambda>i. quietly (lin_comments s i)), lin_comment = (\<lambda>i b. quietly (lin_comment s i b)),
     lin_attach = (\<lambda>i l. quietly (lin_attach s i l)),
     ws_push = (\<lambda>w c. sent (SentBranch w c) (ws_push s w c)), ws_inspect = (\<lambda>w c. quietly (ws_inspect s w c)),
     ws_log = (\<lambda>p a b. noted (\<lambda>t. [ToldCommits p a b t]) (ws_log s p a b)),
     ws_range = (\<lambda>p a b. noted (\<lambda>t. [ToldChanges p a b t]) (ws_range s p a b)),
     js_iso = js_iso s, js_time = js_time s\<rparr>"

definition with_evidence :: "'x delivery_deps \<Rightarrow> 'x watched delivery_deps" where
  "with_evidence dd = \<lparr>dd_exec = lift_deps (dd_exec dd), dd_delivery = dd_delivery dd, dd_author = dd_author dd,
     dd_registry = dd_registry dd, dd_services = watched (dd_services dd)\<rparr>"

lemma with_evidence_simps [simp]:
  "dd_registry (with_evidence dd) = dd_registry dd" "dd_services (with_evidence dd) = watched (dd_services dd)"
  "dd_exec (with_evidence dd) = lift_deps (dd_exec dd)" "dd_author (with_evidence dd) = dd_author dd"
  by (simp_all add: with_evidence_def)

lemma lift_deps_simps [simp]:
  "xd_agents (lift_deps x) = xd_agents x" "xd_knownSecrets (lift_deps x) = xd_knownSecrets x"
  "same_heads (lift_deps x) = same_heads x" "validate_planning_issue (lift_deps x) = validate_planning_issue x"
  "cumulative_violations (lift_deps x) = cumulative_violations x"
  by (simp_all add: lift_deps_def lift_services_def fun_eq_iff same_heads_def validate_planning_issue_def
      cumulative_violations_def split: option.split)

definition events :: "database \<times> 'x watched \<Rightarrow> delivery_event set" where
  "events w = set (snd (snd w))"

lemma events_simps [simp]: "events (d, x) = set (snd x)"
  by (simp add: events_def)

section \<open>What the log keeps\<close>

text \<open>Events are never forgotten; those that are neither a push nor a creation keep what is true of the others.\<close>

definition sends_of :: "delivery_event set \<Rightarrow> delivery_event set" where
  "sends_of E = {e \<in> E. case e of SentBranch _ _ \<Rightarrow> True | _ \<Rightarrow> False}"

definition log_invariant :: "(delivery_event set \<Rightarrow> bool) \<Rightarrow> bool" where
  "log_invariant L \<longleftrightarrow> (\<forall>E F. L E \<longrightarrow> E \<subseteq> F \<longrightarrow> sends_of F = sends_of E \<longrightarrow> L F)"

lemma log_invariantD: "log_invariant L \<Longrightarrow> L E \<Longrightarrow> sends_of F = {} \<Longrightarrow> L (E \<union> F)"
  unfolding log_invariant_def by (erule allE [of _ E], erule allE [of _ "E \<union> F"]) (auto simp: sends_of_def)

lemma noted_keeps:
  fixes g :: "('x, 'a) outside_call"
  assumes "log_invariant L" and "\<And>a. sends_of (set (f a)) = {}"
  shows "calls_keep (\<lambda>w. L (events w)) (noted f g)"
  unfolding calls_keep_def
proof (intro allI impI)
  fix v d and x :: "'x watched" assume L: "L (events (d, x))"
  show "L (events (d, snd (noted f g v x)))"
    using L log_invariantD [OF assms(1) L] assms(2) by (cases "fst (g v (fst x))") (auto simp: noted_def)
qed

lemma quietly_keeps: "calls_keep (\<lambda>w. L (events w)) (quietly g)"
  by (auto simp: calls_keep_def quietly_def noted_def split: sum.split)

lemma told_no_send: "sends_of (set [ToldPullRequest r n p]) = {}" "sends_of (set [ToldRelation r a b c]) = {}"
    "sends_of (set [ToldCommits r a b t]) = {}" "sends_of (set [ToldChanges r a b t']) = {}"
  by (auto simp: sends_of_def)

lemma watched_calls: "log_invariant L \<Longrightarrow> delivery_calls (\<lambda>w. L (events w)) (with_evidence dd)"
  by unfold_locales
    (simp_all add: lift_deps_def lift_services_def watched_def quietly_keeps noted_keeps told_no_send
      del: set_simps with_evidence_simps(3) add: with_evidence_def)

lemma created_keeps: "log_invariant L \<Longrightarrow> calls_keep (\<lambda>w. L (events w)) (gh_create (watched s) r i)"
  using log_invariantD [of L _ "{SentPullRequest r i}"] by (auto simp: calls_keep_def watched_def sent_def sends_of_def)

section \<open>Rules for watched runs\<close>

text \<open>Between two calls others may change the database, but not what this run was told.\<close>

definition same_log :: "database \<times> 'x \<Rightarrow> database \<times> 'x \<Rightarrow> bool" where
  "same_log w w' \<longleftrightarrow> snd w' = snd w"

lemma same_log_events: "same_log w w' \<Longrightarrow> events w' = events w"
  by (simp add: same_log_def events_def)

lemma wp_weaken: "wp R c Q w \<Longrightarrow> (\<And>w w'. R' w w' \<Longrightarrow> R w w') \<Longrightarrow> wp R' c Q w"
  by (induction c arbitrary: w rule: code_induct) auto

lemma wp_outer:
  assumes "\<And>v d x a x'. R w (d, x) \<Longrightarrow> g v x = (Inr a, x') \<Longrightarrow> Q a (d, x')"
  shows "wp R (outer g) (on_ok Q) w"
proof -
  have "on_ok Q (fst (g v x)) (d, snd (g v x))" if "R w (d, x)" for v :: stage_view and d x
    using assms [OF that, of v] by (cases "g v x"; cases "fst (g v x)") (auto simp: on_ok_def)
  then show ?thesis by (auto simp: outer_def outside_def call_def)
qed

lemma wp_noted:
  assumes "\<And>a w'. set (f a) \<subseteq> events w' \<Longrightarrow> events w \<subseteq> events w' \<Longrightarrow> Q a w'"
  shows "wp same_log (outer (noted f g)) (on_ok Q) w"
  by (rule wp_outer) (auto simp: noted_def same_log_def events_def intro!: assms)

lemma wp_quietly:
  assumes "\<And>a w'. events w' = events w \<Longrightarrow> Q a w'"
  shows "wp same_log (outer (quietly g)) (on_ok Q) w"
  by (rule wp_outer) (auto simp: quietly_def noted_def same_log_def events_def intro!: assms split: sum.splits)

lemma wp_lift: "(\<And>a. r = Inr a \<Longrightarrow> Q a w) \<Longrightarrow> wp R (lift_result r) (on_ok Q) w"
  by (cases r) (simp_all add: lift_result_def)

lemma wp_clock:
  assumes "\<And>t w'. events w' = events w \<Longrightarrow> Q t w'"
  shows "wp same_log clock_now (on_ok Q) w"
proof -
  have "wp same_log (bind_code (outside (\<lambda>v x. (sv_now v, x))) return) (on_ok Q) w"
    unfolding wp_bind_code by (auto simp: outside_def call_def same_log_def events_def return_def intro!: assms)
  then show ?thesis by (simp add: clock_now_def)
qed

lemma wp_signal:
  assumes "\<And>t w'. events w' = events w \<Longrightarrow> Q t w'"
  shows "wp same_log abort_signal (on_ok Q) w"
proof -
  have "wp same_log (bind_code (outside (\<lambda>v x. (sv_signal v, x))) return) (on_ok Q) w"
    unfolding wp_bind_code by (auto simp: outside_def call_def same_log_def events_def return_def intro!: assms)
  then show ?thesis by (simp add: abort_signal_def)
qed

text \<open>A loop over a list, with an invariant over what has been passed.\<close>

lemma wp_loop:
  assumes "I [] s w"
    and "\<And>ys x zs s w. xs = ys @ x # zs \<Longrightarrow> I ys s w
      \<Longrightarrow> wp R (f x s) (on_ok (\<lambda>o' w'. case o' of Inl r \<Rightarrow> Q r w' | Inr s' \<Rightarrow> I (ys @ [x]) s' w')) w"
    and "\<And>s w. I xs s w \<Longrightarrow> wp R (k s) (on_ok Q) w"
  shows "wp R (loop_code f xs s k) (on_ok Q) w"
proof -
  have "wp R (loop_code f zs s k) (on_ok Q) w" if "xs = ys @ zs" "I ys s w" for ys zs s w
    using that
  proof (induction zs arbitrary: ys s w)
    case Nil
    then show ?case using assms(3) by simp
  next
    case (Cons x zs)
    show ?case unfolding loop_code.simps
    proof (rule wp_bnd, rule wp_mono [OF assms(2) [OF Cons.prems]])
      fix o' w'
      assume "on_ok (\<lambda>o' w'. case o' of Inl r \<Rightarrow> Q r w' | Inr s' \<Rightarrow> I (ys @ [x]) s' w') o' w'"
      then show "on_ok (\<lambda>a. wp R (case a of Inl r \<Rightarrow> return r | Inr s' \<Rightarrow> loop_code f zs s' k) (on_ok Q)) o' w'"
        using Cons.IH [of "ys @ [x]"] Cons.prems(1) by (cases o') (auto split: sum.splits)
    qed
  qed
  then show ?thesis using assms(1) by auto
qed

lemma wp_loop_any:
  assumes "J w" and "\<And>x s w. x \<in> set xs \<Longrightarrow> J w \<Longrightarrow> wp R (f x s) (\<lambda>_. J) w" and "\<And>s w. J w \<Longrightarrow> wp R (k s) (\<lambda>_. J) w"
  shows "wp R (loop_code f xs s k) (\<lambda>_. J) w"
  using assms(1,2)
proof (induction xs arbitrary: s w)
  case (Cons x xs)
  show ?case unfolding loop_code.simps bnd_def wp_bind_code
    by (rule wp_mono [OF Cons.prems(2)])
      (use Cons in \<open>auto simp: throw_def return_def split: sum.split\<close>)
qed (use assms(3) in simp)

lemma wp_catching:
  assumes "wp R p (on_ok Q) w" and "\<And>e w. wp R (h e) (on_ok Q) w"
  shows "wp R (catching p h return) (on_ok Q) w"
  unfolding catching_def attempt_code_def wp_bind_code
  by (rule wp_mono [OF assms(1)]) (use assms(2) in \<open>auto simp: on_ok_def split: sum.splits\<close>)

end
