(* ===== verification/DeliverySamples.thy ===== *)
theory DeliverySamples
  imports DeliveryEvidence StageSamples
begin

text \<open>
  A concrete GitHub, Linear and Git remote at which the properties of delivery are applied, and the rules
  that evaluate a watched run. They model no code.
\<close>

section \<open>Running a watched program where nothing else happens\<close>

definition at_step :: "nat \<Rightarrow> database \<Rightarrow> 'x \<Rightarrow> 'x run_state" where
  "at_step n d x = \<lparr>rn_at = n, rn_db = d, rn_ext = x, rn_now = 0, rn_controls = default_controls, rn_stopping = False,
     rn_holds = [], rn_signal = None, rn_leaseLost = False, rn_log = []\<rparr>"

lemma at_step_simps [simp]: "rn_db (at_step n d x) = d" "rn_ext (at_step n d x) = x" "rn_now (at_step n d x) = 0"
  "rn_signal (at_step n d x) = None" "(at_step n d x)\<lparr>rn_db := d', rn_ext := x'\<rparr> = at_step n d' x'"
  by (simp_all add: at_step_def)

lemma arrive_at_step [simp]: "arrive o' idle tid (at_step n d x) = at_step (Suc n) d x"
  by (simp add: arrive_def idle_def at_step_def Let_def)

lemma step_call: "run_stage o' idle tid (call f) (at_step n d x) = (let r = f \<lparr>sv_signal = None, sv_now = 0\<rparr> (d, x) in
    (fst r, at_step (Suc n) (fst (snd r)) (snd (snd r))))"
  by (simp add: call_def Let_def)

lemma step_db_call [runs]: "run_stage o' idle tid (db_call g) (at_step n d x) = (case g 0 d of
     Inl e \<Rightarrow> (Inl e, at_step (Suc n) d x) | Inr (a, d') \<Rightarrow> (Inr a, at_step (Suc n) d' x))"
  by (simp add: db_call_def step_call Let_def split: sum.split prod.split)

lemma step_db_run [runs]: "run_stage o' idle tid (db_run g) (at_step n d x) = (case g 0 d of
     Inl e \<Rightarrow> (Inl e, at_step (Suc n) d x) | Inr d' \<Rightarrow> (Inr (), at_step (Suc n) d' x))"
  by (simp add: db_run_def step_db_call split: sum.split)

lemma step_db_read [runs]: "run_stage o' idle tid (db_read g) (at_step n d x) = (Inr (g d), at_step (Suc n) d x)"
  by (simp add: db_read_def step_db_call)

lemma step_outer [runs]: "run_stage o' idle tid (outer g) (at_step n d x)
    = (fst (g \<lparr>sv_signal = None, sv_now = 0\<rparr> x), at_step (Suc n) d (snd (g \<lparr>sv_signal = None, sv_now = 0\<rparr> x)))"
  by (simp add: outer_def outside_def step_call Let_def)

lemma step_clock [runs]: "run_stage o' idle tid clock_now (at_step n d x) = (Inr 0, at_step (Suc n) d x)"
  by (simp add: clock_now_def run_bind_code outside_def step_call run_return Let_def)

lemma step_signal [runs]: "run_stage o' idle tid abort_signal (at_step n d x) = (Inr None, at_step (Suc n) d x)"
  by (simp add: abort_signal_def run_bind_code outside_def step_call run_return Let_def)

lemma step_read_checkpoint [runs]:
  "run_stage o' idle tid (read_checkpoint task key dec) (at_step n d x) =
     (case get_checkpoint (t_id task) key d of
        None \<Rightarrow> (Inr None, at_step (Suc n) d x)
      | Some j \<Rightarrow> (case dec j of
            None \<Rightarrow> (Inl (WorkspaceBlockedError (''Checkpoint '' @ key @ '' is malformed; manual recovery required'')), at_step (Suc n) d x)
          | Some a \<Rightarrow> (Inr (Some a), at_step (Suc n) d x)))"
  by (simp add: read_checkpoint_def runs split: option.split)

lemma run_catching [runs]: "run_stage o' env tid (catching p h k) s = (case run_stage o' env tid p s of
    (Inl e, s') \<Rightarrow> run_stage o' env tid (h e) s' | (Inr a, s') \<Rightarrow> run_stage o' env tid (k a) s')"
  by (simp add: catching_def attempt_code_def run_bind_code split: prod.split sum.split)

lemma quietly_simps [simp]: "fst (quietly g v x) = fst (g v (fst x))" "snd (quietly g v x) = (snd (g v (fst x)), snd x)"
  by (simp_all add: quietly_def noted_def split: sum.split)

section \<open>A merged pull request\<close>

definition web_registry :: registry where
  "web_registry = \<lparr>ry_root = ''/w'', ry_entries = [(''web'', \<lparr>ry_name = ''web'', ry_path = ''/r/web'', ry_github = ''a/web'',
     ry_remote = ''origin'', ry_baseBranch = ''main''\<rparr>)]\<rparr>"

definition merged_request :: pull_request where
  "merged_request = \<lparr>pu_number = 7, pu_url = ''u'', pu_open = False, pu_merged = True, pu_mergeCommitSha = Some ''m1'',
     pu_headSha = ''c1'', pu_headRef = ''b'', pu_headRepository = Some ''a/web'', pu_baseRef = ''main'', pu_draft = False,
     pu_mergeableState = None, pu_body = []\<rparr>"

definition sample_delivery :: "unit delivery_deps" where
  "sample_delivery = \<lparr>dd_exec = staged_deps 0,
     dd_delivery = \<lparr>dl_pollIntervalSeconds = 60, dl_retryIntervalSeconds = 60, dl_requiredChecksTimeoutMinutes = 120,
       dl_draftPullRequests = False, dl_linearComments = False\<rparr>,
     dd_author = (''bot'', ''bot@x''), dd_registry = web_registry,
     dd_services = \<lparr>gh_repository = (\<lambda>r _ x. (Inr \<lparr>gr_fullName = ''a/web'', gr_archived = False, gr_canPush = Some True\<rparr>, x)),
       gh_policy = (\<lambda>r b _ x. (Inr \<lparr>bp_protected = True, bp_requiredChecks = [], bp_requiredApprovingReviews = None\<rparr>, x)),
       gh_find = (\<lambda>r b _ x. (Inr [], x)), gh_create = (\<lambda>r i _ x. (Inr merged_request, x)),
       gh_get = (\<lambda>r n _ x. (Inr merged_request, x)), gh_checks = (\<lambda>r c _ x. (Inr [], x)), gh_reviews = (\<lambda>r n _ x. (Inr [], x)),
       gh_compare = (\<lambda>r a b _ x. (Inr AheadOf, x)), lin_comments = (\<lambda>i _ x. (Inr [], x)), lin_comment = (\<lambda>i b _ x. (Inr ''k1'', x)),
       lin_attach = (\<lambda>i l _ x. (Inr ''l1'', x)), ws_push = (\<lambda>w c _ x. (Inl (RemoteUnavailableError ''web''), x)),
       ws_inspect = (\<lambda>w c _ x. (Inr BranchAbsent, x)), ws_log = (\<lambda>p a b _ x. (Inr [], x)),
       ws_range = (\<lambda>p a b _ x. (Inr ([], [], []), x)), js_iso = (\<lambda>_. ''t''), js_time = (\<lambda>_. None)\<rparr>\<rparr>"

definition watched_worker :: "unit watched worker_options" where
  "watched_worker = \<lparr>wo_config = sample_config, wo_timing = timing_of (c_orchestrator sample_config),
     wo_workerId = ''w'', wo_forceKillSwitch = False, wo_zone = (\<lambda>_. sample_clock),
     wo_handlers = create_execution_handlers (lift_deps (staged_deps 0)) 1000
       (Some (delivery_handlers (with_evidence sample_delivery)))\<rparr>"

definition delivered_unit :: work_unit_row where
  "delivered_unit = staged_unit\<lparr>wu_pushedCommit := Some ''c1'', wu_pullRequestNumber := Some 7, wu_pullRequestUrl := Some ''u''\<rparr>"

definition delivered_store :: "task_state \<Rightarrow> database" where
  "delivered_store st = (staged_store st [])\<lparr>db_workUnits := [delivered_unit]\<rparr>"

lemma sample_services:
  "gh_get (watched (dd_services sample_delivery)) r n v x = (Inr merged_request, (fst x, snd x @ [ToldPullRequest r n merged_request]))"
  "gh_compare (watched (dd_services sample_delivery)) r a b v x = (Inr AheadOf, (fst x, snd x @ [ToldRelation r a b AheadOf]))"
  "js_iso (watched (dd_services sample_delivery)) = (\<lambda>_. ''t'')" "js_time (watched (dd_services sample_delivery)) = (\<lambda>_. None)"
  by (simp_all add: watched_def sample_delivery_def noted_def)

lemma sample_registry: "registry_get (dd_registry sample_delivery) ''web'' = Inr \<lparr>ry_name = ''web'', ry_path = ''/r/web'',
    ry_github = ''a/web'', ry_remote = ''origin'', ry_baseBranch = ''main''\<rparr>"
  by (simp add: sample_delivery_def web_registry_def registry_get_def)

lemma delivered_unit_fields:
  "wu_repository delivered_unit = ''web''" "wu_pushedCommit delivered_unit = Some ''c1''" "wu_branch delivered_unit = Some ''b''"
  "wu_pullRequestNumber delivered_unit = Some 7" "wu_taskId delivered_unit = staged_id"
  "get_work_units staged_id (delivered_store st) = [delivered_unit]"
  by (simp_all add: delivered_unit_def staged_unit_def new_work_unit_def get_work_units_def delivered_store_def)

lemma recorded_delivery: "\<exists>u d'. record_work_unit_delivery clk staged_id ''w'' ''web'' v (delivered_store st) = Inr (u, d')
    \<and> db_tasks d' = [staged_task st] \<and> db_attempts d' = []"
proof -
  have "leased_by staged_id ''w'' (delivered_store st)"
    by (simp add: leased_by_def holds_lease_def delivered_store_def staged_store_def staged_task_def sample_task_def)
  moreover have "db_workUnits (delivered_store st) = [delivered_unit]" "db_tasks (delivered_store st) = [staged_task st]"
    "db_attempts (delivered_store st) = []"
    by (simp_all add: delivered_store_def staged_store_def empty_database_def)
  ultimately show ?thesis
    by (simp add: record_work_unit_delivery_def update_unit_def update_where_def returning_def unit_of_def
        delivered_unit_fields Let_def)
qed

lemma outcome_recorded:
  assumes "db_tasks d = [staged_task st]" and "db_attempts d = []"
  shows "\<exists>s'. run_stage o' idle staged_id (record_outcome (with_evidence sample_delivery) (staged_task st) us c) (at_step n d x) = (Inr (), s')"
proof -
  have "leased_by staged_id ''w'' d"
    using assms(1) by (simp add: leased_by_def holds_lease_def staged_task_def sample_task_def)
  moreover have "latest_attempt staged_id st d = None"
    using assms(2) by (simp add: latest_attempt_def attempts_in_def first_least_None)
  moreover have "t_state (staged_task st) = st" "xd_workerId (lift_deps (staged_deps 0)) = ''w''"
    by (simp_all add: staged_task_def sample_task_def lift_deps_def staged_deps_def)
  ultimately show ?thesis
    using assms(2) by (simp add: record_outcome_def begin_attempt_def end_attempt_def runs staged_row sample_delivery_def
        start_attempt_def complete_attempt_def attempt_numbered_def attempt_in_def)
qed

lemma merged_request_fields:
  "pu_number merged_request = 7" "pu_merged merged_request" "pu_mergeCommitSha merged_request = Some ''m1''"
  "pu_headSha merged_request = ''c1''" "pu_headRef merged_request = ''b''" "pu_headRepository merged_request = Some ''a/web''"
  "pu_baseRef merged_request = ''main''" "pu_url merged_request = ''u''"
  by (simp_all add: merged_request_def)

lemma observes_merged:
  "\<exists>u x'. run_stage o' idle staged_id (observe_unit (with_evidence sample_delivery) delivered_unit) (at_step n d x)
      = (Inr u, at_step (Suc (Suc (Suc n))) d x') \<and> is_merged u \<and> \<not> is_blocked u"
  by (simp add: observe_unit_def runs delivered_unit_fields sample_registry sample_services observe_pull_request_def Let_def
      head_kept_def observe_merged_def merged_request_fields still_contains_def observed_def is_merged_def is_blocked_def) blast

lemma merged_completes:
  "\<exists>a s'. run_stage o' idle staged_id (observation_stage (with_evidence sample_delivery) (staged_task READY_FOR_HUMAN_REVIEW))
      (at_step 0 (delivered_store READY_FOR_HUMAN_REVIEW) x) = (Inr (Advance a), s') \<and> adv_to a = COMPLETED"
proof -
  let ?task = "staged_task READY_FOR_HUMAN_REVIEW" and ?d = "delivered_store READY_FOR_HUMAN_REVIEW" and ?dd = "with_evidence sample_delivery"
  have contract: "validate_planning_issue (dd_exec sample_delivery) (enc_issue (sample_issue ''a'' [] [])) = Inr (sample_issue ''a'' [] [])"
    by (simp add: sample_delivery_def staged_contract)
  have repos: "pi_repositories (sample_issue ''a'' [] []) = [''web'']" by (simp add: sample_issue_def)
  have w: "xd_workerId (lift_deps (dd_exec sample_delivery)) = ''w''" "t_state ?task = READY_FOR_HUMAN_REVIEW"
      "dl_linearComments (dd_delivery ?dd) = False"
    by (simp_all add: sample_delivery_def lift_deps_def staged_deps_def staged_task_def sample_task_def with_evidence_def)
  obtain u x' where u: "run_stage o' idle staged_id (observe_unit ?dd delivered_unit) (at_step (Suc (Suc 0)) ?d x)
      = (Inr u, at_step (Suc (Suc (Suc (Suc (Suc 0))))) ?d x')" "is_merged u" "\<not> is_blocked u" using observes_merged by blast
  obtain r d' where d': "record_work_unit_delivery 0 staged_id ''w'' ''web'' (no_update\<lparr>du_state := Some (unit_state (ou_delivery u)),
              du_outcome := Some (delivery_reason (ou_delivery u)), du_mergeCommit := Some (merge_commit_of (ou_delivery u)),
              du_observation := Some (JObj (ou_observation u))\<rparr>) ?d = Inr (r, d')"
      "db_tasks d' = [?task]" "db_attempts d' = []" using recorded_delivery by blast
  have observed: "run_stage o' idle staged_id (observe_step ?dd ?task delivered_unit []) (at_step (Suc 0) ?d x)
      = (Inr (Inr [u]), at_step (Suc (Suc (Suc (Suc (Suc (Suc 0)))))) d' x')"
    by (simp add: observe_step_def runs u d' record_delivery_def delivered_unit_fields staged_row w)
  obtain s' where s': "run_stage o' idle staged_id (record_outcome ?dd ?task [u] None) (at_step (Suc (Suc (Suc (Suc (Suc (Suc 0)))))) d' x') = (Inr (), s')"
    using outcome_recorded [OF d'(2,3)] by blast
  have decided: "\<exists>a. run_stage o' idle staged_id (decide_delivery ?dd ?task [u]) (at_step (Suc (Suc (Suc (Suc (Suc (Suc 0)))))) d' x')
      = (Inr (Advance a), s') \<and> adv_to a = COMPLETED"
    by (simp add: decide_delivery_def u w sync_linear_comment_def runs advance_delivery_def s')
  then show ?thesis
    by (auto simp: observation_stage_def observe_delivery_def runs contract repos staged_row delivered_unit_fields observed)
qed

section \<open>A push that fails\<close>

definition pushing_store :: database where
  "pushing_store = staged_store PR_CREATED [saved REVIEWING review_key approval,
     saved TESTING quality_key (JObj [(''heads'', enc_heads [(''web'', ''c1'')]), (''attempt'', JNum 1)])]"

definition pushed_workspace :: task_workspace where
  "pushed_workspace = \<lparr>tw_taskId = staged_id, tw_repository = ''web'', tw_workspacePath = ''/w/web'', tw_branch = ''b'',
     tw_baseCommit = ''c0''\<rparr>"

lemma pushing_checkpoints:
  "get_checkpoint staged_id review_key pushing_store = Some approval"
  "get_checkpoint staged_id quality_key pushing_store = Some (JObj [(''heads'', enc_heads [(''web'', ''c1'')]), (''attempt'', JNum 1)])"
  by (simp_all add: get_checkpoint_def pushing_store_def staged_store_def saved_def checkpoint_of_def review_key_def quality_key_def)

lemma decoded_checkpoints:
  "dec_review_approved approval = Some ([(''web'', ''c1'')], 1, ''fine'')"
  "dec_quality_passed (JObj [(''heads'', enc_heads [(''web'', ''c1'')]), (''attempt'', JNum 1)]) = Some ([(''web'', ''c1'')], 1)"
  by (simp_all add: approval_def dec_review_approved_def dec_quality_passed_def open_object_def field_def dec_int_def dec_string_def)

lemma lifted_load [runs]: "run_stage o' idle tid (load_task_workspaces (lift_deps (staged_deps code)) (staged_task st))
    (at_step n (staged_store st' cs) x) = (Inr staged_loaded, at_step (Suc (Suc n)) (staged_store st' cs) x)"
proof -
  have names: "wu_repository staged_unit = ''web''" "wu_workspacePath staged_unit = Some ''/w/web''" "wu_branch staged_unit = Some ''b''"
    "wu_baseCommit staged_unit = Some ''c0''" by (simp_all add: staged_unit_def new_work_unit_def)
  have verify: "sx_verify (xd_services (lift_deps (staged_deps code))) w = (\<lambda>_ x. (Inr ''c1'', x))" for w
    by (simp add: lift_deps_def lift_services_def staged_deps_def staged_services_def quietly_def noted_def fun_eq_iff)
  have dir: "task_directory (lift_deps (staged_deps code)) staged_id = task_directory (staged_deps code) staged_id"
    by (simp add: task_directory_def lift_deps_def)
  have repos: "pi_repositories (sample_issue ''a'' [] []) = [''web'']" by (simp add: sample_issue_def)
  show ?thesis
    by (simp add: load_task_workspaces_def runs staged_row staged_contract staged_units dir staged_directory repos names
        load_unit_def verify Let_def override_def staged_loaded_def lu_repository_def)
qed

lemma started_attempt:
  "\<exists>d'. start_attempt uid clk staged_id PR_CREATED ''w'' j pushing_store = Inr (1, d')
     \<and> db_tasks d' = [staged_task PR_CREATED] \<and> db_operations d' = []"
proof -
  have "leased_by staged_id ''w'' pushing_store" "latest_attempt staged_id PR_CREATED pushing_store = None"
    by (simp_all add: leased_by_def holds_lease_def pushing_store_def staged_store_def staged_task_def sample_task_def
        latest_attempt_def attempts_in_def empty_database_def first_least_None)
  then show ?thesis by (simp add: start_attempt_def) (simp add: pushing_store_def staged_store_def empty_database_def)
qed

lemma nothing_found: "cumulative_violations (staged_deps 0) (collect_changes ''web'' [] [] [] n) = []"
    "rg_patchSkipped (collect_changes ''web'' [] [] [] n) = False" "parse_commits [] = []"
proof -
  have c: "collect_changes ''web'' [] [] [] n = \<lparr>rg_repository = ''web'', rg_files = [], rg_addedLines = [], rg_patchSkipped = False\<rparr>"
    by (simp add: collect_changes_def parse_raw_diff_def Let_def)
  show "rg_patchSkipped (collect_changes ''web'' [] [] [] n) = False" by (simp add: c)
  show "parse_commits [] = []" by code_simp
  show "cumulative_violations (staged_deps 0) (collect_changes ''web'' [] [] [] n) = []"
    unfolding c by code_simp
qed

lemma sample_push_services:
  "gh_repository (watched (dd_services sample_delivery)) r v x = (Inr \<lparr>gr_fullName = ''a/web'', gr_archived = False, gr_canPush = Some True\<rparr>, x)"
  "ws_log (watched (dd_services sample_delivery)) p a b v x = (Inr [], (fst x, snd x @ [ToldCommits p a b []]))"
  "ws_range (watched (dd_services sample_delivery)) p a b v x = (Inr ([], [], []), (fst x, snd x @ [ToldChanges p a b ([], [], [])]))"
  "ws_push (watched (dd_services sample_delivery)) ws c v x = (Inl (RemoteUnavailableError ''web''), (fst x, snd x @ [SentBranch ws c]))"
  by (simp_all add: watched_def sample_delivery_def quietly_def noted_def sent_def prod_eq_iff)

lemma refused_push:
  assumes "db_tasks d = [staged_task PR_CREATED]" and "db_operations d = []"
  shows "\<exists>d' l. run_stage o' idle staged_id (deliver_step (with_evidence sample_delivery) (staged_task PR_CREATED) loaded summary
        \<lparr>lu_workspace = pushed_workspace, lu_head = ''c1''\<rparr> ps) (at_step n d x)
      = (Inl (RemoteUnavailableError ''web''),
         at_step (Suc (Suc (Suc (Suc (Suc (Suc n)))))) d' ((), l)) \<and> SentBranch pushed_workspace ''c1'' \<in> set l"
proof -
  have fields: "tw_repository pushed_workspace = ''web''" "tw_baseCommit pushed_workspace = ''c0''" "dd_exec sample_delivery = staged_deps 0"
    by (simp_all add: pushed_workspace_def sample_delivery_def)
  show ?thesis
    by (simp add: deliver_step_def deliver_unit_def publish_unit_def push_branch_def idempotent_operation_def runs lu_repository_def fields
        sample_registry verify_repository_access_def verify_branch_content_def reject_if_def sample_push_services Let_def nothing_found
        begin_external_operation_def assms staged_row) force
qed

lemma failing_push:
  "\<exists>u m l s'. run_stage o' idle staged_id (pull_request_stage (with_evidence sample_delivery) (staged_task PR_CREATED))
      (at_step 0 pushing_store ((), [])) = (Inr (Wait u ''Git remote unavailable'' m), s')
    \<and> SentBranch pushed_workspace ''c1'' \<in> set (snd (rn_ext s'))"
proof -
  let ?task = "staged_task PR_CREATED" and ?dd = "with_evidence sample_delivery"
  have w: "xd_workerId (lift_deps (staged_deps 0)) = ''w''" "t_state ?task = PR_CREATED" "dd_exec sample_delivery = staged_deps 0"
    by (simp_all add: sample_delivery_def lift_deps_def staged_deps_def staged_task_def sample_task_def with_evidence_def)
  obtain d' where d': "start_attempt (sx_newId (xd_services (lift_deps (staged_deps 0))) pushing_store) 0 staged_id PR_CREATED ''w''
      (JObj [(''heads'', enc_heads [(''web'', ''c1'')])]) pushing_store = Inr (1, d')"
      "db_tasks d' = [staged_task PR_CREATED]" "db_operations d' = []" using started_attempt by blast
  have heads: "lw_heads staged_loaded = [(''web'', ''c1'')]" "lw_units staged_loaded = [\<lparr>lu_workspace = pushed_workspace, lu_head = ''c1''\<rparr>]"
    by (simp_all add: staged_loaded_def pushed_workspace_def Let_def)
  have pre: "run_stage o' idle staged_id (delivery_preconditions ?dd ?task) (at_step 0 pushing_store ((), []))
      = (Inr (Inr (staged_loaded, ''fine'', 1)), at_step (Suc (Suc (Suc (Suc (Suc 0))))) d' ((), []))"
    using pushing_checkpoints by (simp add: delivery_preconditions_def runs w staged_row Let_def pushing_store_def decoded_checkpoints same_heads_def
        heads begin_attempt_def d' [unfolded pushing_store_def])
  show ?thesis
    using refused_push [OF d'(2,3), where o' = o' and n = "Suc (Suc (Suc (Suc (Suc 0))))" and loaded = staged_loaded
        and summary = "''fine''" and ps = "[]" and x = "((), [])"]
    by (auto simp: pull_request_stage_def runs pre heads on_delivery_error_def classify_delivery_error_def Let_def)
qed

end
