(* ===== verification/DeliveryGuarantees.thy ===== *)
theory DeliveryGuarantees
  imports DeliverySamples StageGuarantees
begin

text \<open>
  What delivery guarantees: only reviewed, gated and inspected commits are pushed, a task completes only
  when GitHub reported every pull request merged, required checks and reviews count as they should, a
  recorded side effect is not repeated, and the complete handler table keeps the laws of the machine.
\<close>

section \<open>Completion\<close>

text \<open>GitHub said that the recorded pull request of the unit is merged into the base branch.\<close>

definition reported_merged :: "registry \<Rightarrow> work_unit_row \<Rightarrow> delivery_event set \<Rightarrow> bool" where
  "reported_merged rs u E \<longleftrightarrow> (\<exists>r n branch pushed p c relation.
     registry_get rs (wu_repository u) = Inr r \<and> wu_pullRequestNumber u = Some n \<and> wu_branch u = Some branch
     \<and> wu_pushedCommit u = Some pushed
     \<and> ToldPullRequest (ry_github r) n p \<in> E \<and> pu_merged p \<and> pu_mergeCommitSha p = Some c
     \<and> pu_headRepository p = Some (ry_github r) \<and> pu_headRef p = branch \<and> pu_baseRef p = ry_baseBranch r
     \<and> (pu_headSha p = pushed
        \<or> (\<exists>moved. ToldRelation (ry_github r) pushed (pu_headSha p) moved \<in> E \<and> still_contains moved))
     \<and> ToldRelation (ry_github r) c (ry_baseBranch r) relation \<in> E \<and> still_contains relation)"

lemma reported_merged_mono: "reported_merged rs u E \<Longrightarrow> E \<subseteq> F \<Longrightarrow> reported_merged rs u F"
  unfolding reported_merged_def by blast

definition observed_right :: "registry \<Rightarrow> work_unit_row \<Rightarrow> observed_unit \<Rightarrow> delivery_event set \<Rightarrow> bool" where
  "observed_right rs u ou E \<longleftrightarrow> ou_unit ou = u \<and> (is_merged ou \<longrightarrow> reported_merged rs u E)"

lemma observed_simps [simp]:
  "ou_unit (observed u r url ob dl) = u" "is_merged (observed u r url ob dl) = (merge_commit_of dl \<noteq> None)"
  "ou_unit (observed_blocked u r ob m) = u" "\<not> is_merged (observed_blocked u r ob m)"
  by (simp_all add: observed_def observed_blocked_def is_merged_def)

lemma judge_not_merged [simp]: "merge_commit_of (judge_checks dd r p late checks reviews) = None"
  by (simp add: judge_checks_def split: checks_outcome.split)

lemma observe_unit_wp:
  "wp same_log (observe_unit (with_evidence dd) u) (on_ok (\<lambda>ou w'. observed_right (dd_registry dd) u ou (events w'))) w"
proof -
  let ?Q = "\<lambda>ou w'. observed_right (dd_registry dd) u ou (events w')"
  have stopped: "?Q (observed_blocked u r ob m) w'" for r ob m and w' :: "database \<times> 'a watched"
    by (simp add: observed_right_def)
  have open_pr: "wp same_log (observe_open (with_evidence dd) u r p ob late) (on_ok ?Q) w" for r p ob late and w :: "database \<times> 'a watched"
    by (rule wp_mono [OF wp_always [where P = "ok_is (\<lambda>ou. ou_unit ou = u \<and> \<not> is_merged ou)"]])
      (auto simp: observe_open_def Let_def observed_right_def on_ok_def ok_is_def is_merged_def observed_def observed_blocked_def
        intro!: always_bnd_any split: sum.splits)
  have merged: "wp same_log (observe_merged (with_evidence dd) u r p ob late) (on_ok ?Q) w"
    if told: "registry_get (dd_registry dd) (wu_repository u) = Inr r" "wu_pullRequestNumber u = Some n" "wu_branch u = Some branch"
        "wu_pushedCommit u = Some pushed" "ToldPullRequest (ry_github r) n p \<in> events w" "pu_merged p"
        "pu_headRepository p = Some (ry_github r)" "pu_headRef p = branch" "pu_baseRef p = ry_baseBranch r"
        "pu_headSha p = pushed \<or> (\<exists>moved. ToldRelation (ry_github r) pushed (pu_headSha p) moved \<in> events w \<and> still_contains moved)"
    for r n p ob late branch pushed and w :: "database \<times> 'a watched"
  proof (cases "pu_mergeCommitSha p")
    case None
    then show ?thesis by (simp add: observe_merged_def observed_right_def)
  next
    case (Some c)
    show ?thesis unfolding observe_merged_def Some option.case with_evidence_simps watched_def delivery_services.simps
    proof (rule wp_bnd, rule wp_noted)
      fix relation and w' :: "database \<times> 'a watched"
      assume grown: "set [ToldRelation (ry_github r) c (ry_baseBranch r) relation] \<subseteq> events w'" "events w \<subseteq> events w'"
      have "reported_merged (dd_registry dd) u (events w')" if "still_contains relation"
        unfolding reported_merged_def using told Some grown that by fastforce
      then show "wp same_log (let seen = ob @ [(''mergeCommitReachable'', JBool (still_contains relation))] in
        return (if still_contains relation
          then observed u r (pu_url p) seen (UnitMerged (''Merged as '' @ short_sha c) c)
          else if late then observed_blocked u r seen (''Merge commit '' @ short_sha c @ '' is not reachable from ''
            @ ry_baseBranch r @ '' ('' @ show_comparison relation @ '')'')
          else observed u r (pu_url p) seen (UnitMergeUnverified (''Merge commit '' @ short_sha c
            @ '' not yet reachable from '' @ ry_baseBranch r)))) (on_ok ?Q) w'"
        by (auto simp: Let_def observed_right_def)
    qed
  qed
  have kept: "wp same_log (head_kept (with_evidence dd) r pushed head) (on_ok (\<lambda>kept w'. events w \<subseteq> events w' \<and> (kept \<longrightarrow> head = pushed
      \<or> (\<exists>moved. ToldRelation (ry_github r) pushed head moved \<in> events w' \<and> still_contains moved)))) w"
    for r pushed head and w :: "database \<times> 'a watched"
  proof (cases "head = pushed")
    case False
    show ?thesis unfolding head_kept_def with_evidence_simps watched_def delivery_services.simps
      using False by (auto intro!: wp_bnd wp_noted)
  qed (simp add: head_kept_def)
  show ?thesis unfolding observe_unit_def
  proof (rule wp_bnd, rule wp_lift)
    fix r assume r: "registry_get (dd_registry (with_evidence dd)) (wu_repository u) = Inr r"
    show "wp same_log (case (wu_pushedCommit u, wu_pullRequestNumber u, wu_branch u) of
       (Some pushed, Some number, Some branch) \<Rightarrow>
         bnd (outer (gh_get (dd_services (with_evidence dd)) (ry_github r) number)) (\<lambda>p.
         bnd clock_now (\<lambda>now. observe_pull_request (with_evidence dd) u r branch pushed p now))
     | _ \<Rightarrow> return (observed_blocked u r [] ''No delivered pull request is recorded for this repository'')) (on_ok ?Q) w"
    proof (cases "wu_pushedCommit u = None \<or> wu_pullRequestNumber u = None \<or> wu_branch u = None")
      case False
      then obtain pushed n branch where u: "wu_pushedCommit u = Some pushed" "wu_pullRequestNumber u = Some n" "wu_branch u = Some branch"
        by auto
      have judge: "wp same_log (observe_pull_request (with_evidence dd) u r branch pushed p now) (on_ok ?Q) w'"
        if told: "ToldPullRequest (ry_github r) n p \<in> events w'" for p now and w' :: "database \<times> 'a watched"
      proof (cases "pu_headRepository p \<noteq> Some (ry_github r) \<or> pu_headRef p \<noteq> branch \<or> pu_baseRef p \<noteq> ry_baseBranch r")
        case True
        then show ?thesis by (auto simp: observe_pull_request_def Let_def stopped)
      next
        case False
        then have same: "pu_headRepository p = Some (ry_github r)" "pu_headRef p = branch" "pu_baseRef p = ry_baseBranch r" by auto
        show ?thesis unfolding observe_pull_request_def Let_def
          apply (simp only: same simp_thms if_False not_True_eq_False)
          apply (rule wp_bnd)
          apply (rule wp_mono [OF kept])
          subgoal for kept' w''
            using told by (cases kept') (auto simp: stopped open_pr intro!: merged r [unfolded with_evidence_simps] u same)
          done
      qed
      show ?thesis unfolding u option.case prod.case
        by (rule wp_bnd, simp only: with_evidence_simps watched_def delivery_services.simps, rule wp_noted,
            rule wp_bnd, rule wp_clock, rule judge) auto
    qed (auto simp: stopped split: option.split)
  qed
qed

definition completes :: "stage_outcome \<Rightarrow> bool" where
  "completes o' = (case o' of Advance a \<Rightarrow> adv_to a = COMPLETED | _ \<Rightarrow> False)"

lemma completes_simps [simp]:
  "\<not> completes Interrupted" "\<not> completes (Wait u m e)" "\<not> completes (manual_delivery m' r)" "\<not> completes (delivery_needs_operator m')"
  "completes (Advance a) = (adv_to a = COMPLETED)" "\<not> completes (PauseLimit q t rs)"
  by (simp_all add: completes_def delivery_needs_operator_def manual_delivery_def manual_intervention_def)

lemma decide_completes: "always (ok_is (\<lambda>o'. completes o' \<longrightarrow> list_all is_merged us)) (decide_delivery dd task us)"
  unfolding decide_delivery_def advance_delivery_def poll_again_def
  by (auto simp: Let_def intro!: always_bnd_any)

lemma superset_invariant: "log_invariant (\<lambda>E. F \<subseteq> E)"
  by (auto simp: log_invariant_def)

lemma wp_keeps_events:
  assumes "acts_keep (\<lambda>w. events w0 \<subseteq> events w) p"
  shows "wp same_log p (\<lambda>_ w. events w0 \<subseteq> events w) w0"
  by (rule wp_acts [OF assms]) (auto simp: same_log_events)

text \<open>All units of the task were reported merged.\<close>

definition all_reported :: "'x delivery_deps \<Rightarrow> task_row \<Rightarrow> delivery_event set \<Rightarrow> bool" where
  "all_reported dd task E \<longleftrightarrow> (\<exists>contract units.
     validate_planning_issue (dd_exec dd) (t_contractSnapshot task) = Inr contract
     \<and> join [nul_char] (map wu_repository units) = join [nul_char] (sort (pi_repositories contract))
     \<and> (\<forall>u \<in> set units. reported_merged (dd_registry dd) u E))"

lemma observe_step_wp:
  assumes "list_all2 (\<lambda>u ou. observed_right (dd_registry dd) u ou (events w)) us ous"
  shows "wp same_log (observe_step (with_evidence dd) task u ous)
    (on_ok (\<lambda>o' w'. case o' of Inl r \<Rightarrow> \<not> completes r
       | Inr ous' \<Rightarrow> list_all2 (\<lambda>u ou. observed_right (dd_registry dd) u ou (events w')) (us @ [u]) ous')) w"
proof -
  let ?all = "\<lambda>us ous w. list_all2 (\<lambda>u ou. observed_right (dd_registry dd) u ou (events w)) us ous"
  have mono: "list_all2 (\<lambda>u ou. observed_right (dd_registry dd) u ou F) us ous"
    if "list_all2 (\<lambda>u ou. observed_right (dd_registry dd) u ou E) us ous" "E \<subseteq> F" for us ous E F
    using that(1) by (rule list_all2_mono) (use that(2) reported_merged_mono in \<open>auto simp: observed_right_def\<close>)
  have wrote: "wp same_log (record_delivery (with_evidence dd) task repo v) (\<lambda>_ w'. events w \<subseteq> events w') w"
    for repo v and w :: "database \<times> 'a watched"
    by (rule wp_keeps_events, rule delivery_calls.record_delivery_acts [OF watched_calls [OF superset_invariant]])
  show ?thesis unfolding observe_step_def
  proof (rule wp_bnd, rule wp_signal)
    fix signal and w1 :: "database \<times> 'a watched" assume w1: "events w1 = events w"
    have unit: "wp same_log (observe_unit (with_evidence dd) u)
        (on_ok (\<lambda>ou w'. ?all (us @ [u]) (ous @ [ou]) w')) w1"
    proof (rule wp_mono [OF wp_conj [OF observe_unit_wp wp_keeps_events]])
      show "acts_keep (\<lambda>w. events w1 \<subseteq> events w) (observe_unit (with_evidence dd) u)"
        by (rule delivery_calls.observe_unit_acts [OF watched_calls [OF superset_invariant]])
    qed (use w1 in \<open>auto simp: on_ok_def intro!: list_all2_appendI mono [OF assms] split: sum.splits\<close>)
    show "wp same_log (if signal \<noteq> None then return (Inl Interrupted)
     else bnd (observe_unit (with_evidence dd) u) (\<lambda>ou.
       bnd (record_delivery (with_evidence dd) task (wu_repository u) (no_update\<lparr>du_state := Some (unit_state (ou_delivery ou)),
              du_outcome := Some (delivery_reason (ou_delivery ou)), du_mergeCommit := Some (merge_commit_of (ou_delivery ou)),
              du_observation := Some (JObj (ou_observation ou))\<rparr>)) (\<lambda>_.
       return (Inr (ous @ [ou]))))) (on_ok (\<lambda>o' w'. case o' of Inl r \<Rightarrow> \<not> completes r | Inr ous' \<Rightarrow> ?all (us @ [u]) ous' w')) w1"
    proof (cases signal)
      case None
      have "wp same_log (bnd (observe_unit (with_evidence dd) u) (\<lambda>ou.
         bnd (record_delivery (with_evidence dd) task (wu_repository u) (no_update\<lparr>du_state := Some (unit_state (ou_delivery ou)),
              du_outcome := Some (delivery_reason (ou_delivery ou)), du_mergeCommit := Some (merge_commit_of (ou_delivery ou)),
              du_observation := Some (JObj (ou_observation ou))\<rparr>)) (\<lambda>_.
         return (Inr (ous @ [ou]))))) (on_ok (\<lambda>o' w'. case o' of Inl r \<Rightarrow> \<not> completes r | Inr ous' \<Rightarrow> ?all (us @ [u]) ous' w')) w1"
      proof (rule wp_bnd, rule wp_mono [OF unit])
        fix o' and w2 :: "database \<times> 'a watched" assume o': "on_ok (\<lambda>ou w'. ?all (us @ [u]) (ous @ [ou]) w') o' w2"
        show "on_ok (\<lambda>ou. wp same_log (bnd (record_delivery (with_evidence dd) task (wu_repository u)
              (no_update\<lparr>du_state := Some (unit_state (ou_delivery ou)), du_outcome := Some (delivery_reason (ou_delivery ou)),
                du_mergeCommit := Some (merge_commit_of (ou_delivery ou)), du_observation := Some (JObj (ou_observation ou))\<rparr>))
            (\<lambda>_. return (Inr (ous @ [ou])))) (on_ok (\<lambda>o' w'. case o' of Inl r \<Rightarrow> \<not> completes r
              | Inr ous' \<Rightarrow> ?all (us @ [u]) ous' w'))) o' w2"
        proof (cases o')
          case (Inr ou)
          then have "?all (us @ [u]) (ous @ [ou]) w2" using o' by simp
          note kept = mono [OF this]
          show ?thesis unfolding Inr on_ok_simps
            by (rule wp_bnd, rule wp_mono [OF wrote]) (simp add: on_ok_def kept split: sum.split)
        qed simp
      qed
      with None show ?thesis by simp
    qed simp
  qed
qed

lemma observation_wp:
  "wp same_log (observation_stage (with_evidence dd) task) (on_ok (\<lambda>o' w'. completes o' \<longrightarrow> all_reported dd task (events w'))) w"
  unfolding observation_stage_def
proof (rule wp_catching)
  let ?Q = "\<lambda>o' w'. completes o' \<longrightarrow> all_reported dd task (events w')"
  have never: "wp same_log p (on_ok ?Q) w" if "always (ok_is (\<lambda>o'. \<not> completes o')) p" for p and w :: "database \<times> 'a watched"
    by (rule wp_mono [OF wp_always [OF that]]) (auto simp: on_ok_def ok_is_def split: sum.splits)
  have classified: "classify_delivery_error dd' now e = Inr (o', c) \<Longrightarrow> \<not> completes o'" for dd' :: "'b delivery_deps" and now e o' c
    by (auto simp: classify_delivery_error_def Let_def split: orch_error.splits github_error_kind.splits)
  show "wp same_log (bnd clock_now (\<lambda>now. bnd (lift_result (classify_delivery_error (with_evidence dd) now e))
      (\<lambda>(outcome, _). return outcome))) (on_ok ?Q) w" for e and w :: "database \<times> 'a watched"
    by (rule never, rule always_bnd_any, rule always_bnd [where Q = "\<lambda>(o', c). \<not> completes o'"])
      (auto simp: ok_is_def classify_delivery_error_def Let_def split: sum.split orch_error.splits github_error_kind.splits)
  show "wp same_log (observe_delivery (with_evidence dd) task) (on_ok ?Q) w"
    unfolding observe_delivery_def
  proof (rule wp_bnd, rule wp_lift, rule wp_bnd, rule wp_db_read)
    fix contract d and x :: "'a watched"
    assume contract: "validate_planning_issue (dd_exec (with_evidence dd)) (t_contractSnapshot task) = Inr contract"
    let ?units = "get_work_units (t_id task) d"
    have loop: "wp same_log (loop_code (observe_step (with_evidence dd) task) ?units [] (decide_delivery (with_evidence dd) task)) (on_ok ?Q) (d, x)"
      if same: "join [nul_char] (map wu_repository ?units) = join [nul_char] (sort (pi_repositories contract))"
    proof (rule wp_loop [where I = "\<lambda>us ous w. list_all2 (\<lambda>u ou. observed_right (dd_registry dd) u ou (events w)) us ous"])
      fix ous and w :: "database \<times> 'a watched"
      assume right: "list_all2 (\<lambda>u ou. observed_right (dd_registry dd) u ou (events w)) ?units ous"
      have "all_reported dd task F" if "list_all is_merged ous" "events w \<subseteq> F" for F
      proof -
        have "reported_merged (dd_registry dd) u F" if "u \<in> set ?units" for u
          using right \<open>list_all is_merged ous\<close> \<open>events w \<subseteq> F\<close> that reported_merged_mono
          by (fastforce simp: list_all2_conv_all_nth in_set_conv_nth observed_right_def list_all_length)
        with same contract show ?thesis unfolding all_reported_def by auto
      qed
      then show "wp same_log (decide_delivery (with_evidence dd) task ous) (on_ok ?Q) w"
        by (intro wp_mono [OF wp_conj [OF wp_always [OF decide_completes [of ous]] wp_keeps_events
              [OF delivery_calls.decide_acts [OF watched_calls [OF superset_invariant]]]]])
          (auto simp: on_ok_def ok_is_def split: sum.splits)
    qed (auto intro!: wp_mono [OF observe_step_wp] simp: on_ok_def split: sum.splits)
    show "wp same_log (if join [nul_char] (map wu_repository ?units) \<noteq> join [nul_char] (sort (pi_repositories contract))
       then return (delivery_needs_operator ''Work units do not match contract repositories'')
       else loop_code (observe_step (with_evidence dd) task) ?units [] (decide_delivery (with_evidence dd) task)) (on_ok ?Q) (d, x)"
      using loop by simp
  qed
qed

lemma abort_ext [simp]: "rn_ext (abort_stage r s) = rn_ext s"
  by (simp add: abort_stage_def)

lemma refresh_ext [simp]: "rn_ext (refresh_controls o' s) = rn_ext s"
  by (simp add: refresh_controls_def Let_def)

lemma beat_ext [simp]: "rn_ext (beat o' tid s) = rn_ext s"
  by (simp add: beat_def logged_def Let_def split: sum.split orch_error.split prod.split bool.split)

lemma arrive_ext [simp]: "rn_ext (arrive o' env tid s) = rn_ext s"
  by (simp add: arrive_def Let_def)



section \<open>What is pushed\<close>

text \<open>Before the push of a commit, its range was inspected and nothing was found.\<close>

definition inspected :: "'x delivery_deps \<Rightarrow> task_id \<Rightarrow> loaded_unit \<Rightarrow> delivery_event set \<Rightarrow> bool" where
  "inspected dd tid u E \<longleftrightarrow> (\<exists>output raw numstat patch.
     lu_head u \<noteq> tw_baseCommit (lu_workspace u)
     \<and> ToldCommits (lu_path u) (tw_baseCommit (lu_workspace u)) (lu_head u) output \<in> E
     \<and> (\<forall>c \<in> set (parse_commits output). commit_objection (dd_author dd) tid (lu_repository u) c = None)
     \<and> ToldChanges (lu_path u) (tw_baseCommit (lu_workspace u)) (lu_head u) (raw, numstat, patch) \<in> E
     \<and> (let changes = collect_changes (lu_repository u) raw numstat patch
              (dp_maxChangedLines (ag_diffPolicy (xd_agents (dd_exec dd)))) in
        \<not> rg_patchSkipped changes \<and> cumulative_violations (dd_exec dd) changes = []))"

lemma inspected_mono: "inspected dd tid u E \<Longrightarrow> E \<subseteq> F \<Longrightarrow> inspected dd tid u F"
  unfolding inspected_def Let_def by blast

lemma wp_reject_if: "(\<not> b \<Longrightarrow> Q () w) \<Longrightarrow> wp R (reject_if b m) (on_ok Q) w"
  by (cases b) (simp_all add: reject_if_def)

lemma content_wp:
  "wp same_log (verify_branch_content (with_evidence dd) task u) (on_ok (\<lambda>_ w'. inspected dd (t_id task) u (events w'))) w"
  unfolding verify_branch_content_def Let_def
  apply (rule wp_bnd, rule wp_reject_if)
  apply (rule wp_bnd, simp only: with_evidence_simps watched_def delivery_services.simps, rule wp_noted)
  subgoal for found w1
    apply (rule wp_bnd)
    apply (rule wp_mono [where P = "on_ok (\<lambda>_ w. w = w1 \<and> (\<forall>c \<in> set (parse_commits found).
        commit_objection (dd_author dd) (t_id task) (lu_repository u) c = None))"])
    subgoal
      by (auto simp: find_None_iff split: option.split)
    subgoal for r w2
      apply (cases r)
      apply simp
      apply simp
      apply (rule wp_bnd, rule wp_noted)
      apply (clarsimp simp: split: prod.split)
      apply (rule wp_bnd, rule wp_reject_if, rule wp_reject_if)
      unfolding inspected_def Let_def
      apply fastforce
      done
    done
  done

text \<open>The commits of the worktrees are those that the checkpoints \<open>g\<close> say were reviewed and gated.\<close>

definition reviewed_and_gated :: "'x deps \<Rightarrow> (string \<Rightarrow> json option) \<Rightarrow> loaded_workspaces \<Rightarrow> bool" where
  "reviewed_and_gated x g loaded \<longleftrightarrow>
     lw_heads loaded = override [] (map (\<lambda>u. (lu_repository u, lu_head u)) (lw_units loaded))
     \<and> (\<exists>h n summary. Option.bind (g review_key) dec_review_approved = Some (h, n, summary) \<and> same_heads x h (lw_heads loaded))
     \<and> (\<exists>h n. Option.bind (g quality_key) dec_quality_passed = Some (h, n) \<and> same_heads x h (lw_heads loaded))"

definition fit_to_push ::
  "'x delivery_deps \<Rightarrow> task_id \<Rightarrow> (string \<Rightarrow> json option) \<Rightarrow> task_workspace \<Rightarrow> string \<Rightarrow> delivery_event set \<Rightarrow> bool" where
  "fit_to_push dd tid g w c E \<longleftrightarrow> (\<exists>loaded. \<exists>u \<in> set (lw_units loaded). lu_workspace u = w \<and> lu_head u = c
     \<and> reviewed_and_gated (dd_exec dd) g loaded \<and> inspected dd tid u E)"

definition pushes_fit ::
  "'x delivery_deps \<Rightarrow> task_id \<Rightarrow> (string \<Rightarrow> json option) \<Rightarrow> delivery_event set \<Rightarrow> delivery_event set \<Rightarrow> bool" where
  "pushes_fit dd tid g E0 E \<longleftrightarrow> (\<forall>w c. SentBranch w c \<in> E \<longrightarrow> SentBranch w c \<in> E0 \<or> fit_to_push dd tid g w c E)"

lemma fit_to_push_mono: "fit_to_push dd tid g w c E \<Longrightarrow> E \<subseteq> F \<Longrightarrow> fit_to_push dd tid g w c F"
  unfolding fit_to_push_def using inspected_mono by blast

lemma pushes_fit_log: "log_invariant (pushes_fit dd tid g E0)"
proof -
  have same: "SentBranch w c \<in> sends_of E \<longleftrightarrow> SentBranch w c \<in> E" for w c E by (simp add: sends_of_def)
  show ?thesis unfolding log_invariant_def
  proof (intro allI impI)
    fix E F assume L: "pushes_fit dd tid g E0 E" "E \<subseteq> F" "sends_of F = sends_of E"
    show "pushes_fit dd tid g E0 F" unfolding pushes_fit_def
    proof (intro allI impI)
      fix w c assume "SentBranch w c \<in> F"
      then have "SentBranch w c \<in> E" using same [of w c E] same [of w c F] L(3) by simp
      then show "SentBranch w c \<in> E0 \<or> fit_to_push dd tid g w c F"
        using L(1) fit_to_push_mono [OF _ L(2)] unfolding pushes_fit_def by blast
    qed
  qed
qed

lemma pushes_and_inspected_log: "log_invariant (\<lambda>E. pushes_fit dd tid g E0 E \<and> inspected dd tid u E)"
  using pushes_fit_log [of dd tid g E0] unfolding log_invariant_def by (meson inspected_mono)

lemma wp_bnd_any:
  assumes "wp R p (\<lambda>r w. J w \<and> on_ok Q r w) w" and "\<And>a w. J w \<Longrightarrow> Q a w \<Longrightarrow> wp R (f a) (\<lambda>_. J) w"
  shows "wp R (bnd p f) (\<lambda>_. J) w"
  unfolding bnd_def wp_bind_code
  by (rule wp_mono [OF assms(1)]) (use assms(2) in \<open>auto simp: on_ok_def throw_def split: sum.splits\<close>)

lemma wp_keeps_then:
  assumes "acts_keep (\<lambda>w. L (events w)) p" and "L (events w)" and "\<And>a w. L (events w) \<Longrightarrow> wp same_log (f a) (\<lambda>_ w. L (events w)) w"
  shows "wp same_log (bnd p f) (\<lambda>_ w. L (events w)) w"
proof (rule wp_bnd_any [where Q = "\<lambda>_ _. True"])
  show "wp same_log p (\<lambda>r w. L (events w) \<and> on_ok (\<lambda>_ _. True) r w) w"
    by (rule wp_mono [OF wp_acts [OF assms(1) _ assms(2)]]) (auto simp: same_log_events on_ok_def split: sum.split)
qed (rule assms(3))

lemma push_keeps_fit:
  assumes "reviewed_and_gated (dd_exec dd) g loaded" and "u \<in> set (lw_units loaded)"
  shows "calls_keep (\<lambda>w. pushes_fit dd tid g E0 (events w) \<and> inspected dd tid u (events w))
    (ws_push (watched sv) (lu_workspace u) (lu_head u))"
  unfolding calls_keep_def
proof (intro allI impI)
  fix v d and x :: "'b watched" assume J: "pushes_fit dd tid g E0 (events (d, x)) \<and> inspected dd tid u (events (d, x))"
  let ?E = "events (d, snd (ws_push (watched sv) (lu_workspace u) (lu_head u) v x))"
  have E: "?E = insert (SentBranch (lu_workspace u) (lu_head u)) (events (d, x))" by (simp add: watched_def sent_def)
  have i: "inspected dd tid u ?E" by (rule inspected_mono [of dd tid u "events (d, x)"]) (use J E in auto)
  then have "fit_to_push dd tid g (lu_workspace u) (lu_head u) ?E" using assms unfolding fit_to_push_def by blast
  moreover have "fit_to_push dd tid g w c ?E" if "fit_to_push dd tid g w c (events (d, x))" for w c
    using fit_to_push_mono [OF that] E by blast
  ultimately have "pushes_fit dd tid g E0 ?E" using J unfolding pushes_fit_def E by blast
  with i show "pushes_fit dd tid g E0 ?E \<and> inspected dd tid u ?E" by simp
qed

lemma deliver_step_wp:
  assumes "reviewed_and_gated (dd_exec dd) g loaded" and "u \<in> set (lw_units loaded)" and "pushes_fit dd (t_id task) g E0 (events w)"
  shows "wp same_log (deliver_step (with_evidence dd) task loaded summary u ps) (\<lambda>_ w. pushes_fit dd (t_id task) g E0 (events w)) w"
proof -
  let ?L = "pushes_fit dd (t_id task) g E0"
  note calls = watched_calls [OF pushes_fit_log [of dd "t_id task" g E0], of dd]
  note calls2 = watched_calls [OF pushes_and_inspected_log [of dd "t_id task" g E0 u], of dd]
  have publish: "wp same_log (publish_unit (with_evidence dd) task loaded summary u r) (\<lambda>_ w. ?L (events w)) w"
    if "?L (events w)" "inspected dd (t_id task) u (events w)" for r and w :: "database \<times> 'a watched"
  proof -
    have "acts_keep (\<lambda>w. ?L (events w) \<and> inspected dd (t_id task) u (events w))
        (publish_unit (with_evidence dd) task loaded summary u r)"
      by (rule delivery_calls.publish_acts [OF calls2])
        (simp_all add: push_keeps_fit [OF assms(1,2)] created_keeps [OF pushes_and_inspected_log])
    from wp_acts [OF this, of same_log w] that show ?thesis
      by (auto simp: same_log_events intro: wp_mono)
  qed
  have content: "wp same_log (bnd (verify_branch_content (with_evidence dd) task u)
      (\<lambda>_. publish_unit (with_evidence dd) task loaded summary u r)) (\<lambda>_ w. ?L (events w)) w"
    if "?L (events w)" for r and w :: "database \<times> 'a watched"
  proof (rule wp_bnd_any [where Q = "\<lambda>_ w. inspected dd (t_id task) u (events w)"])
    show "wp same_log (verify_branch_content (with_evidence dd) task u)
        (\<lambda>r w. ?L (events w) \<and> on_ok (\<lambda>_ w. inspected dd (t_id task) u (events w)) r w) w"
      by (rule wp_conj [OF wp_acts [OF delivery_calls.content_acts [OF calls]] content_wp])
        (use that in \<open>auto simp: same_log_events\<close>)
  qed (rule publish)
  have unit: "wp same_log (deliver_unit (with_evidence dd) task loaded summary u) (\<lambda>_ w. ?L (events w)) w"
    if "?L (events w)" for w :: "database \<times> 'a watched"
    unfolding deliver_unit_def
    by (intro wp_keeps_then [where L = ?L] that acts_lift delivery_calls.access_acts [OF calls] content) assumption+
  have "wp same_log (bnd (deliver_unit (with_evidence dd) task loaded summary u) (\<lambda>p. return (Inr (ps @ [p]))))
      (\<lambda>_ w. ?L (events w)) w" if "?L (events w)" for w :: "database \<times> 'a watched"
    by (rule wp_bnd_any [where Q = "\<lambda>_ _. True"])
      (auto intro!: wp_mono [OF unit [OF that]] simp: on_ok_def return_def split: sum.split)
  then show ?thesis unfolding deliver_step_def
    by (intro wp_keeps_then [where L = ?L] assms(3) acts_signal) (auto simp: return_def)
qed

lemma loaded_heads:
  "always (ok_is (\<lambda>l. lw_heads l = override [] (map (\<lambda>u. (lu_repository u, lu_head u)) (lw_units l)))) (load_task_workspaces x task)"
  unfolding load_task_workspaces_def by (auto simp: Let_def intro!: always_bnd_any)

lemma preconditions_wp:
  assumes "checkpoints_are (t_id task) g (fst w)"
  shows "wp (others_leave (t_id task)) (delivery_preconditions dd task)
    (on_ok (\<lambda>o' _. case o' of Inl outcome \<Rightarrow> True | Inr (loaded, _) \<Rightarrow> reviewed_and_gated (dd_exec dd) g loaded)) w"
  unfolding delivery_preconditions_def Let_def
proof (rule wp_bnd, rule wp_mono [OF wp_conj [OF wp_always [OF loaded_heads] wp_acts [OF kept_checkpoints.load_acts _ assms]]])
  let ?Q = "\<lambda>o' _. case o' of Inl outcome \<Rightarrow> True | Inr (loaded, _) \<Rightarrow> reviewed_and_gated (dd_exec dd) g loaded"
  let ?x = "dd_exec dd" and ?R = "others_leave (t_id task)"
  have "wp ?R (bnd (read_checkpoint task review_key dec_review_approved) (\<lambda>approved.
      bnd (read_checkpoint task quality_key dec_quality_passed) (\<lambda>passed.
      case (approved, passed) of
        (Some (reviewed, _, summary), Some (gated, _)) \<Rightarrow>
          if same_heads ?x reviewed (lw_heads loaded) \<and> same_heads ?x gated (lw_heads loaded)
          then bnd (begin_attempt ?x task [(''heads'', enc_heads (lw_heads loaded))]) (\<lambda>scope.
                 return (Inr (loaded, summary, scope)))
          else return (Inl (delivery_needs_operator
            ''Delivery requires an approved review and passing quality gates for the current commits''))
      | _ \<Rightarrow> return (Inl (delivery_needs_operator
            ''Delivery requires an approved review and passing quality gates for the current commits''))))) (on_ok ?Q) w"
    if heads: "lw_heads loaded = override [] (map (\<lambda>u. (lu_repository u, lu_head u)) (lw_units loaded))"
      and c: "checkpoints_are (t_id task) g (fst w)" for loaded and w :: "database \<times> 'a"
  proof (rule wp_read [OF c], rule wp_read, assumption)
    fix w :: "database \<times> 'a"
    let ?approved = "Option.bind (g review_key) dec_review_approved" and ?passed = "Option.bind (g quality_key) dec_quality_passed"
    have "always (ok_is (\<lambda>o'. case o' of Inl outcome \<Rightarrow> True | Inr (l, _) \<Rightarrow> l = loaded))
        (bnd (begin_attempt ?x task [(''heads'', enc_heads (lw_heads loaded))]) (\<lambda>scope. return (Inr (loaded, summary, scope))))" for summary
      by (auto intro!: always_bnd_any)
    then have started: "wp ?R (bnd (begin_attempt ?x task [(''heads'', enc_heads (lw_heads loaded))])
        (\<lambda>scope. return (Inr (loaded, summary, scope)))) (on_ok ?Q) w" if "reviewed_and_gated ?x g loaded" for summary
      by (rule wp_mono [OF wp_always]) (use that in \<open>auto simp: on_ok_def ok_is_def split: sum.splits\<close>)
    show "wp ?R (case (?approved, ?passed) of
        (Some (reviewed, _, summary), Some (gated, _)) \<Rightarrow>
          if same_heads ?x reviewed (lw_heads loaded) \<and> same_heads ?x gated (lw_heads loaded)
          then bnd (begin_attempt ?x task [(''heads'', enc_heads (lw_heads loaded))]) (\<lambda>scope.
                 return (Inr (loaded, summary, scope)))
          else return (Inl (delivery_needs_operator
            ''Delivery requires an approved review and passing quality gates for the current commits''))
      | _ \<Rightarrow> return (Inl (delivery_needs_operator
            ''Delivery requires an approved review and passing quality gates for the current commits''))) (on_ok ?Q) w"
      using started heads by (auto simp: reviewed_and_gated_def split: option.split)
  qed
  then show "on_ok (\<lambda>loaded. wp ?R (bnd (read_checkpoint task review_key dec_review_approved) (\<lambda>approved.
      bnd (read_checkpoint task quality_key dec_quality_passed) (\<lambda>passed.
      case (approved, passed) of
        (Some (reviewed, _, summary), Some (gated, _)) \<Rightarrow>
          if same_heads ?x reviewed (lw_heads loaded) \<and> same_heads ?x gated (lw_heads loaded)
          then bnd (begin_attempt ?x task [(''heads'', enc_heads (lw_heads loaded))]) (\<lambda>scope.
                 return (Inr (loaded, summary, scope)))
          else return (Inl (delivery_needs_operator
            ''Delivery requires an approved review and passing quality gates for the current commits''))
      | _ \<Rightarrow> return (Inl (delivery_needs_operator
            ''Delivery requires an approved review and passing quality gates for the current commits''))))) (on_ok ?Q)) a w"
    if "ok_is (\<lambda>l. lw_heads l = override [] (map (\<lambda>u. (lu_repository u, lu_head u)) (lw_units l))) a
       \<and> checkpoints_are (t_id task) g (fst w)" for a and w :: "database \<times> 'a"
    using that by (cases a) simp_all
qed (rule others_leaveD)

definition quiet_others :: "task_id \<Rightarrow> database \<times> 'x \<Rightarrow> database \<times> 'x \<Rightarrow> bool" where
  "quiet_others tid w w' \<longleftrightarrow> same_log w w' \<and> others_leave tid w w'"

lemma pull_request_wp:
  assumes "checkpoints_are (t_id task) g (fst w)"
  shows "wp (quiet_others (t_id task)) (pull_request_stage (with_evidence dd) task)
    (\<lambda>_ w'. pushes_fit dd (t_id task) g (events w) (events w')) w"
proof -
  let ?L = "pushes_fit dd (t_id task) g (events w)" and ?R = "quiet_others (t_id task)"
  note calls = watched_calls [OF pushes_fit_log [of dd "t_id task" g "events w"], of dd]
  have start: "?L (events w)" by (simp add: pushes_fit_def)
  have error: "wp same_log (on_delivery_error (with_evidence dd) task scope e) (\<lambda>_ w. ?L (events w)) w"
    if "?L (events w)" for scope e and w :: "database \<times> 'a watched"
    by (rule wp_acts [OF delivery_calls.on_error_acts [OF calls]]) (use that in \<open>auto simp: same_log_events\<close>)
  have deliver: "wp same_log (catching (loop_code (deliver_step (with_evidence dd) task loaded summary) (lw_units loaded) []
           (finish_delivery (with_evidence dd) task loaded scope)) (on_delivery_error (with_evidence dd) task (Some scope)) return)
      (\<lambda>_ w. ?L (events w)) w"
    if "?L (events w)" "reviewed_and_gated (dd_exec dd) g loaded" for loaded summary scope and w :: "database \<times> 'a watched"
    unfolding catching_def attempt_code_def wp_bind_code
  proof (rule wp_mono [OF wp_loop_any [where J = "\<lambda>w. ?L (events w)", OF that(1)]])
    show "wp same_log (deliver_step (with_evidence dd) task loaded summary u ps) (\<lambda>_ w. ?L (events w)) w"
      if "u \<in> set (lw_units loaded)" "?L (events w)" for u ps and w :: "database \<times> 'a watched"
      by (rule deliver_step_wp [OF \<open>reviewed_and_gated (dd_exec dd) g loaded\<close> that])
    show "wp same_log (finish_delivery (with_evidence dd) task loaded scope ps) (\<lambda>_ w. ?L (events w)) w"
      if "?L (events w)" for ps and w :: "database \<times> 'a watched"
      by (rule wp_acts [OF delivery_calls.finish_acts [OF calls]]) (use that in \<open>auto simp: same_log_events\<close>)
  qed (auto intro!: error simp: return_def split: sum.split)
  have quiet: "quiet_others tid w w' \<Longrightarrow> same_log w w'" "quiet_others tid w w' \<Longrightarrow> others_leave tid w w'"
    for tid and w w' :: "database \<times> 'a watched" by (simp_all add: quiet_others_def)
  have pre: "wp ?R (delivery_preconditions (with_evidence dd) task) (\<lambda>r w. on_ok (\<lambda>o' _. case o' of Inl outcome \<Rightarrow> True
      | Inr (loaded, _) \<Rightarrow> reviewed_and_gated (dd_exec dd) g loaded) r w \<and> ?L (events w)) w"
  proof (rule wp_conj)
    show "wp ?R (delivery_preconditions (with_evidence dd) task) (on_ok (\<lambda>o' _. case o' of Inl outcome \<Rightarrow> True
        | Inr (loaded, _) \<Rightarrow> reviewed_and_gated (dd_exec dd) g loaded)) w"
      by (rule wp_weaken [OF preconditions_wp [OF assms, of "with_evidence dd",
              unfolded reviewed_and_gated_def with_evidence_simps lift_deps_simps, folded reviewed_and_gated_def]]) (rule quiet)
    show "wp ?R (delivery_preconditions (with_evidence dd) task) (\<lambda>_ w. ?L (events w)) w"
      by (rule wp_acts [OF delivery_calls.preconditions_act [OF calls] _ start]) (drule quiet(1), simp add: same_log_events)
  qed
  show ?thesis unfolding pull_request_stage_def catching_def [of "delivery_preconditions (with_evidence dd) task"]
      attempt_code_def wp_bind_code
    by (rule wp_mono [OF pre])
      (auto intro!: wp_weaken [OF error quiet(1)] wp_weaken [OF deliver quiet(1)] simp: return_def on_ok_def split: sum.splits)
qed



section \<open>Side effects\<close>

lemma run_db_any: "run_stage o' env tid (db_call g) s = (let q = arrive o' env tid s in
    case g (rn_now q) (rn_db q) of Inl e \<Rightarrow> (Inl e, q) | Inr (a, d) \<Rightarrow> (Inr a, q\<lparr>rn_db := d\<rparr>))"
  by (simp add: db_call_def call_def Let_def split: sum.split prod.split)

text \<open>C17: A recorded side effect is not repeated: once the ledger holds a completed operation under the key,
  whoever asks for it again gets the recorded response, the effect is not run, and nothing changes
  outside or in the database.\<close>

theorem recorded_effect_is_not_repeated:
  assumes "first_of (filter (has_key key) (db_operations d)) = Some x" and "xo_taskId x = t_id task"
    and "xo_status x = ''SUCCEEDED''" and "d = rn_db (arrive o' env tid s)"
  shows "run_stage o' env tid (idempotent_operation dd task type key request effect) s
    = (Inr (or_else (xo_response x) (JObj []), True), arrive o' env tid s)"
proof -
  let ?q = "arrive o' env tid s"
  have "begin_external_operation uid t \<lparr>or_taskId = t_id task, or_operationType = type, or_idempotencyKey = key,
      or_request = JObj request\<rparr> (rn_db ?q) = Inr ((x, False), rn_db ?q)" for uid t
    using assms(1,4) by (simp add: begin_external_operation_def)
  then show ?thesis using assms(2,3) by (simp add: idempotent_operation_def run_bnd run_db_any run_return)
qed

lemma recorded_effect_is_not_repeated_witness:
  "\<exists>s'. run_stage sample_worker idle staged_id (idempotent_operation sample_delivery (staged_task PR_CREATED) ''GIT_PUSH'' ''k'' [] (\<lambda>_. throw (PlainError ''ran'')))
     (at_step 0 (pushing_store\<lparr>db_operations := [\<lparr>xo_id = ''o1'', xo_taskId = staged_id, xo_operationType = ''GIT_PUSH'', xo_idempotencyKey = ''k'',
        xo_status = ''SUCCEEDED'', xo_request = JObj [], xo_response = Some (JNum 7), xo_startedAt = 0, xo_completedAt = Some 1\<rparr>]\<rparr>) ()) = (Inr (JNum 7, True), s')"
proof -
  let ?x = "\<lparr>xo_id = ''o1'', xo_taskId = staged_id, xo_operationType = ''GIT_PUSH'', xo_idempotencyKey = ''k'',
        xo_status = ''SUCCEEDED'', xo_request = JObj [], xo_response = Some (JNum 7), xo_startedAt = 0, xo_completedAt = Some 1\<rparr>"
  let ?d = "pushing_store\<lparr>db_operations := [?x]\<rparr>"
  have "first_of (filter (has_key ''k'') (db_operations ?d)) = Some ?x" by (simp add: has_key_def)
  then show ?thesis
    by (intro exI, rule recorded_effect_is_not_repeated [where d = ?d and x = ?x, THEN trans]) (simp_all add: staged_row)
qed


section \<open>Checks and reviews\<close>

definition explicit_success :: "check_report \<Rightarrow> bool" where
  "explicit_success c \<longleftrightarrow> ck_conclusion c = Some ''success''
     \<and> (if ck_kind c = CommitStatus then ck_status c \<noteq> ''pending'' else ck_status c = ''completed'')"

text \<open>C18: Required checks pass exactly when the base branch requires at least one check and every required one
  is reported, by the app it is pinned to, and every such report is an explicit success; a branch that
  requires none never passes. A check required twice counts once and changes nothing.\<close>

theorem required_checks_pass_iff:
  "(ev_outcome (evaluate_required_checks p rs) = ChecksPassed \<longleftrightarrow>
      bp_requiredChecks p \<noteq> []
      \<and> list_all (\<lambda>q. let found = filter (\<lambda>c. ck_name c = qk_context q \<and> qk_appId q \<in> {None, ck_appId c}) rs in
           found \<noteq> [] \<and> list_all explicit_success found) (bp_requiredChecks p))
   \<and> (ev_outcome (evaluate_required_checks p rs) = NoPolicy \<longleftrightarrow> bp_requiredChecks p = [])"
proof -
  have success: "state_of c = CheckSuccess \<longleftrightarrow> explicit_success c" for c
    by (auto simp: state_of_def explicit_success_def)
  have matches: "matches_check q = (\<lambda>c. ck_name c = qk_context q \<and> qk_appId q \<in> {None, ck_appId c})" for q
    by (auto simp: matches_check_def fun_eq_iff)
  have "ev_outcome (evaluate_required_checks p rs) = NoPolicy \<longleftrightarrow> bp_requiredChecks p = []"
    by (simp add: evaluate_required_checks_def Let_def required_map_empty)
  moreover have "ev_outcome (evaluate_required_checks p rs) = ChecksPassed \<longleftrightarrow> bp_requiredChecks p \<noteq> []
      \<and> list_all (\<lambda>q. filter (matches_check q) rs \<noteq> [] \<and> list_all explicit_success (filter (matches_check q) rs)) (bp_requiredChecks p)"
    unfolding evaluation_passed success by (auto simp: list_all_iff filter_empty_conv)
  ultimately show ?thesis by (simp add: matches Let_def)
qed

text \<open>C19: A reviewer's latest decisive review counts: with the reviews in the order they were submitted, a
  reviewer is listed as approving exactly when the last of his reviews that is neither a comment nor
  pending is an approval, and as requesting changes likewise; a dismissal clears the decision.\<close>

theorem latest_review_decides:
  "(who \<in> set (rs_approvedBy (summarize_reviews le reviews head n)) \<longleftrightarrow>
      (let ds = filter (decisive who) (sort_by (\<lambda>l r. le (or_else (rv_submittedAt l) []) (or_else (rv_submittedAt r) [])) reviews) in
       ds \<noteq> [] \<and> rv_state (last ds) = ''APPROVED''))
   \<and> (who \<in> set (rs_changesRequestedBy (summarize_reviews le reviews head n)) \<longleftrightarrow>
      (let ds = filter (decisive who) (sort_by (\<lambda>l r. le (or_else (rv_submittedAt l) []) (or_else (rv_submittedAt r) [])) reviews) in
       ds \<noteq> [] \<and> rv_state (last ds) = ''CHANGES_REQUESTED''))"
  by (simp add: summarize_reviews_def Let_def reviewers_with_iff latest_reviews_def fold_review_steps)

section \<open>Every stage\<close>

text \<open>C5: Whatever a stage sees of the database, of Git, GitHub, Linear, of the agents and of other processes,
  the outcome it returns is one the machine allows from the state it runs in: an advance follows
  \<open>canTransition\<close>, a provider pause is possible there and is no schedule pause, and only a delivery stage
  waits. This holds for the complete table of handlers, with or without delivery.\<close>

theorem every_stage_is_legal:
  assumes "(st, h) \<in> set (create_execution_handlers x ms (map_option delivery_handlers delivery))" and "t_state task = st"
    and "run_stage o' env tid (h task) s = (Inr outcome, s')"
  shows "case outcome of
      Advance a \<Rightarrow> can_transition st (adv_to a)
    | PauseLimit p _ _ \<Rightarrow> can_transition st PAUSED_LIMIT \<and> p \<noteq> OPERATING_HOURS_ENDED
    | Wait _ _ _ \<Rightarrow> st \<in> {PR_CREATED, WAITING_CI, READY_FOR_HUMAN_REVIEW}
    | Interrupted \<Rightarrow> True"
proof (cases "st \<in> execution_states")
  case True
  have "serves_delivery (map_option delivery_handlers delivery)"
    by (cases delivery) (simp_all add: serves_delivery_def delivery_handlers_def execution_states_def)
  then have "such (st \<in> {ANALYZING, IMPLEMENTING, FIXING, REVIEWING})
      (stage_contract x (map_option delivery_handlers delivery \<noteq> None) task st) outcome"
    by (rule stage_outcome [OF assms(1) _ True assms(3)])
  then show ?thesis using True contract_legal [of x _ task st] by (cases outcome) (auto simp: execution_states_def can_transition_iff)
next
  case False
  then have st: "st \<in> {PR_CREATED, WAITING_CI, READY_FOR_HUMAN_REVIEW}"
    and h: "\<exists>dd. (st, h) \<in> set (delivery_handlers dd)"
    using assms(1) by (cases delivery; auto simp: create_execution_handlers_def execution_states_def delivery_handlers_def)+
  then have "always (ok_is (delivery_may st)) (h task)"
    using pull_request_may observation_may [of task] assms(2) by (auto simp: delivery_handlers_def)
  from run_stage_always [OF this assms(3)] st show ?thesis
    by (cases outcome) (auto simp: delivery_may_def plain_block_def can_transition_iff)
qed

lemma every_stage_is_legal_witness:
  "\<exists>a s'. run_stage watched_worker idle staged_id
       (observation_stage (with_evidence sample_delivery) (staged_task READY_FOR_HUMAN_REVIEW))
       (at_step 0 (delivered_store READY_FOR_HUMAN_REVIEW) ((), [])) = (Inr (Advance a), s')
     \<and> can_transition READY_FOR_HUMAN_REVIEW (adv_to a)"
proof -
  obtain a s' where run: "run_stage watched_worker idle staged_id
       (observation_stage (with_evidence sample_delivery) (staged_task READY_FOR_HUMAN_REVIEW))
       (at_step 0 (delivered_store READY_FOR_HUMAN_REVIEW) ((), [])) = (Inr (Advance a), s')"
    using merged_completes by blast
  have h: "(READY_FOR_HUMAN_REVIEW, observation_stage (with_evidence sample_delivery))
      \<in> set (create_execution_handlers x ms (map_option delivery_handlers (Some (with_evidence sample_delivery))))" for x ms
    by (simp add: create_execution_handlers_def delivery_handlers_def)
  have "t_state (staged_task READY_FOR_HUMAN_REVIEW) = READY_FOR_HUMAN_REVIEW" by (simp add: staged_task_def sample_task_def)
  from every_stage_is_legal [OF h this run] run show ?thesis by auto
qed

text \<open>C6: A worker that runs the real stages, delivery included, refines the repository and with it the task
  state machine: if the rest of the system acts by repository operations only, then so does the whole
  run, stages, heartbeats and handover included, and every task moves along allowed transitions.\<close>

theorem complete_run_refines_machine:
  assumes "wo_handlers o' = create_execution_handlers x ms (map_option delivery_handlers delivery)"
    and "\<And>n d. repository_step\<^sup>*\<^sup>* d (if_db (env n) d)"
    and "run_task n o' env tid s = Some (r, s')" and "store_ok (rn_db s)"
  shows "repository_step\<^sup>*\<^sup>* (rn_db s) (rn_db s') \<and> store_ok (rn_db s')
    \<and> machine_step\<^sup>*\<^sup>* (states_of (rn_db s)) (states_of (rn_db s'))"
proof -
  let ?I = "StageEffects.reaches (rn_db s)"
  have "others_keep ?I env"
    unfolding others_keep_def StageEffects.reaches_def using assms(2) by (meson rtranclp_trans)
  moreover have "handlers_keep ?I o'"
    unfolding handlers_keep_def assms(1) by (auto intro: all_handlers_keep)
  moreover have "?I (rn_db s)" by (simp add: StageEffects.reaches_def)
  ultimately have "?I (rn_db s')" using assms(3) by (rule reach_kept.run_task_keeps)
  then have run: "repository_step\<^sup>*\<^sup>* (rn_db s) (rn_db s')" by (simp add: StageEffects.reaches_def)
  with machine.run [OF run assms(4)] show ?thesis by simp
qed

lemma complete_run_refines_machine_witness:
  "\<exists>r s'. run_task (Suc 0) watched_worker idle staged_id ((at_step 0 (staged_store READY []) ((), []))\<lparr>rn_stopping := True\<rparr>) = Some (r, s')
     \<and> repository_step\<^sup>*\<^sup>* (staged_store READY []) (rn_db s')"
proof -
  let ?s = "(at_step 0 (staged_store READY []) ((), []))\<lparr>rn_stopping := True\<rparr> :: unit watched run_state"
  obtain r s' where run: "run_task (Suc 0) watched_worker idle staged_id ?s = Some (r, s')"
    by (rule run_task_stopping [of ?s 0]) (simp_all add: at_step_def)
  have h: "wo_handlers watched_worker = create_execution_handlers (lift_deps (staged_deps 0)) 1000
      (map_option delivery_handlers (Some (with_evidence sample_delivery)))" by (simp add: watched_worker_def)
  have "store_ok (staged_store READY [])" by code_simp
  then have ok: "store_ok (rn_db ?s)" by (simp add: at_step_def)
  from complete_run_refines_machine [OF h _ run ok] run show ?thesis by (auto simp: idle_def at_step_def)
qed

end
