(* ===== verification/GitHost.thy ===== *)
theory GitHost
  imports DeliverySupport
begin

text \<open>
  The fixed \<open>git\<close> executable and the little of the file system that the workspace code asks for
  (\<open>src/workspaces/git.ts\<close>). A procedure of the workspace code is a conversation with the host: it asks
  one question after the other and goes on with the reply. What the host replies is a parameter; the
  record of questions and replies says what was run, in which directory, and after which answers.
\<close>

section \<open>Conversations with the host\<close>

text \<open>
  The end of a Git process: it exited with code 0, or the callback got an error, with the exit code
  unless the process was killed or could not be started.
\<close>

datatype git_exit =
    GitDone string string
  | GitFailed "int option" string string string

datatype host_request =
    RunGit "string list" string
  | RealPath string
  | PathExists string
  | MakeDirectory string
  | RemoveDirectory string
  | FreeDisk string
  | TakeLock string
  | FreeLock string

text \<open>A reply has a field per kind of question, and a question reads its own.\<close>

record host_reply =
  re_git :: git_exit
  re_path :: "string option"
  re_flag :: bool
  re_disk :: "(int \<times> int) option"

type_synonym host_event = "host_request \<times> host_reply"

datatype 'a talk = Told 'a | Ask host_request "host_reply \<Rightarrow> 'a talk"

lemma talk_induct [case_names Told Ask]:
  assumes "\<And>a. P (Told a)" and "\<And>q k. (\<And>x. P (k x)) \<Longrightarrow> P (Ask q k)"
  shows "P t"
proof (induction t)
  case (Ask q k)
  then have "P (k x)" for x by (metis rangeI)
  then show ?case by (rule assms(2))
qed (rule assms(1))

primrec bind_talk :: "'a talk \<Rightarrow> ('a \<Rightarrow> 'b talk) \<Rightarrow> 'b talk" where
  "bind_talk (Told a) f = f a"
| "bind_talk (Ask q k) f = Ask q (\<lambda>x. bind_talk (k x) f)"

type_synonym 'a talks = "(orch_error, 'a) result talk"

definition answer :: "'a \<Rightarrow> 'a talks" where
  "answer a = Told (Inr a)"

definition refuse :: "orch_error \<Rightarrow> 'a talks" where
  "refuse e = Told (Inl e)"

definition blocked :: "string \<Rightarrow> 'a talks" where
  "blocked message = refuse (WorkspaceBlockedError message)"

definition after :: "'a talks \<Rightarrow> ('a \<Rightarrow> 'b talks) \<Rightarrow> 'b talks" where
  "after p f = bind_talk p (\<lambda>r. case r of Inl e \<Rightarrow> refuse e | Inr a \<Rightarrow> f a)"

definition told :: "(orch_error, 'a) result \<Rightarrow> 'a talks" where
  "told r = Told r"

definition blocked_if :: "bool \<Rightarrow> string \<Rightarrow> unit talks" where
  "blocked_if b message = (if b then blocked message else answer ())"

text \<open>A host answers from its state; a conversation leaves a record.\<close>

type_synonym 'w host_machine = "host_request \<Rightarrow> 'w \<Rightarrow> host_reply \<times> 'w"

primrec talk_with :: "'w host_machine \<Rightarrow> 'a talk \<Rightarrow> 'w \<Rightarrow> 'a \<times> 'w \<times> host_event list" where
  "talk_with h (Told a) = (\<lambda>w. (a, w, []))"
| "talk_with h (Ask q k) = (\<lambda>w. let (x, w1) = h q w; (a, w2, l) = talk_with h (k x) w1 in (a, w2, (q, x) # l))"

section \<open>\<open>GitRunner\<close>\<close>

record git_result =
  gt_stdout :: string
  gt_stderr :: string
  gt_exitCode :: int

text \<open>The arguments every command gets: hooks and the file system monitor of a checkout never run.\<close>

definition guard_arguments :: "string list" where
  "guard_arguments = [''-c'', ''core.hooksPath=/dev/null'', ''-c'', ''core.fsmonitor=false'']"

definition max_error_detail :: nat where
  "max_error_detail = 2000"

definition git_command_error :: "string list \<Rightarrow> int option \<Rightarrow> string \<Rightarrow> orch_error" where
  "git_command_error args code stderr = PlainError (''git '' @ (case args of [] \<Rightarrow> '''' | a # _ \<Rightarrow> a) @ '' failed (''
     @ (case code of None \<Rightarrow> ''signal'' | Some n \<Rightarrow> show_int n) @ ''): '' @ take max_error_detail (trim stderr))"

definition git_exit_of :: "string list \<Rightarrow> string \<Rightarrow> git_exit talk" where
  "git_exit_of args cwd = Ask (RunGit (guard_arguments @ args) cwd) (\<lambda>x. Told (re_git x))"

definition failure_text :: "string \<Rightarrow> string \<Rightarrow> string" where
  "failure_text stderr message = (if stderr \<noteq> [] then stderr else message)"

text \<open>\<open>run(args, options)\<close>, with \<open>options.allowFailure\<close> as the flag.\<close>

definition run_git :: "bool \<Rightarrow> string list \<Rightarrow> string \<Rightarrow> git_result talks" where
  "run_git allowFailure args cwd = bind_talk (git_exit_of args cwd) (\<lambda>e. case e of
     GitDone out err \<Rightarrow> answer \<lparr>gt_stdout = out, gt_stderr = err, gt_exitCode = 0\<rparr>
   | GitFailed code out err message \<Rightarrow> (case code of
         Some n \<Rightarrow> if allowFailure then answer \<lparr>gt_stdout = out, gt_stderr = err, gt_exitCode = n\<rparr>
           else refuse (git_command_error args code (failure_text err message))
       | None \<Rightarrow> refuse (git_command_error args code (failure_text err message))))"

definition git_out :: "string list \<Rightarrow> string \<Rightarrow> string talks" where
  "git_out args cwd = after (run_git False args cwd) (\<lambda>x. answer (trim (gt_stdout x)))"

text \<open>\<open>try { \<dots> } catch (error) { \<dots> }\<close>.\<close>

definition catch :: "'a talks \<Rightarrow> (orch_error \<Rightarrow> 'a talks) \<Rightarrow> 'a talks" where
  "catch p f = bind_talk p (\<lambda>r. case r of Inl e \<Rightarrow> f e | Inr a \<Rightarrow> answer a)"

section \<open>The environment of Git\<close>

definition inherited_environment :: "string list" where
  "inherited_environment =
     [''PATH'', ''HOME'', ''USER'', ''LOGNAME'', ''SSH_AUTH_SOCK'', ''XDG_CONFIG_HOME'', ''TMPDIR'']"

definition sextets :: "nat \<Rightarrow> nat \<Rightarrow> nat \<Rightarrow> nat list" where
  "sextets a b c = [a div 4, (a mod 4) * 16 + b div 16, (b mod 16) * 4 + c div 64, c mod 64]"

definition base64_digit :: "nat \<Rightarrow> char" where
  "base64_digit n = ''ABCDEFGHIJKLMNOPQRSTUVWXYZabcdefghijklmnopqrstuvwxyz0123456789+/'' ! n"

fun base64 :: "string \<Rightarrow> string" where
  "base64 [] = []"
| "base64 [a] = map base64_digit (take 2 (sextets (of_char a) 0 0)) @ ''==''"
| "base64 [a, b] = map base64_digit (take 3 (sextets (of_char a) (of_char b) 0)) @ ''=''"
| "base64 (a # b # c # s) = map base64_digit (sextets (of_char a) (of_char b) (of_char c)) @ base64 s"

text \<open>The token reaches Git through numbered configuration variables of the environment only.\<close>

definition token_entries :: "string \<Rightarrow> (string \<times> string) list" where
  "token_entries token =
     [(''credential.helper'', ''''),
      (''http.https://github.com/.extraHeader'', ''Authorization: Basic '' @ base64 (''x-access-token:'' @ token)),
      (''protocol.ssh.allow'', ''never'')]"

definition github_token_git_environment :: "string \<Rightarrow> environment" where
  "github_token_git_environment token =
     foldl (\<lambda>e (n, k, v). map_set (''GIT_CONFIG_VALUE_'' @ show_nat n) v (map_set (''GIT_CONFIG_KEY_'' @ show_nat n) k e))
       [(''GIT_CONFIG_COUNT'', show_nat (length (token_entries token))), (''GIT_ASKPASS'', ''/bin/false''),
        (''SSH_ASKPASS'', ''/bin/false'')]
       (enumerate 0 (token_entries token))"

definition git_environment :: "environment \<Rightarrow> string option \<Rightarrow> environment" where
  "git_environment source githubToken =
     (let e = foldl (\<lambda>e n. case map_of source n of None \<Rightarrow> e | Some v \<Rightarrow> map_set n v e)
            [(''LANG'', ''C''), (''LC_ALL'', ''C''), (''GIT_TERMINAL_PROMPT'', ''0''), (''GIT_OPTIONAL_LOCKS'', ''0'')]
            inherited_environment in
      case githubToken of None \<Rightarrow> e
      | Some token \<Rightarrow> override (filter (\<lambda>(k, _). k \<noteq> ''SSH_AUTH_SOCK'') e) (github_token_git_environment token))"

section \<open>\<open>git worktree list --porcelain -z\<close>\<close>

record worktree_entry =
  we_path :: string
  we_head :: "string option"
  we_branch :: "string option"
  we_locked :: bool
  we_lockReason :: "string option"

definition new_worktree :: "string \<Rightarrow> worktree_entry" where
  "new_worktree path = \<lparr>we_path = path, we_head = None, we_branch = None, we_locked = False, we_lockReason = None\<rparr>"

text \<open>The text before and after the first space.\<close>

definition field_key :: "string \<Rightarrow> string" where
  "field_key f = takeWhile (\<lambda>c. c \<noteq> CHR '' '') f"

definition field_value :: "string \<Rightarrow> string" where
  "field_value f = drop 1 (dropWhile (\<lambda>c. c \<noteq> CHR '' '') f)"

definition finish_entry :: "worktree_entry option \<Rightarrow> worktree_entry list \<Rightarrow> worktree_entry list" where
  "finish_entry current entries = entries @ (case current of None \<Rightarrow> [] | Some e \<Rightarrow> [e])"

definition set_field :: "string \<Rightarrow> string \<Rightarrow> worktree_entry \<Rightarrow> worktree_entry" where
  "set_field k v e =
     (if k = ''HEAD'' then e\<lparr>we_head := Some v\<rparr>
      else if k = ''branch'' then e\<lparr>we_branch := Some v\<rparr>
      else if k = ''locked'' then e\<lparr>we_locked := True, we_lockReason := (if v = '''' then None else Some v)\<rparr>
      else e)"

definition worktree_step :: "worktree_entry option \<times> worktree_entry list \<Rightarrow> string
    \<Rightarrow> worktree_entry option \<times> worktree_entry list" where
  "worktree_step s f =
     (case s of (current, entries) \<Rightarrow>
        if f = '''' then (None, finish_entry current entries)
        else if field_key f = ''worktree'' then (Some (new_worktree (field_value f)), finish_entry current entries)
        else (map_option (set_field (field_key f) (field_value f)) current, entries))"

definition parse_worktree_list :: "string \<Rightarrow> worktree_entry list" where
  "parse_worktree_list output =
     (case foldl worktree_step (None, []) (split_on nul_char output) of (current, entries) \<Rightarrow> finish_entry current entries)"

section \<open>Remote addresses\<close>

definition ends_with :: "string \<Rightarrow> string \<Rightarrow> bool" where
  "ends_with s p = starts_with (rev s) (rev p)"

definition owner_char :: "char \<Rightarrow> bool" where
  "owner_char c = (is_lower c \<or> is_upper c \<or> is_digit c \<or> c = CHR ''-'')"

definition name_char :: "char \<Rightarrow> bool" where
  "name_char c = (is_lower c \<or> is_upper c \<or> is_digit c \<or> c \<in> set ''._-'')"

definition github_prefixes :: "string list" where
  "github_prefixes = [''https://github.com/'', ''git@github.com:'', ''ssh://git@github.com/'']"

text \<open>
  The captured group of the pattern: owner and name, the name as short as the optional \<open>.git\<close> and the
  optional last slash allow.
\<close>

definition repository_name :: "string \<Rightarrow> string" where
  "repository_name n = (if ends_with n ''.git'' \<and> n \<noteq> ''.git'' then take (length n - 4) n else n)"

definition repository_part :: "string \<Rightarrow> string option" where
  "repository_part rest =
     (case split_on CHR ''/'' (if ends_with rest ''/'' then butlast rest else rest) of
        [owner, n] \<Rightarrow>
          (let name = repository_name n in
           if owner \<noteq> [] \<and> list_all owner_char owner \<and> name \<noteq> [] \<and> list_all name_char name
           then Some (owner @ ''/'' @ name) else None)
      | _ \<Rightarrow> None)"

definition github_repository_from_url :: "string \<Rightarrow> string option" where
  "github_repository_from_url url =
     (let u = trim url in
      case find (starts_with u) github_prefixes of
        None \<Rightarrow> None
      | Some p \<Rightarrow> map_option lower (repository_part (drop (length p) u)))"

end
