(* ===== verification/Workspaces.thy ===== *)
theory Workspaces
  imports GitHost
begin

text \<open>
  Confined worktrees per task (\<open>src/workspaces/workspace-manager.ts\<close>, the lock of
  \<open>src/workspaces/repository-lock.ts\<close>). Every operation is a conversation with the host of \<open>GitHost\<close>,
  command by command as the code runs them.
\<close>

section \<open>Records\<close>

record prepared_workspace =
  pd_workspace :: task_workspace
  pd_reused :: bool
  pd_localBaseUpdated :: bool

datatype release_result = Released | Kept string

record ownership_marker =
  om_task :: "string option"
  om_base :: "string option"
  om_worktree :: "string option"

definition task_key :: string where "task_key = ''orchestratortask''"
definition base_key :: string where "base_key = ''orchestratorbase''"
definition worktree_key :: string where "worktree_key = ''orchestratorworktree''"

definition worktree_lock_reason :: "task_id \<Rightarrow> string \<Rightarrow> string" where
  "worktree_lock_reason tid repo = ''kelolakelas-ai-orchestrator task='' @ tid @ '' repository='' @ repo"

definition heads_ref :: "string \<Rightarrow> string" where
  "heads_ref branch = ''refs/heads/'' @ branch"

definition remote_ref :: "registered_repository \<Rightarrow> string \<Rightarrow> string" where
  "remote_ref r branch = ''refs/remotes/'' @ ry_remote r @ ''/'' @ branch"

section \<open>The lock of a repository\<close>

definition with_lock :: "string \<Rightarrow> 'a talks \<Rightarrow> 'a talks" where
  "with_lock repo p = Ask (TakeLock repo) (\<lambda>x.
     if re_flag x then bind_talk p (\<lambda>r. Ask (FreeLock repo) (\<lambda>_. Told r))
     else refuse (PlainError (''Timed out waiting for repository lock: '' @ repo)))"

section \<open>Reading a repository\<close>

definition real_path :: "string \<Rightarrow> string option talk" where
  "real_path p = Ask (RealPath p) (\<lambda>x. Told (re_path x))"

definition ask_path :: "string \<Rightarrow> string option talks" where
  "ask_path p = bind_talk (real_path p) answer"

definition path_exists :: "string \<Rightarrow> bool talks" where
  "path_exists p = Ask (PathExists p) (\<lambda>x. answer (re_flag x))"

definition make_directory :: "string \<Rightarrow> unit talks" where
  "make_directory p = Ask (MakeDirectory p) (\<lambda>x. if re_flag x then answer () else refuse (PlainError (''EACCES: '' @ p)))"

definition validate_branch :: "registered_repository \<Rightarrow> string \<Rightarrow> string talks" where
  "validate_branch r branch =
     after (run_git True [''check-ref-format'', ''--branch'', branch] (ry_path r)) (\<lambda>x.
     if gt_exitCode x \<noteq> 0 \<or> trim (gt_stdout x) \<noteq> branch \<or> branch = ry_baseBranch r \<or> starts_with branch ''-''
     then blocked (''Branch name '' @ quote branch @ '' is not a valid task branch'')
     else answer branch)"

definition verify_repository :: "registered_repository \<Rightarrow> unit talks" where
  "verify_repository r =
     after (run_git True [''rev-parse'', ''--show-toplevel''] (ry_path r)) (\<lambda>t.
     after (if gt_exitCode t \<noteq> 0 then answer None else ask_path (trim (gt_stdout t))) (\<lambda>p.
     after (blocked_if (gt_exitCode t \<noteq> 0 \<or> or_else p '''' \<noteq> ry_path r)
       (''Registered path for '' @ ry_name r @ '' is not the top level of a Git repository'')) (\<lambda>_.
     after (run_git True [''config'', ''--local'', ''--get'', ''remote.'' @ ry_remote r @ ''.url''] (ry_path r)) (\<lambda>u.
     blocked_if (gt_exitCode u \<noteq> 0 \<or> github_repository_from_url (gt_stdout u) \<noteq> Some (ry_github r))
       (''Remote '' @ ry_remote r @ '' of '' @ ry_name r @ '' does not point to github.com/'' @ ry_github r)))))"

definition list_worktrees :: "registered_repository \<Rightarrow> worktree_entry list talks" where
  "list_worktrees r =
     after (run_git False [''worktree'', ''list'', ''--porcelain'', ''-z''] (ry_path r)) (\<lambda>x.
     answer (parse_worktree_list (gt_stdout x)))"

definition commit_ref :: "string \<Rightarrow> string" where
  "commit_ref ref = ref @ ''^{commit}''"

definition rev_parse :: "string \<Rightarrow> string \<Rightarrow> string option talks" where
  "rev_parse ref cwd =
     after (run_git True [''rev-parse'', ''--verify'', ''--quiet'', commit_ref ref] cwd) (\<lambda>x.
     answer (if gt_exitCode x = 0 then Some (trim (gt_stdout x)) else None))"

definition marker_name :: "string \<Rightarrow> string \<Rightarrow> string" where
  "marker_name branch key = ''branch.'' @ branch @ ''.'' @ key"

definition read_key :: "registered_repository \<Rightarrow> string \<Rightarrow> string \<Rightarrow> string option talks" where
  "read_key r branch key =
     after (run_git True [''config'', ''--local'', ''--get'', marker_name branch key] (ry_path r)) (\<lambda>x.
     answer (if gt_exitCode x = 0 then Some (trim (gt_stdout x)) else None))"

definition read_marker :: "registered_repository \<Rightarrow> string \<Rightarrow> ownership_marker talks" where
  "read_marker r branch =
     after (read_key r branch task_key) (\<lambda>t.
     after (read_key r branch base_key) (\<lambda>b.
     after (read_key r branch worktree_key) (\<lambda>w.
     answer \<lparr>om_task = t, om_base = b, om_worktree = w\<rparr>)))"

definition write_key :: "registered_repository \<Rightarrow> string \<Rightarrow> string \<Rightarrow> string \<Rightarrow> unit talks" where
  "write_key r branch key v =
     after (run_git False [''config'', ''--local'', marker_name branch key, v] (ry_path r)) (\<lambda>_. answer ())"

definition write_marker :: "registered_repository \<Rightarrow> string \<Rightarrow> string \<Rightarrow> string \<Rightarrow> string \<Rightarrow> unit talks" where
  "write_marker r branch tid base path =
     after (write_key r branch task_key tid) (\<lambda>_.
     after (write_key r branch base_key base) (\<lambda>_.
     write_key r branch worktree_key path))"

definition is_ancestor_in :: "string \<Rightarrow> string \<Rightarrow> string \<Rightarrow> bool talks" where
  "is_ancestor_in cwd a b =
     after (run_git True [''merge-base'', ''--is-ancestor'', a, b] cwd) (\<lambda>x. answer (gt_exitCode x = 0))"

section \<open>Ownership\<close>

definition verify_reusable_worktree :: "registered_repository \<Rightarrow> worktree_entry \<Rightarrow> string option \<Rightarrow> string \<Rightarrow> string
    \<Rightarrow> ownership_marker \<Rightarrow> string \<Rightarrow> string talks" where
  "verify_reusable_worktree r e baseCommit path branch marker reason =
     after (blocked_if (we_branch e \<noteq> Some (heads_ref branch) \<or> we_lockReason e \<noteq> Some reason)
       (''Worktree '' @ path @ '' is not locked by the orchestrator for branch '' @ branch)) (\<lambda>_.
     case om_base marker of
       None \<Rightarrow> blocked (''Ownership markers for '' @ branch @ '' in '' @ ry_name r @ '' are incomplete'')
     | Some base \<Rightarrow>
         after (blocked_if (om_worktree marker \<noteq> Some path)
           (''Ownership markers for '' @ branch @ '' in '' @ ry_name r @ '' are incomplete'')) (\<lambda>_.
         after (blocked_if (baseCommit \<notin> {None, Some base})
           (''Persisted base commit differs from the worktree base in '' @ ry_name r)) (\<lambda>_.
         after (rev_parse ''HEAD'' path) (\<lambda>head.
         after (case head of None \<Rightarrow> answer False | Some c \<Rightarrow> is_ancestor_in path base c) (\<lambda>ok.
         after (blocked_if (\<not> ok)
           (''Worktree HEAD in '' @ ry_name r @ '' no longer descends from base '' @ base)) (\<lambda>_.
         answer base))))))"

text \<open>The worktree points to the clone, is on the branch, and its head is the tip of the branch.\<close>

definition owned_head :: "registered_repository \<Rightarrow> string \<Rightarrow> string \<Rightarrow> string talks" where
  "owned_head r branch path =
     (let repo = ry_name r in
      after (run_git True [''rev-parse'', ''--path-format=absolute'', ''--git-common-dir''] path) (\<lambda>common.
      after (ask_path (ry_path r @ ''/.git'')) (\<lambda>expected.
      after (if gt_exitCode common = 0 then ask_path (trim (gt_stdout common)) else answer None) (\<lambda>actual.
      after (blocked_if (actual = None \<or> actual \<noteq> expected)
        (''Worktree '' @ path @ '' no longer points to the '' @ repo @ '' repository'')) (\<lambda>_.
      after (run_git True [''symbolic-ref'', ''--quiet'', ''HEAD''] path) (\<lambda>symbolic.
      after (blocked_if (gt_exitCode symbolic \<noteq> 0 \<or> trim (gt_stdout symbolic) \<noteq> heads_ref branch)
        (''Worktree '' @ path @ '' is not on branch '' @ branch)) (\<lambda>_.
      after (rev_parse ''HEAD'' path) (\<lambda>head. case head of
          None \<Rightarrow> blocked (''Worktree HEAD in '' @ repo @ '' does not match branch '' @ branch)
        | Some c \<Rightarrow>
            after (rev_parse (heads_ref branch) (ry_path r)) (\<lambda>tip.
            after (blocked_if (tip \<noteq> Some c)
              (''Worktree HEAD in '' @ repo @ '' does not match branch '' @ branch)) (\<lambda>_.
            answer c))))))))))"

definition verify_owned_workspace :: "registry \<Rightarrow> registered_repository \<Rightarrow> task_workspace \<Rightarrow> string talks" where
  "verify_owned_workspace g r w =
     (let tid = tw_taskId w; branch = tw_branch w; repo = ry_name r in
      after (told (worktree_path g tid repo)) (\<lambda>path.
      after (blocked_if (tw_workspacePath w \<noteq> path)
        (''Workspace path '' @ tw_workspacePath w @ '' is not the orchestrator path '' @ path)) (\<lambda>_.
      after (list_worktrees r) (\<lambda>entries.
      case find (\<lambda>e. we_path e = path) entries of
        None \<Rightarrow> blocked (''Workspace for '' @ repo @ '' is missing at '' @ path @ ''; manual recovery required'')
      | Some e \<Rightarrow>
          after (read_marker r branch) (\<lambda>marker.
          after (blocked_if (om_task marker \<noteq> Some tid)
            (''Branch '' @ branch @ '' in '' @ repo @ '' is not owned by task '' @ tid)) (\<lambda>_.
          after (verify_reusable_worktree r e (Some (tw_baseCommit w)) path branch marker (worktree_lock_reason tid repo)) (\<lambda>_.
          owned_head r branch path)))))))"

text \<open>\<open>verifyTaskWorkspace\<close>, \<open>restoreWorkspace\<close> and \<open>commitWorkspace\<close>.\<close>

definition verify_task_workspace :: "registry \<Rightarrow> task_workspace \<Rightarrow> string talks" where
  "verify_task_workspace g w =
     after (told (registry_get g (tw_repository w))) (\<lambda>r. with_lock (ry_name r) (verify_owned_workspace g r w))"

definition restore_workspace :: "registry \<Rightarrow> task_workspace \<Rightarrow> (string \<times> bool) talks" where
  "restore_workspace g w =
     after (told (registry_get g (tw_repository w))) (\<lambda>r. with_lock (ry_name r)
      (let cwd = tw_workspacePath w in
       after (verify_owned_workspace g r w) (\<lambda>head.
       after (git_out [''status'', ''--porcelain=v1'', ''--untracked-files=all''] cwd) (\<lambda>status.
       if status = '''' then answer (head, False)
       else after (run_git False [''reset'', ''--quiet'', ''--hard'', head] cwd) (\<lambda>_.
         after (run_git False [''clean'', ''--quiet'', ''--force'', ''-d''] cwd) (\<lambda>_.
         answer (head, True)))))))"

definition commit_arguments :: "string \<times> string \<Rightarrow> string \<Rightarrow> string list" where
  "commit_arguments author message =
     [''-c'', ''user.name='' @ fst author, ''-c'', ''user.email='' @ snd author, ''-c'', ''commit.gpgsign=false'',
      ''commit'', ''--quiet'', ''--no-verify'', ''--allow-empty-message'', ''--cleanup=verbatim'', ''-m'', message]"

definition commit_workspace :: "registry \<Rightarrow> task_workspace \<Rightarrow> string \<Rightarrow> string \<times> string \<Rightarrow> (string \<times> string) talks" where
  "commit_workspace g w message author =
     after (told (registry_get g (tw_repository w))) (\<lambda>r. with_lock (ry_name r)
      (let cwd = tw_workspacePath w in
       after (verify_owned_workspace g r w) (\<lambda>head.
       after (run_git False [''add'', ''--all''] cwd) (\<lambda>_.
       after (run_git False (commit_arguments author message) cwd) (\<lambda>_.
       after (git_out [''rev-parse'', ''HEAD''] cwd) (\<lambda>commit.
       after (git_out [''rev-parse'', ''HEAD^''] cwd) (\<lambda>parent.
       after (blocked_if (parent \<noteq> head)
         (''Commit in '' @ ry_name r @ '' is not a child of the verified HEAD '' @ head)) (\<lambda>_.
       answer (commit, parent)))))))))"

end
