(* ===== verification/WorkspaceManager.thy ===== *)
theory WorkspaceManager
  imports Workspaces
begin

text \<open>
  The operations of \<open>WorkspaceManager\<close> (\<open>src/workspaces/workspace-manager.ts\<close>) that create a worktree,
  publish its branch and remove it. \<open>Workspaces\<close> holds what they check first.
\<close>

section \<open>The remote\<close>

definition remote_unavailable :: "string \<Rightarrow> orch_error \<Rightarrow> orch_error" where
  "remote_unavailable repo cause =
     RemoteUnavailableError (''Remote for repository '' @ repo @ '' is unavailable: '' @ error_message cause)"

definition list_remote :: "registered_repository \<Rightarrow> string \<Rightarrow> string talks" where
  "list_remote r branch =
     catch (git_out [''ls-remote'', ''--heads'', ry_remote r, heads_ref branch] (ry_path r))
       (\<lambda>e. refuse (remote_unavailable (ry_name r) e))"

definition ensure_remote_branch_absent :: "registered_repository \<Rightarrow> string \<Rightarrow> unit talks" where
  "ensure_remote_branch_absent r branch =
     after (list_remote r branch) (\<lambda>out.
     blocked_if (out \<noteq> '''') (''Branch '' @ branch @ '' already exists on '' @ ry_remote r @ '' for '' @ ry_name r))"

definition fetch_refspec :: "registered_repository \<Rightarrow> string \<Rightarrow> string" where
  "fetch_refspec r branch = ''+'' @ heads_ref branch @ '':'' @ remote_ref r branch"

definition fetch_arguments :: "registered_repository \<Rightarrow> string \<Rightarrow> string list" where
  "fetch_arguments r branch = [''fetch'', ''--no-tags'', ry_remote r, fetch_refspec r branch]"

text \<open>\<open>/couldn't find remote ref/i\<close> on the message of a command that exited.\<close>

definition says :: "string \<Rightarrow> orch_error \<Rightarrow> bool" where
  "says part e = includes_text (lower (error_message e)) (lower part)"

definition fetch_base :: "registered_repository \<Rightarrow> string talks" where
  "fetch_base r =
     (let args = fetch_arguments r (ry_baseBranch r) in
      after (bind_talk (git_exit_of args (ry_path r)) (\<lambda>x. case x of
          GitDone _ _ \<Rightarrow> answer ()
        | GitFailed code _ err message \<Rightarrow>
            (let e = git_command_error args code (failure_text err message) in
             if code \<noteq> None \<and> says ''couldn't find remote ref'' e
             then blocked (''Base branch '' @ ry_baseBranch r @ '' does not exist on '' @ ry_remote r @ '' for '' @ ry_name r)
             else refuse (remote_unavailable (ry_name r) e)))) (\<lambda>_.
      after (rev_parse (remote_ref r (ry_baseBranch r)) (ry_path r)) (\<lambda>b. case b of
          None \<Rightarrow> blocked (''Fetched base '' @ remote_ref r (ry_baseBranch r) @ '' is missing in '' @ ry_name r)
        | Some c \<Rightarrow> answer c)))"

definition fast_forward_local_base :: "registered_repository \<Rightarrow> worktree_entry list \<Rightarrow> bool talks" where
  "fast_forward_local_base r entries =
     (let local = heads_ref (ry_baseBranch r); upstream = remote_ref r (ry_baseBranch r) in
      after (rev_parse local (ry_path r)) (\<lambda>l.
      after (rev_parse upstream (ry_path r)) (\<lambda>u.
      case (l, u) of
        (Some a, Some b) \<Rightarrow>
          if a = b then answer True
          else after (is_ancestor_in (ry_path r) a b) (\<lambda>ok.
            if \<not> ok then answer False
            else case find (\<lambda>e. we_branch e = Some local) entries of
                None \<Rightarrow> after (run_git False [''update-ref'', local, b, a] (ry_path r)) (\<lambda>_. answer True)
              | Some e \<Rightarrow>
                  after (git_out [''status'', ''--porcelain'', ''--untracked-files=no''] (we_path e)) (\<lambda>status.
                  if status \<noteq> '''' then answer False
                  else after (run_git True [''merge'', ''--ff-only'', upstream] (we_path e)) (\<lambda>m.
                    answer (gt_exitCode m = 0))))
      | _ \<Rightarrow> answer False)))"

section \<open>Preparing a worktree\<close>

text \<open>Free megabytes are the available blocks times their size; the comparison is exact.\<close>

definition ensure_disk_capacity :: "registry \<Rightarrow> int \<Rightarrow> unit talks" where
  "ensure_disk_capacity g minimumMb = Ask (FreeDisk (ry_root g)) (\<lambda>x. case re_disk x of
     None \<Rightarrow> refuse (PlainError (''statfs failed: '' @ ry_root g))
   | Some (avail, each) \<Rightarrow>
       if avail * each < minimumMb * 1048576
       then blocked (''Workspace root has '' @ show_int (avail * each div 1048576) @ '' MB free; ''
         @ show_int minimumMb @ '' MB required'')
       else answer ())"

definition verify_fresh_worktree :: "registry \<Rightarrow> string \<Rightarrow> string \<Rightarrow> unit talks" where
  "verify_fresh_worktree g path base =
     after (ask_path path) (\<lambda>p. case p of
       None \<Rightarrow> refuse (PlainError (''ENOENT: '' @ path))
     | Some canonical \<Rightarrow>
         after (blocked_if (canonical \<noteq> path \<or> \<not> is_inside (ry_root g) canonical)
           (''Created worktree resolved outside the workspace root: '' @ canonical)) (\<lambda>_.
         after (git_out [''rev-parse'', ''HEAD''] path) (\<lambda>head.
         after (git_out [''status'', ''--porcelain'', ''--untracked-files=all''] path) (\<lambda>status.
         blocked_if (head \<noteq> base \<or> status \<noteq> '''')
           (''Created worktree '' @ path @ '' is not a clean checkout of '' @ base)))))"

definition worktree_add_arguments :: "string \<Rightarrow> string option \<Rightarrow> string \<Rightarrow> string \<Rightarrow> string \<Rightarrow> string list" where
  "worktree_add_arguments reason existing branch path base =
     [''worktree'', ''add'', ''--lock'', ''--reason'', reason]
       @ (if existing = None then [''-b'', branch, path, base] else [path, branch])"

text \<open>A new worktree, after everything that exists was found to be the task's own.\<close>

definition create_worktree :: "registry \<Rightarrow> int \<Rightarrow> registered_repository \<Rightarrow> task_id \<Rightarrow> string \<Rightarrow> string
    \<Rightarrow> worktree_entry list \<Rightarrow> string option \<Rightarrow> prepared_workspace talks" where
  "create_worktree g minimumMb r tid branch path entries existing =
     after (ensure_remote_branch_absent r branch) (\<lambda>_.
     after (case existing of Some c \<Rightarrow> answer c | None \<Rightarrow> fetch_base r) (\<lambda>base.
     after (fast_forward_local_base r entries) (\<lambda>updated.
     after (ensure_disk_capacity g minimumMb) (\<lambda>_.
     after (write_marker r branch tid base path) (\<lambda>_.
     after (told (registry_task_directory g tid)) (\<lambda>directory.
     after (make_directory directory) (\<lambda>_.
     after (run_git False (worktree_add_arguments (worktree_lock_reason tid (ry_name r)) existing branch path base) (ry_path r)) (\<lambda>_.
     after (verify_fresh_worktree g path base) (\<lambda>_.
     answer \<lparr>pd_workspace = \<lparr>tw_taskId = tid, tw_repository = ry_name r, tw_workspacePath = path, tw_branch = branch,
       tw_baseCommit = base\<rparr>, pd_reused = False, pd_localBaseUpdated = updated\<rparr>)))))))))"

definition ownership_objection :: "registered_repository \<Rightarrow> task_id \<Rightarrow> string \<Rightarrow> string \<Rightarrow> ownership_marker
    \<Rightarrow> string option \<Rightarrow> worktree_entry option \<Rightarrow> worktree_entry option \<Rightarrow> string option" where
  "ownership_objection r tid branch path marker existing worktree branchWorktree =
     (if om_task marker \<notin> {None, Some tid}
      then Some (''Branch '' @ branch @ '' in '' @ ry_name r @ '' is owned by task '' @ the (om_task marker))
      else if om_task marker = None \<and> (existing \<noteq> None \<or> branchWorktree \<noteq> None \<or> worktree \<noteq> None)
      then Some (''Branch '' @ branch @ '' or its workspace exists in '' @ ry_name r @ '' without orchestrator ownership'')
      else case branchWorktree of
          Some e \<Rightarrow> if we_path e \<noteq> path then Some (''Branch '' @ branch @ '' is checked out at '' @ we_path e) else None
        | None \<Rightarrow> None)"

text \<open>The worktree that exists is taken over if it is the task's own; otherwise a new one is made.\<close>

definition place_worktree :: "registry \<Rightarrow> int \<Rightarrow> registered_repository \<Rightarrow> prepare_input \<Rightarrow> string \<Rightarrow> string
    \<Rightarrow> worktree_entry list \<Rightarrow> ownership_marker \<Rightarrow> string option \<Rightarrow> prepared_workspace talks" where
  "place_worktree g minimumMb r i path branch entries marker existing =
     (let tid = pr_taskId i; baseCommit = snd (snd (pr_persisted i)); repo = ry_name r;
          worktree = find (\<lambda>e. we_path e = path) entries;
          branchWorktree = find (\<lambda>e. we_branch e = Some (heads_ref branch)) entries in
      case ownership_objection r tid branch path marker existing worktree branchWorktree of
        Some m \<Rightarrow> blocked m
      | None \<Rightarrow> (case worktree of
            Some e \<Rightarrow> after (verify_reusable_worktree r e baseCommit path branch marker (worktree_lock_reason tid repo)) (\<lambda>base.
              answer \<lparr>pd_workspace = \<lparr>tw_taskId = tid, tw_repository = repo, tw_workspacePath = path, tw_branch = branch,
                tw_baseCommit = base\<rparr>, pd_reused = True, pd_localBaseUpdated = False\<rparr>)
          | None \<Rightarrow>
              after (blocked_if (baseCommit \<noteq> None)
                (''Persisted workspace for '' @ repo @ '' is missing at '' @ path @ ''; manual recovery required'')) (\<lambda>_.
              after (path_exists path) (\<lambda>taken.
              after (blocked_if taken (''Workspace path '' @ path @ '' exists but is not a registered worktree'')) (\<lambda>_.
              after (blocked_if (existing \<noteq> None \<and> existing \<noteq> om_base marker)
                (''Orchestrator branch '' @ branch @ '' in '' @ repo @ '' has commits without a workspace; manual recovery required'')) (\<lambda>_.
              create_worktree g minimumMb r tid branch path entries existing))))))"

definition prepare_locked :: "registry \<Rightarrow> int \<Rightarrow> registered_repository \<Rightarrow> prepare_input \<Rightarrow> string \<Rightarrow> string
    \<Rightarrow> prepared_workspace talks" where
  "prepare_locked g minimumMb r i path branch =
     after (verify_repository r) (\<lambda>_.
     after (list_worktrees r) (\<lambda>entries.
     after (read_marker r branch) (\<lambda>marker.
     after (rev_parse (heads_ref branch) (ry_path r)) (\<lambda>existing.
     place_worktree g minimumMb r i path branch entries marker existing))))"

definition prepare :: "registry \<Rightarrow> int \<Rightarrow> prepare_input \<Rightarrow> prepared_workspace talks" where
  "prepare g minimumMb i =
     (case pr_persisted i of (workspacePath, persistedBranch, _) \<Rightarrow>
      after (told (registry_get g (pr_repository i))) (\<lambda>r.
      after (told (worktree_path g (pr_taskId i) (ry_name r))) (\<lambda>path.
      after (validate_branch r (pr_branch i)) (\<lambda>branch.
      after (blocked_if (persistedBranch \<notin> {None, Some branch})
        (''Persisted branch '' @ the persistedBranch @ '' differs from contract branch '' @ branch)) (\<lambda>_.
      after (blocked_if (workspacePath \<notin> {None, Some path})
        (''Persisted workspace path '' @ the workspacePath @ '' differs from '' @ path)) (\<lambda>_.
      with_lock (ry_name r) (prepare_locked g minimumMb r i path branch)))))))"

definition resolve_workspace :: "registry \<Rightarrow> string list \<Rightarrow> string \<Rightarrow> task_id \<Rightarrow> (orch_error, string) result" where
  "resolve_workspace g declared repo tid =
     (if repo \<notin> set declared
      then Inl (WorkspaceBlockedError (''Repository '' @ repo @ '' is not declared by the task contract''))
      else worktree_path g tid repo)"

section \<open>Publishing a branch\<close>

definition is_commit_name :: "string \<Rightarrow> bool" where
  "is_commit_name s = (length s = 40 \<and> list_all (\<lambda>c. is_digit c \<or> c \<in> set ''abcdef'') s)"

definition remote_head :: "string \<Rightarrow> string \<Rightarrow> string option" where
  "remote_head branch out =
     map_option (\<lambda>line. hd (split_on tab_char line))
       (find (\<lambda>line. ends_with line (tab_char # heads_ref branch)) (split_on line_feed out))"

definition remote_branch_state :: "registered_repository \<Rightarrow> string \<Rightarrow> string \<Rightarrow> remote_branch talks" where
  "remote_branch_state r branch commit =
     after (list_remote r branch) (\<lambda>out. case remote_head branch out of
       None \<Rightarrow> answer BranchAbsent
     | Some c \<Rightarrow>
         if \<not> is_commit_name c
         then blocked (''Remote branch '' @ branch @ '' of '' @ ry_name r @ '' reported an invalid commit'')
         else if c = commit then answer (AtCommit c)
         else
           after (rev_parse c (ry_path r)) (\<lambda>known.
           after (if known \<noteq> None then answer () else
             catch (after (run_git False (fetch_arguments r branch) (ry_path r)) (\<lambda>_. answer ()))
               (\<lambda>e. refuse (remote_unavailable (ry_name r) e))) (\<lambda>_.
           after (is_ancestor_in (ry_path r) commit c) (\<lambda>contains.
           answer (if contains then ContainsCommit c else BranchDiverged c)))))"

definition inspect_remote_branch :: "registry \<Rightarrow> task_workspace \<Rightarrow> string \<Rightarrow> remote_branch talks" where
  "inspect_remote_branch g w commit =
     after (told (registry_get g (tw_repository w))) (\<lambda>r. with_lock (ry_name r)
       (after (verify_repository r) (\<lambda>_. remote_branch_state r (tw_branch w) commit)))"

definition push_arguments :: "registered_repository \<Rightarrow> string \<Rightarrow> string \<Rightarrow> string list" where
  "push_arguments r commit branch =
     [''push'', ''--porcelain'', ''--no-verify'', ''--no-follow-tags'', ry_remote r, commit @ '':'' @ heads_ref branch]"

text \<open>\<open>/\[rejected\]|non-fast-forward|fetch first|stale info/i\<close>\<close>

definition push_rejected :: "orch_error \<Rightarrow> bool" where
  "push_rejected e = list_ex (\<lambda>part. says part e) [''[rejected]'', ''non-fast-forward'', ''fetch first'', ''stale info'']"

definition send_branch :: "registered_repository \<Rightarrow> string \<Rightarrow> string \<Rightarrow> unit talks" where
  "send_branch r branch commit =
     catch (after (run_git False (push_arguments r commit branch) (ry_path r)) (\<lambda>_. answer ()))
       (\<lambda>e. if push_rejected e
          then blocked (''Remote branch '' @ branch @ '' of '' @ ry_name r @ '' changed during push; manual recovery required'')
          else refuse (remote_unavailable (ry_name r) e))"

definition push_task_branch :: "registry \<Rightarrow> task_workspace \<Rightarrow> string \<Rightarrow> remote_branch talks" where
  "push_task_branch g w commit =
     after (told (registry_get g (tw_repository w))) (\<lambda>r. with_lock (ry_name r)
      (let branch = tw_branch w; repo = ry_name r in
       after (verify_repository r) (\<lambda>_.
       after (verify_owned_workspace g r w) (\<lambda>head.
       after (blocked_if (head \<noteq> commit)
         (''Worktree HEAD '' @ head @ '' in '' @ repo @ '' is not the reviewed commit '' @ commit)) (\<lambda>_.
       after (remote_branch_state r branch commit) (\<lambda>before.
       if before \<noteq> BranchAbsent then answer before
       else
         after (send_branch r branch commit) (\<lambda>_.
         after (remote_branch_state r branch commit) (\<lambda>state. case state of
             AtCommit c \<Rightarrow> answer (AtCommit c)
           | _ \<Rightarrow> blocked (''Remote branch '' @ branch @ '' of '' @ repo @ '' is not at '' @ commit @ '' after push'')))))))))"

section \<open>Removing a worktree\<close>

definition lock_arguments :: "string \<Rightarrow> string \<Rightarrow> string list" where
  "lock_arguments reason path = [''worktree'', ''lock'', ''--reason'', reason, path]"

definition remove_worktree :: "registry \<Rightarrow> registered_repository \<Rightarrow> task_id \<Rightarrow> string \<Rightarrow> release_result talks" where
  "remove_worktree g r tid path =
     after (run_git False [''worktree'', ''unlock'', path] (ry_path r)) (\<lambda>_.
     bind_talk (run_git False [''worktree'', ''remove'', path] (ry_path r)) (\<lambda>removed. case removed of
       Inl e \<Rightarrow> after (run_git True (lock_arguments (worktree_lock_reason tid (ry_name r)) path) (ry_path r)) (\<lambda>_.
         answer (Kept (error_message e)))
     | Inr _ \<Rightarrow> after (told (registry_task_directory g tid)) (\<lambda>directory.
         Ask (RemoveDirectory directory) (\<lambda>_. answer Released))))"

definition release_entry :: "registry \<Rightarrow> registered_repository \<Rightarrow> task_id \<Rightarrow> string \<Rightarrow> string \<Rightarrow> worktree_entry
    \<Rightarrow> release_result talks" where
  "release_entry g r tid path branch e =
     after (read_marker r branch) (\<lambda>marker.
     if om_task marker \<noteq> Some tid \<or> we_lockReason e \<noteq> Some (worktree_lock_reason tid (ry_name r))
       \<or> we_branch e \<noteq> Some (heads_ref branch)
     then answer (Kept ''Worktree ownership does not match this task'')
     else
       after (git_out [''status'', ''--porcelain'', ''--untracked-files=all''] path) (\<lambda>status.
       if status \<noteq> '''' then answer (Kept ''Worktree has uncommitted or untracked changes'')
       else remove_worktree g r tid path))"

definition release_workspace :: "registry \<Rightarrow> string \<Rightarrow> task_id \<Rightarrow> string \<Rightarrow> string \<Rightarrow> release_result talks" where
  "release_workspace g repository tid workspacePath branch =
     after (told (registry_get g repository)) (\<lambda>r.
     after (told (worktree_path g tid (ry_name r))) (\<lambda>path.
     if workspacePath \<noteq> path
     then answer (Kept (''Workspace path '' @ workspacePath @ '' is not the orchestrator path '' @ path))
     else with_lock (ry_name r)
       (after (list_worktrees r) (\<lambda>entries. case find (\<lambda>e. we_path e = path) entries of
          None \<Rightarrow> after (path_exists path) (\<lambda>taken.
            answer (if taken then Kept (''Workspace path '' @ path @ '' exists but is not a registered worktree'') else Released))
        | Some e \<Rightarrow> release_entry g r tid path branch e))))"

end
