(* ===== verification/HostLogic.thy ===== *)
theory HostLogic
  imports WorkspaceManager
begin

text \<open>
  Reasoning about conversations. \<open>safe P t Q l\<close>: a conversation \<open>t\<close> that starts after the record \<open>l\<close> asks
  only what \<open>P\<close> allows, given everything recorded before, and ends with \<open>Q\<close>, whatever the host replies.
  What the host said is a fact that later events do not take back, so the facts behind a decision are
  facts about the record.
\<close>

section \<open>Safe conversations\<close>

primrec safe :: "(host_event list \<Rightarrow> host_request \<Rightarrow> bool) \<Rightarrow> 'a talk \<Rightarrow> ('a \<Rightarrow> host_event list \<Rightarrow> bool)
    \<Rightarrow> host_event list \<Rightarrow> bool" where
  "safe P (Told a) Q = Q a"
| "safe P (Ask q k) Q = (\<lambda>l. P l q \<and> (\<forall>x. safe P (k x) Q (l @ [(q, x)])))"

lemma safe_talk:
  assumes "talk_with h t w = (a, w', l')" and "safe P t Q l"
  shows "Q a (l @ l') \<and> (\<forall>pre q x post. l' = pre @ (q, x) # post \<longrightarrow> P (l @ pre) q)"
  using assms
proof (induction t arbitrary: w l l' rule: talk_induct)
  case (Told b)
  then show ?case by simp
next
  case (Ask q k)
  obtain x w1 where hq: "h q w = (x, w1)" by fastforce
  obtain l2 where rest: "talk_with h (k x) w1 = (a, w', l2)" and l': "l' = (q, x) # l2"
    using Ask.prems(1) by (auto simp: hq split: prod.splits)
  have P: "P l q" and safe: "safe P (k x) Q (l @ [(q, x)])" using Ask.prems(2) by auto
  from Ask.IH [OF rest safe] have IH: "Q a (l @ l')" "\<And>pre q' y post. l2 = pre @ (q', y) # post \<Longrightarrow> P (l @ (q, x) # pre) q'"
    by (auto simp: l')
  have "P (l @ pre) q'" if "l' = pre @ (q', y) # post" for pre q' y post
    using that P IH(2) by (cases pre) (auto simp: l')
  then show ?case using IH(1) by blast
qed

lemma safe_mono: "safe P t Q l \<Longrightarrow> (\<And>a m. Q a (l @ m) \<Longrightarrow> R a (l @ m)) \<Longrightarrow> safe P t R l"
proof (induction t arbitrary: l rule: talk_induct)
  case (Told a)
  from Told.prems(1) Told.prems(2) [of a "[]"] show ?case by simp
next
  case (Ask q k)
  have "safe P (k x) R (l @ [(q, x)])" for x
    using Ask.prems(1) Ask.prems(2) [of _ "(q, x) # m" for m] by (intro Ask.IH) auto
  then show ?case using Ask.prems(1) by simp
qed

lemma safe_weaken: "safe P t Q l \<Longrightarrow> (\<And>m q. P m q \<Longrightarrow> P' m q) \<Longrightarrow> safe P' t Q l"
  by (induction t arbitrary: l rule: talk_induct) simp_all

lemma safe_bind: "safe P (bind_talk p f) Q l \<longleftrightarrow> safe P p (\<lambda>a. safe P (f a) Q) l"
  by (induction p arbitrary: l rule: talk_induct) simp_all

text \<open>Results only; an error ends the conversation.\<close>

definition sound :: "(host_event list \<Rightarrow> host_request \<Rightarrow> bool) \<Rightarrow> 'a talks \<Rightarrow> ('a \<Rightarrow> host_event list \<Rightarrow> bool)
    \<Rightarrow> host_event list \<Rightarrow> bool" where
  "sound P t Q l = safe P t (\<lambda>r l. case r of Inl e \<Rightarrow> True | Inr a \<Rightarrow> Q a l) l"

lemma sound_answer [simp]: "sound P (answer a) Q = Q a"
  by (simp add: sound_def answer_def fun_eq_iff)

lemma sound_refuse [simp]: "sound P (refuse e) Q = (\<lambda>_. True)" "sound P (blocked m) Q = (\<lambda>_. True)"
  by (simp_all add: sound_def refuse_def blocked_def fun_eq_iff)

lemma sound_told [simp]: "sound P (told r) Q = (case r of Inl e \<Rightarrow> (\<lambda>_. True) | Inr a \<Rightarrow> Q a)"
  by (simp add: sound_def told_def fun_eq_iff split: sum.split)

lemma sound_after: "sound P (after p f) Q = sound P p (\<lambda>a. sound P (f a) Q)"
proof
  fix l
  have "(\<lambda>r. safe P (case r of Inl e \<Rightarrow> refuse e | Inr a \<Rightarrow> f a) (\<lambda>r l. case r of Inl e \<Rightarrow> True | Inr a \<Rightarrow> Q a l))
     = (\<lambda>r l. case r of Inl e \<Rightarrow> True | Inr a \<Rightarrow> sound P (f a) Q l)"
    by (auto simp: refuse_def sound_def fun_eq_iff split: sum.split)
  moreover have "sound P (after p f) Q l = safe P p (\<lambda>r. safe P (case r of Inl e \<Rightarrow> refuse e | Inr a \<Rightarrow> f a)
      (\<lambda>r l. case r of Inl e \<Rightarrow> True | Inr a \<Rightarrow> Q a l)) l"
    by (simp add: sound_def after_def safe_bind)
  ultimately show "sound P (after p f) Q l = sound P p (\<lambda>a. sound P (f a) Q) l"
    by (simp add: sound_def [of P p])
qed

lemma sound_blocked_if [simp]: "sound P (blocked_if b m) Q = (\<lambda>l. \<not> b \<longrightarrow> Q () l)"
  by (simp add: blocked_if_def fun_eq_iff)

lemma sound_case_option: "sound P (case x of None \<Rightarrow> a | Some y \<Rightarrow> b y) Q = (case x of None \<Rightarrow> sound P a Q | Some y \<Rightarrow> sound P (b y) Q)"
  by (cases x) simp_all

lemma sound_if: "sound P (if b then p else p') Q = (if b then sound P p Q else sound P p' Q)"
  by simp

lemma sound_mono: "sound P t Q l \<Longrightarrow> (\<And>a m. Q a (l @ m) \<Longrightarrow> R a (l @ m)) \<Longrightarrow> sound P t R l"
  unfolding sound_def by (erule safe_mono) (auto split: sum.splits)

lemma sound_Ask: "sound P (Ask q k) Q = (\<lambda>l. P l q \<and> (\<forall>x. sound P (k x) Q (l @ [(q, x)])))"
  by (simp add: sound_def fun_eq_iff)

section \<open>What the host said\<close>

definition printed :: "git_exit \<Rightarrow> string option" where
  "printed e = (case e of GitDone out err \<Rightarrow> Some (trim out)
     | GitFailed code out err message \<Rightarrow> if code = Some 0 then Some (trim out) else None)"

text \<open>Some run of the command in the directory succeeded and printed this.\<close>

definition said :: "host_event list \<Rightarrow> string list \<Rightarrow> string \<Rightarrow> string \<Rightarrow> bool" where
  "said l args cwd v \<longleftrightarrow> (\<exists>x. (RunGit (guard_arguments @ args) cwd, x) \<in> set l \<and> printed (re_git x) = Some v)"

lemma said_append [simp]: "said (l @ m) args cwd v \<longleftrightarrow> said l args cwd v \<or> said m args cwd v"
  by (auto simp: said_def)

lemma said_Cons [simp]: "said ((q, x) # l) args cwd v \<longleftrightarrow>
    (q = RunGit (guard_arguments @ args) cwd \<and> printed (re_git x) = Some v) \<or> said l args cwd v"
  by (auto simp: said_def)

definition denied :: "host_event list \<Rightarrow> string list \<Rightarrow> string \<Rightarrow> bool" where
  "denied l args cwd \<longleftrightarrow> (\<exists>x. (RunGit (guard_arguments @ args) cwd, x) \<in> set l \<and> printed (re_git x) = None)"

lemma denied_append [simp]: "denied (l @ m) args cwd \<longleftrightarrow> denied l args cwd \<or> denied m args cwd"
  by (auto simp: denied_def)

definition harmless :: "string list \<Rightarrow> bool" where
  "harmless args = (case args of
     [] \<Rightarrow> False
   | c # rest \<Rightarrow> c \<in> {''check-ref-format'', ''rev-parse'', ''merge-base'', ''ls-remote'', ''status''}
       \<or> (c = ''config'' \<and> take 2 rest = [''--local'', ''--get''])
       \<or> (c = ''worktree'' \<and> take 1 rest = [''list''])
       \<or> (c = ''symbolic-ref'' \<and> rest = [''--quiet'', ''HEAD'']))"

text \<open>Questions that change nothing but the lock.\<close>

definition reads :: "host_request \<Rightarrow> bool" where
  "reads q = (case q of
     RunGit args cwd \<Rightarrow> take 4 args = guard_arguments \<and> harmless (drop 4 args)
   | MakeDirectory p \<Rightarrow> False | RemoveDirectory p \<Rightarrow> False | _ \<Rightarrow> True)"

lemma reads_git [simp]: "reads (RunGit (guard_arguments @ args) cwd) = harmless args"
  by (simp add: reads_def guard_arguments_def)

lemma reads_other [simp]: "reads (RealPath p)" "reads (PathExists p)" "reads (FreeDisk p)" "reads (TakeLock p)"
  "reads (FreeLock p)" "\<not> reads (MakeDirectory p)" "\<not> reads (RemoveDirectory p)"
  by (simp_all add: reads_def)

definition reading :: "(host_event list \<Rightarrow> host_request \<Rightarrow> bool) \<Rightarrow> bool" where
  "reading P \<longleftrightarrow> (\<forall>l q. reads q \<longrightarrow> P l q)"

lemma readingD: "reading P \<Longrightarrow> reads q \<Longrightarrow> P l q"
  by (simp add: reading_def)

lemma sound_git:
  assumes "P l (RunGit (guard_arguments @ args) cwd)"
    and "\<And>x (r :: git_result). gt_exitCode r = 0 \<longleftrightarrow> printed (re_git x) \<noteq> None \<Longrightarrow>
       (\<And>v. printed (re_git x) = Some v \<Longrightarrow> trim (gt_stdout r) = v) \<Longrightarrow> (b \<or> gt_exitCode r = 0) \<Longrightarrow>
       Q r (l @ [(RunGit (guard_arguments @ args) cwd, x)])"
  shows "sound P (run_git b args cwd) Q l"
proof -
  let ?q = "RunGit (guard_arguments @ args) cwd"
  have "sound P (case re_git x of
     GitDone out err \<Rightarrow> answer \<lparr>gt_stdout = out, gt_stderr = err, gt_exitCode = 0\<rparr>
   | GitFailed code out err message \<Rightarrow> (case code of
         Some n \<Rightarrow> if b then answer \<lparr>gt_stdout = out, gt_stderr = err, gt_exitCode = n\<rparr>
           else refuse (git_command_error args code (failure_text err message))
       | None \<Rightarrow> refuse (git_command_error args code (failure_text err message)))) Q (l @ [(?q, x)])" for x
    by (auto intro!: assms(2) [of _ x] simp: printed_def split: git_exit.split option.split if_splits)
  then show ?thesis using assms(1) by (simp add: run_git_def git_exit_of_def sound_Ask)
qed

lemma sound_git_strict:
  assumes "P l (RunGit (guard_arguments @ args) cwd)"
    and "\<And>x out err. re_git x = GitDone out err \<Longrightarrow>
       Q \<lparr>gt_stdout = out, gt_stderr = err, gt_exitCode = 0\<rparr> (l @ [(RunGit (guard_arguments @ args) cwd, x)])"
  shows "sound P (run_git False args cwd) Q l"
  using assms by (simp add: run_git_def git_exit_of_def sound_Ask split: git_exit.split option.split)

text \<open>A command whose failure is caught.\<close>

lemma sound_git_caught:
  assumes "P l (RunGit (guard_arguments @ args) cwd)"
    and "\<And>x out err. re_git x = GitDone out err \<Longrightarrow>
       sound P (f (Inr \<lparr>gt_stdout = out, gt_stderr = err, gt_exitCode = 0\<rparr>)) Q (l @ [(RunGit (guard_arguments @ args) cwd, x)])"
    and "\<And>x e. sound P (f (Inl e)) Q (l @ [(RunGit (guard_arguments @ args) cwd, x)])"
  shows "sound P (bind_talk (run_git False args cwd) f) Q l"
  using assms by (simp add: run_git_def git_exit_of_def sound_Ask refuse_def answer_def split: git_exit.split option.split)

text \<open>A command that only reads: its answer becomes a fact of the record.\<close>

lemma sound_read:
  assumes "reading P" and "harmless args"
    and "\<And>(r :: git_result) m. gt_exitCode r = 0 \<Longrightarrow> said m args cwd (trim (gt_stdout r)) \<Longrightarrow> Q r (l @ m)"
    and "\<And>(r :: git_result) m. b \<Longrightarrow> gt_exitCode r \<noteq> 0 \<Longrightarrow> denied m args cwd \<Longrightarrow> Q r (l @ m)"
  shows "sound P (run_git b args cwd) Q l"
proof (rule sound_git)
  show "P l (RunGit (guard_arguments @ args) cwd)" using assms(1,2) by (auto intro: readingD)
next
  fix x :: host_reply and r :: git_result
  assume r: "gt_exitCode r = 0 \<longleftrightarrow> printed (re_git x) \<noteq> None" "\<And>v. printed (re_git x) = Some v \<Longrightarrow> trim (gt_stdout r) = v"
    "b \<or> gt_exitCode r = 0"
  show "Q r (l @ [(RunGit (guard_arguments @ args) cwd, x)])"
  proof (cases "gt_exitCode r = 0")
    case True
    then obtain v where "printed (re_git x) = Some v" using r(1) by auto
    then show ?thesis using True r(2) by (intro assms(3)) (auto simp: said_def)
  next
    case False
    then have "denied [(RunGit (guard_arguments @ args) cwd, x)] args cwd" using r(1) by (auto simp: denied_def)
    with False show ?thesis using r(3) assms(4) by simp
  qed
qed

lemma sound_git_out:
  assumes "reading P" and "harmless args" and "\<And>v m. said m args cwd v \<Longrightarrow> Q v (l @ m)"
  shows "sound P (git_out args cwd) Q l"
  unfolding git_out_def sound_after by (rule sound_read [OF assms(1,2)]) (simp_all add: assms(3))

lemma sound_rev_parse:
  assumes "reading P" and "\<And>c m. said m [''rev-parse'', ''--verify'', ''--quiet'', commit_ref ref] cwd c \<Longrightarrow> Q (Some c) (l @ m)"
    and "\<And>m. denied m [''rev-parse'', ''--verify'', ''--quiet'', commit_ref ref] cwd \<Longrightarrow> Q None (l @ m)"
  shows "sound P (rev_parse ref cwd) Q l"
  unfolding rev_parse_def sound_after by (rule sound_read [OF assms(1)]) (simp_all add: assms(2,3) harmless_def)

lemma sound_ask_path:
  assumes "reading P" and "\<And>p m. Q p (l @ m)"
  shows "sound P (ask_path d) Q l"
  using assms by (auto simp: ask_path_def real_path_def sound_Ask readingD)

lemma sound_is_ancestor:
  assumes "reading P" and "\<And>m v. said m [''merge-base'', ''--is-ancestor'', a, b] cwd v \<Longrightarrow> Q True (l @ m)" and "\<And>m. Q False (l @ m)"
  shows "sound P (is_ancestor_in cwd a b) Q l"
  unfolding is_ancestor_in_def sound_after by (rule sound_read [OF assms(1)]) (auto simp: harmless_def intro: assms(2,3))

lemma sound_read_key:
  assumes "reading P" and "\<And>v m. said m [''config'', ''--local'', ''--get'', marker_name branch key] (ry_path r) v \<Longrightarrow> Q (Some v) (l @ m)"
    and "\<And>m. denied m [''config'', ''--local'', ''--get'', marker_name branch key] (ry_path r) \<Longrightarrow> Q None (l @ m)"
  shows "sound P (read_key r branch key) Q l"
  unfolding read_key_def sound_after by (rule sound_read [OF assms(1)]) (simp_all add: assms(2,3) harmless_def)

end
