(* ===== verification/WorkspaceRules.thy ===== *)
theory WorkspaceRules
  imports HostLogic
begin

text \<open>
  The evidence behind every change the workspace operations make (\<open>src/workspaces/workspace-manager.ts\<close>),
  as facts about the record of a conversation, and a rule per operation: what it may ask after which
  answers. \<open>WorkspaceGuarantees\<close> draws the conclusions.
\<close>

section \<open>Ownership\<close>

text \<open>
  What has been said when a worktree is accepted: the clone lists it at its path, on the branch and with
  the lock of the task; the markers of the branch name the task, the path and the base commit; its head
  descends from the base and is the tip of the branch.
\<close>

definition marked :: "host_event list \<Rightarrow> registered_repository \<Rightarrow> string \<Rightarrow> string \<Rightarrow> string \<Rightarrow> bool" where
  "marked l r branch key v \<longleftrightarrow> said l [''config'', ''--local'', ''--get'', marker_name branch key] (ry_path r) v"

definition unmarked :: "host_event list \<Rightarrow> registered_repository \<Rightarrow> string \<Rightarrow> bool" where
  "unmarked l r branch \<longleftrightarrow> denied l [''config'', ''--local'', ''--get'', marker_name branch task_key] (ry_path r)"

definition listed :: "host_event list \<Rightarrow> registered_repository \<Rightarrow> (worktree_entry list \<Rightarrow> bool) \<Rightarrow> bool" where
  "listed l r E \<longleftrightarrow> (\<exists>x out err. (RunGit (guard_arguments @ [''worktree'', ''list'', ''--porcelain'', ''-z'']) (ry_path r), x) \<in> set l
     \<and> re_git x = GitDone out err \<and> E (parse_worktree_list out))"

definition reusable :: "host_event list \<Rightarrow> registered_repository \<Rightarrow> task_id \<Rightarrow> string \<Rightarrow> string \<Rightarrow> string \<Rightarrow> bool" where
  "reusable l r tid branch path base \<longleftrightarrow>
     listed l r (\<lambda>es. \<exists>e \<in> set es. we_path e = path \<and> we_branch e = Some (heads_ref branch)
       \<and> we_lockReason e = Some (worktree_lock_reason tid (ry_name r)))
   \<and> marked l r branch task_key tid \<and> marked l r branch base_key base \<and> marked l r branch worktree_key path
   \<and> (\<exists>c v. said l [''rev-parse'', ''--verify'', ''--quiet'', commit_ref ''HEAD''] path c
       \<and> said l [''merge-base'', ''--is-ancestor'', base, c] path v)"

definition owned :: "host_event list \<Rightarrow> registry \<Rightarrow> registered_repository \<Rightarrow> task_workspace \<Rightarrow> string \<Rightarrow> bool" where
  "owned l g r w c \<longleftrightarrow>
     worktree_path g (tw_taskId w) (ry_name r) = Inr (tw_workspacePath w)
   \<and> reusable l r (tw_taskId w) (tw_branch w) (tw_workspacePath w) (tw_baseCommit w)
   \<and> said l [''symbolic-ref'', ''--quiet'', ''HEAD''] (tw_workspacePath w) (heads_ref (tw_branch w))
   \<and> said l [''rev-parse'', ''--verify'', ''--quiet'', commit_ref ''HEAD''] (tw_workspacePath w) c
   \<and> said l [''rev-parse'', ''--verify'', ''--quiet'', commit_ref (heads_ref (tw_branch w))] (ry_path r) c"

lemma marked_append [simp]: "marked (l @ m) r b k v \<longleftrightarrow> marked l r b k v \<or> marked m r b k v"
  by (simp add: marked_def)

lemma unmarked_append [simp]: "unmarked (l @ m) r b \<longleftrightarrow> unmarked l r b \<or> unmarked m r b"
  by (simp add: unmarked_def)

lemma Ex_said_append [simp]: "Ex (said (l @ m) a c) \<longleftrightarrow> Ex (said l a c) \<or> Ex (said m a c)"
  by (auto simp: said_append [abs_def])

lemma listed_append [simp]: "listed (l @ m) r E \<longleftrightarrow> listed l r E \<or> listed m r E"
  by (auto simp: listed_def)

lemma listed_mono: "listed l r E \<Longrightarrow> (\<And>es. E es \<Longrightarrow> F es) \<Longrightarrow> listed l r F"
  by (auto simp: listed_def)

lemma reusable_append: "reusable l r tid b p base \<Longrightarrow> reusable (l @ m) r tid b p base"
  by (auto simp: reusable_def)

lemma reusable_append': "reusable m r tid b p base \<Longrightarrow> reusable (l @ m) r tid b p base"
  by (auto simp: reusable_def)

lemma owned_append: "owned l g r w c \<Longrightarrow> owned (l @ m) g r w c"
  by (auto simp: owned_def reusable_append)

lemma owned_append': "owned m g r w c \<Longrightarrow> owned (l @ m) g r w c"
  by (auto simp: owned_def reusable_def)

lemma owned_Cons: "owned m g r w c \<Longrightarrow> owned (e # m) g r w c"
  using owned_append' [of m g r w c "[e]"] by simp

lemma sound_list_worktrees:
  assumes "reading P" and "\<And>es m. listed m r (\<lambda>es'. es' = es) \<Longrightarrow> Q es (l @ m)"
  shows "sound P (list_worktrees r) Q l"
proof -
  let ?q = "RunGit (guard_arguments @ [''worktree'', ''list'', ''--porcelain'', ''-z'']) (ry_path r)"
  have "Q (parse_worktree_list out) (l @ [(?q, x)])" if "re_git x = GitDone out err" for x out err
    using that by (intro assms(2)) (auto simp: listed_def)
  then show ?thesis unfolding list_worktrees_def sound_after
    by (intro sound_git_strict) (simp_all add: readingD [OF assms(1)] harmless_def)
qed

lemma sound_read_marker:
  assumes "reading P"
    and "\<And>t b p m. (\<And>v. t = Some v \<Longrightarrow> marked m r branch task_key v) \<Longrightarrow> (\<And>v. b = Some v \<Longrightarrow> marked m r branch base_key v)
       \<Longrightarrow> (\<And>v. p = Some v \<Longrightarrow> marked m r branch worktree_key v) \<Longrightarrow> (t = None \<Longrightarrow> unmarked m r branch)
       \<Longrightarrow> Q \<lparr>om_task = t, om_base = b, om_worktree = p\<rparr> (l @ m)"
  shows "sound P (read_marker r branch) Q l"
proof -
  have key: "sound P (read_key r branch k) R l'"
    if "\<And>v m. (\<And>u. v = Some u \<Longrightarrow> marked m r branch k u)
        \<Longrightarrow> (v = None \<Longrightarrow> denied m [''config'', ''--local'', ''--get'', marker_name branch k] (ry_path r)) \<Longrightarrow> R v (l' @ m)" for k R l'
    by (rule sound_read_key [OF assms(1)]) (rule that, simp_all add: marked_def)+
  show ?thesis unfolding read_marker_def sound_after
    by (rule key, rule key, rule key) (auto intro!: assms(2) simp: unmarked_def)
qed

lemma sound_verify_reusable:
  assumes "reading P" and "listed l r (\<lambda>es. e \<in> set es)" and "we_path e = path"
    and "marked l r branch task_key tid"
    and "\<And>v. om_base marker = Some v \<Longrightarrow> marked l r branch base_key v"
    and "\<And>v. om_worktree marker = Some v \<Longrightarrow> marked l r branch worktree_key v"
    and "\<And>base m. reusable (l @ m) r tid branch path base \<Longrightarrow> baseCommit \<in> {None, Some base} \<Longrightarrow> Q base (l0 @ l @ m)"
  shows "sound P (verify_reusable_worktree r e baseCommit path branch marker (worktree_lock_reason tid (ry_name r))) Q (l0 @ l)"
proof -
  have ready: "Q base (l0 @ l @ m @ m')"
    if "om_base marker = Some base" "om_worktree marker = Some path"
      "we_branch e = Some (heads_ref branch)" "we_lockReason e = Some (worktree_lock_reason tid (ry_name r))"
      "said m [''rev-parse'', ''--verify'', ''--quiet'', commit_ref ''HEAD''] path c"
      "said m' [''merge-base'', ''--is-ancestor'', base, c] path v" "baseCommit \<in> {None, Some base}" for base c v m m'
  proof (rule assms(7) [where m = "m @ m'"])
    have "listed l r (\<lambda>es. \<exists>e \<in> set es. we_path e = path \<and> we_branch e = Some (heads_ref branch)
       \<and> we_lockReason e = Some (worktree_lock_reason tid (ry_name r)))"
      using assms(2) by (rule listed_mono) (use assms(3) that in blast)
    moreover have "\<exists>c v. said (l @ m @ m') [''rev-parse'', ''--verify'', ''--quiet'', commit_ref ''HEAD''] path c
        \<and> said (l @ m @ m') [''merge-base'', ''--is-ancestor'', base, c] path v" using that(5,6) by auto
    ultimately show "reusable (l @ m @ m') r tid branch path base" unfolding reusable_def using assms(4-6) that by simp
  qed (rule that(7))
  have "sound P (rev_parse ''HEAD'' path) (\<lambda>h. sound P (case h of None \<Rightarrow> answer False | Some c \<Rightarrow> is_ancestor_in path base c)
      (\<lambda>ok m. ok \<longrightarrow> Q base m)) (l0 @ l)"
    if "om_base marker = Some base" "om_worktree marker = Some path"
      "we_branch e = Some (heads_ref branch)" "we_lockReason e = Some (worktree_lock_reason tid (ry_name r))"
      "baseCommit \<in> {None, Some base}" for base
    using that by (auto intro!: sound_rev_parse [OF assms(1)] sound_is_ancestor [OF assms(1)] ready)
  then show ?thesis
    by (cases "om_base marker") (simp_all add: verify_reusable_worktree_def sound_after del: insert_iff)
qed

lemma sound_owned_head:
  assumes "reading P"
    and "\<And>c m. said m [''symbolic-ref'', ''--quiet'', ''HEAD''] path (heads_ref branch) \<Longrightarrow>
      said m [''rev-parse'', ''--verify'', ''--quiet'', commit_ref ''HEAD''] path c \<Longrightarrow>
      said m [''rev-parse'', ''--verify'', ''--quiet'', commit_ref (heads_ref branch)] (ry_path r) c \<Longrightarrow> Q c (l @ m)"
  shows "sound P (owned_head r branch path) Q l"
  unfolding owned_head_def Let_def sound_after sound_blocked_if
  by (auto intro!: sound_read [OF assms(1)] sound_ask_path [OF assms(1)] sound_rev_parse [OF assms(1)] assms(2)
      simp: harmless_def sound_after)

lemma sound_verify_owned:
  assumes "reading P" and "\<And>c m. owned m g r w c \<Longrightarrow> Q c (l @ m)"
  shows "sound P (verify_owned_workspace g r w) Q l"
proof -
  let ?tid = "tw_taskId w" and ?branch = "tw_branch w" and ?path = "tw_workspacePath w"
  let ?reason = "worktree_lock_reason ?tid (ry_name r)"
  have head: "sound P (owned_head r ?branch ?path) Q (l @ m)"
    if "worktree_path g ?tid (ry_name r) = Inr ?path" "reusable m r ?tid ?branch ?path (tw_baseCommit w)" for m
    by (rule sound_owned_head [OF assms(1)])
      (use that assms(2) in \<open>auto simp: owned_def reusable_append\<close>)
  have reuse: "sound P (verify_reusable_worktree r e (Some (tw_baseCommit w)) ?path ?branch marker ?reason)
      (\<lambda>_. sound P (owned_head r ?branch ?path) Q) (l @ m @ m')"
    if "worktree_path g ?tid (ry_name r) = Inr ?path" "listed m r (\<lambda>es. e \<in> set es)" "we_path e = ?path"
      "om_task marker = Some ?tid" "\<And>v. om_task marker = Some v \<Longrightarrow> marked m' r ?branch task_key v"
      "\<And>v. om_base marker = Some v \<Longrightarrow> marked m' r ?branch base_key v"
      "\<And>v. om_worktree marker = Some v \<Longrightarrow> marked m' r ?branch worktree_key v" for e marker m m'
    by (rule sound_verify_reusable [OF assms(1), of "m @ m'" _ e])
      (use that head [of "m @ m' @ m2" for m2] in \<open>auto\<close>)
  have mark: "sound P (read_marker r ?branch) (\<lambda>marker m. om_task marker = Some ?tid \<longrightarrow>
      sound P (verify_reusable_worktree r e (Some (tw_baseCommit w)) ?path ?branch marker ?reason)
        (\<lambda>_. sound P (owned_head r ?branch ?path) Q) m) (l @ m)"
    if "worktree_path g ?tid (ry_name r) = Inr ?path" "listed m r (\<lambda>es. e \<in> set es)" "we_path e = ?path" for e m
    by (rule sound_read_marker [OF assms(1)]) (auto intro!: reuse [OF that])
  have "sound P (list_worktrees r) (\<lambda>es. case find (\<lambda>e. we_path e = ?path) es of None \<Rightarrow> \<lambda>_. True
      | Some e \<Rightarrow> sound P (read_marker r ?branch) (\<lambda>marker m. om_task marker = Some ?tid \<longrightarrow>
          sound P (verify_reusable_worktree r e (Some (tw_baseCommit w)) ?path ?branch marker ?reason)
            (\<lambda>_. sound P (owned_head r ?branch ?path) Q) m)) l"
    if "worktree_path g ?tid (ry_name r) = Inr ?path"
  proof (rule sound_list_worktrees [OF assms(1)])
    fix es m
    assume es: "listed m r (\<lambda>es'. es' = es)"
    show "(case find (\<lambda>e. we_path e = ?path) es of None \<Rightarrow> \<lambda>_. True
      | Some e \<Rightarrow> sound P (read_marker r ?branch) (\<lambda>marker m. om_task marker = Some ?tid \<longrightarrow>
          sound P (verify_reusable_worktree r e (Some (tw_baseCommit w)) ?path ?branch marker ?reason)
            (\<lambda>_. sound P (owned_head r ?branch ?path) Q) m)) (l @ m)"
    proof (cases "find (\<lambda>e. we_path e = ?path) es")
      case (Some e)
      then have e: "e \<in> set es" "we_path e = ?path" by (auto simp: find_Some_iff)
      have "listed m r (\<lambda>es. e \<in> set es)" using es by (rule listed_mono) (use e in simp)
      from mark [OF that this e(2)] show ?thesis unfolding Some option.case .
    qed simp
  qed
  note run = this
  show ?thesis
  proof (cases "worktree_path g ?tid (ry_name r)")
    case (Inl e)
    then show ?thesis by (simp add: verify_owned_workspace_def Let_def sound_after)
  next
    case (Inr path)
    show ?thesis
    proof (cases "path = ?path")
      case True
      then show ?thesis using run Inr
        by (simp add: verify_owned_workspace_def Let_def sound_after sound_case_option cong: option.case_cong)
    next
      case False
      then show ?thesis using Inr by (simp add: verify_owned_workspace_def Let_def sound_after)
    qed
  qed
qed

section \<open>The remote branch\<close>

definition remote_is :: "host_event list \<Rightarrow> registered_repository \<Rightarrow> string \<Rightarrow> string option \<Rightarrow> bool" where
  "remote_is l r branch h \<longleftrightarrow> (\<exists>out. said l [''ls-remote'', ''--heads'', ry_remote r, heads_ref branch] (ry_path r) out
     \<and> remote_head branch out = h)"

lemma remote_is_append [simp]: "remote_is (l @ m) r b h \<longleftrightarrow> remote_is l r b h \<or> remote_is m r b h"
  by (auto simp: remote_is_def)

text \<open>What the state of a remote branch rests on.\<close>

fun supports :: "host_event list \<Rightarrow> registered_repository \<Rightarrow> string \<Rightarrow> string \<Rightarrow> remote_branch \<Rightarrow> bool" where
  "supports l r branch commit BranchAbsent = remote_is l r branch None"
| "supports l r branch commit (AtCommit c) = (c = commit \<and> remote_is l r branch (Some c))"
| "supports l r branch commit (ContainsCommit c) = (remote_is l r branch (Some c)
     \<and> (\<exists>v. said l [''merge-base'', ''--is-ancestor'', commit, c] (ry_path r) v))"
| "supports l r branch commit (BranchDiverged c) = (c \<noteq> commit \<and> remote_is l r branch (Some c))"

lemma supports_append: "supports l r b c s \<or> supports m r b c s \<Longrightarrow> supports (l @ m) r b c s"
  by (cases s) auto

lemma sound_catch:
  assumes "\<And>e. \<exists>e'. f e = refuse e'"
  shows "sound P (catch p f) Q = sound P p Q"
proof
  fix l
  have "safe P (case x of Inl e \<Rightarrow> f e | Inr a \<Rightarrow> answer a) (\<lambda>r l. case r of Inl e \<Rightarrow> True | Inr a \<Rightarrow> Q a l)
      = (\<lambda>l. case x of Inl e \<Rightarrow> True | Inr a \<Rightarrow> Q a l)" for x
  proof (cases x)
    case (Inl e)
    obtain e' where "f e = refuse e'" using assms by blast
    then show ?thesis by (simp add: Inl refuse_def fun_eq_iff)
  qed (simp add: answer_def fun_eq_iff)
  then show "sound P (catch p f) Q l = sound P p Q l" by (simp add: sound_def catch_def safe_bind)
qed

lemma refusal [simp]: "\<exists>e'. refuse e = refuse e'" "\<exists>e'. blocked m = refuse e'"
  by (auto simp: blocked_def)

lemma sound_case_remote:
  "sound P (case s of BranchAbsent \<Rightarrow> a | AtCommit c \<Rightarrow> b c | ContainsCommit c \<Rightarrow> d c | BranchDiverged c \<Rightarrow> e c) Q
   = (case s of BranchAbsent \<Rightarrow> sound P a Q | AtCommit c \<Rightarrow> sound P (b c) Q | ContainsCommit c \<Rightarrow> sound P (d c) Q
     | BranchDiverged c \<Rightarrow> sound P (e c) Q)"
  by (cases s) simp_all

lemma sound_list_remote':
  assumes "reading P" and "\<And>m out. said m [''ls-remote'', ''--heads'', ry_remote r, heads_ref branch] (ry_path r) out \<Longrightarrow> Q out (l @ m)"
  shows "sound P (list_remote r branch) Q l"
proof -
  have "sound P (list_remote r branch) Q = sound P (git_out [''ls-remote'', ''--heads'', ry_remote r, heads_ref branch] (ry_path r)) Q"
    unfolding list_remote_def by (rule sound_catch) blast
  moreover have "sound P (git_out [''ls-remote'', ''--heads'', ry_remote r, heads_ref branch] (ry_path r)) Q l"
    by (rule sound_git_out [OF assms(1)]) (auto simp: harmless_def intro!: assms(2))
  ultimately show ?thesis by simp
qed

lemma sound_list_remote:
  assumes "reading P" and "\<And>m out. remote_is m r branch (remote_head branch out) \<Longrightarrow> Q out (l @ m)"
  shows "sound P (list_remote r branch) Q l"
  by (rule sound_list_remote' [OF assms(1)]) (auto simp: remote_is_def intro!: assms(2))

lemma sound_remote_state:
  assumes "reading P" and "\<And>l. P l (RunGit (guard_arguments @ fetch_arguments r branch) (ry_path r))"
    and "\<And>m s. supports m r branch commit s \<Longrightarrow> Q s (l @ m)"
  shows "sound P (remote_branch_state r branch commit) Q l"
proof -
  have fetch: "sound P (catch (after (run_git False (fetch_arguments r branch) (ry_path r)) (\<lambda>_. answer ()))
      (\<lambda>e. refuse (remote_unavailable (ry_name r) e))) R l'" if "\<And>m. R () (l' @ m)" for R l'
  proof -
    have "sound P (catch (after (run_git False (fetch_arguments r branch) (ry_path r)) (\<lambda>_. answer ()))
        (\<lambda>e. refuse (remote_unavailable (ry_name r) e))) R = sound P (after (run_git False (fetch_arguments r branch) (ry_path r)) (\<lambda>_. answer ())) R"
      by (rule sound_catch) blast
    then show ?thesis using assms(2) that by (auto simp: sound_after intro!: sound_git_strict)
  qed
  have contains: "sound P (is_ancestor_in (ry_path r) commit c)
      (\<lambda>contains. sound P (answer (if contains then ContainsCommit c else BranchDiverged c)) Q) (l @ m)"
    if "remote_is m r branch (Some c)" "c \<noteq> commit" for c m
    by (rule sound_is_ancestor [OF assms(1)]) (use that in \<open>auto intro!: assms(3) [of "m @ m'" for m', unfolded append_assoc]\<close>)
  have moved: "sound P (rev_parse c (ry_path r)) (\<lambda>known. sound P (if known \<noteq> None then answer () else
           catch (after (run_git False (fetch_arguments r branch) (ry_path r)) (\<lambda>_. answer ()))
             (\<lambda>e. refuse (remote_unavailable (ry_name r) e))) (\<lambda>_.
         sound P (is_ancestor_in (ry_path r) commit c)
           (\<lambda>contains. sound P (answer (if contains then ContainsCommit c else BranchDiverged c)) Q))) (l @ m)"
    if "remote_is m r branch (Some c)" "c \<noteq> commit" for c m
    by (rule sound_rev_parse [OF assms(1)]) (use that contains [of "m @ m' @ m2" c for m' m2] contains [of "m @ m'" c for m'] in \<open>auto intro!: fetch\<close>)
  have "sound P (list_remote r branch) (\<lambda>out. sound P (case remote_head branch out of
       None \<Rightarrow> answer BranchAbsent
     | Some c \<Rightarrow> if \<not> is_commit_name c
         then blocked (''Remote branch '' @ branch @ '' of '' @ ry_name r @ '' reported an invalid commit'')
         else if c = commit then answer (AtCommit c)
         else after (rev_parse c (ry_path r)) (\<lambda>known.
           after (if known \<noteq> None then answer () else
             catch (after (run_git False (fetch_arguments r branch) (ry_path r)) (\<lambda>_. answer ()))
               (\<lambda>e. refuse (remote_unavailable (ry_name r) e))) (\<lambda>_.
           after (is_ancestor_in (ry_path r) commit c) (\<lambda>contains.
           answer (if contains then ContainsCommit c else BranchDiverged c))))) Q) l"
  proof (rule sound_list_remote [OF assms(1)])
    fix m out
    assume "remote_is m r branch (remote_head branch out)"
    then show "sound P (case remote_head branch out of
       None \<Rightarrow> answer BranchAbsent
     | Some c \<Rightarrow> if \<not> is_commit_name c
         then blocked (''Remote branch '' @ branch @ '' of '' @ ry_name r @ '' reported an invalid commit'')
         else if c = commit then answer (AtCommit c)
         else after (rev_parse c (ry_path r)) (\<lambda>known.
           after (if known \<noteq> None then answer () else
             catch (after (run_git False (fetch_arguments r branch) (ry_path r)) (\<lambda>_. answer ()))
               (\<lambda>e. refuse (remote_unavailable (ry_name r) e))) (\<lambda>_.
           after (is_ancestor_in (ry_path r) commit c) (\<lambda>contains.
           answer (if contains then ContainsCommit c else BranchDiverged c))))) Q (l @ m)"
      using moved by (auto simp: sound_after split: option.split intro!: assms(3))
  qed
  then show ?thesis by (simp add: remote_branch_state_def sound_after)
qed

lemma sound_with_lock:
  assumes "reading P" and "\<And>x. sound P p Q (l @ [(TakeLock repo, x)])" and "\<And>a m y. Q a m \<Longrightarrow> Q a (m @ [(FreeLock repo, y)])"
  shows "sound P (with_lock repo p) Q l"
proof -
  have run: "safe P p (\<lambda>r m. \<forall>y. case r of Inl e \<Rightarrow> True | Inr a \<Rightarrow> Q a (m @ [(FreeLock repo, y)])) (l @ [(TakeLock repo, x)])" for x
    using assms(2) [of x] unfolding sound_def by (rule safe_mono) (use assms(3) in \<open>fastforce split: sum.splits\<close>)
  have "sound P (bind_talk p (\<lambda>r. Ask (FreeLock repo) (\<lambda>_. Told r))) Q (l @ [(TakeLock repo, x)])" for x
    using run [of x] assms(1) by (auto simp: sound_def safe_bind readingD elim!: safe_mono)
  then show ?thesis using assms(1) by (auto simp: with_lock_def sound_Ask readingD)
qed

lemma sound_verify_repository:
  assumes "reading P" and "\<And>m. Q () (l @ m)"
  shows "sound P (verify_repository r) Q l"
  by (auto simp: verify_repository_def sound_after harmless_def assms(2)
      intro!: sound_read [OF assms(1)] sound_ask_path [OF assms(1)])

section \<open>Publishing\<close>

definition push_may :: "registry \<Rightarrow> registered_repository \<Rightarrow> task_workspace \<Rightarrow> string \<Rightarrow> host_event list \<Rightarrow> host_request \<Rightarrow> bool" where
  "push_may g r w commit l q \<longleftrightarrow> reads q
     \<or> q = RunGit (guard_arguments @ fetch_arguments r (tw_branch w)) (ry_path r)
     \<or> (q = RunGit (guard_arguments @ push_arguments r commit (tw_branch w)) (ry_path r)
        \<and> owned l g r w commit \<and> remote_is l r (tw_branch w) None)"

lemma push_reading: "reading (push_may g r w commit)"
  by (simp add: reading_def push_may_def)

lemma sound_send_branch:
  assumes "P l (RunGit (guard_arguments @ push_arguments r commit branch) (ry_path r))" and "\<And>x. Q () (l @ x)"
  shows "sound P (send_branch r branch commit) Q l"
proof -
  have "sound P (send_branch r branch commit) Q = sound P (after (run_git False (push_arguments r commit branch) (ry_path r)) (\<lambda>_. answer ())) Q"
    unfolding send_branch_def by (rule sound_catch) (simp split: if_split)
  moreover have "sound P (after (run_git False (push_arguments r commit branch) (ry_path r)) (\<lambda>_. answer ())) Q l"
    unfolding sound_after sound_answer by (rule sound_git_strict) (use assms in auto)
  ultimately show ?thesis by simp
qed

lemma sound_push:
  assumes "registry_get g (tw_repository w) = Inr r"
  shows "sound (push_may g r w commit) (push_task_branch g w commit)
    (\<lambda>s l. owned l g r w commit \<and> supports l r (tw_branch w) commit s) []"
proof -
  let ?P = "push_may g r w commit" and ?branch = "tw_branch w"
  let ?Q = "\<lambda>s l. owned l g r w commit \<and> supports l r ?branch commit s"
  note R = push_reading [of g r w commit]
  have fetch: "?P l (RunGit (guard_arguments @ fetch_arguments r ?branch) (ry_path r))" for l
    by (simp add: push_may_def)
  have closed: "?Q s l \<Longrightarrow> ?Q s (l @ m)" for s l m
    using supports_append owned_append by blast
  have last: "sound ?P (remote_branch_state r ?branch commit) (\<lambda>s. case s of AtCommit c \<Rightarrow> ?Q (AtCommit c) | _ \<Rightarrow> \<lambda>_. True) l"
    if "owned l g r w commit" for l
    by (rule sound_remote_state [OF R fetch]) (auto split: remote_branch.split intro!: owned_append that)
  have push: "sound ?P (send_branch r ?branch commit)
      (\<lambda>_. sound ?P (remote_branch_state r ?branch commit) (\<lambda>s. case s of AtCommit c \<Rightarrow> ?Q (AtCommit c) | _ \<Rightarrow> \<lambda>_. True)) l"
    if "owned l g r w commit" "remote_is l r ?branch None" for l
    by (rule sound_send_branch) (auto simp: push_may_def that intro!: last owned_append)
  have state: "sound ?P (remote_branch_state r ?branch commit) (\<lambda>before. if before \<noteq> BranchAbsent then ?Q before
      else sound ?P (send_branch r ?branch commit)
      (\<lambda>_. sound ?P (remote_branch_state r ?branch commit) (\<lambda>s. case s of AtCommit c \<Rightarrow> ?Q (AtCommit c) | _ \<Rightarrow> \<lambda>_. True))) l"
    if "owned l g r w commit" for l
    by (rule sound_remote_state [OF R fetch])
      (use that in \<open>auto intro!: push owned_append supports_append\<close>)
  have locked: "sound ?P (verify_repository r) (\<lambda>_. sound ?P (verify_owned_workspace g r w) (\<lambda>head m. head = commit \<longrightarrow>
      sound ?P (remote_branch_state r ?branch commit) (\<lambda>before. if before \<noteq> BranchAbsent then ?Q before
      else sound ?P (send_branch r ?branch commit)
      (\<lambda>_. sound ?P (remote_branch_state r ?branch commit) (\<lambda>s. case s of AtCommit c \<Rightarrow> ?Q (AtCommit c) | _ \<Rightarrow> \<lambda>_. True))) m)) l" for l
    by (rule sound_verify_repository [OF R], rule sound_verify_owned [OF R]) (auto intro!: state owned_append')
  show ?thesis
    by (simp add: push_task_branch_def assms sound_after)
      (rule sound_with_lock [OF R], use locked in \<open>simp add: Let_def sound_after sound_if sound_case_remote cong: remote_branch.case_cong if_cong\<close>,
       rule closed)
qed

section \<open>Preparing\<close>

text \<open>
  What a new worktree needs: the branch is marked as the task's, or nothing of that name exists; no
  worktree is registered at the path, the path is free, and the remote has no such branch.
\<close>

definition claimable :: "host_event list \<Rightarrow> registered_repository \<Rightarrow> task_id \<Rightarrow> string \<Rightarrow> string \<Rightarrow> bool" where
  "claimable l r tid branch path \<longleftrightarrow>
     marked l r branch task_key tid
   \<or> (unmarked l r branch \<and> denied l [''rev-parse'', ''--verify'', ''--quiet'', commit_ref (heads_ref branch)] (ry_path r)
      \<and> listed l r (\<lambda>es. \<not> (\<exists>e \<in> set es. we_path e = path \<or> we_branch e = Some (heads_ref branch))))"

definition vacant :: "host_event list \<Rightarrow> registered_repository \<Rightarrow> string \<Rightarrow> bool" where
  "vacant l r path \<longleftrightarrow> listed l r (\<lambda>es. path \<notin> we_path ` set es) \<and> (\<exists>x. (PathExists path, x) \<in> set l \<and> \<not> re_flag x)"

definition unpublished :: "host_event list \<Rightarrow> registered_repository \<Rightarrow> string \<Rightarrow> bool" where
  "unpublished l r branch \<longleftrightarrow> said l [''ls-remote'', ''--heads'', ry_remote r, heads_ref branch] (ry_path r) ''''"

definition cleared :: "registered_repository \<Rightarrow> task_id \<Rightarrow> string \<Rightarrow> string \<Rightarrow> host_event list \<Rightarrow> bool" where
  "cleared r tid branch path l \<longleftrightarrow> claimable l r tid branch path \<and> vacant l r path \<and> unpublished l r branch"

lemma cleared_append: "cleared r tid branch path l \<Longrightarrow> cleared r tid branch path (l @ m)"
  by (auto simp: cleared_def claimable_def vacant_def unpublished_def)

text \<open>What preparation may then do: update the base branch, mark the branch, add the worktree.\<close>

definition updates_base :: "registered_repository \<Rightarrow> host_request \<Rightarrow> bool" where
  "updates_base r q \<longleftrightarrow>
     q = RunGit (guard_arguments @ fetch_arguments r (ry_baseBranch r)) (ry_path r)
   \<or> (\<exists>new old. q = RunGit (guard_arguments @ [''update-ref'', heads_ref (ry_baseBranch r), new, old]) (ry_path r))
   \<or> (\<exists>cwd. q = RunGit (guard_arguments @ [''merge'', ''--ff-only'', remote_ref r (ry_baseBranch r)]) cwd)"

definition claims_branch :: "registry \<Rightarrow> registered_repository \<Rightarrow> task_id \<Rightarrow> string \<Rightarrow> string \<Rightarrow> host_request \<Rightarrow> bool" where
  "claims_branch g r tid branch path q \<longleftrightarrow>
     (\<exists>key v. key \<in> {task_key, base_key, worktree_key}
        \<and> q = RunGit (guard_arguments @ [''config'', ''--local'', marker_name branch key, v]) (ry_path r))
   \<or> (\<exists>d. registry_task_directory g tid = Inr d \<and> q = MakeDirectory d)
   \<or> (\<exists>existing base. q = RunGit (guard_arguments
          @ worktree_add_arguments (worktree_lock_reason tid (ry_name r)) existing branch path base) (ry_path r))"

definition prepare_may :: "registry \<Rightarrow> registered_repository \<Rightarrow> task_id \<Rightarrow> string \<Rightarrow> string \<Rightarrow> host_event list \<Rightarrow> host_request \<Rightarrow> bool" where
  "prepare_may g r tid branch path l q \<longleftrightarrow> reads q
     \<or> (cleared r tid branch path l \<and> (updates_base r q \<or> claims_branch g r tid branch path q))"

text \<open>A fresh worktree lies in the workspace root and is a clean checkout of the base.\<close>

definition fresh :: "host_event list \<Rightarrow> registry \<Rightarrow> string \<Rightarrow> string \<Rightarrow> bool" where
  "fresh l g path base \<longleftrightarrow> is_inside (ry_root g) path \<and> (\<exists>x. (RealPath path, x) \<in> set l \<and> re_path x = Some path)
     \<and> said l [''rev-parse'', ''HEAD''] path base \<and> said l [''status'', ''--porcelain'', ''--untracked-files=all''] path ''''"

lemma sound_fresh:
  assumes "reading P" and "\<And>m. fresh m g path base \<Longrightarrow> Q () (l @ m)"
  shows "sound P (verify_fresh_worktree g path base) Q l"
proof -
  have "sound P (git_out [''rev-parse'', ''HEAD''] path) (\<lambda>head. sound P (git_out [''status'', ''--porcelain'', ''--untracked-files=all''] path)
      (\<lambda>status m. head = base \<and> status = '''' \<longrightarrow> Q () m)) (l @ [(RealPath path, x)])"
    if "re_path x = Some path" "is_inside (ry_root g) path" for x
    by (rule sound_git_out [OF assms(1)], simp add: harmless_def, rule sound_git_out [OF assms(1)], simp add: harmless_def)
      (use that in \<open>auto simp: fresh_def intro!: assms(2) exI [of _ x]\<close>)
  then show ?thesis using assms(1)
    by (auto simp: verify_fresh_worktree_def ask_path_def real_path_def sound_after sound_Ask readingD split: option.split)
qed

lemma sound_act:
  assumes "P l (RunGit (guard_arguments @ args) cwd)" and "\<And>r m. Q r (l @ m)"
  shows "sound P (run_git b args cwd) Q l"
  by (rule sound_git) (use assms in auto)

lemma sound_fetch_base:
  assumes "reading P" and "\<And>m. P (l @ m) (RunGit (guard_arguments @ fetch_arguments r (ry_baseBranch r)) (ry_path r))"
    and "\<And>c m. Q c (l @ m)"
  shows "sound P (fetch_base r) Q l"
proof -
  have "sound P (rev_parse (remote_ref r (ry_baseBranch r)) (ry_path r))
      (\<lambda>b. case b of None \<Rightarrow> \<lambda>_. True | Some c \<Rightarrow> Q c) (l @ m)" for m
    by (rule sound_rev_parse [OF assms(1)]) (simp_all add: assms(3))
  note run = this
  have P: "P l (RunGit (guard_arguments @ fetch_arguments r (ry_baseBranch r)) (ry_path r))" using assms(2) [of "[]"] by simp
  show ?thesis
    by (auto simp: fetch_base_def Let_def sound_after sound_case_option git_exit_of_def sound_Ask P
        intro: run split: git_exit.split cong: option.case_cong)
qed

lemma sound_fast_forward:
  assumes "reading P" and "\<And>m q. updates_base r q \<Longrightarrow> P (l @ m) q" and "\<And>b m. Q b (l @ m)"
  shows "sound P (fast_forward_local_base r es) Q l"
  unfolding fast_forward_local_base_def Let_def sound_after
  by (auto intro!: sound_rev_parse [OF assms(1)] sound_is_ancestor [OF assms(1)] sound_git_out [OF assms(1)] sound_act assms(2,3)
      simp: sound_after harmless_def updates_base_def split: option.split)

lemma sound_write_key:
  assumes "P l (RunGit (guard_arguments @ [''config'', ''--local'', marker_name branch key, v]) (ry_path r))" and "\<And>m. Q () (l @ m)"
  shows "sound P (write_key r branch key v) Q l"
  unfolding write_key_def sound_after sound_answer by (rule sound_act) (use assms in auto)

definition prepared_well :: "host_event list \<Rightarrow> registry \<Rightarrow> registered_repository \<Rightarrow> prepared_workspace \<Rightarrow> bool" where
  "prepared_well l g r p \<longleftrightarrow>
     (let w = pd_workspace p in
      if pd_reused p then reusable l r (tw_taskId w) (tw_branch w) (tw_workspacePath w) (tw_baseCommit w)
      else cleared r (tw_taskId w) (tw_branch w) (tw_workspacePath w) l \<and> fresh l g (tw_workspacePath w) (tw_baseCommit w))"

lemma claims:
  "claims_branch g r tid branch path (RunGit (guard_arguments
      @ worktree_add_arguments (worktree_lock_reason tid (ry_name r)) existing branch path base) (ry_path r))"
  "key \<in> {task_key, base_key, worktree_key} \<Longrightarrow>
     claims_branch g r tid branch path (RunGit (guard_arguments @ [''config'', ''--local'', marker_name branch key, v]) (ry_path r))"
  "registry_task_directory g tid = Inr d \<Longrightarrow> claims_branch g r tid branch path (MakeDirectory d)"
  unfolding claims_branch_def by blast+

lemma fresh_append: "fresh m g path base \<Longrightarrow> fresh (l @ m) g path base"
  by (auto simp: fresh_def)

lemma sound_create:
  assumes "P = prepare_may g r tid branch path" and "claimable l r tid branch path" and "vacant l r path"
    and Q: "\<And>base b l'. cleared r tid branch path l' \<Longrightarrow> fresh l' g path base \<Longrightarrow>
      Q \<lparr>pd_workspace = \<lparr>tw_taskId = tid, tw_repository = ry_name r, tw_workspacePath = path, tw_branch = branch,
         tw_baseCommit = base\<rparr>, pd_reused = False, pd_localBaseUpdated = b\<rparr> l'"
  shows "sound P (create_worktree g minimumMb r tid branch path es existing) Q l"
proof -
  let ?C = "cleared r tid branch path"
  have R: "reading P" by (simp add: assms(1) reading_def prepare_may_def)
  have may: "P m q" if "?C m" "updates_base r q \<or> claims_branch g r tid branch path q" for m q
    using that by (simp add: assms(1) prepare_may_def)
  note keep = cleared_append [of r tid branch path]
  have add: "sound P (run_git False (worktree_add_arguments (worktree_lock_reason tid (ry_name r)) existing branch path base) (ry_path r))
     (\<lambda>_. sound P (verify_fresh_worktree g path base) (\<lambda>_. Q \<lparr>pd_workspace = \<lparr>tw_taskId = tid, tw_repository = ry_name r, tw_workspacePath = path, tw_branch = branch,
         tw_baseCommit = base\<rparr>, pd_reused = False, pd_localBaseUpdated = b\<rparr>)) l'" if "?C l'" for base b l'
    by (rule sound_act, rule may [OF that], rule disjI2, rule claims, rule sound_fresh [OF R], rule Q)
      (intro keep that, rule fresh_append)
  have directory: "sound P (make_directory d) (\<lambda>_. sound P (run_git False (worktree_add_arguments (worktree_lock_reason tid (ry_name r)) existing branch path base) (ry_path r))
     (\<lambda>_. sound P (verify_fresh_worktree g path base) (\<lambda>_. Q \<lparr>pd_workspace = \<lparr>tw_taskId = tid, tw_repository = ry_name r, tw_workspacePath = path, tw_branch = branch,
         tw_baseCommit = base\<rparr>, pd_reused = False, pd_localBaseUpdated = b\<rparr>))) l'"
    if "?C l'" "registry_task_directory g tid = Inr d" for base b l' d
    using that may [OF that(1) disjI2, OF claims(3)] by (auto simp: make_directory_def sound_Ask intro!: add keep)
  have marker: "sound P (write_marker r branch tid base path) R' l'" if "?C l'" "\<And>m. ?C m \<Longrightarrow> R' () m" for R' base l'
    unfolding write_marker_def sound_after
    by (rule sound_write_key, rule may, rule that(1), rule disjI2, rule claims, simp,
        rule sound_write_key, rule may, rule keep, rule that(1), rule disjI2, rule claims, simp,
        rule sound_write_key, rule may, rule keep, rule keep, rule that(1), rule disjI2, rule claims, simp,
        rule that(2), intro keep, rule that(1))
  have disk: "sound P (ensure_disk_capacity g minimumMb) R' l'" if "?C l'" "\<And>m. ?C m \<Longrightarrow> R' () m" for R' l'
    using R that keep by (auto simp: ensure_disk_capacity_def sound_Ask readingD split: option.split)
  have finish: "sound P (fast_forward_local_base r es) (\<lambda>b. sound P (ensure_disk_capacity g minimumMb) (\<lambda>_.
     sound P (write_marker r branch tid base path) (\<lambda>_. sound P (told (registry_task_directory g tid)) (\<lambda>d.
     sound P (make_directory d) (\<lambda>_. sound P (run_git False (worktree_add_arguments (worktree_lock_reason tid (ry_name r)) existing branch path base) (ry_path r))
     (\<lambda>_. sound P (verify_fresh_worktree g path base) (\<lambda>_. Q \<lparr>pd_workspace = \<lparr>tw_taskId = tid, tw_repository = ry_name r, tw_workspacePath = path, tw_branch = branch,
         tw_baseCommit = base\<rparr>, pd_reused = False, pd_localBaseUpdated = b\<rparr>))))))) l'" if "?C l'" for base l'
  proof (rule sound_fast_forward [OF R])
    show "P (l' @ m) q" if "updates_base r q" for m q
      by (rule may, rule keep, rule \<open>?C l'\<close>, rule disjI1, rule that)
  next
    fix b m
    show "sound P (ensure_disk_capacity g minimumMb) (\<lambda>_.
     sound P (write_marker r branch tid base path) (\<lambda>_. sound P (told (registry_task_directory g tid)) (\<lambda>d.
     sound P (make_directory d) (\<lambda>_. sound P (run_git False (worktree_add_arguments (worktree_lock_reason tid (ry_name r)) existing branch path base) (ry_path r))
     (\<lambda>_. sound P (verify_fresh_worktree g path base) (\<lambda>_. Q \<lparr>pd_workspace = \<lparr>tw_taskId = tid, tw_repository = ry_name r, tw_workspacePath = path, tw_branch = branch,
         tw_baseCommit = base\<rparr>, pd_reused = False, pd_localBaseUpdated = b\<rparr>)))))) (l' @ m)"
      by (rule disk, rule keep, rule that, rule marker, assumption) (auto intro!: directory split: sum.split)
  qed
  have fetched: "sound P (case existing of Some c \<Rightarrow> answer c | None \<Rightarrow> fetch_base r) R' l'"
    if "?C l'" "\<And>c m. ?C m \<Longrightarrow> R' c m" for R' l'
  proof (cases existing)
    case None
    have "P (l' @ m) (RunGit (guard_arguments @ fetch_arguments r (ry_baseBranch r)) (ry_path r))" for m
      by (rule may, rule keep, rule that(1)) (simp add: updates_base_def)
    then show ?thesis using that keep by (auto simp: None intro!: sound_fetch_base [OF R])
  qed (use that in auto)
  have start: "?C (l @ m)" if "said m [''ls-remote'', ''--heads'', ry_remote r, heads_ref branch] (ry_path r) ''''" for m
    using assms(2,3) that by (auto simp: cleared_def claimable_def vacant_def unpublished_def)
  show ?thesis unfolding create_worktree_def sound_after ensure_remote_branch_absent_def sound_answer
    by (rule sound_list_remote' [OF R]) (use start in \<open>auto intro!: fetched finish [unfolded sound_told]\<close>)
qed

lemma sound_prepare_locked:
  assumes "P = prepare_may g r (pr_taskId i) branch path"
  shows "sound P (prepare_locked g minimumMb r i path branch) (\<lambda>p l. prepared_well l g r p \<and> tw_workspacePath (pd_workspace p) = path
     \<and> tw_branch (pd_workspace p) = branch \<and> tw_taskId (pd_workspace p) = pr_taskId i) l"
proof -
  let ?tid = "pr_taskId i" and ?base = "snd (snd (pr_persisted i))"
  let ?Q = "\<lambda>p l. prepared_well l g r p \<and> tw_workspacePath (pd_workspace p) = path
     \<and> tw_branch (pd_workspace p) = branch \<and> tw_taskId (pd_workspace p) = ?tid"
  have R: "reading P" by (simp add: assms reading_def prepare_may_def)
  have reuse: "sound P (verify_reusable_worktree r e ?base path branch marker (worktree_lock_reason ?tid (ry_name r)))
     (\<lambda>base. ?Q \<lparr>pd_workspace = \<lparr>tw_taskId = ?tid, tw_repository = ry_name r, tw_workspacePath = path, tw_branch = branch,
        tw_baseCommit = base\<rparr>, pd_reused = True, pd_localBaseUpdated = False\<rparr>) (l0 @ m)"
    if "listed m r (\<lambda>es. e \<in> set es)" "we_path e = path" "marked m r branch task_key ?tid"
      "\<And>v. om_base marker = Some v \<Longrightarrow> marked m r branch base_key v"
      "\<And>v. om_worktree marker = Some v \<Longrightarrow> marked m r branch worktree_key v" for e marker l0 m
    by (rule sound_verify_reusable [OF R that(1,2,3)])
      (use that reusable_append' in \<open>auto simp: prepared_well_def\<close>)
  have create: "sound P (create_worktree g minimumMb r ?tid branch path es existing) ?Q l'"
    if "claimable l' r ?tid branch path" "vacant l' r path" for es existing l'
    by (rule sound_create [OF assms that]) (auto simp: prepared_well_def)
  have decide: "sound P (place_worktree g minimumMb r i path branch es \<lparr>om_task = t, om_base = b, om_worktree = p\<rparr> existing) ?Q (l0 @ m)"
    if es: "listed m r (\<lambda>es'. es' = es)" and t: "\<And>v. t = Some v \<Longrightarrow> marked m r branch task_key v"
      and b: "\<And>v. b = Some v \<Longrightarrow> marked m r branch base_key v" and p: "\<And>v. p = Some v \<Longrightarrow> marked m r branch worktree_key v"
      and un: "t = None \<Longrightarrow> unmarked m r branch"
      and none: "existing = None \<Longrightarrow> denied m [''rev-parse'', ''--verify'', ''--quiet'', commit_ref (heads_ref branch)] (ry_path r)"
    for es t b p existing m l0
  proof (cases "ownership_objection r ?tid branch path \<lparr>om_task = t, om_base = b, om_worktree = p\<rparr> existing
          (find (\<lambda>e. we_path e = path) es) (find (\<lambda>e. we_branch e = Some (heads_ref branch)) es)")
    case None
    then have own: "t \<in> {None, Some ?tid}"
      "t = None \<Longrightarrow> existing = None \<and> find (\<lambda>e. we_branch e = Some (heads_ref branch)) es = None \<and> find (\<lambda>e. we_path e = path) es = None"
      by (simp_all add: ownership_objection_def split: if_splits)
    show ?thesis
    proof (cases "find (\<lambda>e. we_path e = path) es")
      case (Some e)
      then have e: "e \<in> set es" "we_path e = path" by (auto simp: find_Some_iff)
      have "t = Some ?tid" using own Some by auto
      have "listed m r (\<lambda>es. e \<in> set es)" using es by (rule listed_mono) (use e in simp)
      then show ?thesis using \<open>t = Some ?tid\<close> t b p e(2) None Some
        by (simp add: place_worktree_def Let_def sound_after) (rule reuse [simplified], auto)
    next
      case none: None
      have free: "listed m r (\<lambda>es. path \<notin> we_path ` set es)" using es by (rule listed_mono) (use none in \<open>auto simp: find_None_iff\<close>)
      have claim: "claimable m r ?tid branch path"
      proof (cases t)
        case None
        have "listed m r (\<lambda>es. \<not> (\<exists>e \<in> set es. we_path e = path \<or> we_branch e = Some (heads_ref branch)))"
          using es by (rule listed_mono) (use own(2) None in \<open>auto simp: find_None_iff\<close>)
        then show ?thesis using that(5,6) own(2) None by (simp add: claimable_def)
      qed (use t own(1) in \<open>auto simp: claimable_def\<close>)
      have "sound P (create_worktree g minimumMb r ?tid branch path es existing) ?Q (l0 @ m @ [(PathExists path, x)])" if "\<not> re_flag x" for x
      proof (rule create)
        show "claimable (l0 @ m @ [(PathExists path, x)]) r ?tid branch path" using claim by (auto simp: claimable_def)
        show "vacant (l0 @ m @ [(PathExists path, x)]) r path" using free that by (auto simp: vacant_def)
      qed
      then show ?thesis using R None none
        by (auto simp: place_worktree_def Let_def sound_after path_exists_def sound_Ask readingD)
    qed
  qed (simp add: place_worktree_def Let_def)
  show ?thesis
    unfolding prepare_locked_def sound_after
  proof (rule sound_verify_repository [OF R], rule sound_list_worktrees [OF R], rule sound_read_marker [OF R])
    fix m es m1 t b p m2
    assume es: "listed m1 r (\<lambda>es'. es' = es)" and t: "\<And>v. t = Some v \<Longrightarrow> marked m2 r branch task_key v"
      and b: "\<And>v. b = Some v \<Longrightarrow> marked m2 r branch base_key v" and p: "\<And>v. p = Some v \<Longrightarrow> marked m2 r branch worktree_key v"
      and un: "t = None \<Longrightarrow> unmarked m2 r branch"
    note decide = decide [of "m1 @ m2 @ m3" es t b p _ "l @ m" for m3]
    show "sound P (rev_parse (heads_ref branch) (ry_path r)) (\<lambda>existing.
        sound P (place_worktree g minimumMb r i path branch es \<lparr>om_task = t, om_base = b, om_worktree = p\<rparr> existing) ?Q) (((l @ m) @ m1) @ m2)"
      by (rule sound_rev_parse [OF R]; simp only: append_assoc; rule decide [unfolded append_assoc]) (use es t b p un in simp_all)
  qed
qed

lemma prepared_well_append: "prepared_well l g r p \<Longrightarrow> prepared_well (l @ m) g r p"
  by (auto simp: prepared_well_def Let_def reusable_append cleared_append fresh_def split: if_splits)

lemma sound_validate_branch:
  assumes "reading P" and "\<And>m. Q branch (l @ m)"
  shows "sound P (validate_branch r branch) Q l"
  unfolding validate_branch_def sound_after
  by (rule sound_read [OF assms(1)]) (simp_all add: harmless_def assms(2))

lemma sound_prepare:
  assumes "registry_get g (pr_repository i) = Inr r" and "worktree_path g (pr_taskId i) (ry_name r) = Inr path"
  shows "sound (prepare_may g r (pr_taskId i) (pr_branch i) path) (prepare g minimumMb i)
    (\<lambda>p l. prepared_well l g r p \<and> tw_workspacePath (pd_workspace p) = path
     \<and> tw_branch (pd_workspace p) = pr_branch i \<and> tw_taskId (pd_workspace p) = pr_taskId i) []"
proof -
  let ?P = "prepare_may g r (pr_taskId i) (pr_branch i) path"
  let ?Q = "\<lambda>p l. prepared_well l g r p \<and> tw_workspacePath (pd_workspace p) = path
     \<and> tw_branch (pd_workspace p) = pr_branch i \<and> tw_taskId (pd_workspace p) = pr_taskId i"
  have R: "reading ?P" by (simp add: reading_def prepare_may_def)
  have locked: "sound ?P (with_lock (ry_name r) (prepare_locked g minimumMb r i path (pr_branch i))) ?Q l" for l
    by (rule sound_with_lock [OF R], rule sound_prepare_locked) (simp_all add: prepared_well_append)
  show ?thesis
    by (cases "pr_persisted i") (auto simp: prepare_def assms sound_after intro!: sound_validate_branch [OF R] locked)
qed

section \<open>Removing, restoring, committing\<close>

text \<open>A worktree is removed only when it is the task's, locked by the orchestrator and clean.\<close>

definition removable :: "host_event list \<Rightarrow> registered_repository \<Rightarrow> task_id \<Rightarrow> string \<Rightarrow> string \<Rightarrow> bool" where
  "removable l r tid branch path \<longleftrightarrow>
     listed l r (\<lambda>es. \<exists>e \<in> set es. we_path e = path \<and> we_branch e = Some (heads_ref branch)
       \<and> we_lockReason e = Some (worktree_lock_reason tid (ry_name r)))
   \<and> marked l r branch task_key tid \<and> said l [''status'', ''--porcelain'', ''--untracked-files=all''] path ''''"

lemma removable_append: "removable l r tid b p \<Longrightarrow> removable (l @ m) r tid b p"
  by (auto simp: removable_def)

definition release_may :: "registry \<Rightarrow> registered_repository \<Rightarrow> task_id \<Rightarrow> string \<Rightarrow> string \<Rightarrow> host_event list \<Rightarrow> host_request \<Rightarrow> bool" where
  "release_may g r tid branch path l q \<longleftrightarrow> reads q
     \<or> (removable l r tid branch path \<and>
        (q \<in> {RunGit (guard_arguments @ [''worktree'', ''unlock'', path]) (ry_path r),
               RunGit (guard_arguments @ [''worktree'', ''remove'', path]) (ry_path r),
               RunGit (guard_arguments @ lock_arguments (worktree_lock_reason tid (ry_name r)) path) (ry_path r)}
         \<or> (\<exists>d. registry_task_directory g tid = Inr d \<and> q = RemoveDirectory d)))"

text \<open>Released: nothing was there, or Git removed it.\<close>

definition gone :: "host_event list \<Rightarrow> registered_repository \<Rightarrow> string \<Rightarrow> bool" where
  "gone l r path \<longleftrightarrow> vacant l r path \<or> (\<exists>v. said l [''worktree'', ''remove'', path] (ry_path r) v)"

lemma gone_append: "gone l r path \<Longrightarrow> gone (l @ m) r path"
  by (auto simp: gone_def vacant_def)

lemma release_reading: "reading (release_may g r tid branch path)"
  by (simp add: reading_def release_may_def)

lemma sound_remove_worktree:
  assumes "removable l r tid branch path"
  shows "sound (release_may g r tid branch path) (remove_worktree g r tid path) (\<lambda>x l. x = Released \<longrightarrow> gone l r path) l"
proof -
  let ?P = "release_may g r tid branch path"
  note keep = removable_append [OF assms]
  have remove: "sound ?P (bind_talk (run_git False [''worktree'', ''remove'', path] (ry_path r)) (\<lambda>removed. case removed of
       Inl e \<Rightarrow> after (run_git True (lock_arguments (worktree_lock_reason tid (ry_name r)) path) (ry_path r)) (\<lambda>_. answer (Kept (error_message e)))
     | Inr _ \<Rightarrow> after (told (registry_task_directory g tid)) (\<lambda>directory.
         Ask (RemoveDirectory directory) (\<lambda>_. answer Released)))) (\<lambda>x l. x = Released \<longrightarrow> gone l r path) (l @ m)" for m
    by (rule sound_git_caught)
      (auto simp: sound_after sound_Ask release_may_def gone_def printed_def intro!: sound_act keep split: sum.split)
  show ?thesis unfolding remove_worktree_def sound_after
    by (rule sound_act) (use assms in \<open>auto simp: release_may_def intro!: remove\<close>)
qed

lemma sound_release_entry:
  assumes "listed m r (\<lambda>es. e \<in> set es)" and "we_path e = path"
  shows "sound (release_may g r tid branch path) (release_entry g r tid path branch e) (\<lambda>x l. x = Released \<longrightarrow> gone l r path) (l @ m)"
proof -
  let ?P = "release_may g r tid branch path" and ?Q = "\<lambda>x l. x = Released \<longrightarrow> gone l r path"
  let ?reason = "worktree_lock_reason tid (ry_name r)"
  note R = release_reading [of g r tid branch path]
  have status: "sound ?P (git_out [''status'', ''--porcelain'', ''--untracked-files=all''] path) (\<lambda>status. if status \<noteq> '''' then \<lambda>_. True
      else sound ?P (remove_worktree g r tid path) ?Q) (l @ m @ m2)"
    if "we_lockReason e = Some ?reason" "we_branch e = Some (heads_ref branch)" "marked m2 r branch task_key tid" for m2
  proof (rule sound_git_out [OF R])
    fix v m3
    assume v: "said m3 [''status'', ''--porcelain'', ''--untracked-files=all''] path v"
    have "listed m r (\<lambda>es. \<exists>e \<in> set es. we_path e = path \<and> we_branch e = Some (heads_ref branch) \<and> we_lockReason e = Some ?reason)"
      using assms(1) by (rule listed_mono) (use that assms(2) in blast)
    then show "(if v \<noteq> '''' then \<lambda>_. True else sound ?P (remove_worktree g r tid path) ?Q) ((l @ m @ m2) @ m3)"
      using that(3) v by (auto simp: removable_def intro!: sound_remove_worktree)
  qed (simp add: harmless_def)
  show ?thesis unfolding release_entry_def sound_after sound_if
    by (rule sound_read_marker [OF R]) (use status in \<open>auto simp: sound_after sound_if cong: if_cong\<close>)
qed

lemma sound_release:
  assumes "registry_get g repository = Inr r" and "worktree_path g tid (ry_name r) = Inr path"
  shows "sound (release_may g r tid branch path) (release_workspace g repository tid workspacePath branch)
    (\<lambda>x l. x = Released \<longrightarrow> gone l r path) []"
proof -
  let ?P = "release_may g r tid branch path" and ?Q = "\<lambda>x l. x = Released \<longrightarrow> gone l r path"
  note R = release_reading [of g r tid branch path]
  have found: "sound ?P (case find (\<lambda>e. we_path e = path) es of
          None \<Rightarrow> after (path_exists path) (\<lambda>taken.
            answer (if taken then Kept (''Workspace path '' @ path @ '' exists but is not a registered worktree'') else Released))
        | Some e \<Rightarrow> release_entry g r tid path branch e) ?Q (l @ m)" if "listed m r (\<lambda>es'. es' = es)" for es l m
  proof (cases "find (\<lambda>e. we_path e = path) es")
    case None
    have "listed m r (\<lambda>es. path \<notin> we_path ` set es)" using that by (rule listed_mono) (use None in \<open>auto simp: find_None_iff\<close>)
    then show ?thesis using R by (auto simp: None sound_after path_exists_def sound_Ask readingD gone_def vacant_def)
  next
    case (Some e)
    then have e: "e \<in> set es" "we_path e = path" by (auto simp: find_Some_iff)
    have "listed m r (\<lambda>es. e \<in> set es)" using that by (rule listed_mono) (use e in simp)
    then show ?thesis using e(2) Some by (simp add: sound_release_entry)
  qed
  have "sound ?P (with_lock (ry_name r) (after (list_worktrees r) (\<lambda>es. case find (\<lambda>e. we_path e = path) es of
          None \<Rightarrow> after (path_exists path) (\<lambda>taken.
            answer (if taken then Kept (''Workspace path '' @ path @ '' exists but is not a registered worktree'') else Released))
        | Some e \<Rightarrow> release_entry g r tid path branch e))) ?Q []"
    by (rule sound_with_lock [OF R], unfold sound_after, rule sound_list_worktrees [OF R], rule found) (simp_all add: gone_append)
  then show ?thesis by (simp add: release_workspace_def assms sound_after)
qed

text \<open>Restoring and committing run their commands in the worktree, after its ownership was proved.\<close>

definition owner_may :: "registry \<Rightarrow> registered_repository \<Rightarrow> task_workspace \<Rightarrow> (string \<Rightarrow> string list set) \<Rightarrow> host_event list \<Rightarrow> host_request \<Rightarrow> bool" where
  "owner_may g r w acts l q \<longleftrightarrow> reads q
     \<or> (\<exists>head. owned l g r w head \<and> (\<exists>args \<in> acts head. q = RunGit (guard_arguments @ args) (tw_workspacePath w)))"

lemma owner_reading: "reading (owner_may g r w acts)"
  by (simp add: reading_def owner_may_def)

definition restore_acts :: "string \<Rightarrow> string list set" where
  "restore_acts head = {[''reset'', ''--quiet'', ''--hard'', head], [''clean'', ''--quiet'', ''--force'', ''-d'']}"

lemma sound_restore:
  assumes "registry_get g (tw_repository w) = Inr r"
  shows "sound (owner_may g r w restore_acts) (restore_workspace g w) (\<lambda>(head, discarded) l. owned l g r w head) []"
proof -
  let ?P = "owner_may g r w restore_acts" and ?Q = "\<lambda>(head, discarded) l. owned l g r w head"
  note R = owner_reading [of g r w restore_acts]
  have act: "?P l (RunGit (guard_arguments @ args) (tw_workspacePath w))" if "owned l g r w head" "args \<in> restore_acts head" for l head args
    using that by (auto simp: owner_may_def)
  have clean: "sound ?P (run_git False [''clean'', ''--quiet'', ''--force'', ''-d''] (tw_workspacePath w)) (\<lambda>_. ?Q (head, True)) l"
    if "owned l g r w head" for head l
    by (rule sound_act, rule act [OF that]) (use that in \<open>auto simp: restore_acts_def owned_append\<close>)
  have reset: "sound ?P (run_git False [''reset'', ''--quiet'', ''--hard'', head] (tw_workspacePath w)) (\<lambda>_.
      sound ?P (run_git False [''clean'', ''--quiet'', ''--force'', ''-d''] (tw_workspacePath w)) (\<lambda>_. ?Q (head, True))) l"
    if "owned l g r w head" for head l
    by (rule sound_act, rule act [OF that], simp add: restore_acts_def, rule clean, rule owned_append [OF that])
  have body: "sound ?P (verify_owned_workspace g r w) (\<lambda>head. sound ?P (git_out [''status'', ''--porcelain=v1'', ''--untracked-files=all''] (tw_workspacePath w))
      (\<lambda>status. if status = '''' then ?Q (head, False) else sound ?P (run_git False [''reset'', ''--quiet'', ''--hard'', head] (tw_workspacePath w)) (\<lambda>_.
      sound ?P (run_git False [''clean'', ''--quiet'', ''--force'', ''-d''] (tw_workspacePath w)) (\<lambda>_. ?Q (head, True))))) l" for l
  proof (rule sound_verify_owned [OF R], rule sound_git_out [OF R])
    fix c m v m'
    assume "owned m g r w c"
    then have "owned ((l @ m) @ m') g r w c" by (simp add: owned_append owned_append')
    then show "(if v = '''' then ?Q (c, False) else sound ?P (run_git False [''reset'', ''--quiet'', ''--hard'', c] (tw_workspacePath w)) (\<lambda>_.
      sound ?P (run_git False [''clean'', ''--quiet'', ''--force'', ''-d''] (tw_workspacePath w)) (\<lambda>_. ?Q (c, True)))) ((l @ m) @ m')"
      using reset [of "(l @ m) @ m'" c] by simp
  qed (simp add: harmless_def)
  show ?thesis
    unfolding restore_workspace_def sound_after sound_told assms sum.case
    by (rule sound_with_lock [OF R], unfold Let_def sound_after sound_if sound_answer, rule body) (auto intro: owned_append)
qed

definition commit_acts :: "string \<times> string \<Rightarrow> string \<Rightarrow> string \<Rightarrow> string list set" where
  "commit_acts author message head = {[''add'', ''--all''], commit_arguments author message}"

definition committed :: "host_event list \<Rightarrow> registry \<Rightarrow> registered_repository \<Rightarrow> task_workspace \<Rightarrow> string \<Rightarrow> string \<Rightarrow> bool" where
  "committed l g r w commit parent \<longleftrightarrow> owned l g r w parent
     \<and> said l [''rev-parse'', ''HEAD''] (tw_workspacePath w) commit \<and> said l [''rev-parse'', ''HEAD^''] (tw_workspacePath w) parent"

lemma sound_commit:
  assumes "registry_get g (tw_repository w) = Inr r"
  shows "sound (owner_may g r w (commit_acts author message)) (commit_workspace g w message author)
    (\<lambda>(commit, parent) l. committed l g r w commit parent) []"
proof -
  let ?P = "owner_may g r w (commit_acts author message)" and ?Q = "\<lambda>(commit, parent) l. committed l g r w commit parent"
  let ?cwd = "tw_workspacePath w"
  note R = owner_reading [of g r w "commit_acts author message"]
  have act: "?P l (RunGit (guard_arguments @ args) ?cwd)" if "owned l g r w head" "args \<in> commit_acts author message head" for l head args
    using that by (auto simp: owner_may_def)
  have parent: "sound ?P (git_out [''rev-parse'', ''HEAD''] ?cwd) (\<lambda>commit. sound ?P (git_out [''rev-parse'', ''HEAD^''] ?cwd)
      (\<lambda>parent l. \<not> parent \<noteq> head \<longrightarrow> ?Q (commit, parent) l)) l" if "owned l g r w head" for head l
    by (rule sound_git_out [OF R], simp add: harmless_def, rule sound_git_out [OF R], simp add: harmless_def)
      (use that in \<open>auto simp: committed_def owned_append\<close>)
  have commit: "sound ?P (run_git False (commit_arguments author message) ?cwd) (\<lambda>_. sound ?P (git_out [''rev-parse'', ''HEAD''] ?cwd)
      (\<lambda>commit. sound ?P (git_out [''rev-parse'', ''HEAD^''] ?cwd) (\<lambda>parent l. \<not> parent \<noteq> head \<longrightarrow> ?Q (commit, parent) l))) l"
    if "owned l g r w head" for head l
    by (rule sound_act, rule act [OF that], simp add: commit_acts_def, rule parent, rule owned_append [OF that])
  have add: "sound ?P (run_git False [''add'', ''--all''] ?cwd) (\<lambda>_. sound ?P (run_git False (commit_arguments author message) ?cwd) (\<lambda>_.
      sound ?P (git_out [''rev-parse'', ''HEAD''] ?cwd) (\<lambda>commit. sound ?P (git_out [''rev-parse'', ''HEAD^''] ?cwd)
      (\<lambda>parent l. \<not> parent \<noteq> head \<longrightarrow> ?Q (commit, parent) l)))) l"
    if "owned l g r w head" for head l
    by (rule sound_act, rule act [OF that], simp add: commit_acts_def, rule commit, rule owned_append [OF that])
  show ?thesis
    unfolding commit_workspace_def sound_after sound_told assms sum.case
    by (rule sound_with_lock [OF R], unfold Let_def sound_after sound_blocked_if sound_answer, rule sound_verify_owned [OF R], rule add)
      (auto simp: owned_append' owned_Cons committed_def owned_append)
qed

end
