(* ===== verification/WorkspaceSamples.thy ===== *)
theory WorkspaceSamples
  imports WorkspaceManager StageSamples
begin

text \<open>A clone, a task's worktree and a host that serves them, to run the operations on.\<close>

definition sample_clone :: registered_repository where
  "sample_clone = \<lparr>ry_name = ''web'', ry_path = ''/c/web'', ry_github = ''o/web'', ry_remote = ''origin'', ry_baseBranch = ''main''\<rparr>"

definition sample_registry :: registry where
  "sample_registry = \<lparr>ry_root = ''/ws'', ry_entries = [(''web'', sample_clone)]\<rparr>"

definition tip :: string where "tip = ''aaaaaaaaaaaaaaaaaaaaaaaaaaaaaaaaaaaaaaaa''"

definition sample_worktree :: string where
  "sample_worktree = ''/ws/'' @ staged_id @ ''/web''"

definition sample_workspace :: task_workspace where
  "sample_workspace = \<lparr>tw_taskId = staged_id, tw_repository = ''web'', tw_workspacePath = sample_worktree, tw_branch = ''b'', tw_baseCommit = ''base''\<rparr>"

text \<open>What Git prints, by arguments and directory; the state tells whether the branch was pushed.\<close>

definition sample_answers :: "bool \<Rightarrow> ((string list \<times> string) \<times> string) list" where
  "sample_answers pushed =
    [(([''rev-parse'', ''--show-toplevel''], ''/c/web''), ''/c/web''),
     (([''config'', ''--local'', ''--get'', ''remote.origin.url''], ''/c/web''), ''https://github.com/o/web.git''),
     (([''worktree'', ''list'', ''--porcelain'', ''-z''], ''/c/web''), join [nul_char]
        [''worktree '' @ sample_worktree, ''HEAD '' @ tip, ''branch refs/heads/b'', ''locked '' @ worktree_lock_reason staged_id ''web'', '''', '''']),
     (([''config'', ''--local'', ''--get'', ''branch.b.orchestratortask''], ''/c/web''), staged_id),
     (([''config'', ''--local'', ''--get'', ''branch.b.orchestratorbase''], ''/c/web''), ''base''),
     (([''config'', ''--local'', ''--get'', ''branch.b.orchestratorworktree''], ''/c/web''), sample_worktree),
     (([''rev-parse'', ''--verify'', ''--quiet'', ''HEAD^{commit}''], sample_worktree), tip),
     (([''merge-base'', ''--is-ancestor'', ''base'', tip], sample_worktree), ''''),
     (([''rev-parse'', ''--path-format=absolute'', ''--git-common-dir''], sample_worktree), ''/c/web/.git''),
     (([''symbolic-ref'', ''--quiet'', ''HEAD''], sample_worktree), ''refs/heads/b''),
     (([''rev-parse'', ''--verify'', ''--quiet'', ''refs/heads/b^{commit}''], ''/c/web''), tip),
     (([''status'', ''--porcelain'', ''--untracked-files=all''], sample_worktree), ''''),
     (([''ls-remote'', ''--heads'', ''origin'', ''refs/heads/b''], ''/c/web''),
        if pushed then tip @ [tab_char] @ ''refs/heads/b'' else ''''),
     (([''push'', ''--porcelain'', ''--no-verify'', ''--no-follow-tags'', ''origin'', tip @ '':refs/heads/b''], ''/c/web''), ''''),
     (([''worktree'', ''unlock'', sample_worktree], ''/c/web''), ''''), (([''worktree'', ''remove'', sample_worktree], ''/c/web''), ''''),
     (([''add'', ''--all''], sample_worktree), ''''), ((commit_arguments (''bot'', ''bot@x'') ''m'', sample_worktree), ''''),
     (([''rev-parse'', ''HEAD''], sample_worktree), ''new''), (([''rev-parse'', ''HEAD^''], sample_worktree), tip)]"

text \<open>The same clone before the task: no worktree, no branch, no marker.\<close>

definition clean_answers :: "((string list \<times> string) \<times> string) list" where
  "clean_answers =
    [(([''check-ref-format'', ''--branch'', ''b''], ''/c/web''), ''b''),
     (([''rev-parse'', ''--show-toplevel''], ''/c/web''), ''/c/web''),
     (([''config'', ''--local'', ''--get'', ''remote.origin.url''], ''/c/web''), ''git@github.com:O/web''),
     (([''worktree'', ''list'', ''--porcelain'', ''-z''], ''/c/web''), ''''),
     (([''ls-remote'', ''--heads'', ''origin'', ''refs/heads/b''], ''/c/web''), ''''),
     (([''fetch'', ''--no-tags'', ''origin'', ''+refs/heads/main:refs/remotes/origin/main''], ''/c/web''), ''''),
     (([''rev-parse'', ''--verify'', ''--quiet'', ''refs/remotes/origin/main^{commit}''], ''/c/web''), tip),
     (([''config'', ''--local'', ''branch.b.orchestratortask'', staged_id], ''/c/web''), ''''),
     (([''config'', ''--local'', ''branch.b.orchestratorbase'', tip], ''/c/web''), ''''),
     (([''config'', ''--local'', ''branch.b.orchestratorworktree'', sample_worktree], ''/c/web''), ''''),
     (([''worktree'', ''add'', ''--lock'', ''--reason'', worktree_lock_reason staged_id ''web'', ''-b'', ''b'', sample_worktree, tip], ''/c/web''), ''''),
     (([''rev-parse'', ''HEAD''], sample_worktree), tip),
     (([''status'', ''--porcelain'', ''--untracked-files=all''], sample_worktree), '''')]"

definition sample_reply :: "string option \<Rightarrow> string option \<Rightarrow> bool \<Rightarrow> host_reply" where
  "sample_reply out p b = \<lparr>re_git = (case out of Some v \<Rightarrow> GitDone v '''' | None \<Rightarrow> GitFailed (Some 1) '''' '''' ''''),
     re_path = p, re_flag = b, re_disk = Some (1000000, 4096)\<rparr>"

definition answering :: "(bool \<Rightarrow> ((string list \<times> string) \<times> string) list) \<Rightarrow> bool host_machine" where
  "answering answers q pushed = (case q of
     RunGit args cwd \<Rightarrow> (sample_reply (map_of (answers pushed) (drop 4 args, cwd)) None True,
       pushed \<or> take 1 (drop 4 args) = [''push''])
   | RealPath p \<Rightarrow> (sample_reply None (Some p) True, pushed)
   | PathExists p \<Rightarrow> (sample_reply None None False, pushed)
   | _ \<Rightarrow> (sample_reply None None True, pushed))"

definition sample_host :: "bool host_machine" where "sample_host = answering sample_answers"
definition clean_host :: "bool host_machine" where "clean_host = answering (\<lambda>_. clean_answers)"

definition sample_input :: prepare_input where
  "sample_input = \<lparr>pr_taskId = staged_id, pr_repository = ''web'', pr_branch = ''b'', pr_persisted = (None, None, None)\<rparr>"

lemma sample_push: "fst (talk_with sample_host (push_task_branch sample_registry sample_workspace tip) False) = Inr (AtCommit tip)"
  by code_simp

lemma sample_prepare: "fst (talk_with clean_host (prepare sample_registry 1000 sample_input) False)
    = Inr \<lparr>pd_workspace = sample_workspace\<lparr>tw_baseCommit := tip\<rparr>, pd_reused = False, pd_localBaseUpdated = False\<rparr>"
  by code_simp

lemma sample_release: "fst (talk_with sample_host (release_workspace sample_registry ''web'' staged_id sample_worktree ''b'') False) = Inr Released"
  by code_simp

lemma sample_commit: "fst (talk_with sample_host (commit_workspace sample_registry sample_workspace ''m'' (''bot'', ''bot@x'')) False) = Inr (''new'', tip)"
  by code_simp

lemma sample_lookups: "registry_get sample_registry ''web'' = Inr sample_clone"
  "worktree_path sample_registry staged_id (ry_name sample_clone) = Inr sample_worktree"
  by code_simp+

end
