(* ===== verification/WorkspaceGuarantees.thy ===== *)
theory WorkspaceGuarantees
  imports WorkspaceRules WorkspaceSamples
begin

text \<open>
  What the workspace operations guarantee (\<open>src/workspaces\<close>): they change, publish and remove only what
  the host proved to be the task's own, whatever Git answers, and always under the lock of the repository.
\<close>

section \<open>Locks and hooks\<close>

definition lock_question :: "host_request \<Rightarrow> bool" where
  "lock_question q = (case q of TakeLock _ \<Rightarrow> True | FreeLock _ \<Rightarrow> True | _ \<Rightarrow> False)"

text \<open>A command of Git runs without hooks, and inside an operation nobody touches a lock.\<close>

definition hookless :: "host_request \<Rightarrow> bool" where
  "hookless q = (case q of RunGit args _ \<Rightarrow> take 4 args = guard_arguments | _ \<Rightarrow> True)"

primrec quiet :: "'a talk \<Rightarrow> bool" where
  "quiet (Told a) = True"
| "quiet (Ask q k) = (\<not> lock_question q \<and> hookless q \<and> (\<forall>x. quiet (k x)))"

lemma quiet_talk:
  assumes "quiet t"
  shows "list_all (\<lambda>e. \<not> lock_question (fst e) \<and> hookless (fst e)) (snd (snd (talk_with h t s)))"
  using assms
proof (induction t arbitrary: s rule: talk_induct)
  case (Ask q k)
  obtain x s1 where hq: "h q s = (x, s1)" by fastforce
  obtain a s2 l where rest: "talk_with h (k x) s1 = (a, s2, l)" by (metis prod_cases3)
  show ?case using Ask.IH [of x s1] Ask.prems by (simp add: hq rest)
qed simp

lemma quiet_bind: "quiet p \<Longrightarrow> (\<And>a. quiet (f a)) \<Longrightarrow> quiet (bind_talk p f)"
  by (induction p rule: talk_induct) simp_all

lemma quiet_results [simp]: "quiet (answer a)" "quiet (refuse e)" "quiet (blocked m)" "quiet (told r)" "quiet (blocked_if b m)"
  by (simp_all add: answer_def refuse_def blocked_def told_def blocked_if_def)

lemma quiet_after: "quiet p \<Longrightarrow> (\<And>a. quiet (f a)) \<Longrightarrow> quiet (after p f)"
  unfolding after_def by (rule quiet_bind) (auto split: sum.split)

lemma quiet_catch: "quiet p \<Longrightarrow> (\<And>e. quiet (f e)) \<Longrightarrow> quiet (catch p f)"
  unfolding catch_def by (rule quiet_bind) (auto split: sum.split)

lemma quiet_git [simp]: "quiet (git_exit_of args cwd)" "quiet (run_git b args cwd)"
proof -
  show "quiet (git_exit_of args cwd)" by (simp add: git_exit_of_def lock_question_def hookless_def guard_arguments_def)
  then show "quiet (run_git b args cwd)" unfolding run_git_def
    by (rule quiet_bind) (simp split: git_exit.split option.split)
qed

lemmas quiet_rules = quiet_after quiet_bind quiet_catch

lemma quiet_ask [simp]: "quiet (git_out args cwd)" "quiet (ask_path p)" "quiet (path_exists p)" "quiet (make_directory p)"
  by (auto simp: git_out_def ask_path_def real_path_def path_exists_def make_directory_def lock_question_def hookless_def
      intro!: quiet_rules)

lemma quiet_reads [simp]: "quiet (validate_branch r b)" "quiet (verify_repository r)" "quiet (list_worktrees r)"
  "quiet (rev_parse ref cwd)" "quiet (read_key r b k)" "quiet (is_ancestor_in cwd a c)" "quiet (write_key r b k v)"
  by (auto simp: validate_branch_def verify_repository_def list_worktrees_def rev_parse_def read_key_def is_ancestor_in_def
      write_key_def intro!: quiet_rules)

lemma quiet_markers [simp]: "quiet (read_marker r b)" "quiet (write_marker r b tid base path)"
  by (auto simp: read_marker_def write_marker_def intro!: quiet_rules)

lemma quiet_ownership [simp]: "quiet (verify_reusable_worktree r e base path branch marker reason)" "quiet (owned_head r branch path)"
  by (auto simp: verify_reusable_worktree_def owned_head_def Let_def intro!: quiet_rules split: option.split)

lemma quiet_verify_owned [simp]: "quiet (verify_owned_workspace g r w)"
  by (auto simp: verify_owned_workspace_def Let_def intro!: quiet_rules split: option.split)

lemma quiet_remote [simp]: "quiet (list_remote r b)" "quiet (ensure_remote_branch_absent r b)" "quiet (fetch_base r)"
  "quiet (fast_forward_local_base r es)" "quiet (remote_branch_state r b c)" "quiet (send_branch r b c)"
  by (auto simp: list_remote_def ensure_remote_branch_absent_def fetch_base_def fast_forward_local_base_def
      remote_branch_state_def send_branch_def Let_def intro!: quiet_rules split: option.split git_exit.split)

lemma quiet_worktree [simp]: "quiet (ensure_disk_capacity g n)" "quiet (verify_fresh_worktree g path base)" "quiet (remove_worktree g r tid path)"
  by (auto simp: ensure_disk_capacity_def verify_fresh_worktree_def remove_worktree_def lock_question_def hookless_def
      intro!: quiet_rules split: option.split sum.split)

lemma quiet_create [simp]: "quiet (create_worktree g n r tid b path es x)"
  by (auto simp: create_worktree_def intro!: quiet_rules split: option.split)

lemma quiet_place [simp]: "quiet (place_worktree g n r i path b es marker x)"
  by (auto simp: place_worktree_def Let_def intro!: quiet_rules split: option.split)

text \<open>
  The record of an operation: before the lock nothing but questions that change nothing; then either the
  lock is refused and nothing follows, or everything else happens between taking and freeing it.
\<close>

definition lock_held :: "string \<Rightarrow> host_event list \<Rightarrow> bool" where
  "lock_held repo l \<longleftrightarrow> (\<exists>x. l = [(TakeLock repo, x)] \<and> \<not> re_flag x)
     \<or> (\<exists>x m y. l = (TakeLock repo, x) # m @ [(FreeLock repo, y)] \<and> re_flag x
          \<and> list_all (\<lambda>e. \<not> lock_question (fst e) \<and> hookless (fst e)) m)"

definition under_lock :: "host_event list \<Rightarrow> bool" where
  "under_lock l \<longleftrightarrow> (\<exists>before rest. l = before @ rest \<and> list_all (\<lambda>e. reads (fst e) \<and> \<not> lock_question (fst e)) before
     \<and> (rest = [] \<or> (\<exists>repo. lock_held repo rest)))"

abbreviation record_of :: "'w host_machine \<Rightarrow> 'a talk \<Rightarrow> 'w \<Rightarrow> host_event list" where
  "record_of h t s \<equiv> snd (snd (talk_with h t s))"

lemma talk_bind: "talk_with h (bind_talk p f) s =
    (case talk_with h p s of (a, s1, l) \<Rightarrow> case talk_with h (f a) s1 of (b, s2, l') \<Rightarrow> (b, s2, l @ l'))"
  by (induction p arbitrary: s rule: talk_induct) (simp_all split: prod.split)

lemma with_lock_held: "quiet p \<Longrightarrow> lock_held repo (record_of h (with_lock repo p) s)"
proof -
  assume quiet: "quiet p"
  obtain x s1 where take: "h (TakeLock repo) s = (x, s1)" by fastforce
  show ?thesis
  proof (cases "re_flag x")
    case True
    obtain a s2 m where run: "talk_with h p s1 = (a, s2, m)" by (metis prod_cases3)
    obtain y s3 where free: "h (FreeLock repo) s2 = (y, s3)" by fastforce
    have "list_all (\<lambda>e. \<not> lock_question (fst e) \<and> hookless (fst e)) m" using quiet_talk [OF quiet, of h s1] run by simp
    then show ?thesis using True run free take by (auto simp: with_lock_def talk_bind lock_held_def)
  qed (simp add: with_lock_def take refuse_def lock_held_def)
qed

lemma lock_held_under: "lock_held repo l \<Longrightarrow> under_lock l"
  unfolding under_lock_def by (intro exI [of _ "[]"] exI [of _ l]) auto

lemma under_lock_locked: "quiet p \<Longrightarrow> under_lock (record_of h (with_lock repo p) s)"
  by (rule lock_held_under, rule with_lock_held)

lemma under_lock_refuse [simp]: "under_lock []"
  by (auto simp: under_lock_def)

lemma under_lock_told:
  assumes "\<And>a. under_lock (record_of h (f a) s)"
  shows "under_lock (record_of h (after (told r) f) s)"
  using assms by (cases r) (simp_all add: after_def told_def refuse_def)

lemma under_lock_after:
  assumes "list_all (\<lambda>e. reads (fst e) \<and> \<not> lock_question (fst e)) (record_of h p s)" and "\<And>a s. under_lock (record_of h (f a) s)"
  shows "under_lock (record_of h (after p f) s)"
proof -
  obtain a s1 l where p: "talk_with h p s = (a, s1, l)" by (metis prod_cases3)
  obtain b s2 l' where f: "talk_with h (case a of Inl e \<Rightarrow> refuse e | Inr a \<Rightarrow> f a) s1 = (b, s2, l')" by (metis prod_cases3)
  have "under_lock l'" using f assms(2) by (cases a) (auto simp: refuse_def, metis snd_conv)
  then obtain before rest where "l' = before @ rest" "list_all (\<lambda>e. reads (fst e) \<and> \<not> lock_question (fst e)) before"
    "rest = [] \<or> (\<exists>repo. lock_held repo rest)" by (auto simp: under_lock_def)
  then have "under_lock (l @ l')" using assms(1) p unfolding under_lock_def
    by (intro exI [of _ "l @ before"] exI [of _ rest]) simp
  then show ?thesis by (simp add: after_def talk_bind p f)
qed

lemma validate_branch_reads: "list_all (\<lambda>e. reads (fst e) \<and> \<not> lock_question (fst e)) (record_of h (validate_branch r b) s)"
proof -
  let ?q = "RunGit (guard_arguments @ [''check-ref-format'', ''--branch'', b]) (ry_path r)"
  obtain x s1 where q: "h ?q s = (x, s1)" by fastforce
  have "record_of h (validate_branch r b) s = [(?q, x)]"
    by (simp add: validate_branch_def after_def run_git_def git_exit_of_def q answer_def refuse_def blocked_def
        split: git_exit.split option.split)
  then show ?thesis by (simp add: harmless_def lock_question_def)
qed


section \<open>Publishing\<close>

text \<open>C10: Pushing a task branch, against any behaviour of Git: the only command that changes the remote is the
  plain push of the reviewed commit to the task branch, without a force flag, and it runs only after the host
  proved that the worktree is locked and marked for this task, is on the branch, has that commit as its
  head and as the tip of the branch, and that the remote does not have the branch. A state that is returned
  rests on what the remote said.\<close>

theorem push_is_owned_and_unforced:
  assumes "registry_get g (tw_repository w) = Inr r" and "talk_with h (push_task_branch g w commit) s = (result, s', events)"
  shows "(\<forall>pre q x post. events = pre @ (q, x) # post \<longrightarrow>
      reads q
    \<or> q = RunGit (guard_arguments @ fetch_arguments r (tw_branch w)) (ry_path r)
    \<or> (q = RunGit (guard_arguments @ [''push'', ''--porcelain'', ''--no-verify'', ''--no-follow-tags'', ry_remote r,
              commit @ '':refs/heads/'' @ tw_branch w]) (ry_path r)
        \<and> owned pre g r w commit \<and> remote_is pre r (tw_branch w) None))
    \<and> (case result of Inl e \<Rightarrow> True | Inr state \<Rightarrow> owned events g r w commit \<and> supports events r (tw_branch w) commit state)"
proof -
  have push: "push_arguments r commit (tw_branch w) = [''push'', ''--porcelain'', ''--no-verify'', ''--no-follow-tags'', ry_remote r,
      commit @ '':refs/heads/'' @ tw_branch w]"
    by (simp add: push_arguments_def heads_ref_def)
  show ?thesis
    using safe_talk [OF assms(2) sound_push [OF assms(1), of commit, unfolded sound_def]]
    unfolding push_may_def push append_Nil by (auto split: sum.splits)
qed

lemma push_is_owned_and_unforced_witness:
  "\<exists>s' events. talk_with sample_host (push_task_branch sample_registry sample_workspace tip) False = (Inr (AtCommit tip), s', events)
     \<and> owned events sample_registry sample_clone sample_workspace tip"
proof -
  obtain s' events where run: "talk_with sample_host (push_task_branch sample_registry sample_workspace tip) False = (Inr (AtCommit tip), s', events)"
    using sample_push by (metis prod.collapse)
  have "registry_get sample_registry (tw_repository sample_workspace) = Inr sample_clone" by (simp add: sample_lookups sample_workspace_def)
  from push_is_owned_and_unforced [OF this run] run show ?thesis by auto
qed

section \<open>Preparing and removing\<close>

text \<open>C11: Preparing a workspace changes something only once the branch is shown to be unclaimed (or marked as
  this task's), the path is no registered worktree and does not exist, and the remote has no such branch;
  the changes are then the base branch, the markers, the directory and the one worktree of the task. What
  is returned is a reused worktree with all its proofs of ownership, or a fresh one inside the workspace
  root that is a clean checkout of its base.\<close>

theorem only_its_own_worktree_is_made:
  assumes "registry_get g (pr_repository i) = Inr r" and "worktree_path g (pr_taskId i) (ry_name r) = Inr path"
    and "talk_with h (prepare g minimumMb i) s = (result, s', events)"
  shows "(\<forall>pre q x post. events = pre @ (q, x) # post \<longrightarrow> reads q
      \<or> (cleared r (pr_taskId i) (pr_branch i) path pre
         \<and> (updates_base r q \<or> claims_branch g r (pr_taskId i) (pr_branch i) path q)))
    \<and> (case result of Inl e \<Rightarrow> True | Inr p \<Rightarrow> prepared_well events g r p \<and> tw_workspacePath (pd_workspace p) = path
         \<and> tw_branch (pd_workspace p) = pr_branch i)"
  using safe_talk [OF assms(3) sound_prepare [OF assms(1,2), of minimumMb, unfolded sound_def]]
  unfolding prepare_may_def append_Nil by (auto split: sum.splits)

lemma only_its_own_worktree_is_made_witness:
  "\<exists>p s' events. talk_with clean_host (prepare sample_registry 1000 sample_input) False = (Inr p, s', events)
     \<and> prepared_well events sample_registry sample_clone p \<and> \<not> pd_reused p"
proof -
  obtain p s' events where run: "talk_with clean_host (prepare sample_registry 1000 sample_input) False = (Inr p, s', events)" and p: "\<not> pd_reused p"
    using sample_prepare by (metis prod.collapse prepared_workspace.select_convs(2))
  have "registry_get sample_registry (pr_repository sample_input) = Inr sample_clone"
    "worktree_path sample_registry (pr_taskId sample_input) (ry_name sample_clone) = Inr sample_worktree"
    by (simp_all add: sample_lookups sample_input_def)
  from only_its_own_worktree_is_made [OF this run] run p show ?thesis by auto
qed

text \<open>C12: Releasing a worktree unlocks, removes or relocks it only after the host showed that it is the
  locked worktree of this task on its branch, that the branch carries the task's marker and that nothing in
  it is uncommitted or untracked; a release is reported only when Git removed it or nothing was there.\<close>

theorem only_clean_owned_worktrees_are_removed:
  assumes "registry_get g repository = Inr r" and "worktree_path g tid (ry_name r) = Inr path"
    and "talk_with h (release_workspace g repository tid workspacePath branch) s = (result, s', events)"
  shows "(\<forall>pre q x post. events = pre @ (q, x) # post \<longrightarrow> release_may g r tid branch path pre q)
    \<and> (result = Inr Released \<longrightarrow> gone events r path)"
  using safe_talk [OF assms(3) sound_release [OF assms(1,2), of branch workspacePath, unfolded sound_def]]
  unfolding append_Nil by (auto split: sum.splits)

lemma only_clean_owned_worktrees_are_removed_witness:
  "\<exists>s' events. talk_with sample_host (release_workspace sample_registry ''web'' staged_id sample_worktree ''b'') False = (Inr Released, s', events)
     \<and> gone events sample_clone sample_worktree"
proof -
  obtain s' events where run: "talk_with sample_host (release_workspace sample_registry ''web'' staged_id sample_worktree ''b'') False = (Inr Released, s', events)"
    using sample_release by (metis prod.collapse)
  from only_clean_owned_worktrees_are_removed [OF sample_lookups run] run show ?thesis by auto
qed

text \<open>C13: A commit is made only in a worktree that was just proved to be the task's own, by adding everything
  and committing as the given author without hooks or signing, and the commit that is returned has the
  verified head as its parent.\<close>

theorem commits_extend_the_verified_head:
  assumes "registry_get g (tw_repository w) = Inr r" and "talk_with h (commit_workspace g w message author) s = (result, s', events)"
  shows "(\<forall>pre q x post. events = pre @ (q, x) # post \<longrightarrow> reads q
      \<or> (\<exists>head. owned pre g r w head \<and> (q = RunGit (guard_arguments @ [''add'', ''--all'']) (tw_workspacePath w)
           \<or> q = RunGit (guard_arguments @ commit_arguments author message) (tw_workspacePath w))))
    \<and> (case result of Inl e \<Rightarrow> True | Inr (commit, parent) \<Rightarrow> committed events g r w commit parent)"
  using safe_talk [OF assms(2) sound_commit [OF assms(1), of author message, unfolded sound_def]]
  unfolding append_Nil owner_may_def commit_acts_def by (auto split: sum.splits prod.splits)

lemma commits_extend_the_verified_head_witness:
  "\<exists>s' events. talk_with sample_host (commit_workspace sample_registry sample_workspace ''m'' (''bot'', ''bot@x'')) False = (Inr (''new'', tip), s', events)
     \<and> committed events sample_registry sample_clone sample_workspace ''new'' tip"
proof -
  obtain s' events where run: "talk_with sample_host (commit_workspace sample_registry sample_workspace ''m'' (''bot'', ''bot@x'')) False = (Inr (''new'', tip), s', events)"
    using sample_commit by (metis prod.collapse)
  have "registry_get sample_registry (tw_repository sample_workspace) = Inr sample_clone" by (simp add: sample_lookups sample_workspace_def)
  from commits_extend_the_verified_head [OF this run] run show ?thesis by auto
qed

end
