(* ===== verification/GitText.thy ===== *)
theory GitText
  imports GitHost
begin

text \<open>
  The texts exchanged with Git: the list of worktrees is read back as Git writes it, and addresses of
  github.com name the repository they say.
\<close>

section \<open>The list of worktrees\<close>

text \<open>An entry as \<open>git worktree list --porcelain -z\<close> writes it: attributes, each ended by NUL, and one NUL more.\<close>

definition entry_fields :: "worktree_entry \<Rightarrow> string list" where
  "entry_fields e = [''worktree '' @ we_path e]
     @ (case we_head e of None \<Rightarrow> [] | Some h \<Rightarrow> [''HEAD '' @ h])
     @ (case we_branch e of None \<Rightarrow> [''detached''] | Some b \<Rightarrow> [''branch '' @ b])
     @ (if we_locked e then [case we_lockReason e of None \<Rightarrow> ''locked'' | Some why \<Rightarrow> ''locked '' @ why] else [])"

definition render_worktrees :: "worktree_entry list \<Rightarrow> string" where
  "render_worktrees es = concat (map (\<lambda>f. f @ [nul_char]) (concat (map (\<lambda>e. entry_fields e @ [[]]) es)))"

definition printable :: "worktree_entry \<Rightarrow> bool" where
  "printable e \<longleftrightarrow> nul_char \<notin> set (concat (entry_fields e)) \<and> we_lockReason e \<noteq> Some ''''
     \<and> (we_lockReason e \<noteq> None \<longrightarrow> we_locked e)"

lemma split_fields:
  "list_all (\<lambda>f. c \<notin> set f) fs \<Longrightarrow> split_on c (concat (map (\<lambda>f. f @ [c]) fs)) = fs @ [[]]"
  by (induction fs) (simp_all add: split_on_append_sep)

lemma entry_read:
  assumes "printable e"
  shows "foldl worktree_step (None, done) (entry_fields e @ [[]]) = (None, done @ [e])"
proof -
  obtain p h b k why where e: "e = \<lparr>we_path = p, we_head = h, we_branch = b, we_locked = k, we_lockReason = why\<rparr>"
    by (cases e)
  show ?thesis using assms
    by (cases h; cases b; cases k; cases why)
      (simp_all add: e entry_fields_def printable_def worktree_step_def field_key_def field_value_def new_worktree_def
        set_field_def finish_entry_def)
qed

lemma entries_read:
  "list_all printable es \<Longrightarrow> foldl worktree_step (None, done) (concat (map (\<lambda>e. entry_fields e @ [[]]) es)) = (None, done @ es)"
proof (induction es arbitrary: "done")
  case (Cons e es)
  have "foldl worktree_step (None, done) ((entry_fields e @ [[]]) @ concat (map (\<lambda>e. entry_fields e @ [[]]) es))
      = foldl worktree_step (None, done @ [e]) (concat (map (\<lambda>e. entry_fields e @ [[]]) es))"
    unfolding foldl_append [of _ _ "entry_fields e @ [[]]"] by (rule arg_cong [OF entry_read]) (use Cons.prems in simp)
  then show ?case using Cons.IH [of "done @ [e]"] Cons.prems by simp
qed simp

text \<open>C16: What \<open>git worktree list --porcelain -z\<close> writes about any worktrees, detached and locked ones
  included, is read back as exactly these worktrees; paths and reasons may hold any character but NUL.\<close>

theorem worktree_list_round_trip:
  assumes "list_all printable es"
  shows "parse_worktree_list (render_worktrees es) = es"
proof -
  let ?fs = "concat (map (\<lambda>e. entry_fields e @ [[]]) es)"
  have "list_all (\<lambda>f. nul_char \<notin> set f) ?fs" using assms by (auto simp: list_all_iff printable_def)
  then have "split_on nul_char (render_worktrees es) = ?fs @ [[]]"
    unfolding render_worktrees_def by (rule split_fields)
  then show ?thesis using entries_read [OF assms, of "[]"]
    by (simp add: parse_worktree_list_def worktree_step_def finish_entry_def)
qed

lemma worktree_list_round_trip_witness:
  "parse_worktree_list (render_worktrees [\<lparr>we_path = ''/a b'', we_head = Some ''c'', we_branch = None, we_locked = True, we_lockReason = Some ''x y''\<rparr>])
     = [\<lparr>we_path = ''/a b'', we_head = Some ''c'', we_branch = None, we_locked = True, we_lockReason = Some ''x y''\<rparr>]"
  by (rule worktree_list_round_trip) code_simp

section \<open>Addresses\<close>

definition slug_ok :: "string \<Rightarrow> string \<Rightarrow> bool" where
  "slug_ok owner name \<longleftrightarrow> owner \<noteq> [] \<and> list_all owner_char owner \<and> name \<noteq> [] \<and> list_all name_char name \<and> \<not> ends_with name ''.git''"

lemma no_slash: "list_all owner_char s \<Longrightarrow> CHR ''/'' \<notin> set s" "list_all name_char s \<Longrightarrow> CHR ''/'' \<notin> set s"
  by (auto simp: list_all_iff owner_char_def name_char_def is_lower_def is_upper_def is_digit_def Let_def)

lemma name_char_solid: "name_char c \<Longrightarrow> \<not> is_space c"
  by (auto simp: name_char_def is_lower_def is_upper_def is_digit_def is_space_def Let_def)

lemma trim_solid:
  assumes "s \<noteq> []" and "\<not> is_space (hd s)" and "\<not> is_space (last s)"
  shows "trim s = s"
proof -
  have "dropWhile is_space s = s" using assms(1,2) by (cases s) auto
  moreover have "dropWhile is_space (rev s) = rev s" using assms(1,3) by (cases s rule: rev_cases) auto
  ultimately show ?thesis by (simp add: trim_def)
qed

lemma ends_with_append [simp]: "ends_with (s @ p) p"
  by (simp add: ends_with_def starts_with_def)

lemma ends_with_slash: "ends_with s ''/'' \<longleftrightarrow> s \<noteq> [] \<and> last s = CHR ''/''"
  by (cases s rule: rev_cases) (auto simp: ends_with_def starts_with_def)

lemma slug_split:
  assumes "slug_ok owner name"
  shows "split_on CHR ''/'' (owner @ CHR ''/'' # name @ t) = owner # split_on CHR ''/'' (name @ t)"
    and "CHR ''/'' \<notin> set t \<Longrightarrow> split_on CHR ''/'' (name @ t) = [name @ t]"
  using assms no_slash [of owner] no_slash [of name] by (auto intro!: split_on_append_sep split_on_no_sep simp: slug_ok_def)

lemma slug_name:
  assumes "slug_ok owner name"
  shows "repository_name name = name" and "repository_name (name @ ''.git'') = name"
  using assms by (auto simp: repository_name_def slug_ok_def)

lemma slug_part:
  assumes "slug_ok owner name" and "suffix \<in> {'''', ''.git'', ''/'', ''.git/''}"
  shows "repository_part (owner @ ''/'' @ name @ suffix) = Some (owner @ ''/'' @ name)"
proof -
  have last: "last name \<noteq> CHR ''/''" "name \<noteq> []" using assms(1) no_slash(2) [of name] last_in_set [of name] by (auto simp: slug_ok_def simp del: last_in_set)
  have ok: "owner \<noteq> [] \<and> list_all owner_char owner \<and> list_all name_char name" using assms(1) by (simp add: slug_ok_def)
  show ?thesis using assms(2) slug_split [OF assms(1)] slug_name [OF assms(1)] last ok
    by (auto simp: repository_part_def ends_with_slash butlast_append slug_split(2) [OF assms(1), of "[]", simplified])
qed

text \<open>Each of the three forms of a github.com address, with or without the suffix \<open>.git\<close> and a last
  slash, is read as the repository it names, in lower case.\<close>

theorem github_address_names_its_repository:
  assumes "slug_ok owner name" and "p \<in> {''https://github.com/'', ''git@github.com:'', ''ssh://git@github.com/''}"
    and "suffix \<in> {'''', ''.git'', ''/'', ''.git/''}"
  shows "github_repository_from_url (p @ owner @ ''/'' @ name @ suffix) = Some (lower (owner @ ''/'' @ name))"
proof -
  have name: "name \<noteq> []" "\<not> is_space (last name)" using assms(1) name_char_solid [of "last name"] by (auto simp: slug_ok_def list_all_iff)
  let ?u = "p @ owner @ ''/'' @ name @ suffix"
  have "trim ?u = ?u"
  proof (rule trim_solid)
    have plain: "\<not> is_space (CHR ''h'')" "\<not> is_space (CHR ''g'')" "\<not> is_space (CHR ''s'')" "\<not> is_space (CHR ''t'')" "\<not> is_space (CHR ''/'')"
      by code_simp+
    show "\<not> is_space (hd ?u)" using assms(2) plain by (elim insertE) simp_all
    show "\<not> is_space (last ?u)" using assms(3) name plain by (elim insertE) simp_all
  qed (use name in simp)
  moreover have "find (starts_with ?u) github_prefixes = Some p"
    using assms(2) by (elim insertE) (simp_all add: github_prefixes_def starts_with_def)
  ultimately show ?thesis using slug_part [OF assms(1,3)] by (simp add: github_repository_from_url_def)
qed

lemma github_address_names_its_repository_witness:
  "github_repository_from_url ''git@github.com:Kelola-Kelas/Web.app.git'' = Some ''kelola-kelas/web.app''"
proof -
  have "slug_ok ''Kelola-Kelas'' ''Web.app''" by code_simp
  from github_address_names_its_repository [OF this, of "''git@github.com:''" "''.git''"]
  have "github_repository_from_url ''git@github.com:Kelola-Kelas/Web.app.git'' = Some (lower ''Kelola-Kelas/Web.app'')" by simp
  also have "lower ''Kelola-Kelas/Web.app'' = ''kelola-kelas/web.app''" by code_simp
  finally show ?thesis .
qed

end
