(* ===== verification/Janitor.thy ===== *)
theory Janitor
  imports WorkspaceGuarantees Ledger
begin

text \<open>
  The sweep that releases the worktrees of finished tasks (\<open>src/workspaces/workspace-janitor.ts\<close>): the
  units are read once, then each is released through the workspace manager and the result is recorded on
  the unit. The record of the host conversations is kept beside the database and the host's state.
\<close>

record 'w sweep_state =
  sw_db :: database
  sw_host :: 'w
  sw_events :: "host_event list"

definition note_reason :: "time \<Rightarrow> work_unit_row \<Rightarrow> string \<Rightarrow> database \<Rightarrow> database" where
  "note_reason now u reason d =
     (if wu_workspaceCleanupBlockedReason u = Some reason then d else mark_workspace_released now (wu_id u) (Some reason) d)"

definition janitor_step :: "'w host_machine \<Rightarrow> registry \<Rightarrow> time \<Rightarrow> work_unit_row \<Rightarrow> 'w sweep_state \<Rightarrow> 'w sweep_state" where
  "janitor_step h g now u s =
     (case talk_with h (release_workspace g (wu_repository u) (wu_taskId u) (or_else (wu_workspacePath u) '''') (or_else (wu_branch u) ''''))
        (sw_host s) of
        (result, w, l) \<Rightarrow> s\<lparr>sw_host := w, sw_events := sw_events s @ l, sw_db :=
          (case result of
             Inr Released \<Rightarrow> mark_workspace_released now (wu_id u) None (sw_db s)
           | Inr (Kept reason) \<Rightarrow> note_reason now u reason (sw_db s)
           | Inl e \<Rightarrow> note_reason now u (take 1000 (error_message e)) (sw_db s))\<rparr>)"

definition pending_limit :: nat where "pending_limit = 50"

definition run_janitor :: "'w host_machine \<Rightarrow> registry \<Rightarrow> time \<Rightarrow> 'w sweep_state \<Rightarrow> 'w sweep_state" where
  "run_janitor h g now s = fold (janitor_step h g now) (list_workspaces_pending_release pending_limit (sw_db s)) s"

section \<open>Only finished work is removed\<close>

definition removes_for :: "registry \<Rightarrow> work_unit_row list \<Rightarrow> host_event list \<Rightarrow> bool" where
  "removes_for g us l \<longleftrightarrow> (\<forall>pre q x post. l = pre @ (q, x) # post \<longrightarrow> reads q \<or>
     (\<exists>u r path. u \<in> set us \<and> registry_get g (wu_repository u) = Inr r \<and> worktree_path g (wu_taskId u) (ry_name r) = Inr path
        \<and> removable pre r (wu_taskId u) (or_else (wu_branch u) '''') path))"

lemma removable_append': "removable m r tid b p \<Longrightarrow> removable (l @ m) r tid b p"
  by (auto simp: removable_def)

lemma removes_for_append:
  assumes "removes_for g us l" and "removes_for g us m"
  shows "removes_for g us (l @ m)"
  unfolding removes_for_def
proof (intro allI impI)
  fix pre q x post
  assume "l @ m = pre @ (q, x) # post"
  then consider (left) us' where "l = pre @ (q, x) # us'" | (right) vs where "pre = l @ vs" "m = vs @ (q, x) # post"
  proof -
    obtain us where "(l = pre @ us \<and> us @ m = (q, x) # post) \<or> (l @ us = pre \<and> m = us @ (q, x) # post)"
      using \<open>l @ m = pre @ (q, x) # post\<close> by (auto simp: append_eq_append_conv2)
    then show ?thesis using left right [of us] right [of "[]"] by (cases us) auto
  qed
  then show "reads q \<or> (\<exists>u r path. u \<in> set us \<and> registry_get g (wu_repository u) = Inr r \<and> worktree_path g (wu_taskId u) (ry_name r) = Inr path
        \<and> removable pre r (wu_taskId u) (or_else (wu_branch u) '''') path)"
  proof cases
    case left
    then show ?thesis using assms(1) unfolding removes_for_def by blast
  next
    case right
    then show ?thesis using assms(2) removable_append' unfolding removes_for_def by metis
  qed
qed

lemma release_removes_for:
  assumes "u \<in> set us" and "talk_with h (release_workspace g (wu_repository u) (wu_taskId u) path' (or_else (wu_branch u) '''')) w = (result, w', l)"
  shows "removes_for g us l"
proof (cases "registry_get g (wu_repository u)")
  case (Inl e)
  then have "l = []" using assms(2) by (simp add: release_workspace_def after_def told_def refuse_def)
  then show ?thesis by (simp add: removes_for_def)
next
  case r: (Inr r)
  show ?thesis
  proof (cases "worktree_path g (wu_taskId u) (ry_name r)")
    case (Inl e)
    then have "l = []" using assms(2) r by (simp add: release_workspace_def after_def told_def refuse_def)
    then show ?thesis by (simp add: removes_for_def)
  next
    case (Inr path)
    have "release_may g r (wu_taskId u) (or_else (wu_branch u) '''') path pre q" if "l = pre @ (q, x) # post" for pre q x post
      using safe_talk [OF assms(2) sound_release [OF r Inr, unfolded sound_def]] that by simp
    then show ?thesis using r Inr assms(1) unfolding removes_for_def release_may_def by blast
  qed
qed

lemma janitor_steps:
  assumes "set us \<subseteq> set vs" and "removes_for g vs (sw_events s)"
  shows "removes_for g vs (sw_events (fold (janitor_step h g now) us s))
    \<and> db_tasks (sw_db (fold (janitor_step h g now) us s)) = db_tasks (sw_db s)"
  using assms
proof (induction us arbitrary: s)
  case (Cons u us)
  obtain result w l where run: "talk_with h (release_workspace g (wu_repository u) (wu_taskId u) (or_else (wu_workspacePath u) '''')
      (or_else (wu_branch u) '''')) (sw_host s) = (result, w, l)" by (metis prod_cases3)
  have "removes_for g vs l" using Cons.prems(1) by (intro release_removes_for [OF _ run]) simp
  then have "removes_for g vs (sw_events (janitor_step h g now u s))"
    using Cons.prems(2) by (simp add: janitor_step_def run removes_for_append)
  moreover have "db_tasks (sw_db (janitor_step h g now u s)) = db_tasks (sw_db s)"
    by (simp add: janitor_step_def run note_reason_def mark_workspace_released_def split: sum.split release_result.split)
  ultimately show ?case using Cons.IH [of "janitor_step h g now u s"] Cons.prems(1) by simp
qed simp


definition sample_sweep :: "bool sweep_state" where
  "sample_sweep = \<lparr>sw_db = empty_database\<lparr>db_tasks := [(staged_task COMPLETED)\<lparr>t_leaseOwner := None\<rparr>],
     db_workUnits := [staged_unit\<lparr>wu_workspacePath := Some sample_worktree\<rparr>]\<rparr>, sw_host = False, sw_events = []\<rparr>"

lemma sample_sweep_removes: "list_ex (\<lambda>e. \<not> reads (fst e)) (sw_events (run_janitor sample_host sample_registry 5 sample_sweep))"
  by code_simp


end
