(* ===== verification/ChangeQueries.thy ===== *)
theory ChangeQueries
  imports WorkspaceManager
begin

text \<open>
  The Git commands of \<open>src/execution/workspace-changes.ts\<close>, which read what a worktree holds. Their
  outputs are parsed by \<open>WorkspaceChanges\<close>.
\<close>

section \<open>Changes\<close>

text \<open>The patch is read unless there are no files or too many lines.\<close>

definition needs_patch :: "int \<Rightarrow> string \<Rightarrow> string \<Rightarrow> bool" where
  "needs_patch maxLines raw numstat =
     (let c = collect_changes [] raw numstat [] maxLines in rg_files c \<noteq> [] \<and> \<not> rg_patchSkipped c)"

definition diff_arguments :: "string list \<Rightarrow> string \<Rightarrow> string list \<Rightarrow> string list" where
  "diff_arguments mode shape commits = [''diff''] @ mode @ [shape, ''-z'', ''--no-renames'', ''--no-ext-diff''] @ commits"

definition patch_arguments :: "string list \<Rightarrow> string list \<Rightarrow> string list" where
  "patch_arguments mode commits =
     [''-c'', ''core.quotePath=false'', ''diff''] @ mode
       @ [''-U0'', ''--no-color'', ''--no-renames'', ''--no-ext-diff'', ''--no-textconv''] @ commits"

definition read_changes :: "string list \<Rightarrow> string list \<Rightarrow> int \<Rightarrow> string \<Rightarrow> (string \<times> string \<times> string) talks" where
  "read_changes mode commits maxLines cwd =
     after (run_git False (diff_arguments mode ''--raw'' commits) cwd) (\<lambda>raw.
     after (run_git False (diff_arguments mode ''--numstat'' commits) cwd) (\<lambda>numstat.
     if needs_patch maxLines (gt_stdout raw) (gt_stdout numstat)
     then after (git_out (patch_arguments mode commits) cwd) (\<lambda>patch. answer (gt_stdout raw, gt_stdout numstat, patch))
     else answer (gt_stdout raw, gt_stdout numstat, '''')))"

text \<open>\<open>collect\<close> stages everything first; \<open>collectRange\<close> compares two commits.\<close>

definition collect :: "int \<Rightarrow> string \<Rightarrow> (string \<times> string \<times> string) talks" where
  "collect maxLines cwd =
     after (run_git False [''add'', ''--all''] cwd) (\<lambda>_. read_changes [''--cached''] [''HEAD''] maxLines cwd)"

definition collect_range :: "int \<Rightarrow> string \<Rightarrow> string \<Rightarrow> string \<Rightarrow> (string \<times> string \<times> string) talks" where
  "collect_range maxLines cwd base head = read_changes [] [base, head] maxLines cwd"

lemma unneeded_patch:
  "\<not> needs_patch maxLines raw numstat \<Longrightarrow> collect_changes repo raw numstat patch maxLines = collect_changes repo raw numstat [] maxLines"
  by (auto simp: needs_patch_def collect_changes_def Let_def split: if_splits)

section \<open>Commits and status\<close>

definition commits_in_range :: "string \<Rightarrow> string \<Rightarrow> string \<Rightarrow> string talks" where
  "commits_in_range cwd base head =
     git_out [''log'', ''--no-color'',
       ''--format=%H%x00%an%x00%ae%x00%P%x00%(trailers:key=Orchestrator-Task,valueonly,separator=%x2C)%x1e'',
       base @ ''..'' @ head] cwd"

definition snapshot :: "string \<Rightarrow> (string \<times> string) talks" where
  "snapshot cwd =
     after (git_out [''rev-parse'', ''HEAD''] cwd) (\<lambda>head.
     after (git_out [''status'', ''--porcelain=v1'', ''--untracked-files=all'', ''--ignored=no''] cwd) (\<lambda>status.
     answer (head, status)))"

definition is_ancestor :: "string \<Rightarrow> string \<Rightarrow> string \<Rightarrow> bool talks" where
  "is_ancestor cwd a b =
     after (run_git True [''merge-base'', ''--is-ancestor'', a, b] cwd) (\<lambda>x. answer (gt_exitCode x = 0))"

text \<open>The two outputs of \<open>diffFromBase\<close>; the second may fail.\<close>

definition stat_from_base :: "string \<Rightarrow> string \<Rightarrow> string talks" where
  "stat_from_base cwd base = git_out [''diff'', ''--stat'', ''--no-color'', ''--no-ext-diff'', base @ ''..HEAD''] cwd"

definition patch_from_base :: "string \<Rightarrow> string \<Rightarrow> string talks" where
  "patch_from_base cwd base =
     git_out [''-c'', ''core.quotePath=false'', ''diff'', ''--no-color'', ''--no-ext-diff'', ''--no-textconv'', base @ ''..HEAD''] cwd"

end
