(* ===== verification/HostedRun.thy ===== *)
theory HostedRun
  imports DeliverySamples WorkspaceGuarantees ChangeQueries
begin

text \<open>
  The stages with the workspace manager plugged in: the services of the stages and of delivery that use
  Git are conversations with the host of \<open>GitHost\<close>. Beside the host's state a record of its sessions is
  kept, one per operation. The record is an instrument of the specification.
\<close>

section \<open>Services by conversation\<close>

type_synonym 'w hosted = "'w \<times> host_event list list"

definition through :: "'w host_machine \<Rightarrow> 'a talks \<Rightarrow> ('w hosted, 'a) outside_call" where
  "through h t v x = (case talk_with h t (fst x) of (r, w, l) \<Rightarrow> (r, (w, snd x @ [l])))"

definition aside :: "('w, 'a) outside_call \<Rightarrow> ('w hosted, 'a) outside_call" where
  "aside g v x = (case g v (fst x) of (r, w) \<Rightarrow> (r, (w, snd x)))"

definition giving :: "('a \<Rightarrow> 'b) \<Rightarrow> 'a talks \<Rightarrow> 'b talks" where
  "giving f t = after t (\<lambda>a. answer (f a))"

record workspace_setting =
  wg_registry :: registry
  wg_minimumFreeDiskMb :: int
  wg_author :: "string \<times> string"
  wg_maxChangedLines :: int

definition hosted_services :: "'w host_machine \<Rightarrow> workspace_setting \<Rightarrow> 'w services \<Rightarrow> 'w hosted services" where
  "hosted_services h c s = (let g = wg_registry c in
    \<lparr>ho_exists = (\<lambda>x. ho_exists s (fst x)), ho_link = (\<lambda>x. ho_link s (fst x)),
     ho_process = (\<lambda>q v x. (fst (ho_process s q v (fst x)), (snd (ho_process s q v (fst x)), snd x))),
     sx_prepare = (\<lambda>i. through h (giving pd_workspace (prepare g (wg_minimumFreeDiskMb c) i))),
     sx_verify = (\<lambda>u. through h (verify_task_workspace g u)),
     sx_restore = (\<lambda>u. through h (giving snd (restore_workspace g u))),
     sx_commit = (\<lambda>u m. through h (giving fst (commit_workspace g u m (wg_author c)))),
     sx_diffs = (\<lambda>p. through h (collect (wg_maxChangedLines c) p)),
     sx_snapshot = (\<lambda>p. through h (snapshot p)), sx_isAncestor = (\<lambda>p a b. through h (is_ancestor p a b)),
     sx_stat = (\<lambda>p b. through h (stat_from_base p b)), sx_diff = (\<lambda>p b. through h (patch_from_base p b)),
     sx_documentation = (\<lambda>r. aside (sx_documentation s r)), sx_analyze = (\<lambda>q. aside (sx_analyze s q)),
     sx_change = (\<lambda>t q. aside (sx_change s t q)), sx_review = (\<lambda>q. aside (sx_review s q)),
     sx_sha256 = sx_sha256 s, sx_newId = sx_newId s, sx_localeLe = sx_localeLe s, sx_datetime = sx_datetime s,
     sx_zodMessage = sx_zodMessage s\<rparr>)"

definition hosted_delivery :: "'w host_machine \<Rightarrow> workspace_setting \<Rightarrow> 'w delivery_services \<Rightarrow> 'w hosted delivery_services" where
  "hosted_delivery h c s = (let g = wg_registry c in
    \<lparr>gh_repository = (\<lambda>r. aside (gh_repository s r)), gh_policy = (\<lambda>r b. aside (gh_policy s r b)),
     gh_find = (\<lambda>r b. aside (gh_find s r b)), gh_create = (\<lambda>r i. aside (gh_create s r i)),
     gh_get = (\<lambda>r n. aside (gh_get s r n)), gh_checks = (\<lambda>r b. aside (gh_checks s r b)),
     gh_reviews = (\<lambda>r n. aside (gh_reviews s r n)), gh_compare = (\<lambda>r a b. aside (gh_compare s r a b)),
     lin_comments = (\<lambda>i. aside (lin_comments s i)), lin_comment = (\<lambda>i b. aside (lin_comment s i b)),
     lin_attach = (\<lambda>i l. aside (lin_attach s i l)),
     ws_push = (\<lambda>u b. through h (push_task_branch g u b)), ws_inspect = (\<lambda>u b. through h (inspect_remote_branch g u b)),
     ws_log = (\<lambda>p a b. through h (commits_in_range p a b)),
     ws_range = (\<lambda>p a b. through h (collect_range (wg_maxChangedLines c) p a b)),
     js_iso = js_iso s, js_time = js_time s\<rparr>)"

definition setting :: "'x deps \<Rightarrow> registry \<Rightarrow> int \<Rightarrow> string \<times> string \<Rightarrow> workspace_setting" where
  "setting x g minimumMb author = \<lparr>wg_registry = g, wg_minimumFreeDiskMb = minimumMb, wg_author = author,
     wg_maxChangedLines = dp_maxChangedLines (ag_diffPolicy (xd_agents x))\<rparr>"

definition hosted_deps :: "'w host_machine \<Rightarrow> workspace_setting \<Rightarrow> 'w deps \<Rightarrow> 'w hosted deps" where
  "hosted_deps h c x = \<lparr>xd_config = xd_config x, xd_agents = xd_agents x, xd_gates = xd_gates x,
     xd_workspaceRoot = xd_workspaceRoot x, xd_workerId = xd_workerId x, xd_knownSecrets = xd_knownSecrets x,
     xd_services = hosted_services h c (xd_services x)\<rparr>"

definition hosted_delivery_deps :: "'w host_machine \<Rightarrow> workspace_setting \<Rightarrow> 'w delivery_deps \<Rightarrow> 'w hosted delivery_deps" where
  "hosted_delivery_deps h c dd = \<lparr>dd_exec = hosted_deps h c (dd_exec dd), dd_delivery = dd_delivery dd, dd_author = dd_author dd,
     dd_registry = dd_registry dd, dd_services = hosted_delivery h c (dd_services dd)\<rparr>"

section \<open>What a session may do\<close>

text \<open>Commands that read a worktree or its commits, and staging, which changes only the index.\<close>

definition inspects :: "host_request \<Rightarrow> bool" where
  "inspects q = (case q of RunGit args cwd \<Rightarrow> take 4 args = guard_arguments \<and>
       (case drop 4 args of [] \<Rightarrow> False | a # rest \<Rightarrow> a \<in> {''diff'', ''log''} \<or> drop 4 args = [''add'', ''--all'']
          \<or> take 3 (drop 4 args) = [''-c'', ''core.quotePath=false'', ''diff''])
   | _ \<Rightarrow> False)"

definition manages :: "registry \<Rightarrow> registered_repository \<Rightarrow> host_event list \<Rightarrow> host_request \<Rightarrow> bool" where
  "manages g r l q \<longleftrightarrow>
     (\<exists>w commit. registry_get g (tw_repository w) = Inr r \<and> push_may g r w commit l q)
   \<or> (\<exists>w acts. registry_get g (tw_repository w) = Inr r \<and> (acts = restore_acts \<or> (\<exists>author message. acts = commit_acts author message))
        \<and> owner_may g r w acts l q)
   \<or> (\<exists>tid branch path. worktree_path g tid (ry_name r) = Inr path \<and> prepare_may g r tid branch path l q)"

definition disciplined :: "registry \<Rightarrow> host_event list \<Rightarrow> bool" where
  "disciplined g l \<longleftrightarrow> (\<forall>pre q x post. l = pre @ (q, x) # post \<longrightarrow> reads q \<or> inspects q \<or> (\<exists>r. manages g r pre q))"

text \<open>A session that changes anything but an index holds the lock.\<close>

definition session_ok :: "registry \<Rightarrow> host_event list \<Rightarrow> bool" where
  "session_ok g l \<longleftrightarrow> disciplined g l \<and> (under_lock l \<or> list_all (\<lambda>e. reads (fst e) \<or> inspects (fst e)) l)"

lemma disciplined_session:
  assumes "talk_with h t w = (r, w', l)" and "sound P t (\<lambda>_ _. True) []"
    and "\<And>m q. P m q \<Longrightarrow> reads q \<or> inspects q \<or> (\<exists>r. manages g r m q)"
  shows "disciplined g l"
  using safe_talk [OF assms(1) assms(2) [unfolded sound_def]] assms(3) unfolding disciplined_def by (metis append_Nil)

lemma sound_True: "sound P t Q l \<Longrightarrow> sound P t (\<lambda>_ _. True) l"
  by (erule sound_mono) simp

lemma sound_giving: "sound P (giving f t) (\<lambda>_ _. True) = sound P t (\<lambda>_ _. True)"
  by (simp add: giving_def sound_after)

lemma record_giving: "record_of h (giving f t) s = record_of h t s"
proof -
  obtain a s1 l where run: "talk_with h t s = (a, s1, l)" by (metis prod_cases3)
  show ?thesis by (cases a) (simp_all add: giving_def after_def talk_bind run refuse_def answer_def)
qed

text \<open>An operation refuses at once, or its repository is registered.\<close>

lemma unregistered: "talk_with h (after (told (Inl e)) f) w = (Inl e, w, [])"
  by (simp add: after_def told_def refuse_def)

lemma session_empty: "session_ok g []"
  by (simp add: session_ok_def disciplined_def)

definition sessions_ok :: "'w host_machine \<Rightarrow> registry \<Rightarrow> 'a talks \<Rightarrow> bool" where
  "sessions_ok h g t \<longleftrightarrow> (\<forall>w. session_ok g (record_of h t w))"

lemma sessions_giving [simp]: "sessions_ok h g (giving f t) = sessions_ok h g t"
  by (simp add: sessions_ok_def record_giving)

lemma sessions_told:
  assumes "\<And>r. x = Inr r \<Longrightarrow> sessions_ok h g (f r)"
  shows "sessions_ok h g (after (told x) f)"
  using assms by (cases x) (auto simp: sessions_ok_def unregistered session_empty after_def told_def refuse_def)

lemma managed_sessions:
  assumes "\<And>s. under_lock (record_of h t s)"
    and "\<And>r. sel = Inr r \<Longrightarrow> \<exists>P. sound P t (\<lambda>_ _. True) [] \<and> (\<forall>m q. P m q \<longrightarrow> reads q \<or> inspects q \<or> (\<exists>r. manages g r m q))"
    and "\<And>e s. sel = Inl e \<Longrightarrow> record_of h t s = []"
  shows "sessions_ok h g t"
  unfolding sessions_ok_def
proof
  fix s
  show "session_ok g (record_of h t s)"
  proof (cases sel)
    case (Inl e)
    then show ?thesis using assms(3) session_empty by simp
  next
    case (Inr r)
    obtain P where P: "sound P t (\<lambda>_ _. True) []" "\<And>m q. P m q \<Longrightarrow> reads q \<or> inspects q \<or> (\<exists>r. manages g r m q)"
      using assms(2) [OF Inr] by blast
    obtain a s' l where run: "talk_with h t s = (a, s', l)" by (metis prod_cases3)
    show ?thesis using disciplined_session [OF run P] assms(1) [of s] run by (simp add: session_ok_def)
  qed
qed

text \<open>Sessions of reading commands need no lock.\<close>

lemma reading_sessions:
  assumes "sound (\<lambda>m q. reads q \<or> inspects q) t (\<lambda>_ _. True) []"
  shows "sessions_ok h g t"
  unfolding sessions_ok_def
proof
  fix s
  obtain a s' l where run: "talk_with h t s = (a, s', l)" by (metis prod_cases3)
  have all: "reads q \<or> inspects q" if "l = pre @ (q, x) # post" for pre q x post
    using safe_talk [OF run assms [unfolded sound_def]] that by blast
  then have "list_all (\<lambda>e. reads (fst e) \<or> inspects (fst e)) l"
    unfolding list_all_iff by (metis in_set_conv_decomp prod.collapse)
  then show "session_ok g (record_of h t s)" using all run by (auto simp: session_ok_def disciplined_def)
qed

section \<open>The operations\<close>

lemma prepare_sessions: "sessions_ok h g (prepare g n i)"
proof -
  have told: "record_of h (prepare g n i) s = []" if "registry_get g (pr_repository i) = Inl e" for e s
    using that by (cases "pr_persisted i") (simp add: prepare_def unregistered)
  show ?thesis
  proof (rule managed_sessions [where sel = "registry_get g (pr_repository i)", OF _ _ told])
    show "under_lock (record_of h (prepare g n i) s)" for s
      by (cases "pr_persisted i")
        (auto simp: prepare_def prepare_locked_def intro!: under_lock_told under_lock_after under_lock_locked validate_branch_reads quiet_rules
          simp: blocked_if_def blocked_def refuse_def answer_def)
  next
    fix r assume r: "registry_get g (pr_repository i) = Inr r"
    show "\<exists>P. sound P (prepare g n i) (\<lambda>_ _. True) [] \<and> (\<forall>m q. P m q \<longrightarrow> reads q \<or> inspects q \<or> (\<exists>r. manages g r m q))"
    proof (cases "worktree_path g (pr_taskId i) (ry_name r)")
      case (Inl e)
      have "sound (\<lambda>_. reads) (prepare g n i) (\<lambda>_ _. True) []"
        by (cases "pr_persisted i") (simp add: prepare_def sound_after r Inl)
      then show ?thesis by blast
    next
      case (Inr path)
      show ?thesis using sound_True [OF sound_prepare [OF r Inr, of n]] Inr unfolding manages_def by blast
    qed
  qed
qed

lemma owner_sessions:
  assumes "\<And>s. under_lock (record_of h t s)" and "\<And>e s. registry_get g (tw_repository u) = Inl e \<Longrightarrow> record_of h t s = []"
    and "\<And>r. registry_get g (tw_repository u) = Inr r \<Longrightarrow> sound (P r) t (\<lambda>_ _. True) []"
    and "\<And>r m q. registry_get g (tw_repository u) = Inr r \<Longrightarrow> P r m q \<Longrightarrow> manages g r m q"
  shows "sessions_ok h g t"
  by (rule managed_sessions [where sel = "registry_get g (tw_repository u)", OF assms(1) _ assms(2)]) (use assms(3,4) in blast)+

lemma restore_sessions: "sessions_ok h g (restore_workspace g u)"
proof (rule owner_sessions [where u = u and P = "\<lambda>r. owner_may g r u restore_acts"])
  show "under_lock (record_of h (restore_workspace g u) s)" for s
    by (auto simp: restore_workspace_def Let_def intro!: under_lock_told under_lock_locked quiet_rules)
qed (simp add: restore_workspace_def unregistered, rule sound_True [OF sound_restore], auto simp: manages_def)

lemma commit_sessions: "sessions_ok h g (commit_workspace g u message author)"
proof (rule owner_sessions [where u = u and P = "\<lambda>r. owner_may g r u (commit_acts author message)"])
  show "under_lock (record_of h (commit_workspace g u message author) s)" for s
    by (auto simp: commit_workspace_def Let_def intro!: under_lock_told under_lock_locked quiet_rules)
qed (simp add: commit_workspace_def unregistered, rule sound_True [OF sound_commit], assumption, unfold manages_def, blast)

lemma push_sessions: "sessions_ok h g (push_task_branch g u commit)"
proof (rule owner_sessions [where u = u and P = "\<lambda>r. push_may g r u commit"])
  show "under_lock (record_of h (push_task_branch g u commit) s)" for s
    by (auto simp: push_task_branch_def Let_def answer_def intro!: under_lock_told under_lock_locked quiet_rules split: remote_branch.split)
qed (simp add: push_task_branch_def unregistered, rule sound_True [OF sound_push], auto simp: manages_def)

lemma verify_sessions: "sessions_ok h g (verify_task_workspace g u)"
proof (rule owner_sessions [where u = u and P = "\<lambda>r. push_may g r u []"])
  show "under_lock (record_of h (verify_task_workspace g u) s)" for s
    by (auto simp: verify_task_workspace_def intro!: under_lock_told under_lock_locked)
  show "sound (push_may g r u []) (verify_task_workspace g u) (\<lambda>_ _. True) []" if "registry_get g (tw_repository u) = Inr r" for r
    unfolding verify_task_workspace_def sound_after sound_told that sum.case
    by (rule sound_with_lock [OF push_reading], rule sound_verify_owned [OF push_reading]) simp_all
qed (auto simp: verify_task_workspace_def unregistered manages_def)

lemma inspect_sessions: "sessions_ok h g (inspect_remote_branch g u commit)"
proof (rule owner_sessions [where u = u and P = "\<lambda>r. push_may g r u commit"])
  show "under_lock (record_of h (inspect_remote_branch g u commit) s)" for s
    by (auto simp: inspect_remote_branch_def intro!: under_lock_told under_lock_locked quiet_rules)
  show "sound (push_may g r u commit) (inspect_remote_branch g u commit) (\<lambda>_ _. True) []" if "registry_get g (tw_repository u) = Inr r" for r
    unfolding inspect_remote_branch_def sound_after sound_told that sum.case
    by (rule sound_with_lock [OF push_reading], unfold sound_after, rule sound_verify_repository [OF push_reading],
        rule sound_remote_state [OF push_reading]) (simp_all add: push_may_def)
qed (auto simp: inspect_remote_branch_def unregistered manages_def)

abbreviation only_inspects :: "host_event list \<Rightarrow> host_request \<Rightarrow> bool" where
  "only_inspects \<equiv> (\<lambda>m q. reads q \<or> inspects q)"

lemma inspecting: "reading only_inspects"
  by (simp add: reading_def)

lemma inspects_git [simp]:
  "inspects (RunGit (guard_arguments @ ''diff'' # rest) cwd)" "inspects (RunGit (guard_arguments @ ''log'' # rest) cwd)"
  "inspects (RunGit (guard_arguments @ [''add'', ''--all'']) cwd)"
  "inspects (RunGit (guard_arguments @ ''-c'' # ''core.quotePath=false'' # ''diff'' # rest) cwd)"
  by (simp_all add: inspects_def guard_arguments_def)

lemma inspect_out: "inspects (RunGit (guard_arguments @ args) cwd) \<Longrightarrow> (\<And>v m. Q v (l @ m)) \<Longrightarrow> sound only_inspects (git_out args cwd) Q l"
  unfolding git_out_def sound_after by (rule sound_act) simp_all

lemma changes_sessions: "sessions_ok h g (read_changes mode commits n cwd)" "sessions_ok h g (collect n cwd)" "sessions_ok h g (collect_range n cwd a b)"
proof -
  have changes: "sound only_inspects (read_changes mode commits n cwd) (\<lambda>_ _. True) l" for mode commits l
    unfolding read_changes_def sound_after sound_if
    by (auto simp: diff_arguments_def patch_arguments_def intro!: sound_act inspect_out)
  then show "sessions_ok h g (read_changes mode commits n cwd)" "sessions_ok h g (collect_range n cwd a b)"
    unfolding collect_range_def by (auto intro: reading_sessions)
  show "sessions_ok h g (collect n cwd)"
    by (rule reading_sessions, unfold collect_def sound_after, rule sound_act) (simp_all add: changes)
qed

lemma query_sessions: "sessions_ok h g (commits_in_range cwd a b)" "sessions_ok h g (snapshot cwd)" "sessions_ok h g (is_ancestor cwd a b)"
  "sessions_ok h g (stat_from_base cwd a)" "sessions_ok h g (patch_from_base cwd a)"
  by (rule reading_sessions, simp add: commits_in_range_def snapshot_def is_ancestor_def stat_from_base_def patch_from_base_def sound_after,
      intro inspect_out sound_git_out [OF inspecting] sound_read [OF inspecting]; simp add: harmless_def)+

section \<open>A whole run\<close>

text \<open>The record of a run that has done nothing else so far.\<close>

definition sessions_kept :: "registry \<Rightarrow> database \<times> 'w hosted \<Rightarrow> bool" where
  "sessions_kept g w \<longleftrightarrow> list_all (session_ok g) (snd (snd w))"

lemma through_keeps: "sessions_ok h g t \<Longrightarrow> calls_keep (sessions_kept g) (through h t)"
  by (auto simp: calls_keep_def sessions_kept_def through_def sessions_ok_def split: prod.split) (metis snd_conv)

lemma aside_keeps: "calls_keep (sessions_kept g) (aside f)"
  by (auto simp: calls_keep_def sessions_kept_def aside_def split: prod.split)

lemmas session_calls = prepare_sessions restore_sessions commit_sessions push_sessions verify_sessions inspect_sessions
  changes_sessions query_sessions


lemma sessions_frame: "sessions_kept g (d, y) \<Longrightarrow> sessions_kept g (d', y)"
  by (simp add: sessions_kept_def)

lemma sessions_process: "sessions_kept g (d, snd (ho_process (xd_services (hosted_deps h c x)) q v y)) = sessions_kept g (d, y)"
  by (simp add: sessions_kept_def hosted_deps_def hosted_services_def Let_def)

lemmas plugged = hosted_deps_def hosted_services_def hosted_delivery_deps_def hosted_delivery_def Let_def aside_keeps
  through_keeps session_calls

interpretation hosted_stages: stage_calls "sessions_kept (wg_registry c)" "hosted_deps h c x" for c h x
  by (unfold_locales; (erule sessions_frame | simp add: sessions_process | simp add: plugged))

interpretation hosted_deliveries: delivery_calls "sessions_kept (wg_registry c)" "hosted_delivery_deps h c dd" for c h dd
  by (unfold_locales; (erule sessions_frame | simp add: plugged))

lemma hosted_sends:
  "calls_keep (sessions_kept (wg_registry c)) (ws_push (dd_services (hosted_delivery_deps h c dd)) w r)"
  "calls_keep (sessions_kept (wg_registry c)) (gh_create (dd_services (hosted_delivery_deps h c dd)) t i)"
  by (simp_all add: plugged)

end
