(* ===== verification/HostedGuarantees.thy ===== *)
theory HostedGuarantees
  imports HostedRun
begin

text \<open>
  What a whole run does to repositories, with every stage and the workspace manager in it: the world of a
  run changes only through the calls of its stages, and the sessions of \<open>HostedRun\<close> are what these
  calls leave there.
\<close>

section \<open>The world of a run\<close>

text \<open>Only the accesses of a stage change the outside world of a run.\<close>

lemma ext_simps [simp]:
  "rn_ext (logged e s) = rn_ext s" "rn_ext (abort_stage r s) = rn_ext s" "rn_ext (refresh_controls o' s) = rn_ext s"
  "rn_ext (beat o' tid s) = rn_ext s" "rn_ext (hold_lane lane t m s) = rn_ext s"
  by (auto simp: logged_def abort_stage_def refresh_controls_def beat_def hold_lane_def Let_def
      split: sum.split orch_error.split bool.split)

lemma arrive_world [simp]: "rn_ext (arrive o' env tid s) = rn_ext s"
  by (simp add: arrive_def Let_def)

lemma perform_ext [simp]: "rn_ext (snd (perform o' env tid f s)) = rn_ext s"
  by (auto simp: perform_def Let_def split: sum.split)

lemma following_ext: "(\<And>x s. rn_ext (snd (k x s)) = rn_ext s) \<Longrightarrow> rn_ext (snd (following r k)) = rn_ext (snd r)"
  by (auto simp: following_def split: prod.split sum.split)

lemma ending_ext [simp]: "rn_ext (snd (ending r e x s)) = rn_ext s"
  by (simp add: ending_def)

lemma handover_ext [simp]:
  "rn_ext (snd (park o' env tid r e s)) = rn_ext s" "rn_ext (snd (leave o' env tid st m r e s)) = rn_ext s"
  "rn_ext (snd (schedule_pause o' env task gd s)) = rn_ext s" "rn_ext (snd (caught o' env tid er s)) = rn_ext s"
  by (auto simp: park_def leave_def schedule_pause_def caught_def fail_task_def Let_def following_ext split: option.split prod.split sum.split)
    (metis perform_ext arrive_world snd_conv)+

lemma outcome_ext [simp]: "rn_ext (snd (apply_outcome o' env task sig outcome s)) = rn_ext s"
  by (auto simp: apply_outcome_def Let_def following_ext limit_hold_def split: stage_outcome.split option.split)

definition world_kept :: "('x \<Rightarrow> bool) \<Rightarrow> 'x worker_options \<Rightarrow> bool" where
  "world_kept K o' \<longleftrightarrow> (\<forall>(st, h) \<in> set (wo_handlers o'). \<forall>task. acts_keep (\<lambda>w. K (snd w)) (h task))"

lemma run_stage_ext:
  assumes "acts_keep (\<lambda>w. K (snd w)) code" and "K (rn_ext s)"
  shows "K (rn_ext (snd (run_stage o' env tid code s)))"
  using assms by (induction code arbitrary: s rule: code_induct) (auto simp: Let_def)

lemma gated_ext:
  assumes "world_kept K o'" and "K (rn_ext s)"
  shows "K (rn_ext (snd (gated_stage o' env task s)))"
proof (cases "map_of (wo_handlers o') (t_state task)")
  case None
  then show ?thesis using assms(2) by (simp add: gated_stage_def)
next
  case (Some h)
  then have "acts_keep (\<lambda>w. K (snd w)) (h task)" using assms(1) map_of_SomeD [OF Some] by (auto simp: world_kept_def)
  then have run: "K (rn_ext (snd (run_stage o' env tid (h task) s0)))" if "K (rn_ext s0)" for tid s0
    using that by (rule run_stage_ext)
  have "K (rn_ext (snd (start_stage o' env task h s)))"
    using run [of "logged (StageStarted task (rn_controls s) (rn_now s)) (s\<lparr>rn_signal := Some (if rn_stopping s then Some AbortShutdown else None)\<rparr>)" "t_id task"] assms(2)
    by (auto simp: start_stage_def Let_def split: prod.split sum.split)
  then show ?thesis using assms(2) by (auto simp: gated_stage_def Some split: sum.split)
qed

lemma boundary_ext:
  assumes "world_kept K o'" and "K (rn_ext s)"
  shows "K (rn_ext (snd (boundary o' env tid s)))"
  using gated_ext [OF assms(1)] assms(2) by (auto simp: boundary_def Let_def split: option.split)

lemma run_task_ext:
  assumes "world_kept K o'"
  shows "K (rn_ext s) \<Longrightarrow> run_task n o' env tid s = Some (r, s') \<Longrightarrow> K (rn_ext s')"
proof (induction n arbitrary: s)
  case (Suc n)
  obtain a s1 where b: "boundary o' env tid s = (a, s1)" by fastforce
  then have K: "K (rn_ext s1)" using boundary_ext [OF assms Suc.prems(1), of env tid] by simp
  consider e where "a = Inl e" | q where "a = Inr (Stop q)" | "a = Inr Again" by (metis boundary_result.exhaust obj_sumE)
  then show ?case
  proof cases
    case (1 e)
    then have "s' = snd (caught o' env tid e s1)" using Suc.prems(2) b by (simp add: prod_eq_iff)
    then show ?thesis using K by simp
  qed (use Suc b K in auto)
qed simp

lemma no_push [simp]: "harmless (''push'' # args) = False" "inspects (RunGit (guard_arguments @ ''push'' # args) cwd) = False"
  by (simp_all add: harmless_def inspects_def guard_arguments_def)

lemma push_managed:
  assumes "manages g r l (RunGit (guard_arguments @ ''push'' # args) cwd)"
  shows "\<exists>w commit. registry_get g (tw_repository w) = Inr r \<and> ''push'' # args = push_arguments r commit (tw_branch w) \<and> cwd = ry_path r
    \<and> owned l g r w commit \<and> remote_is l r (tw_branch w) None"
  using assms
  by (auto simp: manages_def push_may_def owner_may_def prepare_may_def restore_acts_def commit_acts_def commit_arguments_def
      updates_base_def claims_branch_def fetch_arguments_def worktree_add_arguments_def)


section \<open>A concrete run\<close>

definition still_host :: "unit host_machine" where
  "still_host q w = (fst (sample_host q False), ())"

definition hosted_worker :: "unit hosted worker_options" where
  "hosted_worker = (let c = setting (staged_deps 0) sample_registry 1000 (''bot'', ''bot@x'') in
     \<lparr>wo_config = sample_config, wo_timing = timing_of (c_orchestrator sample_config), wo_workerId = ''w'',
      wo_forceKillSwitch = False, wo_zone = (\<lambda>_. sample_clock),
      wo_handlers = create_execution_handlers (hosted_deps still_host c (staged_deps 0)) 1000
        (map_option delivery_handlers (map_option (hosted_delivery_deps still_host c) (Some sample_delivery)))\<rparr>)"

abbreviation hosted_sample :: "unit hosted deps" where
  "hosted_sample \<equiv> hosted_deps still_host (setting (staged_deps 0) sample_registry 1000 (''bot'', ''bot@x'')) (staged_deps 0)"

text \<open>The unit's recorded path is not the one of the registry: verifying refuses, under the lock.\<close>

lemma hosted_verify:
  assumes "tw_repository w = ''web''" and "tw_taskId w = staged_id" and "tw_workspacePath w = ''/w/web''"
  shows "\<exists>m l. sx_verify (xd_services hosted_sample) w v x = (Inl (WorkspaceBlockedError m), ((), snd x @ [l])) \<and> length l = 2"
proof -
  have path: "worktree_path sample_registry staged_id ''web'' = Inr sample_worktree" and get: "registry_get sample_registry ''web'' = Inr sample_clone"
    using sample_lookups by (simp_all add: sample_clone_def)
  have "sample_worktree \<noteq> ''/w/web''" by (simp add: sample_worktree_def)
  then show ?thesis using assms path get
    by (simp add: hosted_deps_def hosted_services_def setting_def through_def verify_task_workspace_def with_lock_def verify_owned_workspace_def
        after_def told_def blocked_if_def blocked_def refuse_def Let_def still_host_def sample_host_def answering_def sample_reply_def sample_clone_def)
qed

lemma idle_call: "run_stage o' idle tid (call f) s = (let r = f \<lparr>sv_signal = Option.bind (rn_signal s) id, sv_now = 0\<rparr> (rn_db s, rn_ext s) in
    (fst r, s\<lparr>rn_at := Suc (rn_at s), rn_now := 0, rn_db := fst (snd r), rn_ext := snd (snd r)\<rparr>))"
  by (simp add: call_def arrive_def idle_def Let_def)

lemma hosted_load:
  assumes "rn_db s = staged_store st' cs"
  shows "\<exists>m l s'. run_stage o' idle tid (load_task_workspaces hosted_sample (staged_task st)) s = (Inl (WorkspaceBlockedError m), s')
     \<and> snd (rn_ext s') = snd (rn_ext s) @ [l] \<and> length l = 2"
proof -
  have names: "wu_repository staged_unit = ''web''" "wu_workspacePath staged_unit = Some ''/w/web''" "wu_branch staged_unit = Some ''b''"
    "wu_baseCommit staged_unit = Some ''c0''" by (simp_all add: staged_unit_def new_work_unit_def)
  have contract: "validate_planning_issue hosted_sample = validate_planning_issue (staged_deps 0)"
    by (simp add: fun_eq_iff validate_planning_issue_def hosted_deps_def hosted_services_def Let_def split: option.split)
  have repos: "pi_repositories (sample_issue ''a'' [] []) = [''web'']" by (simp add: sample_issue_def)
  let ?w = "\<lparr>tw_taskId = staged_id, tw_repository = ''web'', tw_workspacePath = ''/w/web'', tw_branch = ''b'', tw_baseCommit = ''c0''\<rparr>"
  let ?v = "\<lparr>sv_signal = Option.bind (rn_signal s) id, sv_now = 0\<rparr>"
  obtain m l where "sx_verify (xd_services hosted_sample) ?w ?v (rn_ext s) = (Inl (WorkspaceBlockedError m), ((), snd (rn_ext s) @ [l]))" "length l = 2"
    using hosted_verify [of ?w ?v "rn_ext s"] by auto
  then show ?thesis
    by (simp add: load_task_workspaces_def run_bnd run_lift run_throw run_return db_read_def db_call_def outer_def outside_def idle_call
        staged_row contract staged_contract staged_units repos names load_unit_def Let_def assms)
qed

lemma ready_gate: "case stage_gate (c_schedule sample_config) READY (co_scheduleOverride default_controls) sample_clock of
    Inr (Some gd) \<Rightarrow> gd_permitted gd | _ \<Rightarrow> False"
  by code_simp

lemma hosted_boundary:
  "\<exists>e s' l. boundary hosted_worker idle staged_id (at_step 0 (staged_store READY []) ((), [])) = (Inl e, s') \<and> snd (rn_ext s') = [l] \<and> length l = 2"
proof -
  let ?d = "staged_store READY []" and ?h = "ready_stage hosted_sample"
  have row: "get_task staged_id ?d = Some (staged_task READY)" "get_controls ?d = default_controls" by code_simp+
  have task: "t_leaseOwner (staged_task READY) = Some ''w''" "t_cancelRequestedAt (staged_task READY) = None"
    "\<not> t_requiresManualIntervention (staged_task READY)" "t_state (staged_task READY) = READY" "t_id (staged_task READY) = staged_id"
    by (simp_all add: staged_task_def sample_task_def)
  have h: "map_of (wo_handlers hosted_worker) READY = Some ?h"
    by (simp add: hosted_worker_def create_execution_handlers_def Let_def)
  have w: "wo_workerId hosted_worker = ''w''" "wo_forceKillSwitch hosted_worker = False" "wo_config hosted_worker = sample_config"
    "wo_zone hosted_worker = (\<lambda>_. sample_clock)" by (simp_all add: hosted_worker_def Let_def)
  have c: "\<not> co_killSwitch default_controls" "\<not> co_pauseNewWork default_controls" by (simp_all add: default_controls_def)
  obtain gd where gd: "stage_gate (c_schedule sample_config) READY (co_scheduleOverride default_controls) sample_clock = Inr (Some gd)" "gd_permitted gd"
    using ready_gate by (auto split: sum.splits option.splits)
  let ?s = "at_step (Suc (Suc 0)) ?d ((), []) :: unit hosted run_state"
  have s: "rn_stopping (at_step k ?d x) = False" "(at_step k ?d x)\<lparr>rn_controls := default_controls\<rparr> = at_step k ?d x" "rn_controls (at_step k ?d x) = default_controls"
    for k and x :: "unit hosted" by (simp_all add: at_step_def)
  have "boundary hosted_worker idle staged_id (at_step 0 ?d ((), [])) = start_stage hosted_worker idle (staged_task READY) ?h ?s"
    by (simp add: boundary_def gated_stage_def row task h w c gd s kill_switch_engaged_def Let_def)
  moreover have "\<exists>e s' l. start_stage hosted_worker idle (staged_task READY) ?h ?s = (Inl e, s') \<and> snd (rn_ext s') = [l] \<and> length l = 2"
  proof -
    let ?q = "logged (StageStarted (staged_task READY) (rn_controls ?s) (rn_now ?s)) (?s\<lparr>rn_signal := Some None\<rparr>)"
    obtain m l s' where "run_stage hosted_worker idle staged_id (load_task_workspaces hosted_sample (staged_task READY)) ?q
        = (Inl (WorkspaceBlockedError m), s')" "snd (rn_ext s') = snd (rn_ext ?q) @ [l]" "length l = 2"
      using hosted_load [of ?q READY "[]" hosted_worker staged_id READY] by auto
    then show ?thesis by (simp add: start_stage_def ready_stage_def run_bnd task s Let_def)
  qed
  ultimately show ?thesis by simp
qed


end
