(* ===== verification/Spec2Isabelle.thy ===== *)
theory Spec2Isabelle
  imports RunGuarantees LedgerGuarantees ConfigGuarantees ChangeGuarantees StageGuarantees DeliveryGuarantees WorkspaceGuarantees GitText Janitor HostedGuarantees
begin

text \<open>
  A verification development for the AI orchestrator, the TypeScript program under \<open>src/src\<close>.

  The program takes Linear issues that carry a machine-readable contract, stores each as a task in
  PostgreSQL and carries it through the stages of a state machine (analysis, implementation,
  testing, review, pull request, CI, human review). Worker processes claim tasks by lease, run one
  stage at a time through handlers that work in Git worktrees and start coding agents, and write the
  outcome back; operators can pause, cancel, retry and intervene. The database is the only state the
  processes share; what a task changes on disk and on the remote goes through the workspace manager.

  The theories, in the order of their imports, and the code they model:

  \<^item> \<open>Prelude\<close>: results of fallible operations, insertion-ordered maps, SQL-style updates and
    minimum selection, step relations and their invariants; \<open>Patterns\<close>: the regular expressions the
    program uses, matched as JavaScript matches them. No code of the program.
  \<^item> \<open>Domain\<close>: \<open>types/domain.ts\<close>, \<open>orchestrator/state-machine.ts\<close>, \<open>orchestrator/stage-handler.ts\<close>.
  \<^item> \<open>Json\<close>: the stored JSON documents and \<open>stableJson\<close>; \<open>Database\<close>: \<open>db/schema.ts\<close>, a record per table.
  \<^item> \<open>TaskRepository\<close>, \<open>TaskStore\<close>, \<open>Claims\<close>: \<open>repositories/task.repository.ts\<close>, the task operations,
    the invariant \<open>store_ok\<close> that all of them keep, and what claims and leases guarantee.
  \<^item> \<open>Ledger\<close>: the rest of that repository (work units, checkpoints, attempts, external operations)
    and \<open>retention.repository.ts\<close>; \<open>Operator\<close>: \<open>operator.repository.ts\<close>.
  \<^item> \<open>Config\<close>, \<open>ConfigRules\<close>: \<open>config/schema.ts\<close>, the parsed configuration and its cross-field rules;
    \<open>Routing\<close>: providers, tiers, model routes, escalation and the provider registry.
  \<^item> \<open>Schedule\<close>: \<open>scheduling/operating-hours.ts\<close> and \<open>stage-gate.ts\<close>; \<open>Circuit\<close>: the circuit breaker.
  \<^item> \<open>Kahn\<close>, \<open>Planning\<close>, \<open>Intake\<close>: \<open>intake/planning-contract.ts\<close> and \<open>intake/linear-discovery.ts\<close>.
  \<^item> \<open>Worker\<close>, \<open>Scheduler\<close>: \<open>orchestrator/scheduler.ts\<close>, the run of a claimed task and the tick;
    \<open>Lifecycle\<close>: every repository operation as a step, in any interleaving, and the refinement of the
    task state machine.
  \<^item> \<open>DiffPolicy\<close>, \<open>WorkspaceChanges\<close>: \<open>execution/diff-policy.ts\<close>, \<open>execution/secrets.ts\<close> and the parsers of
    \<open>execution/workspace-changes.ts\<close>; \<open>AgentResults\<close>, \<open>AgentRun\<close>, \<open>Prompts\<close>, \<open>QualityGates\<close>: what agents
    are asked and may answer, how provider failures are read, and the trusted commands with their
    environment and confinement.
  \<^item> \<open>StageCode\<close>, \<open>StageSupport\<close>, \<open>PlanningStages\<close>, \<open>ChangeStages\<close>, \<open>VerificationStages\<close>: the handlers of
    \<open>execution/stages\<close> and \<open>workspaces/preparation-stage.ts\<close>, as programs of awaited calls.
    \<open>StageContracts\<close> holds what each may ask for, \<open>StageEffects\<close> what their calls keep.
  \<^item> \<open>RequiredChecks\<close>, \<open>Registry\<close>, \<open>DeliverySupport\<close>, \<open>PullRequestStage\<close>, \<open>ObservationStage\<close>: the stages of
    \<open>delivery\<close> with \<open>workspaces/repository-registry.ts\<close>; \<open>DeliveryContracts\<close>, \<open>DeliveryEvidence\<close>: what they
    keep, and on which answers a decision rests.
  \<^item> \<open>GitHost\<close>, \<open>Workspaces\<close>, \<open>WorkspaceManager\<close>, \<open>Janitor\<close>: \<open>workspaces/git.ts\<close>, \<open>workspace-manager.ts\<close>,
    \<open>repository-lock.ts\<close> and \<open>workspace-janitor.ts\<close>, command by command; \<open>ChangeQueries\<close>: the commands of
    \<open>workspace-changes.ts\<close>. \<open>GitText\<close>: the list of worktrees reads back. \<open>HostLogic\<close>, \<open>WorkspaceRules\<close>: the
    rules with which conversations with the host are proved, and one rule per operation.
  \<^item> \<open>HostedRun\<close>: the stages with the workspace manager plugged in, as \<open>index.ts\<close> wires them.
  \<^item> The \<open>Samples\<close> theories: concrete values; the \<open>Guarantees\<close> theories: the properties, each applied once.

  How code is represented. A repository operation is a function of the database and of the clocks it
  reads; it returns an error (a class of the program's errors) or the new database. One operation is
  one transaction; the rows a \<open>FOR UPDATE SKIP LOCKED\<close> query finds locked are an argument. Instants
  are integers in milliseconds. Linear, GitHub, the agents, the schema library, \<open>localeCompare\<close>, SHA-256,
  the time zone and generated ids are parameters. Between two accesses of a run to the database, anything
  may happen: \<open>env n\<close> and \<open>tenv n\<close> are what the rest of the system did before the \<open>n\<close>-th access. A handler
  is a program of calls; each call reads and changes the database and the outside world at once. An
  operation of the workspace manager is a conversation: it asks the host to run Git or to look at the file
  system and goes on with the reply, whatever it is. What a conversation said, the log that watches the
  services of delivery and the record of sessions in a hosted run are instruments of the specification:
  they let a property speak of the evidence behind a command, and the code has no counterpart of them.
  Text is a list of characters below 256; where the program inserts a character beyond them, a zero-width
  space or an ellipsis, \<open>DeliverySupport\<close> writes one that its input cannot have. Waiting for the lock of a repository is one question with
  one answer, and the comparison of free disk space is exact where the code's is in floating point.

  Loops. The boundary loop of a run takes fuel: a run ends when a stage does not advance, so no bound
  exists in general; proved are that a run told to stop ends at the next boundary, and that the execution
  stages bound the number of stages a task completes by the configured limits of attempts. The claim loops
  of a tick take fuel too, and any amount above one polling interval in milliseconds plus one is enough
  when the clock moves between accesses. All other loops are over lists, or come with a measure.

  What the lemmas show, component by component: the repository keeps \<open>store_ok\<close> and refines the state
  machine; leases are exclusive and claims pick the first claimable task; accepted configurations can be
  served and operating hours follow the calendar; backlogs are accepted exactly under the stated rules;
  changes are accepted exactly under the diff policy; approvals cover tested commits, only fit commits are
  pushed, a task completes only when every pull request is merged; every change on disk and on the remote
  comes after the host proved that it is the task's own, in each operation and in a whole run.

  Not modelled: the processes of agents and the CLI adapters that speak to them, the REST and GraphQL
  clients below the provider interfaces, metrics and logging, reading the configuration from files and
  the environment, backup, restore and load-test commands, the wiring of the entry points. They start
  processes, read streams or call libraries, and decide nothing of the workflow.
\<close>

end
